(* ===== verification/Prelude.thy ===== *)
theory Prelude
  imports Complex_Main "HOL-Library.Char_ord" "HOL-Library.List_Lexorder"
begin

text \<open>
  Shared vocabulary of the development: the collections its proofs are tagged with, the
  result type that stands for Go's \<open>(value, error)\<close> pairs, association lists that stand for Go
  maps, and three-way comparison (\<open>strings.Compare\<close>, \<open>cmp.Compare\<close>).
  Go strings are byte strings, so a Go \<open>string\<close> is a HOL \<open>string\<close>: a list of
  8-bit \<open>char\<close>s.
\<close>

named_theorems go_defs \<open>definitions of the Go library functions the models call\<close>
named_theorems inv_intros \<open>preservation facts of component invariants\<close>

subsection \<open>Results\<close>

text \<open>\<open>Inl e\<close> is a non-nil error, \<open>Inr v\<close> a value returned with a nil error.\<close>

type_synonym ('e, 'a) res = "'e + 'a"

definition bind_res :: "('e, 'a) res \<Rightarrow> ('a \<Rightarrow> ('e, 'b) res) \<Rightarrow> ('e, 'b) res" where
  "bind_res r f = (case r of Inl e \<Rightarrow> Inl e | Inr a \<Rightarrow> f a)"

lemma bind_res_simps [simp]:
  "bind_res (Inl e) f = Inl e"
  "bind_res (Inr a) f = f a"
  by (simp_all add: bind_res_def)

lemma bind_res_Inr_iff: "bind_res r f = Inr b \<longleftrightarrow> (\<exists>a. r = Inr a \<and> f a = Inr b)"
  by (cases r) auto

lemma bind_res_Inl_iff:
  "bind_res r f = Inl e \<longleftrightarrow> r = Inl e \<or> (\<exists>a. r = Inr a \<and> f a = Inl e)"
  by (cases r) auto

text \<open>A loop over a slice that returns at the first error.\<close>

fun traverse :: "('a \<Rightarrow> ('e, 'b) res) \<Rightarrow> 'a list \<Rightarrow> ('e, 'b list) res" where
  "traverse f [] = Inr []"
| "traverse f (x # xs) =
     (case f x of Inl e \<Rightarrow> Inl e
      | Inr y \<Rightarrow> (case traverse f xs of Inl e \<Rightarrow> Inl e | Inr ys \<Rightarrow> Inr (y # ys)))"

lemma traverse_Inr_iff:
  "traverse f xs = Inr ys \<longleftrightarrow> list_all2 (\<lambda>x y. f x = Inr y) xs ys"
proof (induction xs arbitrary: ys)
  case Nil
  then show ?case by auto
next
  case (Cons x xs)
  show ?case
    by (cases "f x"; cases "traverse f xs"; cases ys) (auto simp: Cons.IH [symmetric])
qed

lemma traverse_length: "traverse f xs = Inr ys \<Longrightarrow> length ys = length xs"
  by (simp add: traverse_Inr_iff list_all2_lengthD)

lemma traverse_cong [fundef_cong]:
  "xs = ys \<Longrightarrow> (\<And>x. x \<in> set ys \<Longrightarrow> f x = g x) \<Longrightarrow> traverse f xs = traverse g ys"
  by (induction xs arbitrary: ys) (auto split: sum.splits)

lemma traverse_id: "(\<And>x. x \<in> set xs \<Longrightarrow> f x = Inr x) \<Longrightarrow> traverse f xs = Inr xs"
  by (induction xs) auto

lemma traverse_InlD: "traverse f xs = Inl e \<Longrightarrow> \<exists>x\<in>set xs. f x = Inl e"
  by (induction xs) (auto split: sum.splits)

subsection \<open>Maps as association lists\<close>

text \<open>
  A Go map is an association list with distinct keys; \<open>map_of\<close> is the lookup and
  \<open>aput\<close> the assignment \<open>m[k] = v\<close>. Iteration over a Go map has no order: where the code
  fixes one it sorts the keys (\<open>sorted_keys\<close>).
\<close>

type_synonym 'v gomap = "(string \<times> 'v) list"

fun aput :: "'k \<Rightarrow> 'v \<Rightarrow> ('k \<times> 'v) list \<Rightarrow> ('k \<times> 'v) list" where
  "aput k v [] = [(k, v)]"
| "aput k v ((k', v') # m) = (if k' = k then (k, v) # m else (k', v') # aput k v m)"

lemma map_of_aput [simp]: "map_of (aput k v m) = (map_of m)(k \<mapsto> v)"
  by (induction m) auto

lemma set_keys_aput [simp]: "fst ` set (aput k v m) = insert k (fst ` set m)"
  by (induction k v m rule: aput.induct) (simp_all add: insert_commute)

lemma distinct_aput [simp]: "distinct (map fst (aput k v m)) = distinct (map fst m)"
proof (induction m)
  case Nil
  then show ?case by simp
next
  case (Cons p m)
  have "set (map fst (aput k v m)) = insert k (set (map fst m))"
    using set_keys_aput [of k v m] by simp
  with Cons show ?case by (cases p) auto
qed

lemma aput_new: "k \<notin> fst ` set m \<Longrightarrow> aput k v m = m @ [(k, v)]"
  by (induction m) auto

text \<open>\<open>maps.Copy(dst, src)\<close>: every entry of \<open>src\<close> assigned into \<open>dst\<close>.\<close>

definition acopy :: "('k \<times> 'v) list \<Rightarrow> ('k \<times> 'v) list \<Rightarrow> ('k \<times> 'v) list" where
  "acopy dst src = fold (\<lambda>(k, v). aput k v) src dst"

lemma distinct_acopy [simp]: "distinct (map fst (acopy dst src)) = distinct (map fst dst)"
  unfolding acopy_def
  by (induction src arbitrary: dst) (auto simp del: distinct_map simp add: case_prod_beta)

lemma set_keys_acopy [simp]: "fst ` set (acopy dst src) = fst ` set dst \<union> fst ` set src"
  unfolding acopy_def by (induction src arbitrary: dst) (auto simp: case_prod_beta)

lemma map_of_acopy:
  "distinct (map fst src) \<Longrightarrow> map_of (acopy dst src) = map_of dst ++ map_of src"
proof (induction src arbitrary: dst)
  case Nil
  then show ?case by (simp add: acopy_def)
next
  case (Cons p src)
  obtain k v where p: "p = (k, v)" by force
  have "acopy dst (p # src) = acopy (aput k v dst) src" by (simp add: acopy_def p)
  then have "map_of (acopy dst (p # src)) = (map_of dst)(k \<mapsto> v) ++ map_of src"
    using Cons by simp
  moreover have "map_of src k = None" using Cons.prems p by (simp add: map_of_eq_None_iff)
  ultimately show ?case by (auto simp: p map_add_def fun_eq_iff split: option.splits)
qed

definition adel :: "'k \<Rightarrow> ('k \<times> 'v) list \<Rightarrow> ('k \<times> 'v) list" where
  "adel k m = filter (\<lambda>p. fst p \<noteq> k) m"

lemma map_of_adel [simp]: "map_of (adel k m) = (map_of m)(k := None)"
  unfolding adel_def by (induction m) (auto simp: fun_eq_iff)

lemma distinct_adel [simp]: "distinct (map fst m) \<Longrightarrow> distinct (map fst (adel k m))"
  unfolding adel_def by (rule distinct_map_filter)

lemma set_adel: "fst ` set (adel k m) = fst ` set m - {k}"
  by (auto simp: adel_def)

text \<open>\<open>slices.Sorted(maps.Keys(m))\<close>: byte order.\<close>

definition sorted_keys :: "'v gomap \<Rightarrow> string list" where
  "sorted_keys m = sort (map fst m)"

lemma set_sorted_keys [simp]: "set (sorted_keys m) = fst ` set m"
  by (simp add: sorted_keys_def)

lemma distinct_sorted_keys [simp]: "distinct (sorted_keys m) = distinct (map fst m)"
  by (simp add: sorted_keys_def)

lemma sorted_sorted_keys [simp]: "sorted (sorted_keys m)"
  by (simp add: sorted_keys_def)

lemma sorted_keys_cong:
  assumes "distinct (map fst m)" and "distinct (map fst m')"
    and "fst ` set m = fst ` set m'"
  shows "sorted_keys m = sorted_keys m'"
  using assms by (intro sorted_distinct_set_unique) auto

subsection \<open>Three-way comparison\<close>

text \<open>\<open>strings.Compare\<close> on byte strings: -1, 0 or 1.\<close>

definition str_compare :: "string \<Rightarrow> string \<Rightarrow> int" where
  "str_compare a b = (if a = b then 0 else if a < b then -1 else 1)"

lemma str_compare_eq_0 [simp]: "str_compare a b = 0 \<longleftrightarrow> a = b"
  by (simp add: str_compare_def)

lemma str_compare_refl [simp]: "str_compare a a = 0"
  by simp

lemma str_compare_neg [simp]: "str_compare a b < 0 \<longleftrightarrow> a < b"
  by (auto simp: str_compare_def)

lemma str_compare_swap: "str_compare b a = - str_compare a b"
  by (auto simp: str_compare_def)

text \<open>A quantifier over indices, as Go's counting loops read a slice.\<close>

lemma all_set_conv_all_less: "(\<forall>x\<in>set xs. P x) \<longleftrightarrow> (\<forall>i<length xs. P (xs ! i))"
  by (simp add: all_set_conv_all_nth)

lemma list_all_filter_id: "list_all P xs \<Longrightarrow> filter P xs = xs"
  by (induction xs) auto

end
