(* ===== verification/GoStrings.thy ===== *)
theory GoStrings
  imports Prelude
begin

text \<open>
  The part of Go's \<open>strings\<close>, \<open>slices\<close> and \<open>unicode\<close> packages that the CLI uses, on
  byte strings, with the laws the components rest on: splitting and joining,
  cutting at a separator, replacing, trimming, case mapping.
\<close>

subsection \<open>Byte classes\<close>

definition bval :: "char \<Rightarrow> nat" where
  "bval c = of_char c"

definition is_digit :: "char \<Rightarrow> bool" where
  "is_digit c \<longleftrightarrow> 48 \<le> bval c \<and> bval c \<le> 57"

definition is_lower :: "char \<Rightarrow> bool" where
  "is_lower c \<longleftrightarrow> 97 \<le> bval c \<and> bval c \<le> 122"

definition is_upper :: "char \<Rightarrow> bool" where
  "is_upper c \<longleftrightarrow> 65 \<le> bval c \<and> bval c \<le> 90"

definition is_ascii :: "char \<Rightarrow> bool" where
  "is_ascii c \<longleftrightarrow> bval c < 128"

definition is_hex :: "char \<Rightarrow> bool" where
  "is_hex c \<longleftrightarrow> is_digit c \<or> (97 \<le> bval c \<and> bval c \<le> 102) \<or> (65 \<le> bval c \<and> bval c \<le> 70)"

lemma bval_bound [simp]: "bval c < 256"
  by (simp add: bval_def)

lemma bval_inject [simp]: "bval c = bval d \<longleftrightarrow> c = d"
  by (simp add: bval_def)

lemma char_of_bval [simp]: "char_of (bval c) = c"
  by (simp add: bval_def)

lemma bval_char_of [simp]: "n < 256 \<Longrightarrow> bval (char_of n) = n"
  by (simp add: bval_def)

text \<open>The double and the single quotation mark.\<close>

definition dq :: string where "dq = [CHR 0x22]"
definition sq :: string where "sq = [CHR 0x27]"

subsection \<open>Prefixes, suffixes, searching\<close>

definition has_prefix :: "string \<Rightarrow> string \<Rightarrow> bool" where
  "has_prefix s p \<longleftrightarrow> take (length p) s = p"

definition has_suffix :: "string \<Rightarrow> string \<Rightarrow> bool" where
  "has_suffix s p \<longleftrightarrow> length p \<le> length s \<and> drop (length s - length p) s = p"

lemma has_prefix_iff: "has_prefix s p \<longleftrightarrow> (\<exists>r. s = p @ r)"
  unfolding has_prefix_def by (metis append_eq_conv_conj append_take_drop_id)

lemma has_suffix_iff: "has_suffix s p \<longleftrightarrow> (\<exists>r. s = r @ p)"
proof
  assume "has_suffix s p"
  then have "s = take (length s - length p) s @ p"
    unfolding has_suffix_def by (metis append_take_drop_id)
  then show "\<exists>r. s = r @ p" by blast
qed (auto simp: has_suffix_def)

lemma has_prefix_simps [simp]:
  "has_prefix s []"
  "\<not> has_prefix [] (c # p)"
  "has_prefix (c # s) (d # p) \<longleftrightarrow> c = d \<and> has_prefix s p"
  by (auto simp: has_prefix_def)

lemma has_prefix_append [simp]: "has_prefix (p @ s) p"
  by (simp add: has_prefix_def)

lemma has_prefix_length: "has_prefix s p \<Longrightarrow> length p \<le> length s"
  by (auto simp: has_prefix_iff)

definition trim_prefix :: "string \<Rightarrow> string \<Rightarrow> string" where
  "trim_prefix s p = (if has_prefix s p then drop (length p) s else s)"

definition cut_prefix :: "string \<Rightarrow> string \<Rightarrow> string option" where
  "cut_prefix s p = (if has_prefix s p then Some (drop (length p) s) else None)"

definition trim_suffix :: "string \<Rightarrow> string \<Rightarrow> string" where
  "trim_suffix s p = (if has_suffix s p then take (length s - length p) s else s)"

definition cut_suffix :: "string \<Rightarrow> string \<Rightarrow> string option" where
  "cut_suffix s p = (if has_suffix s p then Some (take (length s - length p) s) else None)"

lemma cut_prefix_Some [simp]: "cut_prefix s p = Some r \<longleftrightarrow> s = p @ r"
  by (auto simp: cut_prefix_def has_prefix_iff)

lemma cut_suffix_Some [simp]: "cut_suffix s p = Some r \<longleftrightarrow> s = r @ p"
  by (auto simp: cut_suffix_def has_suffix_iff)

text \<open>\<open>strings.IndexByte\<close>, \<open>LastIndexByte\<close>, \<open>IndexAny\<close>, \<open>Index\<close>: \<open>None\<close> is -1.\<close>

fun index_where :: "(char \<Rightarrow> bool) \<Rightarrow> string \<Rightarrow> nat option" where
  "index_where P [] = None"
| "index_where P (c # s) = (if P c then Some 0 else map_option Suc (index_where P s))"

definition index_byte :: "char \<Rightarrow> string \<Rightarrow> nat option" where
  "index_byte c = index_where (\<lambda>d. d = c)"

fun last_index_byte :: "char \<Rightarrow> string \<Rightarrow> nat option" where
  "last_index_byte c [] = None"
| "last_index_byte c (d # s) =
     (case last_index_byte c s of Some i \<Rightarrow> Some (Suc i)
      | None \<Rightarrow> if d = c then Some 0 else None)"

fun index_sub :: "string \<Rightarrow> string \<Rightarrow> nat option" where
  "index_sub [] p = (if p = [] then Some 0 else None)"
| "index_sub (c # s) p = (if has_prefix (c # s) p then Some 0 else map_option Suc (index_sub s p))"

definition contains_sub :: "string \<Rightarrow> string \<Rightarrow> bool" where
  "contains_sub s p \<longleftrightarrow> index_sub s p \<noteq> None"

lemma index_where_Some:
  "index_where P s = Some i \<Longrightarrow> i < length s \<and> P (s ! i) \<and> (\<forall>j<i. \<not> P (s ! j))"
proof (induction s arbitrary: i)
  case Nil
  then show ?case by simp
next
  case (Cons c s)
  then show ?case by (auto split: if_splits simp: less_Suc_eq_0_disj)
qed

lemma index_where_None: "index_where P s = None \<longleftrightarrow> (\<forall>c\<in>set s. \<not> P c)"
  by (induction s) auto

lemma index_where_split:
  assumes "index_where P s = Some i"
  shows "s = take i s @ s ! i # drop (Suc i) s" "\<forall>c\<in>set (take i s). \<not> P c" "P (s ! i)"
proof -
  from index_where_Some [OF assms] have i: "i < length s" "P (s ! i)" "\<forall>j<i. \<not> P (s ! j)" by auto
  show "s = take i s @ s ! i # drop (Suc i) s" using i(1) by (rule id_take_nth_drop)
  show "\<forall>c\<in>set (take i s). \<not> P c" using i by (auto simp: in_set_conv_nth)
  show "P (s ! i)" by (fact i(2))
qed

lemma index_where_append:
  "\<forall>c\<in>set a. \<not> P c \<Longrightarrow> P d \<Longrightarrow> index_where P (a @ d # b) = Some (length a)"
  by (induction a) auto

lemma index_byte_None: "index_byte c s = None \<longleftrightarrow> c \<notin> set s"
  by (auto simp: index_byte_def index_where_None)

lemma index_byte_split:
  assumes "index_byte c s = Some i"
  shows "s = take i s @ c # drop (Suc i) s" "c \<notin> set (take i s)"
  using index_where_split [OF assms [unfolded index_byte_def]] by auto

lemma index_byte_append: "c \<notin> set a \<Longrightarrow> index_byte c (a @ c # b) = Some (length a)"
  unfolding index_byte_def by (rule index_where_append) auto

lemma last_index_byte_None: "last_index_byte c s = None \<longleftrightarrow> c \<notin> set s"
  by (induction s) (auto split: option.splits)

lemma last_index_byte_split:
  "last_index_byte c s = Some i \<Longrightarrow> s = take i s @ c # drop (Suc i) s \<and> c \<notin> set (drop (Suc i) s)"
  by (induction s arbitrary: i) (auto split: option.splits if_splits simp: last_index_byte_None)

lemma last_index_byte_append: "c \<notin> set b \<Longrightarrow> last_index_byte c (a @ c # b) = Some (length a)"
  by (induction a) (auto simp: last_index_byte_None split: option.splits)

lemma index_sub_None: "index_sub s p = None \<longleftrightarrow> (\<forall>a b. s \<noteq> a @ p @ b)"
proof (induction s)
  case Nil
  then show ?case by auto
next
  case (Cons c s)
  have "(\<exists>a b. c # s = a @ p @ b) \<longleftrightarrow> has_prefix (c # s) p \<or> (\<exists>a b. s = a @ p @ b)"
    by (auto simp: has_prefix_iff Cons_eq_append_conv)
  then show ?case using Cons by auto
qed

lemma index_sub_split: "index_sub s p = Some i \<Longrightarrow> s = take i s @ p @ drop (i + length p) s"
proof (induction s arbitrary: i)
  case Nil
  then show ?case by (auto split: if_splits)
next
  case (Cons c s)
  show ?case
  proof (cases "has_prefix (c # s) p")
    case True
    then have "i = 0" and "c # s = p @ drop (length p) (c # s)"
      using Cons.prems by (auto simp: has_prefix_iff)
    then show ?thesis by simp
  next
    case False
    with Cons.prems obtain j where "i = Suc j" and "index_sub s p = Some j" by auto
    with Cons.IH [of j] show ?thesis by simp
  qed
qed

lemma contains_sub_iff: "contains_sub s p \<longleftrightarrow> (\<exists>a b. s = a @ p @ b)"
  using index_sub_None [of s p] by (auto simp: contains_sub_def)

lemma index_sub_first: "index_sub s p = Some i \<Longrightarrow> p \<noteq> [] \<Longrightarrow> \<not> contains_sub (take i s) p"
proof (induction s arbitrary: i)
  case (Cons c s)
  show ?case
  proof (cases "has_prefix (c # s) p")
    case True
    then show ?thesis using Cons.prems by (auto simp: contains_sub_iff)
  next
    case False
    then obtain j where j: "i = Suc j" "index_sub s p = Some j" using Cons.prems by auto
    show ?thesis
    proof
      assume "contains_sub (take i (c # s)) p"
      then obtain a b where ab: "c # take j s = a @ p @ b" using j by (auto simp: contains_sub_iff)
      have "a \<noteq> []"
      proof
        assume "a = []"
        then have "c # s = p @ (b @ drop j s)"
          using ab append_take_drop_id [of j s] by (metis append.assoc append_Cons append_Nil)
        then show False using False by (auto simp: has_prefix_iff)
      qed
      then have "contains_sub (take j s) p" using ab by (cases a) (auto simp: contains_sub_iff)
      then show False using Cons.IH [OF j(2)] Cons.prems(2) by simp
    qed
  qed
qed auto

subsection \<open>Cutting, splitting, joining\<close>

text \<open>\<open>strings.Cut\<close> at a one-byte separator: \<open>(before, after, found)\<close>.\<close>

definition cut_byte :: "char \<Rightarrow> string \<Rightarrow> string \<times> string \<times> bool" where
  "cut_byte c s = (case index_byte c s of None \<Rightarrow> (s, [], False)
     | Some i \<Rightarrow> (take i s, drop (Suc i) s, True))"

lemma cut_byte_found: "cut_byte c s = (a, b, True) \<longleftrightarrow> s = a @ c # b \<and> c \<notin> set a"
proof
  assume "cut_byte c s = (a, b, True)"
  then obtain i where i: "index_byte c s = Some i" "a = take i s" "b = drop (Suc i) s"
    by (auto simp: cut_byte_def split: option.splits)
  show "s = a @ c # b \<and> c \<notin> set a"
    using index_byte_split [OF i(1)] i(2,3) by simp
qed (auto simp: cut_byte_def index_byte_append)

lemma cut_byte_missing: "cut_byte c s = (a, b, False) \<longleftrightarrow> c \<notin> set s \<and> a = s \<and> b = []"
  by (cases "index_byte c s") (auto simp: cut_byte_def index_byte_None [symmetric])

fun split_byte :: "char \<Rightarrow> string \<Rightarrow> string list" where
  "split_byte c [] = [[]]"
| "split_byte c (d # s) = (if d = c then [] # split_byte c s
     else (case split_byte c s of [] \<Rightarrow> [[d]] | x # xs \<Rightarrow> (d # x) # xs))"

fun join :: "string \<Rightarrow> string list \<Rightarrow> string" where
  "join sep [] = []"
| "join sep [x] = x"
| "join sep (x # y # ys) = x @ sep @ join sep (y # ys)"

lemma split_byte_nonempty [simp]: "split_byte c s \<noteq> []"
  by (cases s) (auto split: list.splits)

lemma split_byte_parts: "x \<in> set (split_byte c s) \<Longrightarrow> c \<notin> set x"
  by (induction s arbitrary: x) (auto split: if_splits list.splits)

lemma join_Cons: "ys \<noteq> [] \<Longrightarrow> join sep (x # ys) = x @ sep @ join sep ys"
  by (cases ys) auto

lemma join_head: "join sep ((d # x) # xs) = d # join sep (x # xs)"
  by (cases xs) auto

lemma join_split_byte [simp]: "join [c] (split_byte c s) = s"
proof (induction s)
  case Nil
  then show ?case by simp
next
  case (Cons d s)
  obtain x xs where x: "split_byte c s = x # xs" by (cases "split_byte c s") auto
  show ?case using Cons x join_Cons [of "split_byte c s" "[c]" "[]"] by (simp add: join_head)
qed

lemma split_byte_no_sep: "c \<notin> set x \<Longrightarrow> split_byte c x = [x]"
  by (induction x) auto

lemma split_byte_append: "c \<notin> set x \<Longrightarrow> split_byte c (x @ c # s) = x # split_byte c s"
  by (induction x) auto

lemma split_byte_at: "split_byte c (x @ c # s) = split_byte c x @ split_byte c s"
proof (induction x)
  case (Cons d x)
  obtain y ys where "split_byte c x = y # ys" by (cases "split_byte c x") auto
  then show ?case using Cons by simp
qed simp

lemma split_byte_join:
  "xs \<noteq> [] \<Longrightarrow> \<forall>x\<in>set xs. c \<notin> set x \<Longrightarrow> split_byte c (join [c] xs) = xs"
  by (induction "[c]" xs rule: join.induct) (auto simp: split_byte_no_sep split_byte_append)

lemma set_join: "set (join sep xs) \<subseteq> set sep \<union> \<Union> (set ` set xs)"
  by (induction sep xs rule: join.induct) auto

lemma join_append:
  "xs \<noteq> [] \<Longrightarrow> ys \<noteq> [] \<Longrightarrow> join sep (xs @ ys) = join sep xs @ sep @ join sep ys"
proof (induction xs)
  case (Cons x xs)
  then show ?case by (cases "xs = []") (simp_all add: join_Cons)
qed simp

lemma join_butlast: "length ss \<ge> 2 \<Longrightarrow> join sep (butlast ss) @ sep @ last ss = join sep ss"
proof (cases ss rule: rev_cases)
  case (snoc xs x)
  assume "length ss \<ge> 2"
  then have "xs \<noteq> []" using snoc by auto
  then show ?thesis using snoc join_append [of xs "[x]" sep] by simp
qed simp

lemma length_split_byte: "length (split_byte c s) = Suc (count_list s c)"
  by (induction s) (auto split: list.splits)

subsection \<open>Replacing\<close>

text \<open>\<open>strings.ReplaceAll(s, old, new)\<close> for a non-empty \<open>old\<close>, the only kind of call the
  CLI makes: matches are taken from the left and do not overlap.\<close>

function replace_all :: "string \<Rightarrow> string \<Rightarrow> string \<Rightarrow> string" where
  "replace_all [] old new = []"
| "replace_all (c # s) old new =
     (if old \<noteq> [] \<and> has_prefix (c # s) old then new @ replace_all (drop (length old - 1) s) old new
      else c # replace_all s old new)"
  by pat_completeness auto
termination
  by (relation "measure (\<lambda>(s, old, new). length s)") auto

lemma replace_all_byte: "replace_all s [c] new = concat (map (\<lambda>d. if d = c then new else [d]) s)"
  by (induction s) auto

lemma replace_all_absent: "\<not> contains_sub s old \<Longrightarrow> replace_all s old new = s"
proof (induction s)
  case (Cons c s)
  then have "\<not> has_prefix (c # s) old" and "\<not> contains_sub s old"
    by (auto simp: contains_sub_def split: if_splits)
  with Cons.IH show ?case by simp
qed simp

subsection \<open>Trimming\<close>

text \<open>\<open>strings.TrimLeft\<close>, \<open>TrimRight\<close> and \<open>Trim\<close> with a cut set of ASCII characters.\<close>

definition trim_left :: "string \<Rightarrow> string \<Rightarrow> string" where
  "trim_left s cs = dropWhile (\<lambda>c. c \<in> set cs) s"

definition trim_right :: "string \<Rightarrow> string \<Rightarrow> string" where
  "trim_right s cs = rev (dropWhile (\<lambda>c. c \<in> set cs) (rev s))"

definition trim_set :: "string \<Rightarrow> string \<Rightarrow> string" where
  "trim_set s cs = trim_right (trim_left s cs) cs"

lemma trim_right_id: "s = [] \<or> last s \<noteq> c \<Longrightarrow> trim_right s [c] = s"
  by (cases s rule: rev_cases) (simp_all add: trim_right_def)

text \<open>
  \<open>strings.TrimSpace\<close>: \<open>unicode.IsSpace\<close> holds of the code points below, written here in
  UTF-8; they are taken off both ends. A byte sequence at an end that is the encoding
  of one of them is what \<open>DecodeRune\<close> and \<open>DecodeLastRune\<close> read there.
\<close>

definition utf8_space_seqs :: "nat list list" where
  "utf8_space_seqs = [[9], [10], [11], [12], [13], [32], [0xC2, 0x85], [0xC2, 0xA0],
     [0xE1, 0x9A, 0x80],
     [0xE2, 0x80, 0x80], [0xE2, 0x80, 0x81], [0xE2, 0x80, 0x82], [0xE2, 0x80, 0x83],
     [0xE2, 0x80, 0x84], [0xE2, 0x80, 0x85], [0xE2, 0x80, 0x86], [0xE2, 0x80, 0x87],
     [0xE2, 0x80, 0x88], [0xE2, 0x80, 0x89], [0xE2, 0x80, 0x8A],
     [0xE2, 0x80, 0xA8], [0xE2, 0x80, 0xA9], [0xE2, 0x80, 0xAF], [0xE2, 0x81, 0x9F],
     [0xE3, 0x80, 0x80]]"

definition space_seqs :: "string list" where
  "space_seqs = map (map char_of) utf8_space_seqs"

lemma space_seqs_code [code]: "space_seqs = [
     [CHR 0x09], [CHR 0x0A], [CHR 0x0B], [CHR 0x0C], [CHR 0x0D], [CHR 0x20], [CHR 0xC2, CHR 0x85], [CHR
     0xC2, CHR 0xA0], [CHR 0xE1, CHR 0x9A, CHR 0x80], [CHR 0xE2, CHR 0x80, CHR 0x80], [CHR 0xE2, CHR
     0x80, CHR 0x81], [CHR 0xE2, CHR 0x80, CHR 0x82], [CHR 0xE2, CHR 0x80, CHR 0x83], [CHR 0xE2, CHR
     0x80, CHR 0x84], [CHR 0xE2, CHR 0x80, CHR 0x85], [CHR 0xE2, CHR 0x80, CHR 0x86], [CHR 0xE2, CHR
     0x80, CHR 0x87], [CHR 0xE2, CHR 0x80, CHR 0x88], [CHR 0xE2, CHR 0x80, CHR 0x89], [CHR 0xE2, CHR
     0x80, CHR 0x8A], [CHR 0xE2, CHR 0x80, CHR 0xA8], [CHR 0xE2, CHR 0x80, CHR 0xA9], [CHR 0xE2, CHR
     0x80, CHR 0xAF], [CHR 0xE2, CHR 0x81, CHR 0x9F], [CHR 0xE3, CHR 0x80, CHR 0x80]]"
  by (simp add: space_seqs_def utf8_space_seqs_def char_of_def bit_simps)

fun strip_seqs :: "nat \<Rightarrow> string list \<Rightarrow> string \<Rightarrow> string" where
  "strip_seqs 0 seqs s = s"
| "strip_seqs (Suc n) seqs s =
     (case find (\<lambda>p. has_prefix s p) seqs of None \<Rightarrow> s
      | Some p \<Rightarrow> strip_seqs n seqs (drop (length p) s))"

definition trim_space :: "string \<Rightarrow> string" where
  "trim_space s = (let t = strip_seqs (length s) space_seqs s
     in rev (strip_seqs (length t) (map rev space_seqs) (rev t)))"

text \<open>\<open>strings.Fields\<close>: the parts between runs of spaces; a space begins with an ASCII or a leading
  byte, so none begins inside another character.\<close>

fun fields_from :: "nat \<Rightarrow> string \<Rightarrow> string \<Rightarrow> string list" where
  "fields_from 0 part s = (if part = [] then [] else [part])"
| "fields_from (Suc n) part [] = (if part = [] then [] else [part])"
| "fields_from (Suc n) part (c # s) =
     (case find (\<lambda>p. has_prefix (c # s) p) space_seqs of
        None \<Rightarrow> fields_from n (part @ [c]) s
      | Some p \<Rightarrow> (if part = [] then [] else [part]) @ fields_from n [] (drop (length p) (c # s)))"

definition split_fields :: "string \<Rightarrow> string list" where
  "split_fields s = fields_from (length s) [] s"

subsection \<open>Case mapping\<close>

text \<open>
  \<open>strings.ToLower\<close>: an ASCII string is mapped byte by byte; any other string goes
  through the Unicode tables, the parameter \<open>ulow\<close>.
\<close>

definition lower_char :: "char \<Rightarrow> char" where
  "lower_char c = (if is_upper c then char_of (bval c + 32) else c)"

definition upper_char :: "char \<Rightarrow> char" where
  "upper_char c = (if is_lower c then char_of (bval c - 32) else c)"

definition to_lower :: "(string \<Rightarrow> string) \<Rightarrow> string \<Rightarrow> string" where
  "to_lower ulow s = (if list_all is_ascii s then map lower_char s else ulow s)"

lemma bval_lower_char: "bval (lower_char c) = (if is_upper c then bval c + 32 else bval c)"
  by (auto simp: lower_char_def is_upper_def)

lemma lower_char_idem [simp]: "lower_char (lower_char c) = lower_char c"
  by (auto simp: lower_char_def is_upper_def)

lemma is_upper_lower_char [simp]: "\<not> is_upper (lower_char c)"
  by (auto simp: is_upper_def bval_lower_char)

lemma is_ascii_lower_char [simp]: "is_ascii (lower_char c) = is_ascii c"
  by (auto simp: is_upper_def is_ascii_def bval_lower_char)

lemma to_lower_idem_ascii: "list_all is_ascii s \<Longrightarrow> to_lower u (to_lower u s) = to_lower u s"
  by (simp add: to_lower_def list.pred_map comp_def)

text \<open>
  \<open>strings.EqualFold(s, t)\<close> for an ASCII \<open>t\<close>: simple folding equates the ASCII cases, and
  \<open>k\<close> with the Kelvin sign U+212A and \<open>s\<close> with the long s U+017F.
\<close>

definition fold_spellings :: "char \<Rightarrow> string list" where
  "fold_spellings c = [lower_char c] # [upper_char c] #
     (if lower_char c = CHR ''k'' then [map char_of [0xE2, 0x84, 0xAA :: nat]]
      else if lower_char c = CHR ''s'' then [map char_of [0xC5, 0xBF :: nat]] else [])"

fun equal_fold :: "string \<Rightarrow> string \<Rightarrow> bool" where
  "equal_fold s [] = (s = [])"
| "equal_fold s (c # t) =
     (case find (\<lambda>p. has_prefix s p) (fold_spellings c) of None \<Rightarrow> False
      | Some p \<Rightarrow> equal_fold (drop (length p) s) t)"

lemma equal_fold_refl [simp]: "map lower_char t = t \<Longrightarrow> equal_fold t t"
  by (induction t) (auto simp: fold_spellings_def)

end
