(* ===== verification/GoUtf.thy ===== *)
theory GoUtf
  imports GoStrings
begin

text \<open>
  UTF-8 and UTF-16 as Go's \<open>unicode/utf8\<close> and \<open>unicode/utf16\<close> define them, on code points
  held as naturals: \<open>runes\<close> is \<open>[]rune(s)\<close>, \<open>of_runes\<close> is \<open>string(rs)\<close>, \<open>utf16_encode\<close> and
  \<open>utf16_decode\<close> are \<open>utf16.Encode\<close> and \<open>utf16.Decode\<close>. The lemmas are the round trips.
\<close>

definition rune_error :: nat where
  "rune_error = 0xFFFD"

definition is_surrogate :: "nat \<Rightarrow> bool" where
  "is_surrogate r \<longleftrightarrow> 0xD800 \<le> r \<and> r \<le> 0xDFFF"

lemma is_surrogate_code [code]: "is_surrogate r = (if r < 0x80 then False else 0xD800 \<le> r \<and> r \<le> 0xDFFF)"
  by (simp add: is_surrogate_def)

definition valid_rune :: "nat \<Rightarrow> bool" where
  "valid_rune r \<longleftrightarrow> r \<le> 0x10FFFF \<and> \<not> is_surrogate r"

subsection \<open>UTF-8\<close>

definition cont :: "nat \<Rightarrow> nat \<Rightarrow> char \<Rightarrow> bool" where
  "cont lo hi c \<longleftrightarrow> lo \<le> bval c \<and> bval c \<le> hi"

definition low6 :: "char \<Rightarrow> nat" where
  "low6 c = bval c - 0x80"

text \<open>\<open>utf8.DecodeRuneInString\<close>: the code point and its size; an invalid sequence is
  \<open>(RuneError, 1)\<close>.\<close>

definition decode_rune :: "string \<Rightarrow> nat \<times> nat" where
  "decode_rune s = (case s of [] \<Rightarrow> (rune_error, 0) | c # t \<Rightarrow>
     (let b = bval c in
      if b < 0x80 then (b, 1)
      else if 0xC2 \<le> b \<and> b \<le> 0xDF then
        (case t of c1 # _ \<Rightarrow> if cont 0x80 0xBF c1 then ((b - 0xC0) * 64 + low6 c1, 2)
                            else (rune_error, 1)
         | [] \<Rightarrow> (rune_error, 1))
      else if 0xE0 \<le> b \<and> b \<le> 0xEF then
        (case t of c1 # c2 # _ \<Rightarrow>
           if cont (if b = 0xE0 then 0xA0 else 0x80) (if b = 0xED then 0x9F else 0xBF) c1
              \<and> cont 0x80 0xBF c2
           then ((b - 0xE0) * 4096 + low6 c1 * 64 + low6 c2, 3) else (rune_error, 1)
         | _ \<Rightarrow> (rune_error, 1))
      else if 0xF0 \<le> b \<and> b \<le> 0xF4 then
        (case t of c1 # c2 # c3 # _ \<Rightarrow>
           if cont (if b = 0xF0 then 0x90 else 0x80) (if b = 0xF4 then 0x8F else 0xBF) c1
              \<and> cont 0x80 0xBF c2 \<and> cont 0x80 0xBF c3
           then ((b - 0xF0) * 262144 + low6 c1 * 4096 + low6 c2 * 64 + low6 c3, 4)
           else (rune_error, 1)
         | _ \<Rightarrow> (rune_error, 1))
      else (rune_error, 1)))"

function runes :: "string \<Rightarrow> nat list" where
  "runes [] = []"
| "runes (c # s) = (let (r, n) = decode_rune (c # s) in r # runes (drop (n - 1) s))"
  by pat_completeness auto
termination
  by (relation "measure length") auto

text \<open>\<open>utf8.AppendRune\<close>: a surrogate or a value past U+10FFFF is written as U+FFFD.\<close>

definition encode_valid :: "nat \<Rightarrow> string" where
  "encode_valid r =
     (if r < 0x80 then [char_of r]
      else if r < 0x800 then [char_of (0xC0 + r div 64), char_of (0x80 + r mod 64)]
      else if r < 0x10000 then
        [char_of (0xE0 + r div 4096), char_of (0x80 + r div 64 mod 64), char_of (0x80 + r mod 64)]
      else [char_of (0xF0 + r div 262144), char_of (0x80 + r div 4096 mod 64),
            char_of (0x80 + r div 64 mod 64), char_of (0x80 + r mod 64)])"

definition encode_rune :: "nat \<Rightarrow> string" where
  "encode_rune r = encode_valid (if valid_rune r then r else rune_error)"

definition of_runes :: "nat list \<Rightarrow> string" where
  "of_runes rs = concat (map encode_rune rs)"

lemma encode_rune_nonempty [simp]: "encode_rune r \<noteq> []"
  by (simp add: encode_rune_def encode_valid_def)

text \<open>Code equations that decide an ASCII code point without large numbers.\<close>

lemma encode_rune_code [code]:
  "encode_rune r = (if r < 0x80 then [char_of r] else encode_valid (if valid_rune r then r else rune_error))"
  by (simp add: encode_rune_def encode_valid_def valid_rune_def is_surrogate_def)

lemma decode_encode_1: "r < 0x80 \<Longrightarrow> decode_rune (encode_valid r @ s) = (r, 1)"
  by (simp add: decode_rune_def encode_valid_def)

lemma decode_encode_2:
  assumes "0x80 \<le> r" "r < 0x800"
  shows "decode_rune (encode_valid r @ s) = (r, 2)"
proof -
  define a b where "a = r div 64" and "b = r mod 64"
  have r: "a * 64 + b = r" by (simp add: a_def b_def)
  have bd: "2 \<le> a" "a \<le> 31" "b < 64" using assms by (auto simp: a_def b_def)
  show ?thesis using assms bd r
    by (simp add: decode_rune_def encode_valid_def cont_def low6_def Let_def
        a_def [symmetric] b_def [symmetric])
qed

lemma decode_encode_3:
  assumes "0x800 \<le> r" "r < 0x10000" "\<not> is_surrogate r"
  shows "decode_rune (encode_valid r @ s) = (r, 3)"
proof -
  define a b c where "a = r div 4096" and "b = r div 64 mod 64" and "c = r mod 64"
  have r: "a * 4096 + b * 64 + c = r"
  proof -
    have "r div 64 = a * 64 + b" using div_mult_mod_eq [of "r div 64" 64]
      by (simp add: a_def b_def div_mult2_eq [symmetric])
    then show ?thesis using div_mult_mod_eq [of r 64] unfolding c_def by linarith
  qed
  have bd: "a \<le> 15" "b < 64" "c < 64" using assms(2) by (auto simp: a_def b_def c_def)
  have "a = 0 \<Longrightarrow> 0x20 \<le> b" using assms(1) r bd by simp
  moreover have "a = 13 \<Longrightarrow> b \<le> 0x1F"
  proof (rule ccontr)
    assume "a = 13" "\<not> b \<le> 0x1F"
    then have "0xD800 \<le> r" "r \<le> 0xDFFF" using r bd by auto
    with assms(3) show False by (simp add: is_surrogate_def)
  qed
  ultimately show ?thesis using assms bd r
    by (simp add: decode_rune_def encode_valid_def cont_def low6_def Let_def
        a_def [symmetric] b_def [symmetric] c_def [symmetric])
qed

lemma decode_encode_4:
  assumes "0x10000 \<le> r" "r \<le> 0x10FFFF"
  shows "decode_rune (encode_valid r @ s) = (r, 4)"
proof -
  define a b c d where "a = r div 262144" and "b = r div 4096 mod 64"
    and "c = r div 64 mod 64" and "d = r mod 64"
  have r: "a * 262144 + b * 4096 + c * 64 + d = r"
  proof -
    have "r div 4096 = a * 64 + b" using div_mult_mod_eq [of "r div 4096" 64]
      by (simp add: a_def b_def div_mult2_eq [symmetric])
    moreover have "r div 64 = r div 4096 * 64 + c" using div_mult_mod_eq [of "r div 64" 64]
      by (simp add: c_def div_mult2_eq [symmetric])
    ultimately show ?thesis using div_mult_mod_eq [of r 64] unfolding d_def by linarith
  qed
  have bd: "a \<le> 4" "b < 64" "c < 64" "d < 64"
    using assms(2) by (auto simp: a_def b_def c_def d_def)
  have "a = 0 \<Longrightarrow> 0x10 \<le> b" "a = 4 \<Longrightarrow> b < 0x10" using assms r bd by auto
  then show ?thesis using assms bd r
    by (simp add: decode_rune_def encode_valid_def cont_def low6_def Let_def
        a_def [symmetric] b_def [symmetric] c_def [symmetric] d_def [symmetric])
qed

lemma length_encode_valid:
  "length (encode_valid r) = (if r < 0x80 then 1 else if r < 0x800 then 2
     else if r < 0x10000 then 3 else 4)"
  by (simp add: encode_valid_def)

lemma decode_encode_rune:
  assumes "valid_rune r"
  shows "decode_rune (encode_rune r @ s) = (r, length (encode_rune r))"
proof -
  consider "r < 0x80" | "0x80 \<le> r" "r < 0x800" | "0x800 \<le> r" "r < 0x10000"
    | "0x10000 \<le> r" "r \<le> 0x10FFFF"
    using assms by (fastforce simp: valid_rune_def)
  then show ?thesis using assms
    by cases (simp_all add: encode_rune_def valid_rune_def length_encode_valid decode_encode_1
        decode_encode_2 decode_encode_3 decode_encode_4)
qed

lemma runes_encode_append: "valid_rune r \<Longrightarrow> runes (encode_rune r @ s) = r # runes s"
proof -
  assume v: "valid_rune r"
  obtain c t where ct: "encode_rune r = c # t" by (cases "encode_rune r") auto
  from decode_encode_rune [OF v, of s]
  have d: "decode_rune (c # t @ s) = (r, Suc (length t))" by (simp add: ct)
  have "runes (c # t @ s) = r # runes (drop (length t) (t @ s))" by (simp add: d)
  then show "runes (encode_rune r @ s) = r # runes s" by (simp add: ct)
qed

lemma runes_of_runes: "\<forall>r\<in>set rs. valid_rune r \<Longrightarrow> runes (of_runes rs) = rs"
  by (induction rs) (auto simp: of_runes_def runes_encode_append)

lemma runes_ascii: "\<forall>c\<in>set s. is_ascii c \<Longrightarrow> runes s = map bval s"
  by (induction s) (auto simp: decode_rune_def is_ascii_def)

lemma runes_eq_Nil [simp]: "runes s = [] \<longleftrightarrow> s = []"
  by (cases s) (auto split: prod.splits)

text \<open>Whatever the bytes, the runes read are Unicode scalar values.\<close>

lemma valid_rune_error [simp]: "valid_rune rune_error"
  by (simp add: valid_rune_def rune_error_def is_surrogate_def)

lemma valid_2: "b \<le> 0xDF \<Longrightarrow> valid_rune ((b - 0xC0) * 64 + low6 c)" if "cont 0x80 0xBF c"
  using that by (auto simp: cont_def low6_def valid_rune_def is_surrogate_def)

lemma valid_3:
  assumes "0xE0 \<le> b" "b \<le> 0xEF" "cont 0x80 (if b = 0xED then 0x9F else 0xBF) c1" "cont 0x80 0xBF c2"
  shows "valid_rune ((b - 0xE0) * 4096 + low6 c1 * 64 + low6 c2)"
  using assms by (cases "b = 0xED"; cases "b < 0xED") (auto simp: cont_def low6_def valid_rune_def is_surrogate_def)

lemma valid_4:
  assumes "0xF0 \<le> b" "b \<le> 0xF4" "cont (if b = 0xF0 then 0x90 else 0x80) (if b = 0xF4 then 0x8F else 0xBF) c1"
    "cont 0x80 0xBF c2" "cont 0x80 0xBF c3"
  shows "valid_rune ((b - 0xF0) * 262144 + low6 c1 * 4096 + low6 c2 * 64 + low6 c3)"
  using assms by (cases "b = 0xF0"; cases "b = 0xF4") (auto simp: cont_def low6_def valid_rune_def is_surrogate_def)

lemma cont_weaken: "cont lo hi c \<Longrightarrow> lo' \<le> lo \<Longrightarrow> hi \<le> hi' \<Longrightarrow> cont lo' hi' c"
  by (simp add: cont_def)

lemma decode_rune_valid: "valid_rune (fst (decode_rune s))"
proof (cases s)
  case Nil
  then show ?thesis by (simp add: decode_rune_def)
next
  case (Cons c t)
  have one: "bval c < 0x80 \<Longrightarrow> valid_rune (bval c)" by (simp add: valid_rune_def is_surrogate_def)
  show ?thesis unfolding decode_rune_def Cons Let_def
    using one valid_2 [of _ "bval c"] valid_3 [of "bval c"] valid_4 [of "bval c"]
    by (auto split: list.splits dest: cont_weaken [where lo' = "0x80"])
qed

lemma runes_valid: "r \<in> set (runes s) \<Longrightarrow> valid_rune r"
proof (induction s rule: runes.induct)
  case (2 c s)
  obtain r' n where d: "decode_rune (c # s) = (r', n)" by force
  then show ?case using 2 decode_rune_valid [of "c # s"] by auto
qed simp

text \<open>Valid UTF-8: the bytes are the encoding of the code points read.\<close>

definition utf8_ok :: "string \<Rightarrow> bool" where
  "utf8_ok s \<longleftrightarrow> of_runes (runes s) = s"

lemma utf8_ok_inj: "utf8_ok s \<Longrightarrow> utf8_ok t \<Longrightarrow> runes s = runes t \<Longrightarrow> s = t"
  by (metis utf8_ok_def)

subsection \<open>UTF-16\<close>

definition utf16_units :: "nat \<Rightarrow> nat list" where
  "utf16_units r =
     (if \<not> valid_rune r then [rune_error]
      else if r < 0x10000 then [r]
      else [0xD800 + (r - 0x10000) div 0x400, 0xDC00 + (r - 0x10000) mod 0x400])"

lemma utf16_units_code [code]:
  "utf16_units r = (if r < 0x80 then [r] else if \<not> valid_rune r then [rune_error] else if r < 0x10000 then [r]
     else [0xD800 + (r - 0x10000) div 0x400, 0xDC00 + (r - 0x10000) mod 0x400])"
  by (simp add: utf16_units_def valid_rune_def is_surrogate_def)

definition utf16_encode :: "nat list \<Rightarrow> nat list" where
  "utf16_encode rs = concat (map utf16_units rs)"

fun utf16_decode :: "nat list \<Rightarrow> nat list" where
  "utf16_decode [] = []"
| "utf16_decode [u] = [if is_surrogate u then rune_error else u]"
| "utf16_decode (u # v # us) =
     (if \<not> is_surrogate u then u # utf16_decode (v # us)
      else if u < 0xDC00 \<and> 0xDC00 \<le> v \<and> v < 0xE000
      then ((u - 0xD800) * 0x400 + (v - 0xDC00) + 0x10000) # utf16_decode us
      else rune_error # utf16_decode (v # us))"

lemma utf16_decode_single: "\<not> is_surrogate u \<Longrightarrow> utf16_decode (u # us) = u # utf16_decode us"
  by (cases us) auto

lemma utf16_decode_units: "valid_rune r \<Longrightarrow> utf16_decode (utf16_units r @ us) = r # utf16_decode us"
proof (cases "r < 0x10000")
  case True
  assume "valid_rune r"
  with True show ?thesis by (simp add: utf16_units_def utf16_decode_single valid_rune_def)
next
  case False
  assume v: "valid_rune r"
  define m where "m = r - 0x10000"
  have m: "m < 0x100000" "r = m + 0x10000" using v False by (auto simp: m_def valid_rune_def)
  define a b where "a = m div 0x400" and "b = m mod 0x400"
  have "a < 0x400" "b < 0x400" "a * 0x400 + b = m" using m(1) by (auto simp: a_def b_def)
  then show ?thesis using v False m
    by (simp add: utf16_units_def m_def [symmetric] a_def [symmetric] b_def [symmetric]
        is_surrogate_def)
qed

lemma utf16_round_trip: "\<forall>r\<in>set rs. valid_rune r \<Longrightarrow> utf16_decode (utf16_encode rs) = rs"
  by (induction rs) (auto simp: utf16_encode_def utf16_decode_units)

lemma utf16_encode_inj:
  "\<forall>r\<in>set rs. valid_rune r \<Longrightarrow> \<forall>r\<in>set rs'. valid_rune r \<Longrightarrow>
   utf16_encode rs = utf16_encode rs' \<Longrightarrow> rs = rs'"
  by (metis utf16_round_trip)

end
