(* ===== verification/Json.thy ===== *)
theory Json
  imports GoUtf Prelude
begin

text \<open>
  Values decoded by \<open>encoding/json\<close> into \<open>any\<close>: nil, bool, float64, string, \<open>[]any\<close> and
  \<open>map[string]any\<close>. A finite float64 is the rational it denotes. The text
  \<open>JSON.stringify\<close> gives a string is here too, with the proof that it can be read back.
\<close>

datatype json =
    JNull
  | JBool bool
  | JNum rat
  | JStr string
  | JArr "json list"
  | JObj "(string \<times> json) list"

definition jget :: "string \<Rightarrow> json \<Rightarrow> json option" where
  "jget k v = (case v of JObj m \<Rightarrow> map_of m k | _ \<Rightarrow> None)"

lemma size_snd_json [termination_simp]:
  "p \<in> set m \<Longrightarrow> size (snd p) < Suc (size_list (size_prod size size) m)"
  by (induction m) auto

subsection \<open>Objects with distinct keys\<close>

fun json_wf :: "json \<Rightarrow> bool" where
  "json_wf (JArr vs) = (\<forall>v\<in>set vs. json_wf v)"
| "json_wf (JObj m) = (distinct (map fst m) \<and> (\<forall>p\<in>set m. json_wf (snd p)))"
| "json_wf v = True"

subsection \<open>JSON.stringify of a string\<close>

definition hex_digit :: "nat \<Rightarrow> char" where
  "hex_digit d = char_of (if d < 10 then d + 48 else d + 87)"

definition js_escape_rune :: "nat \<Rightarrow> string" where
  "js_escape_rune r =
     (if r = 34 then [CHR 0x5C, CHR 0x22]
      else if r = 92 then [CHR 0x5C, CHR 0x5C]
      else if r = 8 then [CHR 0x5C, CHR ''b'']
      else if r = 12 then [CHR 0x5C, CHR ''f'']
      else if r = 10 then [CHR 0x5C, CHR ''n'']
      else if r = 13 then [CHR 0x5C, CHR ''r'']
      else if r = 9 then [CHR 0x5C, CHR ''t'']
      else if r < 0x20 then [CHR 0x5C, CHR ''u'', CHR ''0'', CHR ''0'', hex_digit (r div 16), hex_digit (r mod 16)]
      else encode_rune r)"

definition write_js_string :: "string \<Rightarrow> string" where
  "write_js_string s = CHR 0x22 # concat (map js_escape_rune (runes s)) @ [CHR 0x22]"

text \<open>
  The escapes of two different runes never begin alike, and none begins with the closing
  quote: the text of a string, followed by anything, gives its runes back.
\<close>

lemma js_escape_nonempty [simp]: "js_escape_rune r \<noteq> []"
  by (simp add: js_escape_rune_def)

definition esc_runes :: "nat \<Rightarrow> nat list" where
  "esc_runes r =
     (if r = 34 then [92, 34] else if r = 92 then [92, 92] else if r = 8 then [92, 98]
      else if r = 12 then [92, 102] else if r = 10 then [92, 110] else if r = 13 then [92, 114]
      else if r = 9 then [92, 116]
      else if r < 0x20 then [92, 117, 48, 48, bval (hex_digit (r div 16)), bval (hex_digit (r mod 16))]
      else [r])"

lemma decode_rune_ascii: "bval c < 0x80 \<Longrightarrow> decode_rune (c # s) = (bval c, 1)"
  using decode_encode_1 [of "bval c" s] by (simp add: encode_valid_def)

lemma runes_ascii_Cons: "bval c < 0x80 \<Longrightarrow> runes (c # s) = bval c # runes s"
  by (simp add: decode_rune_ascii)

lemma bval_hex_digit: "d < 16 \<Longrightarrow> bval (hex_digit d) < 0x80"
  by (simp add: hex_digit_def)

lemma runes_escape: "valid_rune r \<Longrightarrow> runes (js_escape_rune r @ s) = esc_runes r @ runes s"
  using runes_encode_append [of r s] bval_hex_digit [of "r div 16"] bval_hex_digit [of "r mod 16"]
  by (simp add: js_escape_rune_def esc_runes_def runes_ascii_Cons bval_def del: runes.simps)

text \<open>The reader of an escape, and that it undoes the writer.\<close>

definition hex_value :: "nat \<Rightarrow> nat" where
  "hex_value u = (if u < 58 then u - 48 else u - 87)"

definition esc_read :: "nat list \<Rightarrow> nat \<times> nat list" where
  "esc_read us =
     (if hd us \<noteq> 92 then (hd us, tl us)
      else (let c = us ! 1 in
        if c = 117 then (hex_value (us ! 4) * 16 + hex_value (us ! 5), drop 6 us)
        else (if c = 98 then 8 else if c = 102 then 12 else if c = 110 then 10
              else if c = 114 then 13 else if c = 116 then 9 else c, drop 2 us)))"

lemma hex_value_digit [simp]: "d < 16 \<Longrightarrow> hex_value (bval (hex_digit d)) = d"
  by (simp add: hex_value_def hex_digit_def)

lemma esc_read_runes: "esc_read (esc_runes r @ a) = (r, a)"
proof -
  consider (short) "r \<in> {34, 92, 8, 12, 10, 13, 9}"
    | (control) "r < 32" "r \<notin> {34, 92, 8, 12, 10, 13, 9}"
    | (plain) "32 \<le> r" "r \<noteq> 34" "r \<noteq> 92" by fastforce
  then show ?thesis
  proof cases
    case short
    then show ?thesis by (auto simp: esc_read_def esc_runes_def)
  next
    case control
    then have "esc_runes r = [92, 117, 48, 48, bval (hex_digit (r div 16)), bval (hex_digit (r mod 16))]"
      by (simp add: esc_runes_def)
    then show ?thesis using control by (simp add: esc_read_def)
  next
    case plain
    then have "esc_runes r = [r]" by (simp add: esc_runes_def)
    then show ?thesis using plain by (simp add: esc_read_def)
  qed
qed

lemma esc_runes_prefix: "esc_runes r @ a = esc_runes r' @ b \<Longrightarrow> r = r' \<and> a = b"
  by (metis esc_read_runes prod.inject)

lemma esc_runes_quote [simp]: "esc_runes r @ a \<noteq> 34 # b" "34 # b \<noteq> esc_runes r @ a"
proof -
  show *: "esc_runes r @ a \<noteq> 34 # b"
  proof
    assume eq: "esc_runes r @ a = 34 # b"
    then have "r = 34" using esc_read_runes [of r a] by (simp add: esc_read_def)
    then show False using eq by (simp add: esc_runes_def)
  qed
  show "34 # b \<noteq> esc_runes r @ a" using * by metis
qed

lemma concat_esc_prefix:
  "concat (map esc_runes rs) @ 34 # a = concat (map esc_runes rs') @ 34 # b \<Longrightarrow> rs = rs' \<and> a = b"
proof (induction rs arbitrary: rs')
  case Nil
  then show ?case by (cases rs') auto
next
  case (Cons r rs)
  then show ?case
  proof (cases rs')
    case Nil
    then show ?thesis using Cons.prems by simp
  next
    case (Cons r' rs'')
    then have "r = r' \<and> concat (map esc_runes rs) @ 34 # a = concat (map esc_runes rs'') @ 34 # b"
      using Cons.prems esc_runes_prefix [of r _ r'] by simp
    then show ?thesis using Cons.IH Cons by simp
  qed
qed

lemma concat_runes_escape:
  "\<forall>r\<in>set rs. valid_rune r \<Longrightarrow>
   runes (concat (map js_escape_rune rs) @ s) = concat (map esc_runes rs) @ runes s"
  by (induction rs) (auto simp: runes_escape simp del: runes.simps)

end
