(* ===== verification/GoPath.thy ===== *)
theory GoPath
  imports GoStrings
begin

text \<open>
  Go's lexical path functions on Linux (\<open>path/filepath\<close>, \<open>path\<close>): \<open>Clean\<close>, \<open>Join\<close>, \<open>Base\<close>,
  \<open>Dir\<close>, \<open>Ext\<close>, \<open>IsAbs\<close>, \<open>Abs\<close>, \<open>Rel\<close>. A path is read as its elements between slashes;
  \<open>clean_elems\<close> is the loop of \<open>Clean\<close> over them.
\<close>

definition path_elems :: "string \<Rightarrow> string list" where
  "path_elems p = filter (\<lambda>e. e \<noteq> [] \<and> e \<noteq> ''.'') (split_byte CHR ''/'' p)"

definition is_abs :: "string \<Rightarrow> bool" where
  "is_abs p = has_prefix p ''/''"

text \<open>The output is kept reversed, so that \<open>..\<close> takes off its head.\<close>

fun clean_step :: "bool \<Rightarrow> string list \<Rightarrow> string \<Rightarrow> string list" where
  "clean_step rooted out e =
     (if e = ''..'' then
        (if out \<noteq> [] \<and> hd out \<noteq> ''..'' then tl out else if rooted then out else e # out)
      else e # out)"

definition clean_elems :: "string \<Rightarrow> string list" where
  "clean_elems p = rev (foldl (clean_step (is_abs p)) [] (path_elems p))"

definition render_path :: "bool \<Rightarrow> string list \<Rightarrow> string" where
  "render_path rooted es =
     (if rooted then CHR ''/'' # join ''/'' es else if es = [] then ''.'' else join ''/'' es)"

definition path_clean :: "string \<Rightarrow> string" where
  "path_clean p = render_path (is_abs p) (clean_elems p)"

definition path_join :: "string list \<Rightarrow> string" where
  "path_join es = (let fs = dropWhile (\<lambda>e. e = []) es
     in if fs = [] then [] else path_clean (join ''/'' fs))"

definition path_base :: "string \<Rightarrow> string" where
  "path_base p =
     (if p = [] then ''.''
      else (let t = trim_right p ''/''
            in if t = [] then ''/'' else last (split_byte CHR ''/'' t)))"

definition path_dir :: "string \<Rightarrow> string" where
  "path_dir p = path_clean (case last_index_byte CHR ''/'' p of None \<Rightarrow> [] | Some i \<Rightarrow> take (Suc i) p)"

definition path_ext :: "string \<Rightarrow> string" where
  "path_ext p = (let b = last (split_byte CHR ''/'' p)
     in case last_index_byte CHR ''.'' b of None \<Rightarrow> [] | Some i \<Rightarrow> drop i b)"

text \<open>\<open>filepath.Abs\<close>; \<open>cwd\<close> is the working directory.\<close>

definition path_abs :: "string \<Rightarrow> string \<Rightarrow> string" where
  "path_abs cwd p = (if is_abs p then path_clean p else path_join [cwd, p])"

fun strip_common :: "string list \<Rightarrow> string list \<Rightarrow> string list \<times> string list" where
  "strip_common (b # bs) (t # ts) = (if b = t then strip_common bs ts else (b # bs, t # ts))"
| "strip_common bs ts = (bs, ts)"

text \<open>\<open>filepath.Rel\<close>; \<open>None\<close> is its error.\<close>

definition path_rel :: "string \<Rightarrow> string \<Rightarrow> string option" where
  "path_rel base targ =
     (if is_abs base \<noteq> is_abs targ then None
      else case strip_common (clean_elems base) (clean_elems targ) of
        (bs, ts) \<Rightarrow> (if bs \<noteq> [] \<and> hd bs = ''..'' then None
          else Some (render_path False (replicate (length bs) ''..'' @ ts))))"

subsection \<open>What cleaning guarantees\<close>

definition plain_elem :: "string \<Rightarrow> bool" where
  "plain_elem e \<longleftrightarrow> e \<noteq> [] \<and> e \<noteq> ''.'' \<and> CHR ''/'' \<notin> set e"

text \<open>Elements already clean: no empty, no dot, and \<open>..\<close> only as a leading run of a relative path.\<close>

definition clean_form :: "bool \<Rightarrow> string list \<Rightarrow> bool" where
  "clean_form rooted es \<longleftrightarrow> (\<forall>e\<in>set es. plain_elem e) \<and>
     (\<exists>n ds. es = replicate n ''..'' @ ds \<and> ''..'' \<notin> set ds \<and> (rooted \<longrightarrow> n = 0))"

lemma path_elems_plain: "e \<in> set (path_elems p) \<Longrightarrow> plain_elem e"
  by (auto simp: path_elems_def plain_elem_def dest: split_byte_parts)

lemma clean_step_form:
  assumes "clean_form rooted (rev out)" and "plain_elem e"
  shows "clean_form rooted (rev (clean_step rooted out e))"
proof -
  obtain n ds where out: "rev out = replicate n ''..'' @ ds" "''..'' \<notin> set ds" "rooted \<longrightarrow> n = 0"
    and pl: "\<forall>e\<in>set out. plain_elem e"
    using assms(1) by (auto simp: clean_form_def)
  have out': "out = rev ds @ replicate n ''..''" using arg_cong [OF out(1), of rev] by simp
  consider (pop) "e = ''..''" "ds \<noteq> []" | (up) "e = ''..''" "ds = []" | (push) "e \<noteq> ''..''" by blast
  then show ?thesis
  proof cases
    case pop
    then obtain d ds' where ds: "ds = ds' @ [d]" by (metis rev_exhaust)
    then have "clean_step rooted out e = rev ds' @ replicate n ''..''"
      using out' out(2) pop by (auto dest: not_sym)
    then show ?thesis using out(2,3) pl out' ds by (auto simp: clean_form_def)
  next
    case up
    then have "clean_step rooted out e = (if rooted then out else e # out)"
      using out' by (cases n) auto
    then show ?thesis using assms up out(3) out'
      by (auto simp: clean_form_def replicate_append_same intro!: exI [of _ "Suc n"] exI [of _ "[]"])
  next
    case push
    have "\<forall>x\<in>set (rev (e # out)). plain_elem x" using pl assms(2) by simp
    moreover have "rev (e # out) = replicate n ''..'' @ ds @ [e]" using out(1) by simp
    moreover have "''..'' \<notin> set (ds @ [e])" using out(2) push by auto
    ultimately have "clean_form rooted (rev (e # out))" using out(3) unfolding clean_form_def by blast
    then show ?thesis using push by simp
  qed
qed

lemma clean_elems_form: "clean_form (is_abs p) (clean_elems p)"
proof -
  have "clean_form r (rev out) \<Longrightarrow> \<forall>e\<in>set es. plain_elem e \<Longrightarrow>
      clean_form r (rev (foldl (clean_step r) out es))" for r out es
  proof (induction es arbitrary: out)
    case (Cons e es)
    then show ?case using clean_step_form [of r out e] by (simp del: clean_step.simps)
  qed simp
  moreover have "clean_form (is_abs p) (rev [])" by (auto simp: clean_form_def)
  ultimately show ?thesis unfolding clean_elems_def by (meson path_elems_plain)
qed

lemma clean_elems_abs: "is_abs p \<Longrightarrow> ''..'' \<notin> set (clean_elems p)"
  using clean_elems_form [of p] by (auto simp: clean_form_def)

lemma clean_step_id:
  assumes "clean_form rooted es"
  shows "foldl (clean_step rooted) [] es = rev es"
proof -
  obtain n ds where es: "es = replicate n ''..'' @ ds" "''..'' \<notin> set ds" "rooted \<longrightarrow> n = 0"
    using assms by (auto simp: clean_form_def)
  have up: "\<not> rooted \<Longrightarrow> foldl (clean_step rooted) (replicate m ''..'') (replicate k ''..'')
      = replicate (m + k) ''..''" for m k
  proof (induction k arbitrary: m)
    case (Suc k)
    have "clean_step rooted (replicate m ''..'') ''..'' = replicate (Suc m) ''..''"
      using Suc.prems by (cases m) auto
    then show ?case using Suc.IH [of "Suc m"] Suc.prems by (simp del: clean_step.simps)
  qed simp
  have dn: "''..'' \<notin> set ds \<Longrightarrow> foldl (clean_step rooted) out ds = rev ds @ out" for out ds
    by (induction ds arbitrary: out) auto
  have "foldl (clean_step rooted) [] (replicate n ''..'') = replicate n ''..''"
    using up [of 0 n] es(3) by (cases rooted) auto
  then show ?thesis using es dn [of ds "replicate n ''..''"] by simp
qed

lemma path_elems_render:
  assumes "\<forall>e\<in>set es. plain_elem e"
  shows "path_elems (render_path rooted es) = es"
proof -
  have ns: "\<forall>e\<in>set es. CHR ''/'' \<notin> set e" and ne: "\<forall>e\<in>set es. e \<noteq> [] \<and> e \<noteq> ''.''"
    using assms by (auto simp: plain_elem_def)
  have "es \<noteq> [] \<Longrightarrow> split_byte CHR ''/'' (join ''/'' es) = es"
    using split_byte_join [OF _ ns] by simp
  then show ?thesis using ne
    by (cases "es = []") (auto simp: path_elems_def render_path_def filter_id_conv)
qed

lemma is_abs_render:
  assumes "\<forall>e\<in>set es. plain_elem e"
  shows "is_abs (render_path rooted es) = rooted"
proof -
  have "es \<noteq> [] \<Longrightarrow> \<not> has_prefix (join ''/'' es) ''/''"
  proof -
    assume "es \<noteq> []"
    then obtain e es' where es: "es = e # es'" by (cases es) auto
    then obtain c e' where "e = c # e'" "c \<noteq> CHR ''/''" using assms by (cases e) (auto simp: plain_elem_def)
    then show ?thesis using es by (cases es') auto
  qed
  then show ?thesis by (auto simp: is_abs_def render_path_def)
qed

lemma clean_elems_render:
  assumes "clean_form rooted es"
  shows "clean_elems (render_path rooted es) = es"
  using assms path_elems_render [of es rooted] is_abs_render [of es rooted] clean_step_id [OF assms]
  by (simp add: clean_elems_def clean_form_def)

lemma clean_elems_clean [simp]: "clean_elems (path_clean p) = clean_elems p"
  unfolding path_clean_def by (rule clean_elems_render [OF clean_elems_form])

lemma is_abs_clean [simp]: "is_abs (path_clean p) = is_abs p"
  using clean_elems_form [of p] by (auto simp: path_clean_def clean_form_def is_abs_render)

lemma path_clean_idem [simp]: "path_clean (path_clean p) = path_clean p"
  using is_abs_clean [of p] clean_elems_clean [of p] by (simp add: path_clean_def)

lemma path_elems_clean: "path_elems (path_clean p) = clean_elems p"
  using clean_elems_form [of p] by (simp add: path_clean_def clean_form_def path_elems_render)

subsection \<open>The parent of a clean path\<close>

lemma clean_form_butlast: "clean_form r (es @ [e]) \<Longrightarrow> clean_form r es"
proof -
  assume a: "clean_form r (es @ [e])"
  then obtain n ds where n: "es @ [e] = replicate n ''..'' @ ds" "''..'' \<notin> set ds" "r \<longrightarrow> n = 0"
    by (auto simp: clean_form_def)
  have "\<exists>m ds'. es = replicate m ''..'' @ ds' \<and> ''..'' \<notin> set ds' \<and> (r \<longrightarrow> m = 0)"
  proof (cases ds rule: rev_cases)
    case Nil
    then have n': "es @ [e] = replicate n ''..''" using n by simp
    then obtain k where k: "n = Suc k" by (cases n) auto
    then have "es = replicate k ''..''" using n' by (simp add: replicate_append_same [symmetric])
    then show ?thesis using n(3) k by (intro exI [of _ k] exI [of _ "[]"]) simp
  next
    case (snoc ds' d)
    then have "es = replicate n ''..'' @ ds'" using n(1) by simp
    then show ?thesis using n(2,3) snoc by auto
  qed
  then show ?thesis using a by (simp add: clean_form_def)
qed

lemma path_elems_slash: "path_elems (x @ ''/'') = path_elems x"
  using split_byte_at [of "CHR ''/''" x "[]"] by (simp add: path_elems_def)

lemma path_dir_slash: "CHR ''/'' \<notin> set e \<Longrightarrow> path_dir (x @ CHR ''/'' # e) = path_clean (x @ ''/'')"
  by (simp add: path_dir_def last_index_byte_append)

lemma path_clean_elems:
  assumes "path_elems p = es" "is_abs p = r" "clean_form r es"
  shows "path_clean p = render_path r es"
  using assms clean_step_id [OF assms(3)] by (simp add: path_clean_def clean_elems_def)

lemma path_dir_render:
  assumes "clean_form r (es @ [e])"
  shows "path_dir (render_path r (es @ [e])) = render_path r es"
proof -
  note f = clean_form_butlast [OF assms]
  have pl: "\<forall>x\<in>set es. plain_elem x" and e: "CHR ''/'' \<notin> set e"
    using assms by (auto simp: clean_form_def plain_elem_def)
  show ?thesis
  proof (cases "es = []")
    case True
    show ?thesis
    proof (cases r)
      case True
      have "path_dir ([] @ CHR ''/'' # e) = path_clean ([] @ ''/'')" by (rule path_dir_slash [OF e])
      moreover have "path_clean ''/'' = render_path True []"
        by (rule path_clean_elems) (simp_all add: path_elems_def is_abs_def clean_form_def)
      ultimately show ?thesis using True \<open>es = []\<close> by (simp add: render_path_def)
    next
      case False
      have "path_clean [] = render_path False []"
        by (rule path_clean_elems) (simp_all add: path_elems_def is_abs_def clean_form_def)
      then show ?thesis using False \<open>es = []\<close> e by (simp add: render_path_def path_dir_def last_index_byte_None [THEN iffD2])
    qed
  next
    case False
    have x: "render_path r (es @ [e]) = render_path r es @ CHR ''/'' # e"
      using False by (simp add: render_path_def join_append)
    have "path_clean (render_path r es @ ''/'') = render_path r es"
    proof (rule path_clean_elems)
      show "path_elems (render_path r es @ ''/'') = es" using pl by (simp add: path_elems_slash path_elems_render)
      have "render_path r es \<noteq> []"
        using False pl by (cases es; cases "tl es") (auto simp: render_path_def plain_elem_def)
      then show "is_abs (render_path r es @ ''/'') = r" using is_abs_render [OF pl, of r]
        by (cases "render_path r es") (auto simp: is_abs_def)
    qed (rule f)
    then show ?thesis by (simp add: x path_dir_slash [OF e])
  qed
qed

lemma path_dir_top: "path_dir (render_path r []) = render_path r []"
proof (cases r)
  case True
  have "path_clean ''/'' = render_path True []"
    by (rule path_clean_elems) (simp_all add: path_elems_def is_abs_def clean_form_def)
  then show ?thesis using True by (simp add: render_path_def path_dir_def)
next
  case False
  have "path_clean [] = render_path False []"
    by (rule path_clean_elems) (simp_all add: path_elems_def is_abs_def clean_form_def)
  then show ?thesis using False by (simp add: render_path_def path_dir_def)
qed

text \<open>The walk to the parent: a clean path loses an element, any other becomes clean.\<close>

definition path_height :: "string \<Rightarrow> nat" where
  "path_height p = length (clean_elems p) + (if path_clean p = p then 0 else length (path_elems p) + 1)"

lemma path_clean_render: "path_clean p = p \<Longrightarrow> p = render_path (is_abs p) (clean_elems p)"
  by (simp add: path_clean_def)

lemma path_dir_cases:
  assumes "path_clean p = p"
  obtains "path_dir p = p" "clean_elems p = []"
    | es e where "clean_elems p = es @ [e]" "path_dir p = render_path (is_abs p) es" "clean_form (is_abs p) es"
proof (cases "clean_elems p" rule: rev_cases)
  case Nil
  have "p = render_path (is_abs p) []" using path_clean_render [OF assms] Nil by simp
  then have "path_dir p = p" using path_dir_top by metis
  then show ?thesis using that(1) Nil by simp
next
  case (snoc es e)
  have f: "clean_form (is_abs p) (es @ [e])" using clean_elems_form [of p] snoc by simp
  have "p = render_path (is_abs p) (es @ [e])" using path_clean_render [OF assms] snoc by simp
  then have "path_dir p = render_path (is_abs p) es" using path_dir_render [OF f] by metis
  then show ?thesis using that(2) snoc clean_form_butlast [OF f] by simp
qed

lemma clean_elems_length: "length (clean_elems p) \<le> length (path_elems p)"
proof -
  have "length (foldl (clean_step r) out es) \<le> length out + length es" for r out es
  proof (induction es arbitrary: out)
    case (Cons e es)
    have "length (clean_step r out e) \<le> Suc (length out)" by auto
    then show ?case using Cons [of "clean_step r out e"] by simp
  qed simp
  from this [of "is_abs p" "[]" "path_elems p"] show ?thesis by (simp add: clean_elems_def)
qed

lemma path_dir_length: "length (clean_elems (path_dir p)) \<le> length (path_elems p)"
proof (cases "last_index_byte CHR ''/'' p")
  case None
  then have "clean_elems (path_dir p) = clean_elems []" by (simp add: path_dir_def)
  then show ?thesis by (simp add: clean_elems_def path_elems_def)
next
  case (Some i)
  then have p: "p = take i p @ CHR ''/'' # drop (Suc i) p" using last_index_byte_split by blast
  have i: "i < length p" using arg_cong [OF p, of length] by (cases "i < length p") auto
  have "p ! i = (take i p @ CHR ''/'' # drop (Suc i) p) ! i" using p by metis
  then have "p ! i = CHR ''/''" using i by (simp add: nth_append)
  then have "take (Suc i) p = take i p @ ''/''" using i by (simp add: take_Suc_conv_app_nth)
  then have "clean_elems (path_dir p) = clean_elems (take i p @ ''/'')" using Some by (simp add: path_dir_def)
  also have "length \<dots> \<le> length (path_elems (take i p))" using clean_elems_length path_elems_slash by metis
  also have "\<dots> \<le> length (path_elems (take i p @ CHR ''/'' # drop (Suc i) p))"
    unfolding path_elems_def split_byte_at by simp
  finally show ?thesis using p by simp
qed

lemma path_dir_height:
  assumes "path_dir p \<noteq> p"
  shows "path_height (path_dir p) < path_height p"
proof -
  have d: "path_height (path_dir p) = length (clean_elems (path_dir p))"
    by (simp add: path_height_def path_dir_def)
  show ?thesis
  proof (cases "path_clean p = p")
    case True
    then show ?thesis
    proof (cases rule: path_dir_cases)
      case 1
      then show ?thesis using assms by simp
    next
      case (2 es e)
      then show ?thesis using d True by (simp add: path_height_def clean_elems_render)
    qed
  next
    case False
    then show ?thesis using d path_dir_length [of p] by (simp add: path_height_def)
  qed
qed

end
