(* ===== verification/GoNumbers.thy ===== *)
theory GoNumbers
  imports GoStrings
begin

text \<open>
  Numbers as text: \<open>big.Int.Text\<close>, \<open>strconv.FormatUint\<close>, and the \<open>%d\<close> of \<open>fmt\<close> for a number that is
  not negative, with the proof that the digits read back.
\<close>

text \<open>\<open>big.Int.Text(base)\<close> of a number that is not negative, for a base up to 36.\<close>

definition digit_char :: "nat \<Rightarrow> char" where
  "digit_char d = char_of (if d < 10 then d + 48 else d + 87)"

function base_text :: "int \<Rightarrow> int \<Rightarrow> string" where
  "base_text b n =
     (if b < 2 \<or> n < b then [digit_char (nat n)]
      else base_text b (n div b) @ [digit_char (nat (n mod b))])"
  by auto
termination
proof (relation "measure (\<lambda>(b, n). nat n)")
  fix b n :: int assume "\<not> (b < 2 \<or> n < b)"
  then have "n div b < n" by (intro int_div_less_self) auto
  moreover have "0 < n" using \<open>\<not> (b < 2 \<or> n < b)\<close> by simp
  ultimately show "((b, n div b), b, n) \<in> measure (\<lambda>(b, n). nat n)" by simp
qed simp

declare base_text.simps [simp del]

lemma length_base_text: "1 < b \<Longrightarrow> n < b ^ Suc k \<Longrightarrow> length (base_text b n) \<le> Suc k"
proof (induction k arbitrary: n)
  case 0
  then show ?case by (simp add: base_text.simps)
next
  case (Suc k)
  have "n div b < b ^ Suc k"
  proof (rule ccontr)
    assume "\<not> n div b < b ^ Suc k"
    then have "b * b ^ Suc k \<le> b * (n div b)" using Suc.prems(1) by simp
    moreover have "b * (n div b) \<le> n" using Suc.prems(1) by (simp add: minus_mod_eq_mult_div [symmetric])
    ultimately show False using Suc.prems(2) by simp
  qed
  then show ?case using Suc by (subst base_text.simps) auto
qed

definition digit_val :: "char \<Rightarrow> int" where
  "digit_val c = int (if bval c < 58 then bval c - 48 else bval c - 87)"

lemma digit_val_char [simp]: "d < 36 \<Longrightarrow> digit_val (digit_char d) = int d"
  by (simp add: digit_val_def digit_char_def)

definition base_value :: "int \<Rightarrow> string \<Rightarrow> int" where
  "base_value b s = foldl (\<lambda>a c. a * b + digit_val c) 0 s"

lemma base_value_text: "1 < b \<Longrightarrow> b \<le> 36 \<Longrightarrow> 0 \<le> n \<Longrightarrow> base_value b (base_text b n) = n"
proof (induction b n rule: base_text.induct)
  case (1 b n)
  show ?case
  proof (cases "n < b")
    case True
    then show ?thesis using 1 by (simp add: base_text.simps base_value_def)
  next
    case False
    have "0 \<le> n mod b" "n mod b < b" using 1(2) by simp_all
    then have "digit_val (digit_char (nat (n mod b))) = n mod b" using 1(3) by simp
    then show ?thesis using 1 False
      by (subst base_text.simps) (simp add: base_value_def pos_imp_zdiv_nonneg_iff)
  qed
qed

lemma base_value_zeros: "base_value b (replicate k CHR ''0'' @ s) = base_value b s"
proof -
  have "foldl (\<lambda>a c. a * b + digit_val c) 0 (replicate k CHR ''0'') = 0"
    by (induction k) (auto simp: digit_val_def bval_def)
  then show ?thesis by (simp add: base_value_def)
qed

lemma base_text_digits:
  "1 < b \<Longrightarrow> 0 \<le> n \<Longrightarrow> c \<in> set (base_text b n) \<Longrightarrow> \<exists>d<nat b. c = digit_char d"
proof (induction b n rule: base_text.induct)
  case (1 b n)
  show ?case
  proof (cases "n < b")
    case True
    then show ?thesis using 1 by (auto simp: base_text.simps intro!: exI [of _ "nat n"])
  next
    case False
    then have "c \<in> set (base_text b (n div b)) \<or> c = digit_char (nat (n mod b))"
      using 1 by (subst (asm) (2) base_text.simps) auto
    moreover have "\<exists>d<nat b. digit_char (nat (n mod b)) = digit_char d"
      using 1(2) by (intro exI [of _ "nat (n mod b)"]) simp
    ultimately show ?thesis using 1 False by (auto simp: pos_imp_zdiv_nonneg_iff)
  qed
qed

definition nat_text :: "nat \<Rightarrow> string" where
  "nat_text n = base_text 10 (int n)"

lemma base_value_nat_text [simp]: "base_value 10 (nat_text n) = int n"
  unfolding nat_text_def by (rule base_value_text) simp_all

lemma nat_text_inject [simp]: "nat_text m = nat_text n \<longleftrightarrow> m = n"
proof
  assume "nat_text m = nat_text n"
  then have "base_value 10 (nat_text m) = base_value 10 (nat_text n)" by (rule arg_cong)
  then show "m = n" by (simp only: base_value_nat_text of_nat_eq_iff)
qed simp

text \<open>The value of a digit up to base 36, and of a run of digits.\<close>

definition digit_in :: "char \<Rightarrow> nat option" where
  "digit_in c = (if is_digit c then Some (bval c - 48)
     else if is_lower c then Some (bval c - 87) else if is_upper c then Some (bval c - 55) else None)"

lemma digit_in_char: "d < 36 \<Longrightarrow> digit_in (digit_char d) = Some d"
  by (simp add: digit_in_def digit_char_def is_digit_def is_lower_def is_upper_def)

lemma is_hex_digit_char: "d < 16 \<Longrightarrow> is_hex (digit_char d)"
  by (simp add: is_hex_def digit_char_def is_digit_def)

lemma is_digit_digit_char: "d < 10 \<Longrightarrow> is_digit (digit_char d)"
  by (simp add: digit_char_def is_digit_def)

lemma base_text_nonempty [simp]: "base_text b n \<noteq> []"
  by (simp add: base_text.simps)

lemma nat_text_digit: "c \<in> set (nat_text n) \<Longrightarrow> is_digit c"
  using base_text_digits [of 10 "int n" c] is_digit_digit_char by (auto simp: nat_text_def)

lemma nat_text_nonempty [simp]: "nat_text n \<noteq> []"
  by (simp add: nat_text_def)

definition nat_fold :: "nat \<Rightarrow> nat \<Rightarrow> string \<Rightarrow> nat" where
  "nat_fold b a s = foldl (\<lambda>a c. a * b + the (digit_in c)) a s"

lemma nat_fold_text:
  assumes "1 < b" "b \<le> 36"
  shows "nat_fold b 0 (base_text (int b) (int n)) = n"
proof -
  have "\<forall>c\<in>set s. \<exists>d<b. c = digit_char d \<Longrightarrow>
      int (nat_fold b a s) = foldl (\<lambda>a c. a * int b + digit_val c) (int a) s" for s a
  proof (induction s arbitrary: a)
    case (Cons c s)
    then obtain d where "d < b" "c = digit_char d" by auto
    then have "digit_val c = int d" "digit_in c = Some d" using assms by (simp_all add: digit_in_char)
    then show ?case using Cons.IH [of "a * b + d"] Cons.prems by (simp add: nat_fold_def)
  qed (simp add: nat_fold_def)
  from this [of "base_text (int b) (int n)" 0]
  have "int (nat_fold b 0 (base_text (int b) (int n))) = base_value (int b) (base_text (int b) (int n))"
    using base_text_digits [of "int b" "int n"] assms by (simp add: base_value_def)
  also have "\<dots> = int n" using assms by (intro base_value_text) simp_all
  finally show ?thesis by simp
qed

lemma nat_fold_mono: "0 < b \<Longrightarrow> a \<le> nat_fold b a s"
proof (induction s arbitrary: a)
  case (Cons c s)
  have "a \<le> a * b + the (digit_in c)" using Cons.prems by (simp add: trans_le_add1)
  also have "\<dots> \<le> nat_fold b (a * b + the (digit_in c)) s" using Cons by blast
  finally show ?case by (simp add: nat_fold_def)
qed (simp add: nat_fold_def)

lemma hd_base_text: "1 < b \<Longrightarrow> b \<le> 36 \<Longrightarrow> 0 < n \<Longrightarrow> hd (base_text b n) \<noteq> CHR ''0''"
proof (induction b n rule: base_text.induct)
  case (1 b n)
  show ?case
  proof (cases "n < b")
    case True
    then have "digit_in (digit_char (nat n)) \<noteq> digit_in CHR ''0''" using 1(2-) digit_in_char [of "nat n"] digit_in_char [of 0]
      by (auto simp: digit_in_def is_digit_def bval_def)
    then show ?thesis using True by (auto simp: base_text.simps)
  next
    case False
    then have "0 < n div b" using 1(2-) by (simp add: pos_imp_zdiv_pos_iff)
    then show ?thesis using 1 False by (subst base_text.simps) auto
  qed
qed

lemma nat_text_first: "n \<noteq> 0 \<Longrightarrow> hd (nat_text n) \<noteq> CHR ''0''"
  unfolding nat_text_def by (rule hd_base_text) auto

lemma nat_text_0 [simp]: "nat_text 0 = ''0''"
  by code_simp

lemma digit_in_digit: "is_digit c \<Longrightarrow> \<exists>d<10. digit_in c = Some d"
  by (auto simp: digit_in_def is_digit_def)

end
