(* ===== verification/Sha256.thy ===== *)
theory Sha256
  imports GoNumbers "HOL-Library.Word"
begin

text \<open>
  SHA-256 as Go's \<open>crypto/sha256.Sum256\<close> computes it, on 32-bit words that wrap. The device container id (theory Varsub) and the
  build cache keys are made of it.
\<close>

unbundle bit_operations_syntax

type_synonym w32 = "32 word"

definition rotr :: "nat \<Rightarrow> w32 \<Rightarrow> w32" where
  "rotr n x = (drop_bit n x) OR (push_bit (32 - n) x)"

text \<open>
  The constants are the fractional parts of the roots of the first primes (FIPS 180-4): 32 bits of
  the cube roots of 64 of them, and of the square roots of eight.
\<close>

definition primes64 :: "int list" where
  "primes64 = filter (\<lambda>p. list_all (\<lambda>d. p mod d \<noteq> 0) (filter (\<lambda>d. d < p) [2, 3, 5, 7, 11, 13, 17]))
     [2..311]"

fun int_root :: "nat \<Rightarrow> int \<Rightarrow> nat \<Rightarrow> int \<Rightarrow> int" where
  "int_root e n 0 r = r"
| "int_root e n (Suc b) r = int_root e n b (if (r + 2 ^ b) ^ e \<le> n then r + 2 ^ b else r)"

definition root_bits :: "nat \<Rightarrow> int \<Rightarrow> w32" where
  "root_bits e p = word_of_int (int_root e (p * 2 ^ (32 * e)) 40 0)"

definition sha_k :: "w32 list" where
  "sha_k = map (root_bits 3) primes64"

definition sha_init :: "w32 list" where
  "sha_init = map (root_bits 2) [2, 3, 5, 7, 11, 13, 17, 19]"

definition big_end :: "int list \<Rightarrow> int" where
  "big_end bs = foldl (\<lambda>a b. a * 256 + b) 0 bs"

fun big_bytes :: "nat \<Rightarrow> int \<Rightarrow> int list" where
  "big_bytes 0 n = []"
| "big_bytes (Suc k) n = big_bytes k (n div 256) @ [n mod 256]"

text \<open>The padded message as byte values: 0x80, zeros, and the bit length in eight bytes.\<close>

definition sha_pad :: "string \<Rightarrow> int list" where
  "sha_pad s = map (\<lambda>c. int (bval c)) s @ 0x80 # replicate ((119 - length s mod 64) mod 64) 0
     @ big_bytes 8 ((8 * int (length s)) mod 2 ^ 64)"

fun blocks :: "nat \<Rightarrow> nat \<Rightarrow> 'a list \<Rightarrow> 'a list list" where
  "blocks 0 n xs = []"
| "blocks (Suc k) n xs = take n xs # blocks k n (drop n xs)"

text \<open>The message schedule, latest word first.\<close>

fun sha_extend :: "nat \<Rightarrow> w32 list \<Rightarrow> w32 list" where
  "sha_extend 0 ws = ws"
| "sha_extend (Suc k) ws =
     (let a = ws ! 1; b = ws ! 14;
          s1 = (rotr 17 a) XOR (rotr 19 a) XOR (drop_bit 10 a);
          s0 = (rotr 7 b) XOR (rotr 18 b) XOR (drop_bit 3 b)
      in sha_extend k ((s1 + ws ! 6 + s0 + ws ! 15) # ws))"

definition sha_schedule :: "int list \<Rightarrow> w32 list" where
  "sha_schedule block = rev (sha_extend 48 (rev (map (\<lambda>b. word_of_int (big_end b)) (blocks 16 4 block))))"

fun sha_round :: "w32 list \<Rightarrow> w32 \<times> w32 \<Rightarrow> w32 list" where
  "sha_round [a, b, c, d, e, f, g, h] (k, w) =
     (let t1 = h + ((rotr 6 e) XOR (rotr 11 e) XOR (rotr 25 e)) + ((e AND f) XOR ((NOT e) AND g)) + k + w;
          t2 = ((rotr 2 a) XOR (rotr 13 a) XOR (rotr 22 a)) + ((a AND b) XOR (a AND c) XOR (b AND c))
      in [t1 + t2, a, b, c, d + t1, e, f, g])"
| "sha_round xs kw = xs"

definition sha_block :: "w32 list \<Rightarrow> int list \<Rightarrow> w32 list" where
  "sha_block h block = map2 (+) h (foldl sha_round h (zip sha_k (sha_schedule block)))"

definition sha256 :: "string \<Rightarrow> int list" where
  "sha256 s = (let p = sha_pad s
     in concat (map (\<lambda>w. big_bytes 4 (uint w))
          (foldl sha_block sha_init (blocks (length p div 64) 64 p))))"

subsection \<open>Shape of the digest\<close>

lemma length_big_bytes [simp]: "length (big_bytes k n) = k"
  by (induction k arbitrary: n) auto

lemma big_bytes_range: "b \<in> set (big_bytes k n) \<Longrightarrow> 0 \<le> b \<and> b < 256"
  by (induction k arbitrary: n) auto

lemma length_sha_round [simp]: "length (sha_round xs kw) = length xs"
  by (induction xs kw rule: sha_round.induct) (simp_all add: Let_def)

lemma length_foldl_sha_round [simp]: "length (foldl sha_round h kws) = length h"
  by (induction kws arbitrary: h) auto

lemma length_foldl_sha_block [simp]: "length (foldl sha_block h bs) = length h"
  by (induction bs arbitrary: h) (auto simp: sha_block_def)

lemma length_sha256 [simp]: "length (sha256 s) = 32"
proof -
  have "length (concat (map (\<lambda>w. big_bytes 4 (uint w)) ws)) = 4 * length (ws :: w32 list)" for ws
    by (induction ws) auto
  then show ?thesis by (simp add: sha256_def Let_def sha_init_def)
qed

lemma sha256_bytes: "b \<in> set (sha256 s) \<Longrightarrow> 0 \<le> b \<and> b < 256"
  by (auto simp: sha256_def Let_def dest: big_bytes_range)

lemma length_sha_pad: "length (sha_pad s) mod 64 = 0"
proof -
  define m where "m = length s mod 64"
  have m: "m < 64" by (simp add: m_def)
  have "(m + 1 + (119 - m) mod 64 + 8) mod 64 = 0" using m
    by (cases "m < 56") (auto simp: mod_if)
  then have "(length s + (1 + (119 - m) mod 64 + 8)) mod 64 = 0"
    unfolding m_def by (metis (no_types) add.assoc mod_add_left_eq)
  then show ?thesis unfolding sha_pad_def m_def by (simp add: add.assoc)
qed

subsection \<open>Numbers in a base\<close>

lemma big_end_snoc: "big_end (bs @ [b]) = big_end bs * 256 + b"
  by (simp add: big_end_def)

lemma big_end_bound: "\<forall>b\<in>set bs. 0 \<le> b \<and> b < 256 \<Longrightarrow> 0 \<le> big_end bs \<and> big_end bs < 256 ^ length bs"
proof (induction bs rule: rev_induct)
  case Nil
  then show ?case by (simp add: big_end_def)
next
  case (snoc b bs)
  then have "0 \<le> big_end bs" "big_end bs + 1 \<le> 256 ^ length bs" "0 \<le> b" "b < 256" by auto
  moreover from this(2) have "(big_end bs + 1) * 256 \<le> 256 ^ length bs * 256" by simp
  ultimately show ?case by (simp add: big_end_snoc algebra_simps)
qed

lemma big_end_inj:
  assumes "length as = length bs" "\<forall>b\<in>set as. 0 \<le> b \<and> b < 256" "\<forall>b\<in>set bs. 0 \<le> b \<and> b < 256"
    and "big_end as = big_end bs"
  shows "as = bs"
  using assms
proof (induction as arbitrary: bs rule: rev_induct)
  case Nil
  then show ?case by simp
next
  case (snoc a as)
  then obtain b bs' where bs: "bs = bs' @ [b]" by (cases bs rule: rev_cases) auto
  have lt: "0 \<le> a" "a < 256" "0 \<le> b" "b < 256" using snoc.prems bs by auto
  have eq: "big_end as * 256 + a = big_end bs' * 256 + b" using snoc.prems bs by (simp add: big_end_snoc)
  have "a = (big_end as * 256 + a) mod 256" "b = (big_end bs' * 256 + b) mod 256" using lt by simp_all
  then have "a = b" using eq by simp
  moreover from this have "big_end as = big_end bs'" using eq by simp
  ultimately have "a = b" "big_end as = big_end bs'" by simp_all
  then show ?case using snoc.IH [of bs'] snoc.prems bs by simp
qed

end
