(* ===== verification/Varsub.thy ===== *)
theory Varsub
  imports Json GoPath Sha256
begin

text \<open>
  \<open>internal/config/varsub.go\<close>: substitution of \<open>${...}\<close> tags, one phase at a time, and the
  device container id. The Unicode part of \<open>strings.ToLower\<close> (bytes past 0x7F) is the argument
  \<open>ulow\<close>; it matters on Windows only.
\<close>

datatype sub_phase = PhaseHost | PhaseIdentity | PhaseContainer | PhaseOther nat

datatype sub_error = ContainerError string | UnknownPhase nat

record host_ctx =
  platform :: string
  local_workspace_folder :: string
  container_workspace_folder :: string
  host_env :: "string gomap"
  config_file_path :: string

record sub_ctx =
  host_sub :: host_ctx
  id_labels :: "string gomap option"
  dev_container_id :: string
  container_env :: "string gomap"

subsection \<open>Scanning tags\<close>

definition tag_open :: string where
  "tag_open = [CHR ''$'', CHR 0x7B]"

definition tag_close :: char where
  "tag_close = CHR 0x7D"

text \<open>
  The loop of \<open>substituteTags\<close>. \<open>replace\<close> answers an error, \<open>Some v\<close> for a tag it handles,
  \<open>None\<close> for one it leaves.
\<close>

function substitute_tags ::
  "(string \<Rightarrow> ('e, string option) res) \<Rightarrow> string \<Rightarrow> ('e, string) res" where
  "substitute_tags replace s =
     (case index_sub s tag_open of
        None \<Rightarrow> Inr s
      | Some i \<Rightarrow>
          (let rest = drop (i + 2) s in
           case index_byte tag_close rest of
             None \<Rightarrow> Inr (take i s @ tag_open @ rest)
           | Some j \<Rightarrow>
               (let tag = take j rest in
                case replace tag of
                  Inl e \<Rightarrow> Inl e
                | Inr r \<Rightarrow>
                    (case substitute_tags replace (drop (j + 1) rest) of
                       Inl e \<Rightarrow> Inl e
                     | Inr out \<Rightarrow> Inr (take i s
                         @ (case r of Some v \<Rightarrow> v | None \<Rightarrow> tag_open @ tag @ [tag_close]) @ out)))))"
  by pat_completeness auto
termination
proof (relation "measure (\<lambda>(_, s). length s)")
  fix replace :: "string \<Rightarrow> ('e, string option) res" and s i x j
  assume "index_sub s tag_open = Some i" and x: "x = drop (i + 2) s" "index_byte tag_close x = Some j"
  then have "length s > 0" using index_sub_split [of s tag_open i] by (auto simp: tag_open_def)
  then show "((replace, drop (j + 1) x), (replace, s)) \<in> measure (\<lambda>(_, s). length s)"
    by (auto simp: x)
qed auto

declare substitute_tags.simps [simp del]

subsection \<open>The values tags stand for\<close>

text \<open>\<open>posixBasename\<close> and \<open>winBasename\<close>: what follows the last separator.\<close>

definition after_last :: "(char \<Rightarrow> bool) \<Rightarrow> string \<Rightarrow> string" where
  "after_last sep p = rev (takeWhile (\<lambda>c. \<not> sep c) (rev p))"

definition posix_basename :: "string \<Rightarrow> string" where
  "posix_basename p = after_last (\<lambda>c. c = CHR ''/'') (trim_right p ''/'')"

definition win_sep :: string where
  "win_sep = [CHR ''/'', CHR 0x5C]"

definition drive_letter :: "char \<Rightarrow> bool" where
  "drive_letter c \<longleftrightarrow> is_lower c \<or> is_upper c"

definition win_basename :: "string \<Rightarrow> string" where
  "win_basename p =
     (let q = (if length p \<ge> 2 \<and> p ! 1 = CHR '':'' \<and> drive_letter (p ! 0) then drop 2 p else p)
      in after_last (\<lambda>c. c \<in> set win_sep) (trim_right q win_sep))"

definition normalize_env_keys :: "(string \<Rightarrow> string) \<Rightarrow> string gomap \<Rightarrow> string gomap" where
  "normalize_env_keys ulow env = fold (\<lambda>(k, v). aput (to_lower ulow k) v) env []"

definition no_env_name :: "string \<Rightarrow> string \<Rightarrow> sub_error" where
  "no_env_name tag config_file =
     ContainerError (CHR 0x27 # tag_open @ tag @ [tag_close, CHR 0x27]
       @ (if config_file \<noteq> [] then '' in '' @ path_base config_file else [])
       @ '' can not be resolved because no environment variable name is given.'')"

definition resolve_env_tag ::
  "(string \<Rightarrow> string) \<Rightarrow> bool \<Rightarrow> string gomap \<Rightarrow> string list \<Rightarrow> string \<Rightarrow> string
     \<Rightarrow> (sub_error, string option) res" where
  "resolve_env_tag ulow is_win env args tag config_file =
     (case args of
        [] \<Rightarrow> Inl (no_env_name tag config_file)
      | name # deflt \<Rightarrow>
          (let name' = (if is_win then to_lower ulow name else name);
               env' = (if is_win then normalize_env_keys ulow env else env)
           in case map_of env' name' of
                Some v \<Rightarrow> Inr (Some v)
              | None \<Rightarrow> (if deflt \<noteq> [] then Inr (Some (join '':'' deflt)) else Inr (Some []))))"

definition some_nonempty :: "string \<Rightarrow> (string \<Rightarrow> string) \<Rightarrow> string option" where
  "some_nonempty s f = (if s \<noteq> [] then Some (f s) else None)"

definition resolve_host_tag ::
  "(string \<Rightarrow> string) \<Rightarrow> host_ctx \<Rightarrow> string \<Rightarrow> string list \<Rightarrow> string \<Rightarrow> (sub_error, string option) res" where
  "resolve_host_tag ulow ctx variable args tag =
     (let is_win = (platform ctx = ''win32'') in
      if variable = ''env'' \<or> variable = ''localEnv''
      then resolve_env_tag ulow is_win (host_env ctx) args tag (config_file_path ctx)
      else if variable = ''localWorkspaceFolder''
      then Inr (some_nonempty (local_workspace_folder ctx) id)
      else if variable = ''localWorkspaceFolderBasename''
      then Inr (some_nonempty (local_workspace_folder ctx) (if is_win then win_basename else posix_basename))
      else if variable = ''containerWorkspaceFolder''
      then Inr (some_nonempty (container_workspace_folder ctx) id)
      else if variable = ''containerWorkspaceFolderBasename''
      then Inr (some_nonempty (container_workspace_folder ctx) posix_basename)
      else Inr None)"

subsection \<open>The device container id\<close>

text \<open>Keys in UTF-16 code unit order; the keys of one map are distinct, so the sort has one result
  (up to keys that are not UTF-8 and encode alike).\<close>

definition utf16_of :: "string \<Rightarrow> nat list" where
  "utf16_of s = utf16_encode (runes s)"

definition utf16_sorted_keys :: "string gomap \<Rightarrow> string list" where
  "utf16_sorted_keys m = sort_key utf16_of (map fst m)"

definition json_member :: "string gomap \<Rightarrow> string \<Rightarrow> string" where
  "json_member m k = write_js_string k @ '':'' @ write_js_string (the (map_of m k))"

definition json_stringify_sorted :: "string gomap \<Rightarrow> string" where
  "json_stringify_sorted m =
     CHR 0x7B # join '','' (map (json_member m) (utf16_sorted_keys m)) @ [CHR 0x7D]"

definition compute_dev_container_id :: "string gomap \<Rightarrow> string" where
  "compute_dev_container_id labels =
     (let str = base_text 32 (big_end (sha256 (json_stringify_sorted labels)))
      in replicate (52 - length str) CHR ''0'' @ str)"

subsection \<open>One phase over a value\<close>

definition resolve_tag ::
  "(string \<Rightarrow> string) \<Rightarrow> sub_ctx \<Rightarrow> sub_phase \<Rightarrow> string \<Rightarrow> (sub_error, string option) res" where
  "resolve_tag ulow ctx phase tag =
     (let parts = split_byte CHR '':'' tag; variable = hd parts; args = tl parts in
      case phase of
        PhaseHost \<Rightarrow> resolve_host_tag ulow (host_sub ctx) variable args tag
      | PhaseIdentity \<Rightarrow>
          (if variable \<noteq> ''devcontainerId'' then Inr None
           else (let i = (if dev_container_id ctx = []
                          then (case id_labels ctx of Some ls \<Rightarrow> compute_dev_container_id ls | None \<Rightarrow> [])
                          else dev_container_id ctx)
                 in Inr (some_nonempty i id)))
      | PhaseContainer \<Rightarrow>
          (if variable \<noteq> ''containerEnv'' then Inr None
           else resolve_env_tag ulow (platform (host_sub ctx) = ''win32'') (container_env ctx) args tag
                  (config_file_path (host_sub ctx)))
      | PhaseOther n \<Rightarrow> Inl (UnknownPhase n))"

definition resolve_string ::
  "(string \<Rightarrow> string) \<Rightarrow> sub_ctx \<Rightarrow> sub_phase \<Rightarrow> string \<Rightarrow> (sub_error, string) res" where
  "resolve_string ulow ctx phase s = substitute_tags (resolve_tag ulow ctx phase) s"

fun resolve_recursive ::
  "(string \<Rightarrow> string) \<Rightarrow> sub_ctx \<Rightarrow> sub_phase \<Rightarrow> json \<Rightarrow> (sub_error, json) res" where
  "resolve_recursive ulow ctx phase (JStr s) = bind_res (resolve_string ulow ctx phase s) (\<lambda>r. Inr (JStr r))"
| "resolve_recursive ulow ctx phase (JArr vs) =
     bind_res (traverse (resolve_recursive ulow ctx phase) vs) (\<lambda>rs. Inr (JArr rs))"
| "resolve_recursive ulow ctx phase (JObj m) =
     bind_res (traverse (\<lambda>p. bind_res (resolve_recursive ulow ctx phase (snd p)) (\<lambda>r. Inr (fst p, r))) m)
       (\<lambda>m'. Inr (JObj m'))"
| "resolve_recursive ulow ctx phase v = Inr v"

definition resolve_value ::
  "(string \<Rightarrow> string) \<Rightarrow> sub_ctx \<Rightarrow> sub_phase \<Rightarrow> json \<Rightarrow> (sub_error, json) res" where
  "resolve_value ulow ctx phase v =
     (let cwf = container_workspace_folder (host_sub ctx) in
      if phase = PhaseHost \<and> cwf \<noteq> []
      then bind_res (resolve_string ulow ctx phase cwf) (\<lambda>r.
             resolve_recursive ulow
               (ctx\<lparr>host_sub := (host_sub ctx)\<lparr>container_workspace_folder := r\<rparr>\<rparr>) phase v)
      else resolve_recursive ulow ctx phase v)"

text \<open>\<open>BeforeContainerInto\<close> on the decoded value: the host phase, then the identity phase.\<close>

definition before_container ::
  "(string \<Rightarrow> string) \<Rightarrow> sub_ctx \<Rightarrow> json \<Rightarrow> (sub_error, json) res" where
  "before_container ulow ctx v =
     bind_res (resolve_value ulow ctx PhaseHost v) (resolve_value ulow ctx PhaseIdentity)"

subsection \<open>What substitution does to a text\<close>

text \<open>A text as its tags, each after a literal, and the literal that ends it.\<close>

definition template :: "(string \<times> string) list \<Rightarrow> string \<Rightarrow> string" where
  "template gs z = concat (map (\<lambda>(l, t). l @ tag_open @ t @ [tag_close]) gs) @ z"

definition fill :: "(string \<times> string) list \<Rightarrow> string option list \<Rightarrow> string \<Rightarrow> string" where
  "fill gs rs z = concat (map (\<lambda>((l, t), r). l @ (case r of Some v \<Rightarrow> v
     | None \<Rightarrow> tag_open @ t @ [tag_close])) (zip gs rs)) @ z"

definition seg_wf :: "string \<times> string \<Rightarrow> bool" where
  "seg_wf g \<longleftrightarrow> \<not> contains_sub (fst g) tag_open \<and> tag_close \<notin> set (snd g)"

text \<open>A text no tag of which is complete.\<close>

definition no_tag :: "string \<Rightarrow> bool" where
  "no_tag s \<longleftrightarrow> (case index_sub s tag_open of None \<Rightarrow> True
     | Some i \<Rightarrow> tag_close \<notin> set (drop (i + 2) s))"

lemma template_simps [simp]:
  "template [] z = z"
  "template ((l, t) # gs) z = l @ tag_open @ t @ tag_close # template gs z"
  by (simp_all add: template_def)

lemma fill_simps [simp]:
  "fill [] rs z = z"
  "fill ((l, t) # gs) (r # rs) z =
     l @ (case r of Some v \<Rightarrow> v | None \<Rightarrow> tag_open @ t @ [tag_close]) @ fill gs rs z"
  by (simp_all add: fill_def)

lemma index_tag_open:
  "\<not> contains_sub l tag_open \<Longrightarrow> index_sub (l @ tag_open @ r) tag_open = Some (length l)"
proof (induction l)
  case Nil
  then show ?case by (simp add: tag_open_def has_prefix_def)
next
  case (Cons c l)
  have "\<not> contains_sub l tag_open"
    using Cons.prems by (auto simp: contains_sub_iff) (metis append_Cons)
  moreover have "\<not> has_prefix (c # l @ tag_open @ r) tag_open"
  proof
    assume p: "has_prefix (c # l @ tag_open @ r) tag_open"
    then have "c = CHR ''$''" "l \<noteq> [] \<and> hd l = CHR 0x7B"
      by (cases l; auto simp: tag_open_def has_prefix_iff)+
    then have "c # l = [] @ tag_open @ tl l" by (cases l) (auto simp: tag_open_def)
    then show False using Cons.prems by (metis contains_sub_iff)
  qed
  ultimately show ?case using Cons.IH by simp
qed

lemma substitute_tags_tail: "no_tag s \<Longrightarrow> substitute_tags f s = Inr s"
proof (cases "index_sub s tag_open")
  case None
  then show ?thesis by (subst substitute_tags.simps) simp
next
  case (Some i)
  assume "no_tag s"
  then have "index_byte tag_close (drop (i + 2) s) = None"
    using Some by (simp add: no_tag_def index_byte_None)
  moreover have "take i s @ tag_open @ drop (i + 2) s = s"
    using index_sub_split [OF Some] by (simp add: tag_open_def)
  ultimately show ?thesis using Some by (subst substitute_tags.simps) (simp add: Let_def)
qed

lemma substitute_tags_step:
  assumes "seg_wf (l, t)"
  shows "substitute_tags f (l @ tag_open @ t @ tag_close # s) =
    (case f t of Inl e \<Rightarrow> Inl e
     | Inr r \<Rightarrow> (case substitute_tags f s of Inl e \<Rightarrow> Inl e
        | Inr out \<Rightarrow> Inr (l @ (case r of Some v \<Rightarrow> v | None \<Rightarrow> tag_open @ t @ [tag_close]) @ out)))"
proof -
  have i: "index_sub (l @ tag_open @ t @ tag_close # s) tag_open = Some (length l)"
    using assms index_tag_open by (simp add: seg_wf_def)
  have d: "drop (length l + 2) (l @ tag_open @ t @ tag_close # s) = t @ tag_close # s"
    by (simp add: tag_open_def)
  have j: "index_byte tag_close (t @ tag_close # s) = Some (length t)"
    using assms by (intro index_byte_append) (simp add: seg_wf_def)
  have p: "take (length l) (l @ x) = l" "take (length t) (t @ y) = t"
    "drop (length t + 1) (t @ c # y) = y" for x y c by simp_all
  show ?thesis by (subst substitute_tags.simps) (simp only: i d j p option.case Let_def)
qed

text \<open>C13. Substitution of a text is what its tags say: for literals without an opening \<open>${\<close> and tags
  without \<open>}\<close>, the result is the same text with every handled tag replaced by its value and every
  unhandled one left verbatim, the tags being asked left to right, the first error ending the
  whole. Replacement values are never scanned again.\<close>

theorem substitute_tags_template:
  assumes "\<forall>g\<in>set gs. seg_wf g" and "no_tag z"
  shows "substitute_tags f (template gs z) =
    bind_res (traverse (\<lambda>g. f (snd g)) gs) (\<lambda>rs. Inr (fill gs rs z))"
  using assms
proof (induction gs)
  case Nil
  then show ?case by (simp add: substitute_tags_tail)
next
  case (Cons g gs)
  obtain l t where g: "g = (l, t)" by force
  show ?case using Cons by (auto simp: g substitute_tags_step bind_res_def split: sum.splits)
qed

theorem substitute_tags_template_witness:
  "substitute_tags (\<lambda>t. if t = ''a'' then Inr (Some ''${b}'') else Inr (None :: string option))
     (template [(''x-'', ''a''), (''-'', ''c'')] ''$'') = (Inr ''x-${b}-${c}$'' :: (nat, string) res)"
  using substitute_tags_template [of "[(''x-'', ''a''), (''-'', ''c'')]" "''$''"
      "\<lambda>t. if t = ''a'' then Inr (Some ''${b}'') else Inr (None :: string option)"]
  by (simp add: seg_wf_def no_tag_def contains_sub_def tag_open_def tag_close_def has_prefix_def)

text \<open>Every text has that form.\<close>

lemma template_exists: "\<exists>gs z. s = template gs z \<and> (\<forall>g\<in>set gs. seg_wf g) \<and> no_tag z"
proof (induction "length s" arbitrary: s rule: less_induct)
  case less
  show ?case
  proof (cases "no_tag s")
    case True
    then show ?thesis by (metis empty_iff list.set(1) template_simps(1))
  next
    case False
    then obtain i where i: "index_sub s tag_open = Some i" and c: "tag_close \<in> set (drop (i + 2) s)"
      by (auto simp: no_tag_def split: option.splits)
    obtain t r where tr: "drop (i + 2) s = t @ tag_close # r" "tag_close \<notin> set t"
      using split_list_first [OF c] by blast
    have s: "s = take i s @ tag_open @ t @ tag_close # r"
      using index_sub_split [OF i] tr by (simp add: tag_open_def)
    have len: "length r < length s" using arg_cong [OF s, of length] by simp
    obtain gs z where "r = template gs z" "\<forall>g\<in>set gs. seg_wf g" "no_tag z"
      using less [OF len] by blast
    moreover have "\<not> contains_sub (take i s) tag_open"
      using index_sub_first [OF i] by (simp add: tag_open_def)
    ultimately have "s = template ((take i s, t) # gs) z \<and> (\<forall>g\<in>set ((take i s, t) # gs). seg_wf g) \<and> no_tag z"
      using s tr by (simp add: seg_wf_def)
    then show ?thesis by blast
  qed
qed

subsection \<open>The labels' text determines the labels\<close>

text \<open>Strings that are UTF-8, as every string decoded from JSON or a flag normally is.\<close>

lemma utf16_of_inj: "utf8_ok s \<Longrightarrow> utf8_ok t \<Longrightarrow> utf16_of s = utf16_of t \<Longrightarrow> s = t"
  unfolding utf16_of_def using utf8_ok_inj utf16_encode_inj runes_valid by blast

definition rune_member :: "nat list \<times> nat list \<Rightarrow> nat list" where
  "rune_member p = 34 # concat (map esc_runes (fst p)) @ 34 # 58 # 34 # concat (map esc_runes (snd p)) @ [34]"

fun rune_text :: "(nat list \<times> nat list) list \<Rightarrow> nat list" where
  "rune_text [] = [125]"
| "rune_text [p] = rune_member p @ [125]"
| "rune_text (p # q # ps) = rune_member p @ 44 # rune_text (q # ps)"

lemma runes_write_js_string:
  "runes (write_js_string s @ t) = 34 # concat (map esc_runes (runes s)) @ 34 # runes t"
  using runes_valid concat_runes_escape [of "runes s" "CHR 0x22 # t"]
  by (simp add: write_js_string_def runes_ascii_Cons bval_def del: runes.simps)

lemma runes_json_member:
  "runes (json_member m k @ t) = rune_member (runes k, runes (the (map_of m k))) @ runes t"
  using runes_write_js_string [of k "'':'' @ write_js_string (the (map_of m k)) @ t"]
    runes_write_js_string [of "the (map_of m k)" t]
  by (simp add: json_member_def rune_member_def runes_ascii_Cons bval_def del: runes.simps)

lemma runes_join_members:
  "runes (join '','' (map (json_member m) ks) @ [CHR 0x7D]) =
   rune_text (map (\<lambda>k. (runes k, runes (the (map_of m k)))) ks)"
proof (induction ks rule: induct_list012)
  case (2 k)
  then show ?case using runes_json_member [of m k "[CHR 0x7D]"]
    by (simp add: runes_ascii_Cons bval_def del: runes.simps(2))
next
  case (3 k k' ks)
  then show ?case
    using runes_json_member [of m k "'','' @ join '','' (map (json_member m) (k' # ks)) @ [CHR 0x7D]"]
    by (simp add: runes_ascii_Cons bval_def del: runes.simps)
qed (simp add: runes_ascii_Cons bval_def del: runes.simps(2))

lemma rune_member_prefix: "rune_member p @ a = rune_member q @ b \<Longrightarrow> p = q \<and> a = b"
proof -
  assume eq: "rune_member p @ a = rune_member q @ b"
  then have k: "fst p = fst q \<and> 58 # 34 # concat (map esc_runes (snd p)) @ 34 # a
      = 58 # 34 # concat (map esc_runes (snd q)) @ 34 # b"
    by (intro concat_esc_prefix) (simp add: rune_member_def)
  then have "snd p = snd q \<and> a = b" by (intro concat_esc_prefix) simp
  then show ?thesis using k by (auto intro: prod_eqI)
qed

lemma rune_text_inj: "rune_text ps = rune_text qs \<Longrightarrow> ps = qs"
proof (induction ps arbitrary: qs rule: rune_text.induct)
  case 1
  then show ?case by (cases qs rule: rune_text.cases) (auto simp: rune_member_def)
next
  case (2 p)
  show ?case
  proof (cases qs rule: rune_text.cases)
    case 1
    then show ?thesis using "2" by (simp add: rune_member_def)
  next
    case (2 q)
    then show ?thesis using "2.prems" rune_member_prefix [of p "[125]" q] by simp
  next
    case (3 q q' qs')
    then show ?thesis using "2.prems" rune_member_prefix [of p "[125]" q] by fastforce
  qed
next
  case (3 p p' ps)
  show ?case
  proof (cases qs rule: rune_text.cases)
    case 1
    then show ?thesis using "3.prems" by (simp add: rune_member_def)
  next
    case (2 q)
    then show ?thesis using "3.prems" rune_member_prefix [of p "44 # rune_text (p' # ps)" q] by simp
  next
    case (3 q q' qs')
    then show ?thesis
      using "3.prems" "3.IH" rune_member_prefix [of p "44 # rune_text (p' # ps)" q] by simp
  qed
qed

lemma sort_key_determined:
  assumes "set xs = set ys" "distinct xs" "distinct ys" "inj_on f (set xs)"
  shows "sort_key f xs = sort_key f ys"
proof -
  have "map f (sort_key f xs) = map f (sort_key f ys)"
  proof (rule sorted_distinct_set_unique)
    show "distinct (map f (sort_key f xs))" "distinct (map f (sort_key f ys))"
      using assms by (simp_all add: distinct_map)
    show "set (map f (sort_key f xs)) = set (map f (sort_key f ys))" using assms(1) by simp
  qed simp_all
  then show ?thesis by (rule map_inj_on) (use assms in simp)
qed

lemma encode_ascii: "is_ascii c \<Longrightarrow> encode_rune (bval c) = [c]"
  by (simp add: encode_rune_def encode_valid_def valid_rune_def is_surrogate_def is_ascii_def)

lemma utf8_ok_ascii: "\<forall>c\<in>set s. is_ascii c \<Longrightarrow> utf8_ok s"
proof -
  assume a: "\<forall>c\<in>set s. is_ascii c"
  then have "concat (map (\<lambda>c. encode_rune (bval c)) s) = s" by (induction s) (auto simp: encode_ascii)
  then show ?thesis using a by (simp add: utf8_ok_def runes_ascii of_runes_def comp_def)
qed

definition labels_ok :: "string gomap \<Rightarrow> bool" where
  "labels_ok m \<longleftrightarrow> distinct (map fst m) \<and> (\<forall>p\<in>set m. utf8_ok (fst p) \<and> utf8_ok (snd p))"

lemma labels_ok_lookup: "labels_ok m \<Longrightarrow> map_of m k = Some v \<Longrightarrow> utf8_ok k \<and> utf8_ok v"
  by (auto simp: labels_ok_def dest!: map_of_SomeD)

lemma set_utf16_sorted_keys [simp]: "set (utf16_sorted_keys m) = fst ` set m"
  by (simp add: utf16_sorted_keys_def)

lemma utf16_sorted_keys_cong:
  assumes "labels_ok m" "labels_ok m'" "fst ` set m = fst ` set m'"
  shows "utf16_sorted_keys m = utf16_sorted_keys m'"
proof -
  have "utf8_ok k" if "k \<in> fst ` set m" for k using assms(1) that by (auto simp: labels_ok_def)
  then have "inj_on utf16_of (set (map fst m))" by (intro inj_onI) (auto intro: utf16_of_inj)
  then show ?thesis unfolding utf16_sorted_keys_def using assms
    by (intro sort_key_determined) (simp_all add: labels_ok_def)
qed

lemma json_stringify_cong:
  assumes "labels_ok m" "labels_ok m'" "map_of m = map_of m'"
  shows "json_stringify_sorted m = json_stringify_sorted m'"
proof -
  have "fst ` set m = fst ` set m'" using assms(3) by (metis dom_map_of_conv_image_fst)
  then show ?thesis using utf16_sorted_keys_cong [OF assms(1,2)] assms(3)
    by (simp add: json_stringify_sorted_def json_member_def [abs_def])
qed

lemma map_of_keys_eqI:
  assumes "fst ` set m = fst ` set m'" "\<And>k. k \<in> fst ` set m \<Longrightarrow> map_of m k = map_of m' k"
  shows "map_of m = map_of m'"
proof
  fix k show "map_of m k = map_of m' k"
    using assms by (cases "k \<in> fst ` set m") (simp_all, metis map_of_eq_None_iff)
qed

definition label_runes :: "string gomap \<Rightarrow> (nat list \<times> nat list) list" where
  "label_runes m = map (\<lambda>k. (runes k, runes (the (map_of m k)))) (utf16_sorted_keys m)"

lemma runes_json_stringify: "runes (json_stringify_sorted m) = 123 # rune_text (label_runes m)"
  unfolding json_stringify_sorted_def label_runes_def runes_join_members [symmetric]
  by (rule trans [OF runes_ascii_Cons]) (simp_all add: bval_def)

lemma json_stringify_inj:
  assumes ok: "labels_ok m" "labels_ok m'" and eq: "json_stringify_sorted m = json_stringify_sorted m'"
  shows "map_of m = map_of m'"
proof -
  have "rune_text (label_runes m) = rune_text (label_runes m')"
    using arg_cong [OF eq, of runes] unfolding runes_json_stringify by (rule list.inject [THEN iffD1, THEN conjunct2])
  then have ps: "label_runes m = label_runes m'" by (rule rune_text_inj)
  then have len: "length (utf16_sorted_keys m) = length (utf16_sorted_keys m')"
    unfolding label_runes_def by (rule map_eq_imp_length_eq)
  have nth: "utf16_sorted_keys m ! i = utf16_sorted_keys m' ! i
      \<and> map_of m (utf16_sorted_keys m ! i) = map_of m' (utf16_sorted_keys m ! i)"
    if i: "i < length (utf16_sorted_keys m)" for i
  proof -
    define k k' where "k = utf16_sorted_keys m ! i" and "k' = utf16_sorted_keys m' ! i"
    have "k \<in> fst ` set m" "k' \<in> fst ` set m'"
      using i len unfolding k_def k'_def by (metis nth_mem set_utf16_sorted_keys)+
    then obtain v v' where v: "map_of m k = Some v" "map_of m' k' = Some v'"
      by (metis domD dom_map_of_conv_image_fst)
    have "label_runes m ! i = label_runes m' ! i" using ps by simp
    then have "runes k = runes k'" "runes v = runes v'"
      using i len v by (simp_all add: label_runes_def k_def k'_def)
    then have "k = k'" "v = v'" using labels_ok_lookup ok v utf8_ok_inj by blast+
    then show ?thesis using v by (simp add: k_def k'_def)
  qed
  have keys: "utf16_sorted_keys m = utf16_sorted_keys m'" using nth len by (intro nth_equalityI) auto
  show ?thesis
  proof (rule map_of_keys_eqI)
    show "fst ` set m = fst ` set m'" using keys by (metis set_utf16_sorted_keys)
    fix k assume "k \<in> fst ` set m"
    then have "k \<in> set (utf16_sorted_keys m)" by simp
    then show "map_of m k = map_of m' k" using nth by (metis in_set_conv_nth)
  qed
qed

subsection \<open>The id\<close>

lemma id_fits: "length (base_text 32 (big_end (sha256 s))) \<le> 52"
proof -
  have "big_end (sha256 s) < 256 ^ 32"
    using big_end_bound [of "sha256 s"] sha256_bytes by force
  then show ?thesis using length_base_text [of 32 _ 51] by simp
qed

lemma big_end_sha_nonneg: "0 \<le> big_end (sha256 s)"
  using big_end_bound [of "sha256 s"] sha256_bytes by force

lemma id_value: "base_value 32 (compute_dev_container_id m) = big_end (sha256 (json_stringify_sorted m))"
  using big_end_sha_nonneg by (simp add: compute_dev_container_id_def Let_def base_value_zeros base_value_text)

lemma dev_container_id_digits:
  "c \<in> set (compute_dev_container_id m) \<Longrightarrow> is_digit c \<or> CHR ''a'' \<le> c \<and> c \<le> CHR ''v''"
proof -
  have ok: "is_digit (digit_char d) \<or> CHR ''a'' \<le> digit_char d \<and> digit_char d \<le> CHR ''v''" if "d < 32" for d
  proof -
    have "bval (digit_char d) = (if d < 10 then d + 48 else d + 87)" using that by (simp add: digit_char_def)
    then show ?thesis using that
      by (cases "d < 10") (simp_all add: is_digit_def less_eq_char_def bval_def)
  qed
  assume c: "c \<in> set (compute_dev_container_id m)"
  show ?thesis
  proof (cases "c = CHR ''0''")
    case True
    then show ?thesis by (simp add: is_digit_def bval_def)
  next
    case False
    then have "c \<in> set (base_text 32 (big_end (sha256 (json_stringify_sorted m))))"
      using c by (auto simp: compute_dev_container_id_def Let_def)
    then obtain d where "d < 32" "c = digit_char d"
      using base_text_digits [of 32, OF _ big_end_sha_nonneg] by fastforce
    then show ?thesis using ok by simp
  qed
qed

lemma length_dev_container_id: "length (compute_dev_container_id m) = 52"
  using id_fits [of "json_stringify_sorted m"] by (simp add: compute_dev_container_id_def Let_def)

lemma id_eq_iff:
  "compute_dev_container_id m = compute_dev_container_id m' \<longleftrightarrow>
   sha256 (json_stringify_sorted m) = sha256 (json_stringify_sorted m')"
proof
  assume "compute_dev_container_id m = compute_dev_container_id m'"
  then have "big_end (sha256 (json_stringify_sorted m)) = big_end (sha256 (json_stringify_sorted m'))"
    by (metis id_value)
  then show "sha256 (json_stringify_sorted m) = sha256 (json_stringify_sorted m')"
    using sha256_bytes by (intro big_end_inj) auto
qed (simp add: compute_dev_container_id_def)

text \<open>C14. The device container id is 52 base-32 digits; two label maps get the same id exactly when
  their JSON texts have the same SHA-256 hash, and they have the same JSON text exactly when they
  are the same map: the order of a map's entries never shows, and no two label maps are confused
  before the hash.\<close>

theorem dev_container_id_spec:
  assumes "labels_ok m" and "labels_ok m'"
  shows "length (compute_dev_container_id m) = 52
    \<and> list_all (\<lambda>c. is_digit c \<or> CHR ''a'' \<le> c \<and> c \<le> CHR ''v'') (compute_dev_container_id m)
    \<and> (compute_dev_container_id m = compute_dev_container_id m' \<longleftrightarrow>
         sha256 (json_stringify_sorted m) = sha256 (json_stringify_sorted m'))
    \<and> (json_stringify_sorted m = json_stringify_sorted m' \<longleftrightarrow> map_of m = map_of m')"
proof (intro conjI)
  show "json_stringify_sorted m = json_stringify_sorted m' \<longleftrightarrow> map_of m = map_of m'"
    using json_stringify_inj [OF assms] json_stringify_cong [OF assms] by blast
  show "list_all (\<lambda>c. is_digit c \<or> CHR ''a'' \<le> c \<and> c \<le> CHR ''v'') (compute_dev_container_id m)"
    unfolding list_all_iff using dev_container_id_digits by blast
qed (rule length_dev_container_id id_eq_iff)+

theorem dev_container_id_spec_witness:
  "labels_ok [(''a'', ''x''), (''b'', ''y'')] \<and> labels_ok [(''b'', ''y''), (''a'', ''x'')] \<and>
   json_stringify_sorted [(''a'', ''x''), (''b'', ''y'')] = json_stringify_sorted [(''b'', ''y''), (''a'', ''x'')]"
proof -
  have "labels_ok [(''a'', ''x''), (''b'', ''y'')]" "labels_ok [(''b'', ''y''), (''a'', ''x'')]"
    by (simp_all add: labels_ok_def utf8_ok_ascii is_ascii_def bval_def)
  then show ?thesis
    using dev_container_id_spec [of "[(''a'', ''x''), (''b'', ''y'')]" "[(''b'', ''y''), (''a'', ''x'')]"]
    by (auto simp: fun_eq_iff)
qed

subsection \<open>Phases\<close>

lemma resolve_recursive_id:
  assumes "\<And>s. resolve_string ulow ctx phase s = Inr s"
  shows "resolve_recursive ulow ctx phase v = Inr v"
proof (induction v)
  case (JArr vs)
  then have "traverse (resolve_recursive ulow ctx phase) vs = Inr vs" by (intro traverse_id) auto
  then show ?case by simp
next
  case (JObj m)
  then have "traverse (\<lambda>p. bind_res (resolve_recursive ulow ctx phase (snd p)) (\<lambda>r. Inr (fst p, r))) m = Inr m"
    by (intro traverse_id) (auto simp: snds.simps)
  then show ?case by simp
qed (simp_all add: assms)

text \<open>The variable a tag names.\<close>

definition tag_variable :: "string \<Rightarrow> string" where
  "tag_variable tag = hd (split_byte CHR '':'' tag)"

definition host_variables :: "string list" where
  "host_variables = [''env'', ''localEnv'', ''localWorkspaceFolder'', ''localWorkspaceFolderBasename'',
     ''containerWorkspaceFolder'', ''containerWorkspaceFolderBasename'']"

definition phase_variables :: "sub_phase \<Rightarrow> string list" where
  "phase_variables phase = (case phase of PhaseHost \<Rightarrow> host_variables | PhaseIdentity \<Rightarrow> [''devcontainerId'']
     | PhaseContainer \<Rightarrow> [''containerEnv''] | PhaseOther n \<Rightarrow> [])"

lemma resolve_tag_other_phase:
  assumes "tag_variable tag \<notin> set (phase_variables phase)" and "phase \<in> {PhaseHost, PhaseIdentity, PhaseContainer}"
  shows "resolve_tag ulow ctx phase tag = Inr None"
  using assms
  by (cases phase) (auto simp: resolve_tag_def resolve_host_tag_def tag_variable_def Let_def
      phase_variables_def host_variables_def)

lemma fill_None: "length rs = length gs \<Longrightarrow> \<forall>r\<in>set rs. r = None \<Longrightarrow> fill gs rs z = template gs z"
  by (induction gs arbitrary: rs) (auto simp: length_Suc_conv)

lemma traverse_const: "(\<And>x. x \<in> set xs \<Longrightarrow> f x = Inr c) \<Longrightarrow> traverse f xs = Inr (replicate (length xs) c)"
  by (induction xs) auto

text \<open>A phase rewrites only the tags of its own variables: a text whose tags all name variables of
  other phases comes back unchanged, so that a later phase finds them as they were written.\<close>

theorem resolve_leaves_other_phases:
  assumes "\<forall>g\<in>set gs. seg_wf g \<and> tag_variable (snd g) \<notin> set (phase_variables phase)" and "no_tag z"
    and "phase \<in> {PhaseHost, PhaseIdentity, PhaseContainer}"
  shows "resolve_string ulow ctx phase (template gs z) = Inr (template gs z)"
proof -
  have "traverse (\<lambda>g. resolve_tag ulow ctx phase (snd g)) gs = Inr (replicate (length gs) None)"
    using assms by (intro traverse_const) (simp add: resolve_tag_other_phase)
  then show ?thesis using assms
    by (simp add: resolve_string_def substitute_tags_template fill_None)
qed

definition sample_ctx :: sub_ctx where
  "sample_ctx = \<lparr>host_sub = \<lparr>platform = ''linux'', local_workspace_folder = ''/w'',
      container_workspace_folder = [], host_env = [], config_file_path = []\<rparr>, id_labels = None,
      dev_container_id = [], container_env = []\<rparr>"

theorem resolve_leaves_other_phases_witness:
  "resolve_string id sample_ctx PhaseHost (template [(''x='', ''containerEnv:PATH''), (''/'', ''devcontainerId'')] ''!'') =
     Inr (template [(''x='', ''containerEnv:PATH''), (''/'', ''devcontainerId'')] ''!'')"
  by (rule resolve_leaves_other_phases)
    (simp_all add: seg_wf_def no_tag_def tag_variable_def phase_variables_def host_variables_def
      contains_sub_def tag_open_def tag_close_def has_prefix_def)

text \<open>Environment references off Windows: a bare \<open>localEnv\<close> is an error; \<open>localEnv:NAME\<close> gives the
  variable's value or the empty string; \<open>localEnv:NAME:default\<close> gives the value when the variable is
  set (even to the empty string) and the default otherwise, the default being everything after the
  second colon, colons included; \<open>containerEnv\<close> does the same in the container phase.\<close>

theorem resolve_env_reference:
  assumes "platform (host_sub ctx) \<noteq> ''win32''" and "CHR '':'' \<notin> set name"
  shows "resolve_tag ulow ctx PhaseHost ''localEnv'' =
      Inl (no_env_name ''localEnv'' (config_file_path (host_sub ctx)))
    \<and> resolve_tag ulow ctx PhaseHost (''localEnv:'' @ name) =
      Inr (Some (case map_of (host_env (host_sub ctx)) name of Some v \<Rightarrow> v | None \<Rightarrow> []))
    \<and> resolve_tag ulow ctx PhaseHost (''localEnv:'' @ name @ '':'' @ deflt) =
      Inr (Some (case map_of (host_env (host_sub ctx)) name of Some v \<Rightarrow> v | None \<Rightarrow> deflt))
    \<and> resolve_tag ulow ctx PhaseContainer (''containerEnv:'' @ name @ '':'' @ deflt) =
      Inr (Some (case map_of (container_env ctx) name of Some v \<Rightarrow> v | None \<Rightarrow> deflt))"
proof -
  have sp: "split_byte CHR '':'' (name @ CHR '':'' # deflt) = name # split_byte CHR '':'' deflt"
    "split_byte CHR '':'' name = [name]"
    using assms(2) by (simp_all add: split_byte_append split_byte_no_sep)
  show ?thesis using assms(1)
    by (auto simp: resolve_tag_def resolve_host_tag_def resolve_env_tag_def sp split: option.splits)
qed

theorem resolve_env_reference_witness:
  "resolve_tag id sample_ctx PhaseHost ''localEnv:REG:my.registry.io:5000/img'' =
    Inr (Some ''my.registry.io:5000/img'')"
  using resolve_env_reference [of sample_ctx "''REG''" id "''my.registry.io:5000/img''"]
  by (simp add: sample_ctx_def)

end
