(* ===== verification/Rexp.thy ===== *)
theory Rexp
  imports GoStrings
begin

text \<open>
  Regular expressions over bytes, for the anchored patterns the CLI compiles
  (\<open>^...$\<close> over ASCII classes). \<open>rmatch\<close> decides them by taking derivatives and is proved
  equal to membership in the language \<open>lang\<close>; a pattern of the source is a \<open>rexp\<close> term.
\<close>

datatype rexp =
    RNone
  | REps
  | RCls "char \<Rightarrow> bool"
  | RSeq rexp rexp
  | RAlt rexp rexp
  | RStar rexp

definition RPlus :: "rexp \<Rightarrow> rexp" where
  "RPlus r = RSeq r (RStar r)"

definition ROpt :: "rexp \<Rightarrow> rexp" where
  "ROpt r = RAlt r REps"

fun RLit :: "string \<Rightarrow> rexp" where
  "RLit [] = REps"
| "RLit (c # s) = RSeq (RCls (\<lambda>d. d = c)) (RLit s)"

inductive_set star :: "string set \<Rightarrow> string set" for A where
  star_Nil: "[] \<in> star A"
| star_step: "a \<in> A \<Longrightarrow> b \<in> star A \<Longrightarrow> a @ b \<in> star A"

fun lang :: "rexp \<Rightarrow> string set" where
  "lang RNone = {}"
| "lang REps = {[]}"
| "lang (RCls P) = {[c] |c. P c}"
| "lang (RSeq r s) = {a @ b |a b. a \<in> lang r \<and> b \<in> lang s}"
| "lang (RAlt r s) = lang r \<union> lang s"
| "lang (RStar r) = star (lang r)"

fun nullable :: "rexp \<Rightarrow> bool" where
  "nullable RNone = False"
| "nullable REps = True"
| "nullable (RCls P) = False"
| "nullable (RSeq r s) = (nullable r \<and> nullable s)"
| "nullable (RAlt r s) = (nullable r \<or> nullable s)"
| "nullable (RStar r) = True"

text \<open>The constructors that simplify as they build keep derivatives small.\<close>

definition mk_seq :: "rexp \<Rightarrow> rexp \<Rightarrow> rexp" where
  "mk_seq r s = (case r of RNone \<Rightarrow> RNone | REps \<Rightarrow> s | _ \<Rightarrow> RSeq r s)"

definition mk_alt :: "rexp \<Rightarrow> rexp \<Rightarrow> rexp" where
  "mk_alt r s = (case r of RNone \<Rightarrow> s
     | _ \<Rightarrow> (case s of RNone \<Rightarrow> r | _ \<Rightarrow> RAlt r s))"

fun deriv :: "char \<Rightarrow> rexp \<Rightarrow> rexp" where
  "deriv c RNone = RNone"
| "deriv c REps = RNone"
| "deriv c (RCls P) = (if P c then REps else RNone)"
| "deriv c (RSeq r s) =
     (if nullable r then mk_alt (mk_seq (deriv c r) s) (deriv c s) else mk_seq (deriv c r) s)"
| "deriv c (RAlt r s) = mk_alt (deriv c r) (deriv c s)"
| "deriv c (RStar r) = mk_seq (deriv c r) (RStar r)"

fun rmatch :: "rexp \<Rightarrow> string \<Rightarrow> bool" where
  "rmatch r [] = nullable r"
| "rmatch r (c # s) = rmatch (deriv c r) s"

lemma lang_mk_seq [simp]: "lang (mk_seq r s) = lang (RSeq r s)"
  by (auto simp: mk_seq_def split: rexp.splits)

lemma lang_mk_alt [simp]: "lang (mk_alt r s) = lang (RAlt r s)"
  by (auto simp: mk_alt_def split: rexp.splits)

lemma nullable_iff: "nullable r \<longleftrightarrow> [] \<in> lang r"
  by (induction r) (auto intro: star_Nil)

lemma star_Cons:
  "c # s \<in> star A \<longleftrightarrow> (\<exists>a b. s = a @ b \<and> c # a \<in> A \<and> b \<in> star A)"
proof
  assume "c # s \<in> star A"
  then show "\<exists>a b. s = a @ b \<and> c # a \<in> A \<and> b \<in> star A"
  proof (induction "c # s" arbitrary: s rule: star.induct)
    case (star_step a b)
    then show ?case by (cases a) auto
  qed
next
  assume "\<exists>a b. s = a @ b \<and> c # a \<in> A \<and> b \<in> star A"
  then obtain a b where "s = a @ b" "c # a \<in> A" "b \<in> star A" by blast
  then show "c # s \<in> star A" using star_step [of "c # a" A b] by simp
qed

lemma lang_deriv: "s \<in> lang (deriv c r) \<longleftrightarrow> c # s \<in> lang r"
proof (induction r arbitrary: s)
  case (RSeq r1 r2)
  have "c # s \<in> lang (RSeq r1 r2) \<longleftrightarrow>
      (\<exists>a b. s = a @ b \<and> c # a \<in> lang r1 \<and> b \<in> lang r2) \<or> ([] \<in> lang r1 \<and> c # s \<in> lang r2)"
    by (auto simp: Cons_eq_append_conv)
  then show ?case using RSeq by (auto simp: nullable_iff)
next
  case (RStar r)
  then show ?case by (auto simp: star_Cons)
qed auto

theorem rmatch_lang: "rmatch r s \<longleftrightarrow> s \<in> lang r"
  by (induction s arbitrary: r) (simp_all add: nullable_iff lang_deriv)

subsection \<open>Reading a language\<close>

lemma lang_RLit [simp]: "lang (RLit s) = {s}"
  by (induction s) auto

lemma lang_ROpt [simp]: "lang (ROpt r) = insert [] (lang r)"
  by (auto simp: ROpt_def)

lemma star_cls: "star {[c] |c. P c} = {s. list_all P s}"
proof (intro set_eqI iffI)
  fix s assume "s \<in> star {[c] |c. P c}"
  then show "s \<in> {s. list_all P s}" by induction auto
next
  fix s assume "s \<in> {s. list_all P s}"
  then show "s \<in> star {[c] |c. P c}"
  proof (induction s)
    case Nil
    then show ?case by (simp add: star_Nil)
  next
    case (Cons c s)
    then show ?case using star_step [of "[c]" "{[c] |c. P c}" s] by simp
  qed
qed

lemma lang_star_cls [simp]: "lang (RStar (RCls P)) = {s. list_all P s}"
  by (simp add: star_cls)

lemma lang_plus_cls [simp]: "lang (RPlus (RCls P)) = {s. s \<noteq> [] \<and> list_all P s}"
proof (intro set_eqI iffI)
  fix s assume "s \<in> {s. s \<noteq> [] \<and> list_all P s}"
  then obtain y ys where s: "s = [y] @ ys" and "P y" "list_all P ys" by (cases s) auto
  then have "[y] \<in> lang (RCls P)" "ys \<in> lang (RStar (RCls P))" by (auto simp: star_cls)
  then show "s \<in> lang (RPlus (RCls P))" unfolding RPlus_def s lang.simps by blast
qed (auto simp: RPlus_def star_cls)

lemma star_induct_set:
  "s \<in> star A \<Longrightarrow> Q [] \<Longrightarrow> (\<And>a b. a \<in> A \<Longrightarrow> Q b \<Longrightarrow> Q (a @ b)) \<Longrightarrow> Q s"
  by (induction rule: star.induct) auto

end
