(* ===== verification/FeatureTypes.thy ===== *)
theory FeatureTypes
  imports Json
begin

text \<open>
  \<open>internal/features/types.go\<close>: Feature sets, where they come from, and the Feature's metadata.
  The two raw JSON copies of the metadata (\<open>Metadata\<close>, \<open>File\<close>) and \<open>SourceKeys\<close>, which only
  serialization reads, belong to theory JsObject.
\<close>

subsection \<open>Where a Feature comes from\<close>

record feature_ref =
  ref_scheme :: string
  ref_id :: string
  ref_owner :: string
  ref_namespace :: string
  ref_registry :: string
  ref_resource :: string
  ref_path :: string
  ref_version :: string
  ref_tag :: string
  ref_digest :: string

record oci_source =
  oci_manifest :: "json option"
  manifest_digest :: string
  oci_feature_ref :: "feature_ref option"
  oci_user_id :: string
  oci_user_id_without_version :: string
  oci_registry :: string
  oci_namespace :: string
  oci_id :: string
  oci_resource :: string
  oci_tag :: string

record tarball_source =
  tarball_uri :: string
  tarball_user_id :: string

record local_source =
  local_path :: string
  resolved_path :: string
  local_user_id :: string

text \<open>The interface's three implementations.\<close>

datatype source_info =
    OCI oci_source
  | Local local_source
  | Tarball tarball_source

fun source_type :: "source_info \<Rightarrow> string" where
  "source_type (OCI s) = ''oci''"
| "source_type (Local s) = ''file-path''"
| "source_type (Tarball s) = ''direct-tarball''"

fun source_user_id :: "source_info \<Rightarrow> string" where
  "source_user_id (OCI s) = oci_user_id s"
| "source_user_id (Local s) = local_user_id s"
| "source_user_id (Tarball s) = tarball_user_id s"

subsection \<open>Features\<close>

record feature =
  feat_id :: string
  feat_version :: string
  feat_name :: string
  feat_documentation_url :: string
  feat_options :: "json gomap"
  depends_on :: "json gomap"
  depends_on_order :: "string list"
  installs_after :: "string list"
  legacy_ids :: "string list"
  feat_included :: bool
  consecutive_id :: string
  feat_value :: json
  user_options :: "json gomap"
  feat_container_env :: "string gomap"
  feat_mounts :: "json list"
  feat_init :: "bool option"
  feat_privileged :: "bool option"
  feat_cap_add :: "string list"
  feat_security_opt :: "string list"
  feat_entrypoint :: string
  feat_on_create :: json
  feat_update_content :: json
  feat_post_create :: json
  feat_post_start :: json
  feat_post_attach :: json
  feat_customizations :: "json gomap"

record feature_set =
  source_info :: "source_info option"
  set_features :: "feature list"
  internal_version :: string
  computed_digest :: string

definition blank_feature :: "string \<Rightarrow> feature" where
  "blank_feature i = \<lparr>feat_id = i, feat_version = [], feat_name = [], feat_documentation_url = [],
     feat_options = [], depends_on = [], depends_on_order = [], installs_after = [], legacy_ids = [],
     feat_included = True, consecutive_id = [], feat_value = JNull, user_options = [],
     feat_container_env = [], feat_mounts = [], feat_init = None, feat_privileged = None,
     feat_cap_add = [], feat_security_opt = [], feat_entrypoint = [], feat_on_create = JNull,
     feat_update_content = JNull, feat_post_create = JNull, feat_post_start = JNull,
     feat_post_attach = JNull, feat_customizations = []\<rparr>"

text \<open>\<open>DependsOnKeys\<close>: the keys in the order the metadata lists them, the unlisted ones sorted after.\<close>

fun listed_keys :: "json gomap \<Rightarrow> string list \<Rightarrow> string list \<Rightarrow> string list" where
  "listed_keys m [] seen = []"
| "listed_keys m (k # ks) seen =
     (if map_of m k \<noteq> None \<and> k \<notin> set seen then k # listed_keys m ks (k # seen) else listed_keys m ks seen)"

definition depends_on_keys :: "feature \<Rightarrow> string list" where
  "depends_on_keys f =
     (let listed = listed_keys (depends_on f) (depends_on_order f) []
      in listed @ filter (\<lambda>k. k \<notin> set listed) (sorted_keys (depends_on f)))"

lemma set_listed_keys: "set (listed_keys m ks seen) = (set ks \<inter> fst ` set m) - set seen"
  by (induction m ks seen rule: listed_keys.induct) (auto simp: map_of_eq_None_iff)

lemma distinct_listed_keys: "distinct (listed_keys m ks seen)"
  by (induction m ks seen rule: listed_keys.induct) (auto simp: set_listed_keys)

lemma depends_on_keys_perm:
  "distinct (map fst (depends_on f)) \<Longrightarrow>
   distinct (depends_on_keys f) \<and> set (depends_on_keys f) = fst ` set (depends_on f)"
  by (auto simp: depends_on_keys_def Let_def distinct_listed_keys set_listed_keys)

subsection \<open>The user's Features\<close>

record user_feature =
  user_feature_ref :: string
  user_feature_options :: json

definition user_features_to_array :: "json gomap option \<Rightarrow> user_feature list" where
  "user_features_to_array m = (case m of None \<Rightarrow> []
     | Some fs \<Rightarrow> map (\<lambda>(k, v). \<lparr>user_feature_ref = k, user_feature_options = v\<rparr>) fs)"

end
