(* ===== verification/Rounds.thy ===== *)
theory Rounds
  imports Prelude "HOL-Library.Multiset"
begin

text \<open>
  The round loop of \<open>ComputeInstallationOrder\<close> (internal/features/order.go), generic in how two
  items are compared, when an item is ready and how a round is picked from the ready ones. The
  locale states what the loop relies on; theory FeatureOrder interprets it on the Feature graph.
  The stable sort of \<open>slices.SortStableFunc\<close> is here too.
\<close>

subsection \<open>Stable insertion sort by a comparison\<close>

text \<open>
  \<open>cmp x y < 0\<close> puts \<open>x\<close> first. Inserting from the left, an item moves before the items it is
  smaller than and stays behind the equal ones.
\<close>

fun insert_left :: "('a \<Rightarrow> 'a \<Rightarrow> int) \<Rightarrow> 'a \<Rightarrow> 'a list \<Rightarrow> 'a list" where
  "insert_left cmp x [] = [x]"
| "insert_left cmp x (y # ys) = (if cmp x y < 0 then y # insert_left cmp x ys else x # y # ys)"

text \<open>\<open>ys\<close> is the sorted part, last item first, as the inner loop of an insertion sort walks it.\<close>

definition stable_sort :: "('a \<Rightarrow> 'a \<Rightarrow> int) \<Rightarrow> 'a list \<Rightarrow> 'a list" where
  "stable_sort cmp xs = rev (fold (insert_left cmp) xs [])"

lemma mset_insert_left [simp]: "mset (insert_left cmp x ys) = add_mset x (mset ys)"
  by (induction ys) auto

lemma set_insert_left [simp]: "set (insert_left cmp x ys) = insert x (set ys)"
  by (induction ys) auto

lemma mset_stable_sort [simp]: "mset (stable_sort cmp xs) = mset xs"
proof -
  have "mset (fold (insert_left cmp) xs ys) = mset xs + mset ys" for ys
    by (induction xs arbitrary: ys) auto
  then show ?thesis by (simp add: stable_sort_def)
qed

lemma set_stable_sort [simp]: "set (stable_sort cmp xs) = set xs"
  by (metis mset_stable_sort set_mset_mset)

lemma stable_sort_eq_Nil [simp]: "stable_sort cmp xs = [] \<longleftrightarrow> xs = []"
  by (metis mset_stable_sort mset_zero_iff)

text \<open>Where the comparison is antisymmetric, no item is followed by one smaller than it.\<close>

lemma insert_left_adjacent:
  assumes "\<And>a b. cmp a b < 0 \<Longrightarrow> \<not> cmp b a < (0::int)"
    and "successively (\<lambda>b a. \<not> cmp b a < 0) ys"
  shows "successively (\<lambda>b a. \<not> cmp b a < 0) (insert_left cmp x ys)"
  using assms(2)
proof (induction ys)
  case (Cons y ys)
  then show ?case using assms(1) by (cases ys) auto
qed simp

lemma stable_sort_adjacent:
  assumes "\<And>a b. cmp a b < 0 \<Longrightarrow> \<not> cmp b a < (0::int)"
  shows "successively (\<lambda>a b. \<not> cmp b a < 0) (stable_sort cmp xs)"
proof -
  have "successively (\<lambda>b a. \<not> cmp b a < 0) ys \<Longrightarrow>
      successively (\<lambda>b a. \<not> cmp b a < 0) (fold (insert_left cmp) xs ys)" for ys
    by (induction xs arbitrary: ys) (auto intro!: insert_left_adjacent assms)
  then show ?thesis by (simp add: stable_sort_def)
qed

subsection \<open>The loop\<close>

text \<open>
  One round: the ready items of the worklist, the picked ones among them, the worklist without
  every item equal to a picked one, and the order with the round sorted at its end. \<open>None\<close>:
  nothing is ready.
\<close>

definition next_round ::
  "('n \<Rightarrow> 'n \<Rightarrow> bool) \<Rightarrow> ('n \<Rightarrow> 'n list \<Rightarrow> bool) \<Rightarrow> ('n list \<Rightarrow> 'n list) \<Rightarrow> ('n \<Rightarrow> 'n \<Rightarrow> int)
    \<Rightarrow> 'n list \<times> 'n list \<Rightarrow> ('n list \<times> 'n list) option" where
  "next_round eqv ready pick cmp st = (case st of (work, done) \<Rightarrow>
     (let avail = filter (\<lambda>n. ready n done) work in
      if avail = [] then None
      else (let round = pick avail in
            Some (filter (\<lambda>n. \<not> list_ex (eqv n) round) work, done @ stable_sort cmp round))))"

text \<open>The worklist left when nothing is ready, or the whole order.\<close>

partial_function (option) run_rounds ::
  "('n \<Rightarrow> 'n \<Rightarrow> bool) \<Rightarrow> ('n \<Rightarrow> 'n list \<Rightarrow> bool) \<Rightarrow> ('n list \<Rightarrow> 'n list) \<Rightarrow> ('n \<Rightarrow> 'n \<Rightarrow> int)
    \<Rightarrow> 'n list \<Rightarrow> 'n list \<Rightarrow> ('n list + 'n list) option" where
  "run_rounds eqv ready pick cmp work done =
     (if work = [] then Some (Inr done)
      else (case next_round eqv ready pick cmp (work, done) of
              None \<Rightarrow> Some (Inl work)
            | Some st \<Rightarrow> run_rounds eqv ready pick cmp (fst st) (snd st)))"

declare run_rounds.simps [code]

text \<open>The states a run goes through.\<close>

inductive rounds ::
  "('n \<Rightarrow> 'n \<Rightarrow> bool) \<Rightarrow> ('n \<Rightarrow> 'n list \<Rightarrow> bool) \<Rightarrow> ('n list \<Rightarrow> 'n list) \<Rightarrow> ('n \<Rightarrow> 'n \<Rightarrow> int)
    \<Rightarrow> 'n list \<times> 'n list \<Rightarrow> 'n list \<times> 'n list \<Rightarrow> bool"
  for eqv ready pick cmp where
  rounds_refl: "rounds eqv ready pick cmp st st"
| rounds_step: "rounds eqv ready pick cmp st st' \<Longrightarrow> fst st' \<noteq> [] \<Longrightarrow>
    next_round eqv ready pick cmp st' = Some st'' \<Longrightarrow> rounds eqv ready pick cmp st st''"

inductive_cases rounds_cases: "rounds eqv ready pick cmp st st'"

lemma next_round_Some:
  assumes "next_round eqv ready pick cmp (work, done) = Some st"
  shows "filter (\<lambda>n. ready n done) work \<noteq> [] \<and>
    st = (filter (\<lambda>n. \<not> list_ex (eqv n) (pick (filter (\<lambda>n. ready n done) work))) work,
          done @ stable_sort cmp (pick (filter (\<lambda>n. ready n done) work)))"
  using assms by (auto simp: next_round_def Let_def split: if_splits)

lemma next_round_None:
  "next_round eqv ready pick cmp (work, done) = None \<longleftrightarrow> (\<forall>n\<in>set work. \<not> ready n done)"
  by (auto simp: next_round_def Let_def filter_empty_conv)

subsection \<open>What the loop relies on, and what follows\<close>

text \<open>
  \<open>ok\<close> are the items the comparison works on; each is equal to itself. A pick takes some of the
  ready items, and at least one.
\<close>

locale round_scheduler =
  fixes ok :: "'n \<Rightarrow> bool"
    and eqv :: "'n \<Rightarrow> 'n \<Rightarrow> bool"
    and ready :: "'n \<Rightarrow> 'n list \<Rightarrow> bool"
    and pick :: "'n list \<Rightarrow> 'n list"
    and cmp :: "'n \<Rightarrow> 'n \<Rightarrow> int"
  assumes eqv_refl: "ok n \<Longrightarrow> eqv n n"
    and pick_subseq: "set (pick ns) \<subseteq> set ns"
    and pick_distinct: "distinct ns \<Longrightarrow> distinct (pick ns)"
    and pick_nonempty: "ns \<noteq> [] \<Longrightarrow> pick ns \<noteq> []"
begin

abbreviation step where "step \<equiv> next_round eqv ready pick cmp"
abbreviation reach where "reach \<equiv> rounds eqv ready pick cmp"
abbreviation run where "run \<equiv> run_rounds eqv ready pick cmp"

text \<open>A round takes at least one item off the worklist.\<close>

lemma step_shrinks:
  assumes "step (w, d) = Some (w', d')" and "\<forall>n\<in>set w. ok n"
  shows "length w' < length w" and "\<forall>n\<in>set w'. ok n"
proof -
  define a where "a = filter (\<lambda>n. ready n d) w"
  have a: "a \<noteq> []" and w': "w' = filter (\<lambda>n. \<not> list_ex (eqv n) (pick a)) w"
    using next_round_Some [OF assms(1)] by (simp_all add: a_def)
  then obtain n where n: "n \<in> set (pick a)" using pick_nonempty [OF a] by (cases "pick a") auto
  then have "n \<in> set w" using pick_subseq [of a] by (auto simp: a_def)
  moreover have "list_ex (eqv n) (pick a)"
    using n eqv_refl assms(2) \<open>n \<in> set w\<close> by (auto simp: list_ex_iff)
  ultimately show "length w' < length w" unfolding w' by (intro length_filter_less) auto
  show "\<forall>n\<in>set w'. ok n" using assms(2) by (auto simp: w')
qed

lemma run_ends:
  assumes "\<forall>n\<in>set w. ok n" and "reach st (w, d)"
  shows "(\<exists>d'. run w d = Some (Inr d') \<and> reach st ([], d')) \<or>
    (\<exists>w' d'. run w d = Some (Inl w') \<and> w' \<noteq> [] \<and> reach st (w', d') \<and> step (w', d') = None)"
  using assms
proof (induction "length w" arbitrary: w d rule: less_induct)
  case less
  show ?case
  proof (cases "w = []")
    case True
    then show ?thesis using less.prems by (subst (1 2) run_rounds.simps) auto
  next
    case False
    show ?thesis
    proof (cases "step (w, d)")
      case None
      then show ?thesis using less.prems False by (subst (1 2) run_rounds.simps) auto
    next
      case (Some st')
      obtain w' d' where st': "st' = (w', d')" by force
      have r: "run w d = run w' d'" using Some False st' by (subst run_rounds.simps) simp
      have "reach st (w', d')" using less.prems(2) Some False st' by (auto intro: rounds_step)
      then show ?thesis
        using less.hyps step_shrinks [of w d w' d'] Some st' less.prems(1) unfolding r by blast
    qed
  qed
qed

theorem run_total: "\<forall>n\<in>set w. ok n \<Longrightarrow> \<exists>r. run w [] = Some r"
  using run_ends [OF _ rounds_refl] by blast

text \<open>Everything ordered comes from the worklist; everything taken off it equals something ordered.\<close>

lemma reach_sets:
  assumes "reach (w0, []) st"
  shows "set (snd st) \<subseteq> set w0 \<and> set (fst st) \<subseteq> set w0
    \<and> (\<forall>n\<in>set w0. n \<in> set (fst st) \<or> list_ex (eqv n) (snd st))"
  using assms
proof (induction "(w0, [] :: 'n list)" st rule: rounds.induct)
  case (rounds_step st' st'')
  obtain w d where st': "st' = (w, d)" by force
  define a where "a = filter (\<lambda>n. ready n d) w"
  have "st'' = (filter (\<lambda>n. \<not> list_ex (eqv n) (pick a)) w, d @ stable_sort cmp (pick a))"
    using next_round_Some rounds_step(4) unfolding st' a_def by blast
  moreover have "set (pick a) \<subseteq> set w" using pick_subseq [of a] by (auto simp: a_def)
  ultimately show ?case using rounds_step(2) st' by (auto simp: list_ex_iff)
qed auto

text \<open>An item is ordered when it is picked from those that are ready for a prefix of what comes
  before it.\<close>

lemma reach_picked:
  assumes "reach (w0, []) st" and "snd st = xs @ n # ys"
  shows "\<exists>k w. k \<le> length xs \<and> reach (w0, []) (w, take k xs)
    \<and> n \<in> set (pick (filter (\<lambda>m. ready m (take k xs)) w))"
  using assms
proof (induction "(w0, [] :: 'n list)" st arbitrary: xs n ys rule: rounds.induct)
  case (rounds_step st' st'')
  obtain w d where st': "st' = (w, d)" by force
  define a where "a = filter (\<lambda>n. ready n d) w"
  have s: "snd st'' = d @ stable_sort cmp (pick a)"
    using next_round_Some rounds_step(4) unfolding st' a_def by fastforce
  show ?case
  proof (cases "length xs < length d")
    case True
    then obtain ys' where "d = xs @ n # ys'" using rounds_step(5) s
      by (auto simp: append_eq_append_conv2 append_eq_Cons_conv)
    then show ?thesis using rounds_step(2) st' by auto
  next
    case False
    then obtain zs where zs: "xs = d @ zs" "stable_sort cmp (pick a) = zs @ n # ys"
      using rounds_step(5) s by (auto simp: append_eq_append_conv2 append_eq_Cons_conv)
    then have "n \<in> set (pick a)" by (metis in_set_conv_decomp set_stable_sort)
    then show ?thesis using zs(1) rounds_step(1) st'
      by (intro exI [of _ "length d"] exI [of _ w]) (simp add: a_def)
  qed
qed auto

lemma reach_ready:
  assumes "reach (w0, []) st" and "snd st = xs @ n # ys"
  shows "\<exists>k \<le> length xs. ready n (take k xs)"
  using reach_picked [OF assms] pick_subseq by fastforce

text \<open>A worklist of pairwise different items is ordered without loss or repetition.\<close>

definition separate :: "'n list \<Rightarrow> bool" where
  "separate w \<longleftrightarrow> distinct w \<and> (\<forall>a\<in>set w. \<forall>b\<in>set w. eqv a b \<longrightarrow> a = b)"

lemma reach_perm:
  assumes "reach (w0, []) st" and "separate w0" and ok: "\<forall>n\<in>set w0. ok n"
  shows "mset (fst st) + mset (snd st) = mset w0"
  using assms(1)
proof (induction "(w0, [] :: 'n list)" st rule: rounds.induct)
  case (rounds_step st' st'')
  obtain w d where st': "st' = (w, d)" by force
  define a where "a = filter (\<lambda>n. ready n d) w"
  have s: "st'' = (filter (\<lambda>n. \<not> list_ex (eqv n) (pick a)) w, d @ stable_sort cmp (pick a))"
    using next_round_Some rounds_step(4) unfolding st' a_def by blast
  have w: "set w \<subseteq> set w0" using reach_sets [OF rounds_step(1)] st' by simp
  have "mset (w @ d) = mset w0" using rounds_step(2) st' by simp
  then have dw: "distinct w" using assms(2) mset_eq_imp_distinct_iff [of "w @ d" w0]
    by (simp add: separate_def)
  then have da: "distinct (pick a)" using pick_distinct [of a] by (simp add: a_def)
  have pa: "set (pick a) \<subseteq> set w" using pick_subseq [of a] by (auto simp: a_def)
  have "list_ex (eqv n) (pick a) \<longleftrightarrow> n \<in> set (pick a)" if "n \<in> set w" for n
    using that pa w assms(2) ok eqv_refl unfolding list_ex_iff separate_def by blast
  then have "filter (\<lambda>n. \<not> list_ex (eqv n) (pick a)) w = filter (\<lambda>n. n \<notin> set (pick a)) w"
    by (intro filter_cong) auto
  moreover have "mset (filter (\<lambda>n. n \<notin> set (pick a)) w) + mset (pick a) = mset w"
  proof -
    have "mset (pick a) = mset (filter (\<lambda>n. n \<in> set (pick a)) w)"
      using da dw pa by (intro set_eq_iff_mset_eq_distinct [THEN iffD1]) auto
    moreover have "mset (filter P w) + mset (filter (\<lambda>n. \<not> P n) w) = mset w" for P
      by (induction w) auto
    ultimately show ?thesis by (metis add.commute)
  qed
  ultimately show ?case using rounds_step(2) st' s by (simp add: ac_simps)
qed simp

text \<open>
  Where the items can be ranked so that an item is ready once all lower ones are ordered, the
  whole worklist is ordered.
\<close>

lemma run_complete:
  fixes rank :: "'n \<Rightarrow> nat"
  assumes sep: "separate w0" and ok: "\<forall>n\<in>set w0. ok n"
    and rank: "\<And>n d. n \<in> set w0 \<Longrightarrow> set d \<subseteq> set w0 \<Longrightarrow>
      (\<forall>m\<in>set w0. rank m < rank n \<longrightarrow> m \<in> set d) \<Longrightarrow> ready n d"
  shows "\<exists>d. run w0 [] = Some (Inr d) \<and> mset d = mset w0 \<and> reach (w0, []) ([], d)"
proof -
  have "False" if st: "w \<noteq> []" "reach (w0, []) (w, d)" "step (w, d) = None" for w d
  proof -
    have perm: "mset w + mset d = mset w0" using reach_perm [OF st(2) sep ok] by simp
    then have un: "set w \<union> set d = set w0" by (metis set_mset_mset set_mset_union)
    obtain n where n: "n \<in> set w" "\<forall>m\<in>set w. rank n \<le> rank m"
      using ex_min_if_finite [of "rank ` set w"] st(1)
      by (metis (no_types, lifting) arg_min_least arg_min_if_finite(1) finite_set set_empty)
    have "ready n d"
    proof (rule rank)
      show "n \<in> set w0" "set d \<subseteq> set w0" using n un by auto
      show "\<forall>m\<in>set w0. rank m < rank n \<longrightarrow> m \<in> set d" using n(2) un by (metis Un_iff leD)
    qed
    then show False using st(3) n(1) by (simp add: next_round_None)
  qed
  then obtain d where d: "run w0 [] = Some (Inr d)" "reach (w0, []) ([], d)"
    using run_ends [OF ok rounds_refl] by blast
  then show ?thesis using reach_perm [OF d(2) sep ok] by auto
qed

end

end
