(* ===== verification/FeatureOrder.thy ===== *)
theory FeatureOrder
  imports FeatureTypes Rounds
begin

text \<open>
  \<open>internal/features/order.go\<close>: the installation order of a Feature graph. Nodes are shared by
  pointer (a hard dependency is the very node the worklist resolves later), so a graph is a heap
  of nodes and a pointer is an index into it. Log lines are not modelled.
\<close>

type_synonym node_ptr = nat

record fnode =
  node_type :: string
  user_feature_id :: string
  node_options :: json
  node_set :: "feature_set option"
  hard_deps :: "node_ptr list"
  soft_deps :: "node_ptr list"
  feature_id_aliases :: "string list"
  round_priority :: nat

type_synonym node_heap = "fnode list"

datatype order_error =
    EmptyWorklist
  | NoResolvedSet string
  | CircularDependency "string list"

subsection \<open>Comparing options\<close>

definition bool_compare :: "bool \<Rightarrow> bool \<Rightarrow> int" where
  "bool_compare a b = (if a = b then 0 else if a then 1 else -1)"

fun type_name :: "json \<Rightarrow> string" where
  "type_name (JStr s) = ''string''"
| "type_name (JBool b) = ''boolean''"
| "type_name JNull = ''undefined''"
| "type_name v = ''object''"

text \<open>The members of two option objects at one key: only two strings or two booleans order them.\<close>

fun member_compare :: "json \<Rightarrow> json \<Rightarrow> int" where
  "member_compare (JStr a) (JStr b) = str_compare a b"
| "member_compare (JBool a) (JBool b) = bool_compare a b"
| "member_compare a b = 0"

fun members_compare :: "json gomap \<Rightarrow> json gomap \<Rightarrow> string list \<Rightarrow> string list \<Rightarrow> int" where
  "members_compare am bm (ak # aks) (bk # bks) =
     (if ak \<noteq> bk then str_compare ak bk
      else (let c = member_compare (the (map_of am ak)) (the (map_of bm bk))
            in if c \<noteq> 0 then c else members_compare am bm aks bks))"
| "members_compare am bm aks bks = 0"

fun options_compare_to :: "json \<Rightarrow> json \<Rightarrow> int" where
  "options_compare_to (JStr a) (JStr b) = str_compare a b"
| "options_compare_to (JBool a) (JBool b) = bool_compare a b"
| "options_compare_to (JObj am) (JObj bm) =
     (if length am \<noteq> length bm then int (length am) - int (length bm)
      else members_compare am bm (sorted_keys am) (sorted_keys bm))"
| "options_compare_to a b = str_compare (type_name a) (type_name b)"

subsection \<open>Comparing nodes\<close>

text \<open>\<open>if c != 0 { return c }\<close> before the rest.\<close>

definition then_compare :: "int \<Rightarrow> int \<Rightarrow> int" where
  "then_compare c d = (if c \<noteq> 0 then c else d)"

definition oci_identity :: "oci_source \<Rightarrow> string" where
  "oci_identity s = oci_registry s @ ''/'' @ oci_namespace s @ ''/'' @ oci_id s"

definition oci_compare :: "oci_source \<Rightarrow> oci_source \<Rightarrow> json \<Rightarrow> json \<Rightarrow> int" where
  "oci_compare s t oa ob =
     (if manifest_digest s = manifest_digest t \<and> manifest_digest s \<noteq> [] \<and> options_compare_to oa ob = 0
      then 0
      else then_compare (str_compare (oci_identity s) (oci_identity t))
        (if oci_tag s \<noteq> [] \<and> oci_tag t \<noteq> [] \<and> oci_tag s \<noteq> oci_tag t
         then str_compare (oci_tag s) (oci_tag t)
         else then_compare (options_compare_to oa ob)
                (str_compare (manifest_digest s) (manifest_digest t))))"

definition source_compare :: "source_info \<Rightarrow> source_info \<Rightarrow> json \<Rightarrow> json \<Rightarrow> int" where
  "source_compare s t oa ob =
     (if source_type s \<noteq> source_type t then str_compare (source_user_id s) (source_user_id t)
      else (case (s, t) of
          (OCI a, OCI b) \<Rightarrow> oci_compare a b oa ob
        | (Local a, Local b) \<Rightarrow>
            then_compare (str_compare (resolved_path a) (resolved_path b)) (options_compare_to oa ob)
        | (Tarball a, Tarball b) \<Rightarrow>
            then_compare (str_compare (tarball_uri a) (tarball_uri b)) (options_compare_to oa ob)
        | (a, b) \<Rightarrow>
            then_compare (str_compare (source_user_id a) (source_user_id b)) (options_compare_to oa ob)))"

text \<open>\<open>compareNodes\<close>; its callers have checked that both nodes have a set.\<close>

definition node_source :: "fnode \<Rightarrow> source_info option" where
  "node_source n = (case node_set n of None \<Rightarrow> None | Some s \<Rightarrow> source_info s)"

definition compare_nodes :: "fnode \<Rightarrow> fnode \<Rightarrow> int" where
  "compare_nodes a b =
     (case (node_source a, node_source b) of
        (Some s, Some t) \<Rightarrow> source_compare s t (node_options a) (node_options b)
      | _ \<Rightarrow> str_compare (user_feature_id a) (user_feature_id b))"

definition nodes_equal :: "fnode \<Rightarrow> fnode \<Rightarrow> bool" where
  "nodes_equal a b \<longleftrightarrow> node_set a \<noteq> None \<and> node_set b \<noteq> None \<and> compare_nodes a b = 0"

subsection \<open>Soft dependencies\<close>

definition node_satisfies_soft_dep :: "fnode \<Rightarrow> fnode \<Rightarrow> bool" where
  "node_satisfies_soft_dep node soft =
     (case (node_source node, node_source soft) of
        (Some s, Some t) \<Rightarrow>
          source_type s = source_type t \<and>
          (case (s, t) of
             (OCI a, OCI b) \<Rightarrow>
               oci_resource a = oci_resource b \<or>
               list_ex (\<lambda>alias. oci_registry b @ ''/'' @ oci_namespace b @ ''/'' @ alias = oci_resource a)
                 (feature_id_aliases soft)
           | (Local a, Local b) \<Rightarrow> resolved_path a = resolved_path b
           | (Tarball a, Tarball b) \<Rightarrow> tarball_uri a = tarball_uri b
           | (a, b) \<Rightarrow> source_user_id a = source_user_id b)
      | _ \<Rightarrow> False)"

definition satisfies_soft_dep :: "node_heap \<Rightarrow> node_ptr list \<Rightarrow> node_ptr \<Rightarrow> bool" where
  "satisfies_soft_dep h nodes soft = list_ex (\<lambda>n. node_satisfies_soft_dep (h ! n) (h ! soft)) nodes"

definition can_install :: "node_heap \<Rightarrow> node_ptr \<Rightarrow> node_ptr list \<Rightarrow> bool" where
  "can_install h node installed \<longleftrightarrow>
     list_all (\<lambda>dep. list_ex (\<lambda>n. nodes_equal (h ! n) (h ! dep)) installed) (hard_deps (h ! node)) \<and>
     list_all (satisfies_soft_dep h installed) (soft_deps (h ! node))"

subsection \<open>The order\<close>

text \<open>Soft dependencies nothing in the worklist satisfies are dropped, node by node.\<close>

definition prune_node :: "node_heap \<Rightarrow> node_ptr list \<Rightarrow> node_ptr \<Rightarrow> node_heap" where
  "prune_node h nodes n =
     h[n := (h ! n)\<lparr>soft_deps := filter (satisfies_soft_dep h nodes) (soft_deps (h ! n))\<rparr>]"

definition prune :: "node_heap \<Rightarrow> node_ptr list \<Rightarrow> node_heap" where
  "prune h nodes = foldl (\<lambda>g n. prune_node g nodes n) h nodes"

text \<open>The nodes of a round with the highest priority, when one has a priority.\<close>

definition max_priority :: "node_heap \<Rightarrow> node_ptr list \<Rightarrow> nat" where
  "max_priority h ns = foldl (\<lambda>m n. if round_priority (h ! n) > m then round_priority (h ! n) else m) 0 ns"

definition top_priority :: "node_heap \<Rightarrow> node_ptr list \<Rightarrow> node_ptr list" where
  "top_priority h ns =
     (let m = max_priority h ns
      in if m > 0 then filter (\<lambda>n. round_priority (h ! n) = m) ns else ns)"

definition order_loop :: "node_heap \<Rightarrow> node_ptr list \<Rightarrow> (node_ptr list + node_ptr list) option" where
  "order_loop h nodes =
     run_rounds (\<lambda>a b. nodes_equal (h ! a) (h ! b)) (can_install h) (top_priority h)
       (\<lambda>a b. compare_nodes (h ! a) (h ! b)) nodes []"

text \<open>\<open>ComputeInstallationOrder\<close>, with the order as pointers; its sets are read off below. The outer
  option is the loop's: \<open>None\<close> would be a loop that never ends.\<close>

definition installation_order :: "node_heap \<Rightarrow> node_ptr list \<Rightarrow> (order_error, node_ptr list) res option" where
  "installation_order h nodes =
     (if nodes = [] then Some (Inl EmptyWorklist)
      else case find (\<lambda>n. node_set (h ! n) = None) nodes of
        Some n \<Rightarrow> Some (Inl (NoResolvedSet (user_feature_id (h ! n))))
      | None \<Rightarrow>
          (let g = prune h nodes in
           case order_loop g nodes of
             None \<Rightarrow> None
           | Some (Inl left) \<Rightarrow> Some (Inl (CircularDependency (map (\<lambda>n. user_feature_id (g ! n)) left)))
           | Some (Inr ord) \<Rightarrow> Some (Inr ord)))"

definition compute_installation_order ::
  "node_heap \<Rightarrow> node_ptr list \<Rightarrow> (order_error, feature_set list) res option" where
  "compute_installation_order h nodes =
     map_option (map_sum id (map (\<lambda>n. the (node_set (h ! n))))) (installation_order h nodes)"

subsection \<open>The comparison\<close>

lemma bool_compare_refl [simp]: "bool_compare a a = 0"
  by (simp add: bool_compare_def)

lemma bool_compare_swap: "bool_compare b a = - bool_compare a b"
  by (auto simp: bool_compare_def)

lemma member_compare_refl [simp]: "member_compare v v = 0"
  by (cases v) auto

lemma member_compare_swap: "member_compare b a = - member_compare a b"
  by (cases a; cases b) (simp_all, (rule bool_compare_swap str_compare_swap)+)

lemma members_compare_refl [simp]: "members_compare m m ks ks = 0"
  by (induction ks) auto

lemma members_compare_swap: "members_compare bm am bks aks = - members_compare am bm aks bks"
proof (induction am bm aks bks rule: members_compare.induct)
  case (1 am bm ak aks bk bks)
  then show ?case
    using member_compare_swap [of "the (map_of am ak)" "the (map_of bm ak)"] str_compare_swap [of ak bk]
    by (auto simp: Let_def)
qed auto

lemma options_compare_refl [simp]: "options_compare_to v v = 0"
  by (cases v) auto

lemma options_compare_swap: "options_compare_to b a = - options_compare_to a b"
  by (cases "(a, b)" rule: options_compare_to.cases)
    (auto intro: str_compare_swap bool_compare_swap members_compare_swap)

lemma then_compare_refl [simp]: "then_compare 0 c = c"
  by (simp add: then_compare_def)

lemma then_compare_swap: "then_compare (- c) (- d) = - then_compare c d"
  by (simp add: then_compare_def)

lemma oci_compare_refl [simp]: "oci_compare s s v v = 0"
  by (simp add: oci_compare_def Let_def)

lemma oci_compare_swap: "oci_compare t s ob oa = - oci_compare s t oa ob"
proof -
  have P: "manifest_digest t = manifest_digest s \<and> manifest_digest t \<noteq> [] \<and> options_compare_to ob oa = 0
      \<longleftrightarrow> manifest_digest s = manifest_digest t \<and> manifest_digest s \<noteq> [] \<and> options_compare_to oa ob = 0"
    using options_compare_swap [of ob oa] by auto
  have Q: "oci_tag t \<noteq> [] \<and> oci_tag s \<noteq> [] \<and> oci_tag t \<noteq> oci_tag s
      \<longleftrightarrow> oci_tag s \<noteq> [] \<and> oci_tag t \<noteq> [] \<and> oci_tag s \<noteq> oci_tag t" by auto
  show ?thesis unfolding oci_compare_def P Q
    unfolding options_compare_swap [of ob oa] str_compare_swap [of "oci_tag t"]
      str_compare_swap [of "manifest_digest t"] str_compare_swap [of "oci_identity t"]
    by (simp add: then_compare_def)
qed

lemma source_compare_refl [simp]: "source_compare s s v v = 0"
  by (cases s) (simp_all add: source_compare_def)

lemma source_compare_swap: "source_compare t s ob oa = - source_compare s t oa ob"
proof -
  consider (oci) a b where "s = OCI a" "t = OCI b" | (local) a b where "s = Local a" "t = Local b"
    | (tarball) a b where "s = Tarball a" "t = Tarball b" | (differ) "source_type s \<noteq> source_type t"
    by (cases s; cases t) auto
  then show ?thesis
  proof cases
    case (oci a b)
    then show ?thesis by (simp add: source_compare_def oci_compare_swap [of b a])
  next
    case (local a b)
    then show ?thesis
      by (simp add: source_compare_def str_compare_swap [of "resolved_path b"]
          options_compare_swap [of ob oa] then_compare_swap)
  next
    case (tarball a b)
    then show ?thesis
      by (simp add: source_compare_def str_compare_swap [of "tarball_uri b"]
          options_compare_swap [of ob oa] then_compare_swap)
  next
    case differ
    then show ?thesis using str_compare_swap [of "source_user_id t" "source_user_id s"]
      by (simp add: source_compare_def)
  qed
qed

theorem compare_nodes_refl [simp]: "compare_nodes n n = 0"
  by (simp add: compare_nodes_def split: option.splits)

theorem compare_nodes_swap: "compare_nodes b a = - compare_nodes a b"
  by (cases "node_source a"; cases "node_source b")
    (simp_all add: compare_nodes_def, (rule source_compare_swap str_compare_swap)+)

lemma nodes_equal_refl [simp]: "nodes_equal n n \<longleftrightarrow> node_set n \<noteq> None"
  by (simp add: nodes_equal_def)

lemma nodes_equal_sym: "nodes_equal a b \<longleftrightarrow> nodes_equal b a"
  using compare_nodes_swap [of a b] by (auto simp: nodes_equal_def)

subsection \<open>The Feature graph as a round scheduler\<close>

lemma top_priority_subset: "set (top_priority h ns) \<subseteq> set ns"
  by (auto simp: top_priority_def Let_def)

lemma max_priority_Max: "max_priority h ns = Max (insert 0 ((\<lambda>n. round_priority (h ! n)) ` set ns))"
proof -
  have f: "(\<lambda>m n. if round_priority (h ! n) > m then round_priority (h ! n) else m)
      = (\<lambda>m n. max m (round_priority (h ! n)))"
    by (auto simp: fun_eq_iff)
  have "foldl (\<lambda>m n. max m (round_priority (h ! n))) k ns
      = Max (insert k ((\<lambda>n. round_priority (h ! n)) ` set ns))" for k
  proof (induction ns arbitrary: k)
    case (Cons n ns)
    show ?case by (cases "ns = []") (simp_all add: Cons Max_insert2 ac_simps)
  qed simp
  then show ?thesis by (simp only: max_priority_def f)
qed

lemma max_priority_attained:
  assumes "max_priority h ns > 0"
  shows "\<exists>n\<in>set ns. round_priority (h ! n) = max_priority h ns"
proof -
  have "max_priority h ns \<in> insert 0 ((\<lambda>n. round_priority (h ! n)) ` set ns)"
    unfolding max_priority_Max by (rule Max_in) auto
  then show ?thesis using assms by auto
qed

lemma max_priority_upper: "n \<in> set ns \<Longrightarrow> round_priority (h ! n) \<le> max_priority h ns"
  unfolding max_priority_Max by (rule Max_ge) auto

lemma top_priority_nonempty: "ns \<noteq> [] \<Longrightarrow> top_priority h ns \<noteq> []"
  using max_priority_attained [of h ns] by (auto simp: top_priority_def Let_def filter_empty_conv)

lemma top_priority_max:
  "n \<in> set (top_priority h ns) \<Longrightarrow> m \<in> set ns \<Longrightarrow> round_priority (h ! m) \<le> round_priority (h ! n)"
  using max_priority_upper [of m ns h] by (auto simp: top_priority_def Let_def split: if_splits)

interpretation fs: round_scheduler "\<lambda>n. node_set (h ! n) \<noteq> None" "\<lambda>a b. nodes_equal (h ! a) (h ! b)"
  "can_install h" "top_priority h" "\<lambda>a b. compare_nodes (h ! a) (h ! b)" for h
proof unfold_locales
  show "distinct ns \<Longrightarrow> distinct (top_priority h ns)" for h ns by (simp add: top_priority_def Let_def)
qed (use top_priority_subset top_priority_nonempty in auto)

subsection \<open>Pruning\<close>

text \<open>Pruning touches the soft dependencies only, and no test it makes reads them.\<close>

lemma soft_deps_frame [simp]:
  "node_source (n\<lparr>soft_deps := x\<rparr>) = node_source n"
  "feature_id_aliases (n\<lparr>soft_deps := x\<rparr>) = feature_id_aliases n"
  "user_feature_id (n\<lparr>soft_deps := x\<rparr>) = user_feature_id n"
  "node_options (n\<lparr>soft_deps := x\<rparr>) = node_options n"
  "node_set (n\<lparr>soft_deps := x\<rparr>) = node_set n"
  by (simp_all add: node_source_def)

lemma soft_dep_irrelevant [simp]:
  "node_satisfies_soft_dep (n\<lparr>soft_deps := x\<rparr>) (m\<lparr>soft_deps := y\<rparr>) = node_satisfies_soft_dep n m"
  "compare_nodes (n\<lparr>soft_deps := x\<rparr>) (m\<lparr>soft_deps := y\<rparr>) = compare_nodes n m"
  "nodes_equal (n\<lparr>soft_deps := x\<rparr>) (m\<lparr>soft_deps := y\<rparr>) = nodes_equal n m"
  unfolding node_satisfies_soft_dep_def compare_nodes_def nodes_equal_def soft_deps_frame by (rule refl)+

lemma nth_update: "(xs[i := v]) ! j = (if i = j \<and> i < length xs then v else xs ! j)"
  by (induction xs arbitrary: i j) (auto split: nat.splits simp: nth_Cons)

definition same_but_soft :: "node_heap \<Rightarrow> node_heap \<Rightarrow> bool" where
  "same_but_soft g h \<longleftrightarrow> length g = length h \<and> (\<forall>n. \<exists>x. g ! n = (h ! n)\<lparr>soft_deps := x\<rparr>)"

lemma same_but_soft_refl: "same_but_soft h h"
  unfolding same_but_soft_def by (metis fnode.surjective fnode.update_convs(6) old.unit.exhaust)

lemma same_but_softD:
  assumes "same_but_soft g h"
  shows "node_set (g ! n) = node_set (h ! n)" "hard_deps (g ! n) = hard_deps (h ! n)"
    "user_feature_id (g ! n) = user_feature_id (h ! n)" "round_priority (g ! n) = round_priority (h ! n)"
    "nodes_equal (g ! n) (g ! m) = nodes_equal (h ! n) (h ! m)"
    "compare_nodes (g ! n) (g ! m) = compare_nodes (h ! n) (h ! m)"
    "node_satisfies_soft_dep (g ! n) (g ! m) = node_satisfies_soft_dep (h ! n) (h ! m)"
proof -
  obtain x y where "g ! n = (h ! n)\<lparr>soft_deps := x\<rparr>" "g ! m = (h ! m)\<lparr>soft_deps := y\<rparr>"
    using assms unfolding same_but_soft_def by blast
  then show "node_set (g ! n) = node_set (h ! n)" "hard_deps (g ! n) = hard_deps (h ! n)"
    "user_feature_id (g ! n) = user_feature_id (h ! n)" "round_priority (g ! n) = round_priority (h ! n)"
    "nodes_equal (g ! n) (g ! m) = nodes_equal (h ! n) (h ! m)"
    "compare_nodes (g ! n) (g ! m) = compare_nodes (h ! n) (h ! m)"
    "node_satisfies_soft_dep (g ! n) (g ! m) = node_satisfies_soft_dep (h ! n) (h ! m)"
    by simp_all
qed

lemma same_but_soft_satisfies: "same_but_soft g h \<Longrightarrow> satisfies_soft_dep g = satisfies_soft_dep h"
  by (simp add: satisfies_soft_dep_def fun_eq_iff same_but_softD)

lemma same_but_soft_prune_node: "same_but_soft g h \<Longrightarrow> same_but_soft (prune_node g nodes n) h"
  unfolding same_but_soft_def prune_node_def
  by (metis (no_types, lifting) fnode.update_convs(6) fnode.surjective length_list_update nth_update)

lemma prune_loop:
  assumes "same_but_soft g h"
  shows "same_but_soft (foldl (\<lambda>g n. prune_node g nodes n) g ns) h \<and>
    (\<forall>m. soft_deps (foldl (\<lambda>g n. prune_node g nodes n) g ns ! m) =
       (if m \<in> set ns \<and> m < length h then filter (satisfies_soft_dep h nodes) (soft_deps (g ! m))
        else soft_deps (g ! m)))"
  using assms
proof (induction ns arbitrary: g)
  case (Cons n ns)
  have "soft_deps (prune_node g nodes n ! m) =
      (if m = n \<and> m < length h then filter (satisfies_soft_dep h nodes) (soft_deps (g ! m))
       else soft_deps (g ! m))" for m
    using Cons.prems same_but_soft_satisfies [OF Cons.prems]
    by (simp add: prune_node_def nth_update same_but_soft_def)
  then show ?case using Cons.IH [OF same_but_soft_prune_node [OF Cons.prems]] by auto
qed simp

lemma prune_same: "same_but_soft (prune h nodes) h"
  and prune_soft: "n \<in> set nodes \<Longrightarrow> n < length h \<Longrightarrow>
    soft_deps (prune h nodes ! n) = filter (satisfies_soft_dep h nodes) (soft_deps (h ! n))"
  and prune_soft_subset: "d \<in> set (soft_deps (h ! n)) \<Longrightarrow> satisfies_soft_dep h nodes d \<Longrightarrow>
    d \<in> set (soft_deps (prune h nodes ! n))"
  using prune_loop [OF same_but_soft_refl, of nodes h nodes] by (simp_all add: prune_def)

text \<open>Installable after pruning, in terms of the graph as given.\<close>

definition deps_met :: "node_heap \<Rightarrow> node_ptr list \<Rightarrow> node_ptr \<Rightarrow> node_ptr list \<Rightarrow> bool" where
  "deps_met h nodes n before \<longleftrightarrow>
     (\<forall>d\<in>set (hard_deps (h ! n)). \<exists>m\<in>set before. nodes_equal (h ! m) (h ! d)) \<and>
     (\<forall>d\<in>set (soft_deps (h ! n)). satisfies_soft_dep h nodes d \<longrightarrow> satisfies_soft_dep h before d)"

lemma can_install_deps_met: "can_install (prune h nodes) n before \<Longrightarrow> deps_met h nodes n before"
  using prune_soft_subset [of _ h n nodes]
  by (auto simp: can_install_def deps_met_def list_all_iff list_ex_iff same_but_softD [OF prune_same]
      same_but_soft_satisfies [OF prune_same])

lemma deps_met_can_install:
  "n \<in> set nodes \<Longrightarrow> n < length h \<Longrightarrow> deps_met h nodes n before \<Longrightarrow> can_install (prune h nodes) n before"
  by (auto simp: can_install_def deps_met_def list_all_iff list_ex_iff same_but_softD [OF prune_same]
      same_but_soft_satisfies [OF prune_same] prune_soft)

lemma deps_met_mono: "deps_met h nodes n before \<Longrightarrow> set before \<subseteq> set after \<Longrightarrow> deps_met h nodes n after"
  by (fastforce simp: deps_met_def satisfies_soft_dep_def list_ex_iff)

subsection \<open>A graph\<close>

text \<open>Local Features: \<open>b\<close> depends on \<open>a\<close>, \<open>c\<close> wants to come after \<open>b\<close>, \<open>d\<close> has priority.\<close>

definition local_node :: "string \<Rightarrow> node_ptr list \<Rightarrow> node_ptr list \<Rightarrow> nat \<Rightarrow> fnode" where
  "local_node i hard soft prio =
     \<lparr>node_type = ''user-provided'', user_feature_id = i, node_options = JObj [],
      node_set = Some \<lparr>source_info = Some (Local \<lparr>local_path = i, resolved_path = i, local_user_id = i\<rparr>),
        set_features = [], internal_version = [], computed_digest = []\<rparr>,
      hard_deps = hard, soft_deps = soft, feature_id_aliases = [i], round_priority = prio\<rparr>"

definition sample_graph :: node_heap where
  "sample_graph = [local_node ''c'' [] [1] 0, local_node ''b'' [2] [] 0, local_node ''a'' [] [] 0,
     local_node ''d'' [] [] 1]"

lemma sample_order: "installation_order sample_graph [0, 1, 2, 3] = Some (Inr [3, 2, 1, 0])"
  by code_simp

definition sample_cycle :: node_heap where
  "sample_cycle = [local_node ''a'' [1] [] 0, local_node ''b'' [0] [] 0, local_node ''c'' [] [] 0]"

lemma sample_cycle_order:
  "installation_order sample_cycle [0, 1, 2] = Some (Inl (CircularDependency [''a'', ''b'']))"
  by code_simp

subsection \<open>The order of a graph\<close>

definition resolved_nodes :: "node_heap \<Rightarrow> node_ptr list \<Rightarrow> bool" where
  "resolved_nodes h nodes \<longleftrightarrow> (\<forall>n\<in>set nodes. node_set (h ! n) \<noteq> None)"

lemma installation_order_resolved:
  assumes "nodes \<noteq> []" and "resolved_nodes h nodes"
  shows "installation_order h nodes =
    (case order_loop (prune h nodes) nodes of None \<Rightarrow> None
     | Some (Inl left) \<Rightarrow>
         Some (Inl (CircularDependency (map (\<lambda>n. user_feature_id (prune h nodes ! n)) left)))
     | Some (Inr ord) \<Rightarrow> Some (Inr ord))"
proof -
  have "find (\<lambda>n. node_set (h ! n) = None) nodes = None"
    using assms(2) by (auto simp: find_None_iff resolved_nodes_def)
  then show ?thesis using assms(1) by (simp add: installation_order_def Let_def)
qed

lemma installation_order_unresolved:
  assumes "\<not> resolved_nodes h nodes"
  shows "\<exists>n\<in>set nodes. installation_order h nodes = Some (Inl (NoResolvedSet (user_feature_id (h ! n))))"
proof -
  have "find (\<lambda>n. node_set (h ! n) = None) nodes \<noteq> None"
    using assms by (auto simp: find_None_iff resolved_nodes_def)
  then obtain n where n: "find (\<lambda>n. node_set (h ! n) = None) nodes = Some n" by blast
  then have "n \<in> set nodes" by (auto simp: find_Some_iff)
  then show ?thesis using n by (auto simp: installation_order_def)
qed

lemma order_loop_ends:
  assumes "resolved_nodes h nodes"
  shows "(\<exists>ord. order_loop (prune h nodes) nodes = Some (Inr ord) \<and>
      fs.reach (prune h nodes) (nodes, []) ([], ord)) \<or>
    (\<exists>left ord. order_loop (prune h nodes) nodes = Some (Inl left) \<and> left \<noteq> [] \<and>
      fs.reach (prune h nodes) (nodes, []) (left, ord) \<and> fs.step (prune h nodes) (left, ord) = None)"
proof -
  have "\<forall>n\<in>set nodes. node_set (prune h nodes ! n) \<noteq> None"
    using assms by (simp add: resolved_nodes_def same_but_softD [OF prune_same])
  then show ?thesis unfolding order_loop_def by (rule fs.run_ends) (rule rounds_refl)
qed

lemma installation_order_Inr:
  assumes "installation_order h nodes = Some (Inr ord)"
  shows "nodes \<noteq> [] \<and> resolved_nodes h nodes \<and> fs.reach (prune h nodes) (nodes, []) ([], ord)"
proof -
  have ne: "nodes \<noteq> []" using assms by (auto simp: installation_order_def)
  have res: "resolved_nodes h nodes" using assms installation_order_unresolved by fastforce
  show ?thesis using assms ne res order_loop_ends [OF res]
    by (auto simp: installation_order_resolved [OF ne res])
qed

text \<open>The order computation always returns: an order, or one of its three errors.\<close>

theorem installation_order_total: "\<exists>r. installation_order h nodes = Some r"
proof (cases "nodes = []")
  case True
  then show ?thesis by (simp add: installation_order_def)
next
  case False
  show ?thesis
  proof (cases "resolved_nodes h nodes")
    case True
    then show ?thesis using order_loop_ends [OF True] installation_order_resolved [OF False True] by auto
  next
    case False
    then show ?thesis using installation_order_unresolved by blast
  qed
qed

text \<open>C1. An order respects every dependency: a Feature comes after a Feature equal to each of its hard
  dependencies and after one satisfying each soft dependency that any Feature of the graph
  satisfies; only Features of the graph are installed, and each of them, or one equal to it, is.\<close>

theorem installation_order_sound:
  assumes "installation_order h nodes = Some (Inr ord)"
  shows "set ord \<subseteq> set nodes \<and>
    (\<forall>n\<in>set nodes. \<exists>m\<in>set ord. nodes_equal (h ! n) (h ! m)) \<and>
    (\<forall>xs n ys. ord = xs @ n # ys \<longrightarrow> deps_met h nodes n xs)"
proof (intro conjI allI impI)
  have r: "fs.reach (prune h nodes) (nodes, []) ([], ord)"
    using installation_order_Inr [OF assms] by blast
  show "set ord \<subseteq> set nodes" using fs.reach_sets [OF r] by simp
  show "\<forall>n\<in>set nodes. \<exists>m\<in>set ord. nodes_equal (h ! n) (h ! m)"
    using fs.reach_sets [OF r] by (simp add: list_ex_iff same_but_softD [OF prune_same])
  fix xs n ys assume "ord = xs @ n # ys"
  then obtain k where "can_install (prune h nodes) n (take k xs)"
    using fs.reach_ready [OF r, of xs n ys] by auto
  then show "deps_met h nodes n xs"
    using deps_met_mono [OF can_install_deps_met] set_take_subset by metis
qed

theorem installation_order_sound_witness:
  "deps_met sample_graph [0, 1, 2, 3] 1 [3, 2] \<and> deps_met sample_graph [0, 1, 2, 3] 0 [3, 2, 1]"
  using installation_order_sound [OF sample_order] by (metis append_Cons append_Nil)

text \<open>C3. A circular dependency is reported only when it is one: some Features are left, whose ids the
  error lists in worklist order, every other Feature is installed (or equal to an installed one),
  and each Feature left has a dependency the installed ones do not meet.\<close>

theorem circular_dependency_genuine:
  assumes "installation_order h nodes = Some (Inl (CircularDependency ids))"
    and "\<forall>n\<in>set nodes. n < length h"
  shows "\<exists>left installed. left \<noteq> [] \<and> ids = map (\<lambda>n. user_feature_id (h ! n)) left \<and>
    set left \<union> set installed \<subseteq> set nodes \<and>
    (\<forall>n\<in>set nodes. n \<in> set left \<or> (\<exists>m\<in>set installed. nodes_equal (h ! n) (h ! m))) \<and>
    (\<forall>n\<in>set left. \<not> deps_met h nodes n installed)"
proof -
  have ne: "nodes \<noteq> []" using assms(1) by (auto simp: installation_order_def)
  have res: "resolved_nodes h nodes" using assms(1) installation_order_unresolved by fastforce
  obtain left ord where l: "order_loop (prune h nodes) nodes = Some (Inl left)" "left \<noteq> []"
    "fs.reach (prune h nodes) (nodes, []) (left, ord)" "fs.step (prune h nodes) (left, ord) = None"
    using order_loop_ends [OF res] assms(1) by (auto simp: installation_order_resolved [OF ne res])
  then have ids: "ids = map (\<lambda>n. user_feature_id (h ! n)) left"
    using assms(1) by (simp add: installation_order_resolved [OF ne res] same_but_softD [OF prune_same])
  have sets: "set left \<subseteq> set nodes" "set ord \<subseteq> set nodes"
    "\<forall>n\<in>set nodes. n \<in> set left \<or> (\<exists>m\<in>set ord. nodes_equal (h ! n) (h ! m))"
    using fs.reach_sets [OF l(3)] by (simp_all add: list_ex_iff same_but_softD [OF prune_same])
  have "\<not> deps_met h nodes n ord" if "n \<in> set left" for n
    using l(4) that sets(1) assms(2) deps_met_can_install [of n nodes h ord] by (auto simp: next_round_None)
  then show ?thesis using l(2) ids sets by (intro exI [of _ left] exI [of _ ord]) auto
qed

theorem circular_dependency_genuine_witness:
  "\<exists>left installed. left \<noteq> [] \<and> map (\<lambda>n. user_feature_id (sample_cycle ! n)) left = [''a'', ''b''] \<and>
     (\<forall>n\<in>set left. \<not> deps_met sample_cycle [0, 1, 2] n installed)"
proof -
  have "\<forall>n\<in>set [0, 1, 2]. n < length sample_cycle" by code_simp
  then show ?thesis using circular_dependency_genuine [OF sample_cycle_order] by metis
qed

text \<open>Features pairwise different, as the graph builder leaves them.\<close>

definition pairwise_different :: "node_heap \<Rightarrow> node_ptr list \<Rightarrow> bool" where
  "pairwise_different h nodes \<longleftrightarrow> distinct nodes \<and>
     (\<forall>a\<in>set nodes. \<forall>b\<in>set nodes. nodes_equal (h ! a) (h ! b) \<longrightarrow> a = b)"

lemma pairwise_separate: "pairwise_different h nodes \<Longrightarrow> fs.separate (prune h nodes) nodes"
  by (simp add: pairwise_different_def fs.separate_def same_but_softD [OF prune_same])

text \<open>A ranking of the Features under which every dependency points to a lower Feature.\<close>

definition acyclic_by :: "(node_ptr \<Rightarrow> nat) \<Rightarrow> node_heap \<Rightarrow> node_ptr list \<Rightarrow> bool" where
  "acyclic_by rank h nodes \<longleftrightarrow>
     (\<forall>n\<in>set nodes. deps_met h nodes n (filter (\<lambda>m. rank m < rank n) nodes))"

text \<open>C2. A graph without a cycle is ordered completely: where the Features are pairwise different and some
  ranking puts every dependency lower, the order is a permutation of the worklist.\<close>

theorem installation_order_complete:
  assumes "nodes \<noteq> []" and "resolved_nodes h nodes" and "\<forall>n\<in>set nodes. n < length h"
    and "pairwise_different h nodes" and "acyclic_by rank h nodes"
  shows "\<exists>ord. installation_order h nodes = Some (Inr ord) \<and> mset ord = mset nodes"
proof -
  have "\<exists>d. fs.run (prune h nodes) nodes [] = Some (Inr d) \<and> mset d = mset nodes \<and>
      fs.reach (prune h nodes) (nodes, []) ([], d)"
  proof (rule fs.run_complete [OF pairwise_separate [OF assms(4)]])
    show "\<forall>n\<in>set nodes. node_set (prune h nodes ! n) \<noteq> None"
      using assms(2) by (simp add: resolved_nodes_def same_but_softD [OF prune_same])
    fix n d assume n: "n \<in> set nodes" and low: "\<forall>m\<in>set nodes. rank m < rank n \<longrightarrow> m \<in> set d"
    then have "deps_met h nodes n d"
      using assms(5) deps_met_mono [of h nodes n "filter (\<lambda>m. rank m < rank n) nodes" d]
      by (auto simp: acyclic_by_def)
    then show "can_install (prune h nodes) n d" using deps_met_can_install n assms(3) by blast
  qed
  then show ?thesis
    by (auto simp: installation_order_resolved [OF assms(1,2)] order_loop_def)
qed

theorem installation_order_complete_witness:
  "\<exists>ord. installation_order sample_graph [0, 1, 2, 3] = Some (Inr ord) \<and> mset ord = mset [0, 1, 2, 3]"
proof (rule installation_order_complete)
  show "resolved_nodes sample_graph [0, 1, 2, 3]" unfolding resolved_nodes_def by code_simp
  show "\<forall>n\<in>set [0, 1, 2, 3]. n < length sample_graph" by code_simp
  show "pairwise_different sample_graph [0, 1, 2, 3]" unfolding pairwise_different_def by code_simp
  show "acyclic_by (\<lambda>n. 3 - n) sample_graph [0, 1, 2, 3]" unfolding acyclic_by_def deps_met_def by code_simp
qed simp

text \<open>C6. Overrides come as early as dependencies allow: at the moment a Feature is chosen, no Feature still to
  be installed that could be chosen too has a higher priority.\<close>

theorem installation_order_priority:
  assumes "installation_order h nodes = Some (Inr ord)" and "pairwise_different h nodes"
    and "ord = xs @ n # ys"
  shows "\<exists>k \<le> length xs. can_install (prune h nodes) n (take k xs) \<and>
    (\<forall>m \<in> set (drop k ord). can_install (prune h nodes) m (take k xs) \<longrightarrow>
       round_priority (h ! m) \<le> round_priority (h ! n))"
proof -
  define g where "g = prune h nodes"
  have r: "fs.reach g (nodes, []) ([], ord)" and res: "resolved_nodes h nodes"
    using installation_order_Inr [OF assms(1)] by (auto simp: g_def)
  have ok: "\<forall>n\<in>set nodes. node_set (g ! n) \<noteq> None"
    using res by (simp add: g_def resolved_nodes_def same_but_softD [OF prune_same])
  have sep: "fs.separate g nodes" using pairwise_separate [OF assms(2)] by (simp add: g_def)
  obtain k w where k: "k \<le> length xs" "fs.reach g (nodes, []) (w, take k xs)"
    "n \<in> set (top_priority g (filter (\<lambda>m. can_install g m (take k xs)) w))"
    using fs.reach_picked [OF r] assms(3) by (metis snd_conv)
  have "mset ord = mset nodes" using fs.reach_perm [OF r sep ok] by simp
  moreover have "mset w + mset (take k ord) = mset nodes"
    using fs.reach_perm [OF k(2) sep ok] k(1) assms(3) by simp
  ultimately have "mset w = mset (drop k ord)"
    by (metis add.commute add_left_cancel append_take_drop_id mset_append)
  then have w: "set w = set (drop k ord)" by (metis set_mset_mset)
  have "can_install g n (take k xs)" using k(3) top_priority_subset by fastforce
  moreover have "round_priority (h ! m) \<le> round_priority (h ! n)"
    if "m \<in> set (drop k ord)" "can_install g m (take k xs)" for m
    using top_priority_max [OF k(3), of m] that w by (simp add: g_def same_but_softD [OF prune_same])
  ultimately show ?thesis using k(1) unfolding g_def by blast
qed

theorem installation_order_priority_witness:
  "\<exists>k \<le> length ([] :: node_ptr list). can_install (prune sample_graph [0, 1, 2, 3]) 3 (take k []) \<and>
     (\<forall>m \<in> set (drop k [3, 2, 1, 0]). can_install (prune sample_graph [0, 1, 2, 3]) m (take k []) \<longrightarrow>
        round_priority (sample_graph ! m) \<le> round_priority (sample_graph ! 3))"
proof (rule installation_order_priority [OF sample_order])
  show "pairwise_different sample_graph [0, 1, 2, 3]" unfolding pairwise_different_def by code_simp
qed simp

end
