(* ===== verification/FeatureGraph.thy ===== *)
theory FeatureGraph
  imports FeatureOrder
begin

text \<open>
  \<open>internal/features/graph.go\<close>: the dependency graph of the user's Features, built by a first-in
  first-out worklist over the node heap of theory FeatureOrder. \<open>processFeature\<close>, which fetches a
  Feature, is a parameter: a function of the node's fields with the answers error, nothing
  (\<open>Inr None\<close>) or a set.
\<close>

datatype graph_error =
    ProcessFailed string
  | FeatureUnprocessed string
  | SoftDepUnprocessed string string
  | OverrideUnprocessed string

definition graph_error_message :: "graph_error \<Rightarrow> string" where
  "graph_error_message e = (case e of
     ProcessFailed msg \<Rightarrow> msg
   | FeatureUnprocessed i \<Rightarrow> ''ERR: Feature '' @ [CHR 0x27] @ i @ [CHR 0x27]
       @ '' could not be processed.  You may not have permission to access this Feature, or may not be logged in.  If the issue persists, report this to the Feature author.''
   | SoftDepUnprocessed d i \<Rightarrow> ''installsAfter dependency '' @ [CHR 0x27] @ d @ [CHR 0x27]
       @ '' of Feature '' @ [CHR 0x27] @ i @ [CHR 0x27] @ '' could not be processed.''
   | OverrideUnprocessed i \<Rightarrow> ''Feature '' @ [CHR 0x27] @ i @ [CHR 0x27] @ '' in ''
       @ [CHR 0x27] @ ''overrideFeatureInstallOrder'' @ [CHR 0x27] @ '' could not be processed.'')"

type_synonym process_feature = "fnode \<Rightarrow> (string, feature_set option) res"

definition aliases_for :: "feature \<Rightarrow> string list" where
  "aliases_for f = (if feat_id f \<noteq> [] then [feat_id f] else []) @ legacy_ids f"

definition set_aliases :: "feature_set \<Rightarrow> string list \<Rightarrow> string list" where
  "set_aliases s old = (case set_features s of [] \<Rightarrow> old | f # _ \<Rightarrow> aliases_for f)"

definition new_node :: "string \<Rightarrow> string \<Rightarrow> json \<Rightarrow> fnode" where
  "new_node typ i opts = \<lparr>node_type = typ, user_feature_id = i, node_options = opts, node_set = None,
     hard_deps = [], soft_deps = [], feature_id_aliases = [], round_priority = 0\<rparr>"

subsection \<open>Resolving one node\<close>

text \<open>The soft dependencies of a Feature: each is processed once, for its aliases, and never queued.\<close>

definition soft_node :: "process_feature \<Rightarrow> string \<Rightarrow> string \<Rightarrow> (graph_error, fnode) res" where
  "soft_node pf cur i =
     (let dep = new_node ''resolved'' i (JObj []) in
      case pf dep of
        Inl e \<Rightarrow> Inl (ProcessFailed e)
      | Inr None \<Rightarrow> Inl (SoftDepUnprocessed i cur)
      | Inr (Some s) \<Rightarrow> Inr (dep\<lparr>node_set := Some s, feature_id_aliases := set_aliases s []\<rparr>))"

definition hard_nodes :: "feature \<Rightarrow> fnode list" where
  "hard_nodes f = map (\<lambda>k. new_node ''resolved'' k (the (map_of (depends_on f) k))) (sorted_keys (depends_on f))"

record graph_state =
  gs_heap :: node_heap
  gs_work :: "node_ptr list"
  gs_acc :: "node_ptr list"

definition in_acc :: "node_heap \<Rightarrow> node_ptr list \<Rightarrow> node_ptr \<Rightarrow> bool" where
  "in_acc h acc c = list_ex (\<lambda>n. nodes_equal (h ! n) (h ! c)) acc"

text \<open>The edges of a node whose set is known: its hard dependencies are allocated and queued, its soft
  ones allocated after them.\<close>

definition expand_node ::
  "process_feature \<Rightarrow> node_heap \<Rightarrow> node_ptr \<Rightarrow> feature \<Rightarrow> (graph_error, node_heap \<times> node_ptr list) res" where
  "expand_node pf h c f =
     (let hard = hard_nodes f; base = length h; hp = [base ..< base + length hard] in
      bind_res (traverse (soft_node pf (user_feature_id (h ! c))) (installs_after f)) (\<lambda>soft.
        let sp = [base + length hard ..< base + length hard + length soft];
            cur = (h ! c)\<lparr>feature_id_aliases := aliases_for f, hard_deps := hard_deps (h ! c) @ hp,
                          soft_deps := soft_deps (h ! c) @ sp\<rparr>
        in Inr (h[c := cur] @ hard @ soft, hp)))"

text \<open>One turn of the loop of \<open>resolveDependencyGraph\<close> on a non-empty worklist.\<close>

definition graph_step :: "process_feature \<Rightarrow> graph_state \<Rightarrow> (graph_error, graph_state) res" where
  "graph_step pf st =
     (let c = hd (gs_work st); ws = tl (gs_work st); h = gs_heap st in
      case pf (h ! c) of
        Inl e \<Rightarrow> Inl (ProcessFailed e)
      | Inr None \<Rightarrow> Inl (FeatureUnprocessed (user_feature_id (h ! c)))
      | Inr (Some s) \<Rightarrow>
          (let h1 = h[c := (h ! c)\<lparr>node_set := Some s\<rparr>] in
           if in_acc h1 (gs_acc st) c then Inr \<lparr>gs_heap = h1, gs_work = ws, gs_acc = gs_acc st\<rparr>
           else (case set_features s of
               [] \<Rightarrow> Inr \<lparr>gs_heap = h1, gs_work = ws, gs_acc = gs_acc st @ [c]\<rparr>
             | f # _ \<Rightarrow> bind_res (expand_node pf h1 c f) (\<lambda>(h2, hp).
                 Inr \<lparr>gs_heap = h2, gs_work = ws @ hp, gs_acc = gs_acc st @ [c]\<rparr>))))"

text \<open>The loop; \<open>None\<close> is a worklist that never empties.\<close>

partial_function (option) graph_loop ::
  "process_feature \<Rightarrow> graph_state \<Rightarrow> (graph_error, graph_state) res option" where
  "graph_loop pf st =
     (if gs_work st = [] then Some (Inr st)
      else (case graph_step pf st of Inl e \<Rightarrow> Some (Inl e) | Inr st' \<Rightarrow> graph_loop pf st'))"

declare graph_loop.simps [code]

definition root_state :: "user_feature list \<Rightarrow> graph_state" where
  "root_state fs =
     \<lparr>gs_heap = map (\<lambda>f. new_node ''user-provided'' (user_feature_ref f) (user_feature_options f)) fs,
      gs_work = [0 ..< length fs], gs_acc = []\<rparr>"

subsection \<open>overrideFeatureInstallOrder\<close>

definition override_node :: "process_feature \<Rightarrow> string \<Rightarrow> nat \<Rightarrow> (graph_error, fnode) res" where
  "override_node pf i prio =
     (let n = (new_node ''override'' i (JObj []))\<lparr>round_priority := prio\<rparr> in
      case pf n of
        Inl e \<Rightarrow> Inl (ProcessFailed e)
      | Inr None \<Rightarrow> Inl (OverrideUnprocessed i)
      | Inr (Some s) \<Rightarrow> Inr (n\<lparr>node_set := Some s, feature_id_aliases := set_aliases s []\<rparr>))"

definition raise_priority :: "fnode \<Rightarrow> nat \<Rightarrow> node_heap \<Rightarrow> node_ptr \<Rightarrow> node_heap" where
  "raise_priority ov prio h n =
     (if node_satisfies_soft_dep (h ! n) ov \<and> prio > round_priority (h ! n)
      then h[n := (h ! n)\<lparr>round_priority := prio\<rparr>] else h)"

text \<open>The entries from the last to the first; \<open>prio\<close> is the priority of the next one.\<close>

fun apply_overrides ::
  "process_feature \<Rightarrow> node_ptr list \<Rightarrow> nat \<Rightarrow> string list \<Rightarrow> node_heap \<Rightarrow> (graph_error, node_heap) res" where
  "apply_overrides pf nodes prio [] h = Inr h"
| "apply_overrides pf nodes prio (i # is) h =
     (case override_node pf i prio of
        Inl e \<Rightarrow> Inl e
      | Inr ov \<Rightarrow> apply_overrides pf nodes (prio + 1) is (foldl (raise_priority ov prio) h nodes))"

definition apply_override_feature_install_order ::
  "process_feature \<Rightarrow> node_heap \<Rightarrow> node_ptr list \<Rightarrow> string list \<Rightarrow> (graph_error, node_heap) res" where
  "apply_override_feature_install_order pf h nodes order = apply_overrides pf nodes 1 (rev order) h"

definition build_dependency_graph ::
  "process_feature \<Rightarrow> user_feature list \<Rightarrow> string list
     \<Rightarrow> (graph_error, node_heap \<times> node_ptr list) res option" where
  "build_dependency_graph pf fs order =
     (case graph_loop pf (root_state fs) of
        None \<Rightarrow> None
      | Some (Inl e) \<Rightarrow> Some (Inl e)
      | Some (Inr st) \<Rightarrow>
          Some (if order = [] then Inr (gs_heap st, gs_acc st)
                else bind_res (apply_override_feature_install_order pf (gs_heap st) (gs_acc st) order)
                       (\<lambda>h. Inr (h, gs_acc st))))"

subsection \<open>What the builder keeps\<close>

text \<open>Equality of nodes reads their sets, options and ids only.\<close>

definition node_key :: "fnode \<Rightarrow> feature_set option \<times> json \<times> string" where
  "node_key n = (node_set n, node_options n, user_feature_id n)"

lemma nodes_equal_key:
  "node_key a = node_key a' \<Longrightarrow> node_key b = node_key b' \<Longrightarrow> nodes_equal a b = nodes_equal a' b'"
proof -
  assume "node_key a = node_key a'" "node_key b = node_key b'"
  then have eqs: "node_set a = node_set a'" "node_options a = node_options a'"
    "user_feature_id a = user_feature_id a'" "node_set b = node_set b'"
    "node_options b = node_options b'" "user_feature_id b = user_feature_id b'"
    by (simp_all add: node_key_def)
  show ?thesis unfolding nodes_equal_def compare_nodes_def node_source_def by (simp only: eqs)
qed

text \<open>A node still queued, or resolved and equal to an accepted one.\<close>

definition accounted :: "node_heap \<Rightarrow> node_ptr list \<Rightarrow> node_ptr list \<Rightarrow> node_ptr \<Rightarrow> bool" where
  "accounted h work acc d \<longleftrightarrow> d < length h \<and>
     (d \<in> set work \<or> (\<exists>m\<in>set acc. nodes_equal (h ! m) (h ! d)))"

definition graph_inv :: "user_feature list \<Rightarrow> graph_state \<Rightarrow> bool" where
  "graph_inv fs st \<longleftrightarrow>
     (let h = gs_heap st; work = gs_work st; acc = gs_acc st in
      set work \<union> set acc \<subseteq> {..<length h} \<and> distinct (work @ acc) \<and>
      resolved_nodes h acc \<and> pairwise_different h acc \<and>
      (\<forall>n\<in>set work. hard_deps (h ! n) = []) \<and>
      (\<forall>n\<in>set acc. \<forall>d\<in>set (hard_deps (h ! n)). accounted h work acc d) \<and>
      (\<forall>r<length fs. accounted h work acc r \<and> user_feature_id (h ! r) = user_feature_ref (fs ! r)
         \<and> node_options (h ! r) = user_feature_options (fs ! r)) \<and>
      (\<forall>n<length h. round_priority (h ! n) = 0))"

lemma graph_inv_root: "graph_inv fs (root_state fs)"
  by (auto simp: graph_inv_def root_state_def Let_def resolved_nodes_def pairwise_different_def
      accounted_def new_node_def)

text \<open>
  What a step does to the heap: it grows, and of the old nodes only \<open>c\<close> changes, which keeps its id
  and options and gets a set.
\<close>

definition heap_step :: "node_ptr \<Rightarrow> node_heap \<Rightarrow> node_heap \<Rightarrow> bool" where
  "heap_step c h h' \<longleftrightarrow> length h \<le> length h' \<and>
     (\<forall>n<length h. n \<noteq> c \<longrightarrow> h' ! n = h ! n) \<and>
     user_feature_id (h' ! c) = user_feature_id (h ! c) \<and> node_options (h' ! c) = node_options (h ! c) \<and>
     node_set (h' ! c) \<noteq> None \<and> (\<forall>n<length h'. round_priority (h' ! n) = 0)"

lemma accounted_step:
  assumes hs: "heap_step c h h'" and c: "c \<notin> set acc" and acc: "set acc \<subseteq> {..<length h}"
    and d: "accounted h (c # ws) acc d"
    and c': "\<exists>m\<in>set acc'. nodes_equal (h' ! m) (h' ! c)" and sub: "set ws \<subseteq> set ws'" "set acc \<subseteq> set acc'"
  shows "accounted h' ws' acc' d"
proof (cases "d = c")
  case True
  then show ?thesis using c' d hs by (auto simp: accounted_def heap_step_def)
next
  case False
  have "d < length h" using d by (simp add: accounted_def)
  then have "h' ! d = h ! d" using hs False by (simp add: heap_step_def)
  moreover have "h' ! m = h ! m" if "m \<in> set acc" for m
    using hs c acc that by (auto simp: heap_step_def)
  moreover have "d \<in> set ws \<or> (\<exists>m\<in>set acc. nodes_equal (h ! m) (h ! d))"
    using d False by (auto simp: accounted_def)
  moreover have "d < length h'" using \<open>d < length h\<close> hs by (simp add: heap_step_def)
  ultimately show ?thesis using sub unfolding accounted_def by (metis subsetD)
qed

lemma pairwise_snoc:
  assumes "pairwise_different h acc" and "c \<notin> set acc" and "\<not> in_acc h acc c"
  shows "pairwise_different h (acc @ [c])"
  using assms nodes_equal_sym by (auto simp: pairwise_different_def in_acc_def list_ex_iff)

lemma pairwise_cong:
  assumes "\<And>n. n \<in> set acc \<Longrightarrow> node_key (h' ! n) = node_key (h ! n)"
  shows "pairwise_different h' acc = pairwise_different h acc"
proof -
  have "nodes_equal (h' ! a) (h' ! b) = nodes_equal (h ! a) (h ! b)" if "a \<in> set acc" "b \<in> set acc" for a b
    by (rule nodes_equal_key) (use assms that in auto)
  then show ?thesis unfolding pairwise_different_def by auto
qed

text \<open>The two ways a step ends, in one lemma: \<open>c\<close> dropped as a duplicate or accepted, with new nodes
  \<open>hp\<close> queued.\<close>

lemma graph_inv_step:
  assumes inv: "graph_inv fs st" and w: "gs_work st = c # ws" and hs: "heap_step c (gs_heap st) h'"
    and acc': "in_acc h' (gs_acc st) c \<and> acc' = gs_acc st \<or>
      \<not> in_acc h' (gs_acc st) c \<and> acc' = gs_acc st @ [c] \<and> set (hard_deps (h' ! c)) \<subseteq> set hp"
    and hp: "set hp \<subseteq> {length (gs_heap st)..<length h'}" "distinct hp" "\<forall>n\<in>set hp. hard_deps (h' ! n) = []"
  shows "graph_inv fs \<lparr>gs_heap = h', gs_work = ws @ hp, gs_acc = acc'\<rparr>"
proof -
  define h acc where "h = gs_heap st" and "acc = gs_acc st"
  have I: "set (c # ws) \<union> set acc \<subseteq> {..<length h}" "distinct (c # ws @ acc)" "resolved_nodes h acc"
    "pairwise_different h acc" "\<forall>n\<in>set (c # ws). hard_deps (h ! n) = []"
    "\<forall>n\<in>set acc. \<forall>d\<in>set (hard_deps (h ! n)). accounted h (c # ws) acc d"
    "\<forall>r<length fs. accounted h (c # ws) acc r \<and> user_feature_id (h ! r) = user_feature_ref (fs ! r)
         \<and> node_options (h ! r) = user_feature_options (fs ! r)"
    using inv w unfolding graph_inv_def Let_def h_def acc_def by simp_all
  have hs': "heap_step c h h'" and len: "length h \<le> length h'" using hs by (simp_all add: h_def heap_step_def)
  have same: "h' ! n = h ! n" if "n < length h" "n \<noteq> c" for n using hs' that by (simp add: heap_step_def)
  have c: "c \<notin> set acc" "c < length h" "node_set (h' ! c) \<noteq> None"
    using I(1,2) hs' by (auto simp: heap_step_def)
  have acc_same: "h' ! n = h ! n" if "n \<in> set acc" for n using same I(1,2) that by auto
  have ws_same: "h' ! n = h ! n" if "n \<in> set ws" for n using same I(1,2) that by auto
  have sub: "set acc \<subseteq> set acc'" "set acc' \<subseteq> insert c (set acc)" using acc' by (auto simp: acc_def)
  have inacc: "\<exists>m\<in>set acc'. nodes_equal (h' ! m) (h' ! c)"
    using acc' c(3) by (auto simp: in_acc_def list_ex_iff acc_def)
  have accounted: "accounted h' (ws @ hp) acc' d" if "accounted h (c # ws) acc d" for d
    by (rule accounted_step [OF hs' c(1) _ that inacc]) (use I(1) sub in auto)
  have fresh: "set hp \<inter> {..<length h} = {}" using hp(1) by (auto simp: h_def)
  have "distinct ((ws @ hp) @ acc')"
  proof -
    have "distinct (ws @ acc') \<and> set acc' \<subseteq> {..<length h}" using acc' I(1,2) by (auto simp: acc_def)
    moreover have "set ws \<subseteq> {..<length h}" using I(1) by auto
    ultimately show ?thesis using fresh hp(2) by auto
  qed
  moreover have "set (ws @ hp) \<union> set acc' \<subseteq> {..<length h'}"
    using I(1) hp(1) sub(2) c(2) len by fastforce
  moreover have "resolved_nodes h' acc'"
    using I(3) acc_same sub(2) c(3) by (auto simp: resolved_nodes_def)
  moreover have "pairwise_different h' acc'"
  proof -
    have "pairwise_different h' acc" using I(4) acc_same by (subst pairwise_cong [where h = h]) auto
    then show ?thesis using acc' pairwise_snoc [OF _ c(1)] by (auto simp: acc_def)
  qed
  moreover have "\<forall>n\<in>set (ws @ hp). hard_deps (h' ! n) = []" using I(5) ws_same hp(3) by auto
  moreover have "accounted h' (ws @ hp) acc' d" if n: "n \<in> set acc'" and d: "d \<in> set (hard_deps (h' ! n))" for n d
  proof (cases "n \<in> set acc")
    case True
    then show ?thesis using I(6) acc_same d accounted by auto
  next
    case False
    then have "n = c" "set (hard_deps (h' ! c)) \<subseteq> set hp" using n acc' c(1) by (auto simp: acc_def)
    then show ?thesis using d hp(1) by (auto simp: accounted_def)
  qed
  moreover have "\<forall>r<length fs. accounted h' (ws @ hp) acc' r \<and> user_feature_id (h' ! r) = user_feature_ref (fs ! r)
         \<and> node_options (h' ! r) = user_feature_options (fs ! r)"
  proof (intro allI impI)
    fix r assume "r < length fs"
    then have r: "accounted h (c # ws) acc r" "user_feature_id (h ! r) = user_feature_ref (fs ! r)"
      "node_options (h ! r) = user_feature_options (fs ! r)" using I(7) by auto
    moreover have "r < length h" using r(1) by (simp add: accounted_def)
    ultimately show "accounted h' (ws @ hp) acc' r \<and> user_feature_id (h' ! r) = user_feature_ref (fs ! r)
         \<and> node_options (h' ! r) = user_feature_options (fs ! r)"
      using accounted same [of r] hs' by (cases "r = c") (auto simp: heap_step_def)
  qed
  moreover have "\<forall>n<length h'. round_priority (h' ! n) = 0" using hs' by (simp add: heap_step_def)
  ultimately show ?thesis unfolding graph_inv_def Let_def graph_state.select_convs by blast
qed

subsection \<open>A step keeps the invariant\<close>

lemma soft_node_fresh: "soft_node pf cur i = Inr n \<Longrightarrow> round_priority n = 0 \<and> node_set n \<noteq> None"
  by (auto simp: soft_node_def Let_def new_node_def split: sum.splits option.splits)

lemma soft_nodes_fresh:
  "traverse (soft_node pf cur) is = Inr ns \<Longrightarrow> n \<in> set ns \<Longrightarrow> round_priority n = 0 \<and> node_set n \<noteq> None"
  by (auto simp: traverse_Inr_iff list_all2_conv_all_nth in_set_conv_nth dest: soft_node_fresh)

lemma hard_nodes_fresh:
  "n \<in> set (hard_nodes f) \<Longrightarrow> round_priority n = 0 \<and> hard_deps n = [] \<and>
     map_of (depends_on f) (user_feature_id n) = Some (node_options n)"
proof -
  assume "n \<in> set (hard_nodes f)"
  then obtain k where k: "k \<in> fst ` set (depends_on f)"
    and n: "n = new_node ''resolved'' k (the (map_of (depends_on f) k))"
    by (auto simp: hard_nodes_def)
  from k obtain v where "map_of (depends_on f) k = Some v" by (metis domD dom_map_of_conv_image_fst)
  then show ?thesis by (simp add: n new_node_def)
qed

lemma expand_node_shape:
  assumes "expand_node pf h c f = Inr (h', hp)" and c: "c < length h" "node_set (h ! c) \<noteq> None"
    and prio: "\<forall>n<length h. round_priority (h ! n) = 0" and hd0: "hard_deps (h ! c) = []"
  shows "heap_step c h h' \<and> node_set (h' ! c) = node_set (h ! c) \<and> hard_deps (h' ! c) = hp \<and>
    set hp \<subseteq> {length h..<length h'} \<and> distinct hp \<and>
    (\<forall>n\<in>set hp. hard_deps (h' ! n) = [] \<and>
       map_of (depends_on f) (user_feature_id (h' ! n)) = Some (node_options (h' ! n)))"
proof -
  let ?b = "length h" and ?hard = "hard_nodes f"
  obtain soft where soft: "traverse (soft_node pf (user_feature_id (h ! c))) (installs_after f) = Inr soft"
    using assms(1) by (auto simp: expand_node_def Let_def bind_res_Inr_iff)
  define cur where "cur = (h ! c)\<lparr>feature_id_aliases := aliases_for f,
    hard_deps := hard_deps (h ! c) @ [?b ..< ?b + length ?hard],
    soft_deps := soft_deps (h ! c) @ [?b + length ?hard ..< ?b + length ?hard + length soft]\<rparr>"
  have h': "h' = h[c := cur] @ ?hard @ soft" and hp: "hp = [?b ..< ?b + length ?hard]"
    using assms(1) soft by (auto simp: expand_node_def Let_def cur_def)
  have old: "h' ! n = h ! n" if "n < ?b" "n \<noteq> c" for n using that by (simp add: h' nth_append nth_update)
  have hc: "h' ! c = cur" using c by (simp add: h' nth_append)
  have new: "h' ! n \<in> set ?hard \<union> set soft" if "?b \<le> n" "n < length h'" for n
    using that by (simp add: h' nth_append)
  have hard: "h' ! n \<in> set ?hard" if "n \<in> set hp" for n
    using that by (auto simp: h' hp nth_append)
  have "round_priority (h' ! n) = 0" if n: "n < length h'" for n
  proof -
    consider "n = c" | "n < ?b" "n \<noteq> c" | "?b \<le> n" by linarith
    then show ?thesis
    proof cases
      case 1
      then show ?thesis using hc prio c by (simp add: cur_def)
    next
      case 2
      then show ?thesis using old prio by simp
    next
      case 3
      then show ?thesis using new [OF 3 n] hard_nodes_fresh soft_nodes_fresh [OF soft] by blast
    qed
  qed
  then have "heap_step c h h'" using old hc c by (simp add: heap_step_def h' cur_def)
  moreover have "node_set (h' ! c) = node_set (h ! c)" "hard_deps (h' ! c) = hp"
    using hc hd0 by (simp_all add: cur_def hp)
  moreover have "set hp \<subseteq> {length h..<length h'}" "distinct hp" by (auto simp: hp h')
  ultimately show ?thesis using hard hard_nodes_fresh by blast
qed

text \<open>Everything a successful step does.\<close>

definition step_effect ::
  "process_feature \<Rightarrow> graph_state \<Rightarrow> node_ptr \<Rightarrow> node_ptr list \<Rightarrow> feature_set \<Rightarrow> node_heap \<Rightarrow> node_ptr list \<Rightarrow> bool" where
  "step_effect pf st c ws s h' hp \<longleftrightarrow>
     pf (gs_heap st ! c) = Inr (Some s) \<and> node_set (h' ! c) = Some s \<and> heap_step c (gs_heap st) h' \<and>
     set hp \<subseteq> {length (gs_heap st)..<length h'} \<and> distinct hp \<and> (\<forall>n\<in>set hp. hard_deps (h' ! n) = []) \<and>
     (in_acc h' (gs_acc st) c \<and> hp = [] \<or> \<not> in_acc h' (gs_acc st) c \<and> set (hard_deps (h' ! c)) \<subseteq> set hp) \<and>
     (\<forall>n\<in>set hp. \<exists>f fs. set_features s = f # fs \<and>
        map_of (depends_on f) (user_feature_id (h' ! n)) = Some (node_options (h' ! n)))"

definition step_state :: "graph_state \<Rightarrow> node_ptr \<Rightarrow> node_ptr list \<Rightarrow> node_heap \<Rightarrow> node_ptr list \<Rightarrow> graph_state" where
  "step_state st c ws h' hp = \<lparr>gs_heap = h', gs_work = ws @ hp,
     gs_acc = (if in_acc h' (gs_acc st) c then gs_acc st else gs_acc st @ [c])\<rparr>"

lemma in_acc_cong:
  assumes "\<And>n. n \<in> insert c (set acc) \<Longrightarrow> node_key (h' ! n) = node_key (h ! n)"
  shows "in_acc h' acc c = in_acc h acc c"
  unfolding in_acc_def list_ex_iff using assms nodes_equal_key
  by (metis (no_types, lifting) insertCI)

lemma graph_step_effect:
  assumes inv: "graph_inv fs st" and w: "gs_work st = c # ws" and step: "graph_step pf st = Inr st'"
  shows "\<exists>s h' hp. step_effect pf st c ws s h' hp \<and> st' = step_state st c ws h' hp"
proof -
  define h where "h = gs_heap st"
  have c: "c < length h" "hard_deps (h ! c) = []" "c \<notin> set (gs_acc st)" "set (gs_acc st) \<subseteq> {..<length h}"
    and prio: "\<forall>n<length h. round_priority (h ! n) = 0"
    using inv w by (auto simp: graph_inv_def Let_def h_def)
  obtain s where s: "pf (h ! c) = Inr (Some s)"
    using step w by (auto simp: graph_step_def Let_def h_def split: sum.splits option.splits)
  define h1 where "h1 = h[c := (h ! c)\<lparr>node_set := Some s\<rparr>]"
  have h1: "length h1 = length h" "node_set (h1 ! c) = Some s" "hard_deps (h1 ! c) = []"
    "\<forall>n<length h1. round_priority (h1 ! n) = 0"
    using c prio by (auto simp: h1_def nth_update)
  have hs1: "heap_step c h h1" using c h1 by (simp add: heap_step_def h1_def nth_update)
  have st': "(if in_acc h1 (gs_acc st) c then Inr \<lparr>gs_heap = h1, gs_work = ws, gs_acc = gs_acc st\<rparr>
           else (case set_features s of
               [] \<Rightarrow> Inr \<lparr>gs_heap = h1, gs_work = ws, gs_acc = gs_acc st @ [c]\<rparr>
             | f # _ \<Rightarrow> bind_res (expand_node pf h1 c f) (\<lambda>(h2, hp).
                 Inr \<lparr>gs_heap = h2, gs_work = ws @ hp, gs_acc = gs_acc st @ [c]\<rparr>))) = Inr st'"
    using step w s by (simp add: graph_step_def Let_def h_def [symmetric] h1_def [symmetric])
  consider (plain) "in_acc h1 (gs_acc st) c \<or> set_features s = []"
    | (expand) f fs' where "\<not> in_acc h1 (gs_acc st) c" "set_features s = f # fs'"
    by (cases "set_features s") auto
  then show ?thesis
  proof cases
    case plain
    then have "step_effect pf st c ws s h1 [] \<and> st' = step_state st c ws h1 []"
      using st' s h1 hs1 by (auto simp: step_effect_def step_state_def h_def split: if_splits)
    then show ?thesis by blast
  next
    case expand
    then obtain h2 hp where e: "expand_node pf h1 c f = Inr (h2, hp)"
      and st2: "st' = \<lparr>gs_heap = h2, gs_work = ws @ hp, gs_acc = gs_acc st @ [c]\<rparr>"
      using st' by (auto simp: bind_res_Inr_iff)
    have sh: "heap_step c h1 h2" "node_set (h2 ! c) = Some s" "hard_deps (h2 ! c) = hp"
      "set hp \<subseteq> {length h..<length h2}" "distinct hp"
      "\<forall>n\<in>set hp. hard_deps (h2 ! n) = [] \<and>
         map_of (depends_on f) (user_feature_id (h2 ! n)) = Some (node_options (h2 ! n))"
      using expand_node_shape [OF e] c h1 by simp_all
    have hs2: "heap_step c h h2" using hs1 sh(1) h1(1) by (simp add: heap_step_def)
    have "node_key (h2 ! n) = node_key (h1 ! n)" if "n \<in> insert c (set (gs_acc st))" for n
      using that sh(1,2) h1 c by (cases "n = c") (auto simp: heap_step_def node_key_def)
    then have "in_acc h2 (gs_acc st) c = in_acc h1 (gs_acc st) c" by (rule in_acc_cong)
    then have "step_effect pf st c ws s h2 hp \<and> st' = step_state st c ws h2 hp"
      using expand s sh hs2 st2 by (auto simp: step_effect_def step_state_def h_def)
    then show ?thesis by blast
  qed
qed

lemma graph_step_inv [inv_intros]:
  assumes inv: "graph_inv fs st" and w: "gs_work st \<noteq> []" and step: "graph_step pf st = Inr st'"
  shows "graph_inv fs st'"
proof -
  obtain c ws where cw: "gs_work st = c # ws" using w by (cases "gs_work st") auto
  obtain s h' hp where e: "step_effect pf st c ws s h' hp" "st' = step_state st c ws h' hp"
    using graph_step_effect [OF inv cw step] by blast
  show ?thesis unfolding e(2) step_state_def
    by (rule graph_inv_step [OF inv cw]) (use e(1) in \<open>auto simp: step_effect_def\<close>)
qed

subsection \<open>The loop\<close>

lemma graph_loop_inv:
  assumes "graph_loop pf st = Some (Inr st')" and "graph_inv fs st"
  shows "graph_inv fs st' \<and> gs_work st' = []"
proof -
  have "graph_loop pf st = Some r \<Longrightarrow> \<forall>st'. r = Inr st' \<longrightarrow> graph_inv fs st \<longrightarrow> graph_inv fs st' \<and> gs_work st' = []" for r
  proof (induction rule: graph_loop.raw_induct [rotated, consumes 1, case_names step])
    case (step loop pf st r)
    show ?case
    proof (cases "gs_work st = []")
      case True
      then show ?thesis using step(2) by auto
    next
      case False
      show ?thesis
      proof (cases "graph_step pf st")
        case (Inl e)
        then show ?thesis using step(2) False by auto
      next
        case (Inr st1)
        then have "loop pf st1 = Some r" using step(2) False by simp
        then have ih: "\<forall>st'. r = Inr st' \<longrightarrow> graph_inv fs st1 \<longrightarrow> graph_inv fs st' \<and> gs_work st' = []"
          by (rule step(1))
        show ?thesis
        proof (intro allI impI)
          fix st' assume "r = Inr st'" "graph_inv fs st"
          then show "graph_inv fs st' \<and> gs_work st' = []" using ih graph_step_inv [OF _ False Inr] by simp
        qed
      qed
    qed
  qed
  then show ?thesis using assms by blast
qed

text \<open>
  Termination. Two references with the same id and options are the same reference; the loop ends
  when the Features that can be reached from the user's have finitely many references, whatever
  cycles they form.
\<close>

type_synonym reference = "string \<times> json"

definition node_reference :: "fnode \<Rightarrow> reference" where
  "node_reference n = (user_feature_id n, node_options n)"

definition reads_reference :: "(reference \<Rightarrow> (string, feature_set option) res) \<Rightarrow> process_feature \<Rightarrow> bool" where
  "reads_reference f pf \<longleftrightarrow> (\<forall>n. pf n = f (node_reference n))"

definition closed_references :: "(reference \<Rightarrow> (string, feature_set option) res) \<Rightarrow> reference set \<Rightarrow> bool" where
  "closed_references f U \<longleftrightarrow> finite U \<and>
     (\<forall>r\<in>U. \<forall>s ft fs k v. f r = Inr (Some s) \<longrightarrow> set_features s = ft # fs \<longrightarrow>
        map_of (depends_on ft) k = Some v \<longrightarrow> (k, v) \<in> U)"

definition refs_inv :: "(reference \<Rightarrow> (string, feature_set option) res) \<Rightarrow> reference set \<Rightarrow> graph_state \<Rightarrow> bool" where
  "refs_inv f U st \<longleftrightarrow>
     (\<forall>n\<in>set (gs_work st) \<union> set (gs_acc st). node_reference (gs_heap st ! n) \<in> U) \<and>
     (\<forall>n\<in>set (gs_acc st). f (node_reference (gs_heap st ! n)) = Inr (node_set (gs_heap st ! n)))"

definition acc_refs :: "graph_state \<Rightarrow> reference set" where
  "acc_refs st = (\<lambda>n. node_reference (gs_heap st ! n)) ` set (gs_acc st)"

lemma heap_step_reference:
  "heap_step c h h' \<Longrightarrow> n < length h \<Longrightarrow> node_reference (h' ! n) = node_reference (h ! n)"
  by (cases "n = c") (auto simp: heap_step_def node_reference_def)

lemma refs_step:
  assumes inv: "graph_inv fs st" and refs: "refs_inv f U st" and w: "gs_work st = c # ws"
    and rd: "reads_reference f pf" and cl: "closed_references f U" and e: "step_effect pf st c ws s h' hp"
  shows "refs_inv f U (step_state st c ws h' hp) \<and>
    (acc_refs (step_state st c ws h' hp) = acc_refs st \<and> hp = [] \<or>
     acc_refs (step_state st c ws h' hp) = insert (node_reference (gs_heap st ! c)) (acc_refs st) \<and>
       node_reference (gs_heap st ! c) \<notin> acc_refs st)"
proof -
  define h acc where "h = gs_heap st" and "acc = gs_acc st"
  have bounds: "c < length h" "set ws \<subseteq> {..<length h}" "set acc \<subseteq> {..<length h}" "c \<notin> set acc"
    using inv w by (auto simp: graph_inv_def Let_def h_def acc_def)
  have E: "pf (h ! c) = Inr (Some s)" "node_set (h' ! c) = Some s" "heap_step c h h'"
    "\<forall>n\<in>set hp. \<exists>ft fs. set_features s = ft # fs \<and>
        map_of (depends_on ft) (user_feature_id (h' ! n)) = Some (node_options (h' ! n))"
    "in_acc h' acc c \<Longrightarrow> hp = []"
    using e by (auto simp: step_effect_def h_def acc_def)
  have ref: "node_reference (h' ! n) = node_reference (h ! n)" if "n < length h" for n
    using heap_step_reference [OF E(3) that] .
  have R: "\<forall>n\<in>set (c # ws) \<union> set acc. node_reference (h ! n) \<in> U"
    "\<forall>n\<in>set acc. f (node_reference (h ! n)) = Inr (node_set (h ! n))"
    using refs w by (auto simp: refs_inv_def h_def acc_def)
  have fc: "f (node_reference (h ! c)) = Inr (Some s)" using rd E(1) by (simp add: reads_reference_def)
  have acc_same: "h' ! n = h ! n" if "n \<in> set acc" for n
    using E(3) bounds that by (auto simp: heap_step_def)
  define acc' where "acc' = (if in_acc h' acc c then acc else acc @ [c])"
  have st': "step_state st c ws h' hp = \<lparr>gs_heap = h', gs_work = ws @ hp, gs_acc = acc'\<rparr>"
    by (simp add: step_state_def acc'_def acc_def)
  have "node_reference (h' ! n) \<in> U" if nhp: "n \<in> set hp" for n
  proof -
    obtain ft fs where ft: "set_features s = ft # fs"
      "map_of (depends_on ft) (user_feature_id (h' ! n)) = Some (node_options (h' ! n))"
      using bspec [OF E(4) nhp] by (elim exE conjE)
    have "\<forall>s ft fs k v. f (node_reference (h ! c)) = Inr (Some s) \<longrightarrow> set_features s = ft # fs \<longrightarrow>
        map_of (depends_on ft) k = Some v \<longrightarrow> (k, v) \<in> U"
      by (rule bspec [OF cl [unfolded closed_references_def, THEN conjunct2]]) (use R(1) in simp)
    then show ?thesis using fc ft unfolding node_reference_def [of "h' ! n"] by blast
  qed
  moreover have "node_reference (h' ! n) \<in> U" if "n \<in> set ws \<union> set acc'" for n
    using that R(1) ref bounds by (auto simp: acc'_def split: if_splits)
  moreover have "f (node_reference (h' ! n)) = Inr (node_set (h' ! n))" if "n \<in> set acc'" for n
  proof (cases "n = c")
    case True
    then show ?thesis using fc ref bounds(1) E(2) by simp
  next
    case False
    then have "n \<in> set acc" using that by (auto simp: acc'_def split: if_splits)
    then show ?thesis using R(2) acc_same by simp
  qed
  ultimately have "refs_inv f U (step_state st c ws h' hp)" by (auto simp: refs_inv_def st')
  moreover have "node_reference (h ! c) \<notin> acc_refs st" if "\<not> in_acc h' acc c"
  proof
    assume "node_reference (h ! c) \<in> acc_refs st"
    then obtain m where m: "m \<in> set acc" "node_reference (h ! m) = node_reference (h ! c)"
      by (auto simp: acc_refs_def h_def acc_def)
    have "node_set (h ! m) = Some s" using R(2) m fc by auto
    then have "node_key (h' ! m) = node_key (h' ! c)"
      using m acc_same ref [OF bounds(1)] E(2) by (simp add: node_key_def node_reference_def)
    then have "nodes_equal (h' ! m) (h' ! c)" using nodes_equal_key [of "h' ! m" "h' ! c" "h' ! c" "h' ! c"] E(2) by simp
    then show False using that m(1) by (auto simp: in_acc_def list_ex_iff)
  qed
  moreover have "acc_refs (step_state st c ws h' hp) =
      (if in_acc h' acc c then acc_refs st else insert (node_reference (h ! c)) (acc_refs st))"
    using acc_same ref [OF bounds(1)] by (auto simp: acc_refs_def st' acc'_def h_def acc_def)
  ultimately show ?thesis using E(5) by (auto simp: h_def)
qed

lemma graph_loop_returns:
  assumes "graph_inv fs st" and "refs_inv f U st"
    and rd: "reads_reference f pf" and cl: "closed_references f U"
  shows "\<exists>r. graph_loop pf st = Some r"
  using assms(1,2)
proof (induction "(card (U - acc_refs st), length (gs_work st))" arbitrary: st rule: wf_induct_rule [OF wf_lex_prod [OF wf_less_than wf_less_than]])
  case (1 st)
  show ?case
  proof (cases "gs_work st")
    case Nil
    then show ?thesis by (subst graph_loop.simps) simp
  next
    case (Cons c ws)
    show ?thesis
    proof (cases "graph_step pf st")
      case (Inl e)
      then show ?thesis using Cons by (subst graph_loop.simps) simp
    next
      case (Inr st')
      obtain s h' hp where e: "step_effect pf st c ws s h' hp" and st': "st' = step_state st c ws h' hp"
        using graph_step_effect [OF "1.prems"(1) Cons Inr] by blast
      have refs: "refs_inv f U st'" and acc: "acc_refs st' = acc_refs st \<and> hp = [] \<or>
          acc_refs st' = insert (node_reference (gs_heap st ! c)) (acc_refs st) \<and>
          node_reference (gs_heap st ! c) \<notin> acc_refs st"
        using refs_step [OF "1.prems" Cons rd cl e] by (auto simp: st')
      have inv: "graph_inv fs st'" using graph_step_inv [OF "1.prems"(1) _ Inr] Cons by simp
      have "node_reference (gs_heap st ! c) \<in> U" using "1.prems"(2) Cons by (auto simp: refs_inv_def)
      then have "card (U - acc_refs st') < card (U - acc_refs st) \<or>
          card (U - acc_refs st') = card (U - acc_refs st) \<and> length (gs_work st') < length (gs_work st)"
        using acc Cons cl by (auto simp: st' step_state_def closed_references_def intro!: psubset_card_mono)
      then obtain r where "graph_loop pf st' = Some r" using "1.hyps" [OF _ inv refs] by auto
      then show ?thesis using Cons Inr by (subst graph_loop.simps) simp
    qed
  qed
qed

subsection \<open>Overrides change priorities only\<close>

lemma priority_frame [simp]:
  "node_source (n\<lparr>round_priority := x\<rparr>) = node_source n"
  "feature_id_aliases (n\<lparr>round_priority := x\<rparr>) = feature_id_aliases n"
  "node_key (n\<lparr>round_priority := x\<rparr>) = node_key n"
  by (simp_all add: node_source_def node_key_def)

lemma satisfies_priority [simp]:
  "node_satisfies_soft_dep (n\<lparr>round_priority := x\<rparr>) m = node_satisfies_soft_dep n m"
  unfolding node_satisfies_soft_dep_def priority_frame by (rule refl)

definition same_but_priority :: "node_heap \<Rightarrow> node_heap \<Rightarrow> bool" where
  "same_but_priority g h \<longleftrightarrow> length g = length h \<and> (\<forall>n. \<exists>x. g ! n = (h ! n)\<lparr>round_priority := x\<rparr>)"

lemma same_but_priority_refl: "same_but_priority h h"
  unfolding same_but_priority_def
  by (metis fnode.surjective fnode.update_convs(8) old.unit.exhaust)

lemma same_but_priority_trans:
  assumes "same_but_priority f g" "same_but_priority g h" shows "same_but_priority f h"
  unfolding same_but_priority_def
proof (intro conjI allI)
  show "length f = length h" using assms by (simp add: same_but_priority_def)
  fix n
  obtain x y where "f ! n = (g ! n)\<lparr>round_priority := x\<rparr>" "g ! n = (h ! n)\<lparr>round_priority := y\<rparr>"
    using assms unfolding same_but_priority_def by blast
  then show "\<exists>x. f ! n = (h ! n)\<lparr>round_priority := x\<rparr>" by auto
qed

lemma same_but_priorityD:
  assumes "same_but_priority g h"
  shows "length g = length h" "node_key (g ! n) = node_key (h ! n)" "hard_deps (g ! n) = hard_deps (h ! n)"
    "node_satisfies_soft_dep (g ! n) m = node_satisfies_soft_dep (h ! n) m"
proof -
  obtain x where x: "g ! n = (h ! n)\<lparr>round_priority := x\<rparr>"
    using assms unfolding same_but_priority_def by blast
  show "length g = length h" using assms by (simp add: same_but_priority_def)
  show "node_key (g ! n) = node_key (h ! n)" "hard_deps (g ! n) = hard_deps (h ! n)"
    "node_satisfies_soft_dep (g ! n) m = node_satisfies_soft_dep (h ! n) m"
    unfolding x by simp_all
qed

lemma raise_priority_same: "same_but_priority (raise_priority ov p h n) h"
proof (cases "node_satisfies_soft_dep (h ! n) ov \<and> p > round_priority (h ! n)")
  case True
  have "\<exists>x. raise_priority ov p h n ! m = (h ! m)\<lparr>round_priority := x\<rparr>" for m
    using True same_but_priority_refl [of h] by (auto simp: raise_priority_def nth_update same_but_priority_def)
  then show ?thesis using True by (simp add: same_but_priority_def raise_priority_def)
next
  case False
  then have "raise_priority ov p h n = h" unfolding raise_priority_def by (rule if_not_P)
  then show ?thesis by (simp add: same_but_priority_refl)
qed

definition raised :: "fnode \<Rightarrow> nat \<Rightarrow> fnode \<Rightarrow> nat \<Rightarrow> nat" where
  "raised ov p n old = (if node_satisfies_soft_dep n ov \<and> p > old then p else old)"

lemma raised_idem [simp]: "raised ov p n (raised ov p n old) = raised ov p n old"
  by (simp add: raised_def)

lemma raise_loop:
  "same_but_priority (foldl (raise_priority ov p) h ns) h \<and>
   (\<forall>m. round_priority (foldl (raise_priority ov p) h ns ! m) =
     (if m \<in> set ns \<and> m < length h then raised ov p (h ! m) (round_priority (h ! m))
      else round_priority (h ! m)))"
proof (induction ns arbitrary: h)
  case Nil
  then show ?case by (simp add: same_but_priority_refl)
next
  case (Cons n ns)
  let ?h = "raise_priority ov p h n"
  note s = same_but_priorityD [OF raise_priority_same [of ov p h n]]
  have "round_priority (?h ! m) = (if m = n \<and> m < length h then raised ov p (h ! m) (round_priority (h ! m))
      else round_priority (h ! m))" for m
    by (auto simp: raise_priority_def nth_update raised_def)
  moreover have "raised ov p (?h ! m) = raised ov p (h ! m)" for m by (simp add: raised_def fun_eq_iff s)
  ultimately show ?case
    using Cons.IH [of ?h] raise_priority_same [of ov p h n] s(1)
    by (auto intro: same_but_priority_trans)
qed

lemma apply_overrides_effect:
  "apply_overrides pf nodes p is h = Inr h' \<Longrightarrow>
   \<exists>ovs. length ovs = length is \<and> (\<forall>k<length is. override_node pf (is ! k) (p + k) = Inr (ovs ! k)) \<and>
     same_but_priority h' h \<and>
     (\<forall>n\<in>set nodes. n < length h \<longrightarrow> round_priority (h' ! n) =
        foldl (\<lambda>old k. raised (ovs ! k) (p + k) (h ! n) old) (round_priority (h ! n)) [0..<length is])"
proof (induction pf nodes p "is" h rule: apply_overrides.induct)
  case (1 pf nodes p h)
  then show ?case by (auto simp: same_but_priority_refl)
next
  case (2 pf nodes p i "is" h)
  then obtain ov where ov: "override_node pf i p = Inr ov"
    and rest: "apply_overrides pf nodes (p + 1) is (foldl (raise_priority ov p) h nodes) = Inr h'"
    by (auto split: sum.splits)
  let ?g = "foldl (raise_priority ov p) h nodes"
  note g = raise_loop [of ov p h nodes]
  obtain ovs where ovs: "length ovs = length is" "\<forall>k<length is. override_node pf (is ! k) (p + 1 + k) = Inr (ovs ! k)"
    "same_but_priority h' ?g" "\<forall>n\<in>set nodes. n < length ?g \<longrightarrow> round_priority (h' ! n) =
        foldl (\<lambda>old k. raised (ovs ! k) (p + 1 + k) (?g ! n) old) (round_priority (?g ! n)) [0..<length is]"
    using 2(1) [OF ov rest] by blast
  have "raised o' q (?g ! n) = raised o' q (h ! n)" for o' q n
    by (simp add: raised_def fun_eq_iff same_but_priorityD(4) [OF g [THEN conjunct1]])
  then have "round_priority (h' ! n) =
        foldl (\<lambda>old k. raised ((ov # ovs) ! k) (p + k) (h ! n) old) (round_priority (h ! n)) [0..<length (i # is)]"
    if "n \<in> set nodes" "n < length h" for n
  proof -
    have up: "[0..<length (i # is)] = 0 # map Suc [0..<length is]" by (simp add: upt_conv_Cons map_Suc_upt del: upt_Suc)
    have "length ?g = length h" using g by (simp add: same_but_priority_def)
    then show ?thesis unfolding up using ovs(4) g that \<open>\<And>o' q n. raised o' q (?g ! n) = raised o' q (h ! n)\<close>
      by (simp add: foldl_map)
  qed
  moreover have "override_node pf ((i # is) ! k) (p + k) = Inr ((ov # ovs) ! k)" if "k < length (i # is)" for k
    using ovs(2) ov that by (cases k) auto
  moreover have "same_but_priority h' h" using ovs(3) g same_but_priority_trans by blast
  ultimately show ?case using ovs(1) by (intro exI [of _ "ov # ovs"]) auto
qed

lemma raised_loop_max:
  fixes ovs :: "fnode list" and n :: fnode
  defines "P \<equiv> \<lambda>k. foldl (\<lambda>old k. raised (ovs ! k) (1 + k) n old) 0 [0..<k]"
  shows "(\<forall>j<k. node_satisfies_soft_dep n (ovs ! j) \<longrightarrow> 1 + j \<le> P k) \<and>
    (P k = 0 \<or> (\<exists>j<k. node_satisfies_soft_dep n (ovs ! j) \<and> P k = 1 + j)) \<and> P k \<le> k"
  unfolding P_def
  by (induction k) (auto simp: raised_def less_Suc_eq)

text \<open>\<open>overrideFeatureInstallOrder\<close>: of N entries, the one at index i gives the Features that satisfy it
  the priority N - i. A Feature ends with the priority of the first entry it satisfies, and
  with 0 when it satisfies none.\<close>

theorem override_priorities:
  assumes "apply_override_feature_install_order pf h nodes order = Inr h'"
    and "\<forall>n\<in>set nodes. n < length h \<and> round_priority (h ! n) = 0"
  shows "\<exists>ovs. length ovs = length order \<and>
    (\<forall>i<length order. override_node pf (order ! i) (length order - i) = Inr (ovs ! i)) \<and>
    (\<forall>n\<in>set nodes.
       (\<forall>i<length order. node_satisfies_soft_dep (h ! n) (ovs ! i) \<longrightarrow>
          length order - i \<le> round_priority (h' ! n)) \<and>
       (round_priority (h' ! n) = 0 \<or>
        (\<exists>i<length order. node_satisfies_soft_dep (h ! n) (ovs ! i) \<and>
           round_priority (h' ! n) = length order - i)))"
proof -
  let ?N = "length order"
  obtain ovs where ovs: "length ovs = ?N"
    "\<forall>k<?N. override_node pf (rev order ! k) (1 + k) = Inr (ovs ! k)"
    "\<forall>n\<in>set nodes. n < length h \<longrightarrow> round_priority (h' ! n) =
        foldl (\<lambda>old k. raised (ovs ! k) (1 + k) (h ! n) old) (round_priority (h ! n)) [0..<?N]"
    using apply_overrides_effect [of pf nodes 1 "rev order" h h'] assms(1)
    by (auto simp: apply_override_feature_install_order_def)
  have idx: "rev ovs ! i = ovs ! (?N - Suc i)" "Suc (?N - Suc i) = ?N - i" "?N - Suc i < ?N"
    "rev order ! (?N - Suc i) = order ! i" if "i < ?N" for i
    using that ovs(1) by (simp_all add: rev_nth)
  show ?thesis
  proof (intro exI [of _ "rev ovs"] conjI allI impI ballI)
    fix i assume i: "i < ?N"
    then show "override_node pf (order ! i) (?N - i) = Inr (rev ovs ! i)"
      using ovs(2) [rule_format, of "?N - Suc i"] idx [OF i] by simp
  next
    fix n assume n: "n \<in> set nodes"
    define p where "p = round_priority (h' ! n)"
    have p: "p = foldl (\<lambda>old k. raised (ovs ! k) (1 + k) (h ! n) old) 0 [0..<?N]"
      using ovs(3) assms(2) n by (simp add: p_def)
    note max = raised_loop_max [of ?N "h ! n" ovs, folded p]
    { fix i assume i: "i < ?N" and s: "node_satisfies_soft_dep (h ! n) (rev ovs ! i)"
      show "?N - i \<le> round_priority (h' ! n)"
        using max idx [OF i] s by (auto simp: p_def [symmetric]) }
    show "round_priority (h' ! n) = 0 \<or> (\<exists>i<?N. node_satisfies_soft_dep (h ! n) (rev ovs ! i) \<and>
           round_priority (h' ! n) = ?N - i)"
    proof (cases "p = 0")
      case False
      then obtain j where j: "j < ?N" "node_satisfies_soft_dep (h ! n) (ovs ! j)" "p = 1 + j" using max by auto
      then have "?N - Suc (?N - Suc j) = j" "?N - (?N - Suc j) = Suc j" by simp_all
      then show ?thesis using j idx(1) [of "?N - Suc j"] by (intro disjI2 exI [of _ "?N - Suc j"]) (simp add: p_def)
    qed (simp add: p_def)
  qed (simp add: ovs(1))
qed

subsection \<open>The graph that is built\<close>

definition graph_ok :: "user_feature list \<Rightarrow> node_heap \<Rightarrow> node_ptr list \<Rightarrow> bool" where
  "graph_ok fs h nodes \<longleftrightarrow>
     set nodes \<subseteq> {..<length h} \<and> resolved_nodes h nodes \<and> pairwise_different h nodes \<and>
     (\<forall>n\<in>set nodes. \<forall>d\<in>set (hard_deps (h ! n)). \<exists>m\<in>set nodes. nodes_equal (h ! m) (h ! d)) \<and>
     (\<forall>f\<in>set fs. \<exists>r<length h. user_feature_id (h ! r) = user_feature_ref f \<and>
        node_options (h ! r) = user_feature_options f \<and> (\<exists>m\<in>set nodes. nodes_equal (h ! m) (h ! r)))"

lemma graph_inv_final:
  assumes "graph_inv fs st" and "gs_work st = []"
  shows "graph_ok fs (gs_heap st) (gs_acc st) \<and> (\<forall>n<length (gs_heap st). round_priority (gs_heap st ! n) = 0)"
proof -
  have "\<exists>r<length (gs_heap st). user_feature_id (gs_heap st ! r) = user_feature_ref f \<and>
        node_options (gs_heap st ! r) = user_feature_options f \<and>
        (\<exists>m\<in>set (gs_acc st). nodes_equal (gs_heap st ! m) (gs_heap st ! r))" if "f \<in> set fs" for f
  proof -
    obtain r where r: "r < length fs" "fs ! r = f" using \<open>f \<in> set fs\<close> by (metis in_set_conv_nth)
    then show ?thesis using assms by (intro exI [of _ r]) (auto simp: graph_inv_def accounted_def Let_def)
  qed
  then show ?thesis using assms by (auto simp: graph_inv_def Let_def graph_ok_def accounted_def)
qed

lemma graph_ok_priority:
  assumes same: "same_but_priority h' h" and ok: "graph_ok fs h nodes"
  shows "graph_ok fs h' nodes"
proof -
  note D = same_but_priorityD [OF same]
  have eq: "nodes_equal (h' ! a) (h' ! b) = nodes_equal (h ! a) (h ! b)" for a b
    by (rule nodes_equal_key) (rule D(2))+
  have key: "node_set (h' ! n) = node_set (h ! n)" "user_feature_id (h' ! n) = user_feature_id (h ! n)"
    "node_options (h' ! n) = node_options (h ! n)" for n
    using D(2) [of n] by (simp_all add: node_key_def)
  show ?thesis using ok D(1)
    by (simp add: graph_ok_def resolved_nodes_def pairwise_different_def eq key D(3))
qed


text \<open>C5. Building the graph returns, cycles or not: it is enough that the references reachable from the
  user's are finitely many and that the fetched Feature depends on the reference only.\<close>

theorem build_graph_returns:
  assumes "reads_reference f pf" and "closed_references f U"
    and "\<forall>u\<in>set fs. (user_feature_ref u, user_feature_options u) \<in> U"
  shows "\<exists>r. build_dependency_graph pf fs order = Some r"
proof -
  have "refs_inv f U (root_state fs)"
    using assms(3) by (auto simp: refs_inv_def root_state_def node_reference_def new_node_def)
  then obtain r where "graph_loop pf (root_state fs) = Some r"
    using graph_loop_returns [OF graph_inv_root _ assms(1,2)] by blast
  then show ?thesis by (auto simp: build_dependency_graph_def split: sum.splits)
qed

subsection \<open>A fetcher\<close>

text \<open>Local Features named in a table with what each depends on and comes after; other ids are unknown.\<close>

definition table_fetch :: "(string \<times> string list \<times> string list) list \<Rightarrow> reference \<Rightarrow> (string, feature_set option) res" where
  "table_fetch t r = (case map_of t (fst r) of None \<Rightarrow> Inr None
     | Some (deps, after) \<Rightarrow> Inr (Some
         \<lparr>source_info = Some (Local \<lparr>local_path = fst r, resolved_path = fst r, local_user_id = fst r\<rparr>),
          set_features = [(blank_feature (fst r))\<lparr>depends_on := map (\<lambda>d. (d, JObj [])) deps,
                                                 installs_after := after\<rparr>],
          internal_version = ''2'', computed_digest = []\<rparr>))"

definition table_process :: "(string \<times> string list \<times> string list) list \<Rightarrow> process_feature" where
  "table_process t n = table_fetch t (node_reference n)"

definition user_refs :: "string list \<Rightarrow> user_feature list" where
  "user_refs = map (\<lambda>i. \<lparr>user_feature_ref = i, user_feature_options = JObj []\<rparr>)"

definition sample_table :: "(string \<times> string list \<times> string list) list" where
  "sample_table = [(''a'', [''b''], []), (''b'', [''c''], [''a'']), (''c'', [], []), (''d'', [], [''e'']), (''e'', [], [])]"

definition cyclic_table :: "(string \<times> string list \<times> string list) list" where
  "cyclic_table = [(''a'', [''b''], []), (''b'', [''a''], [])]"


theorem build_graph_returns_witness:
  "\<exists>r. build_dependency_graph (table_process cyclic_table) (user_refs [''a'']) [] = Some r"
proof (rule build_graph_returns)
  show "reads_reference (table_fetch cyclic_table) (table_process cyclic_table)"
    by (simp add: reads_reference_def table_process_def)
  show "closed_references (table_fetch cyclic_table) {(''a'', JObj []), (''b'', JObj [])}"
    by (auto simp: closed_references_def table_fetch_def cyclic_table_def split: if_splits)
  show "\<forall>u\<in>set (user_refs [''a'']). (user_feature_ref u, user_feature_options u) \<in> {(''a'', JObj []), (''b'', JObj [])}"
    by (simp add: user_refs_def)
qed

theorem override_priorities_witness:
  "\<exists>h' ovs. apply_override_feature_install_order (table_process sample_table)
      [local_node ''b'' [] [] 0, local_node ''a'' [] [] 0] [0, 1] [''a'', ''c''] = Inr h' \<and> length ovs = 2 \<and>
    (node_satisfies_soft_dep (local_node ''a'' [] [] 0) (ovs ! 0) \<longrightarrow> 2 \<le> round_priority (h' ! 1))"
proof -
  let ?h = "[local_node ''b'' [] [] 0, local_node ''a'' [] [] 0]"
  have "case apply_override_feature_install_order (table_process sample_table) ?h [0, 1] [''a'', ''c'']
     of Inr _ \<Rightarrow> True | _ \<Rightarrow> False" by code_simp
  then obtain h' where h': "apply_override_feature_install_order (table_process sample_table) ?h [0, 1] [''a'', ''c''] = Inr h'"
    by (auto split: sum.splits)
  have "\<forall>n\<in>set [0, 1]. n < length ?h \<and> round_priority (?h ! n) = 0" by (simp add: local_node_def)
  then obtain ovs where len: "length ovs = length [''a'', ''c'']"
    and max: "\<forall>n\<in>set [0, 1]. (\<forall>i<length [''a'', ''c'']. node_satisfies_soft_dep (?h ! n) (ovs ! i) \<longrightarrow>
        length [''a'', ''c''] - i \<le> round_priority (h' ! n))"
    using override_priorities [OF h'] by meson
  have "node_satisfies_soft_dep (?h ! 1) (ovs ! 0) \<longrightarrow> length [''a'', ''c''] - 0 \<le> round_priority (h' ! 1)"
    by (rule max [rule_format, THEN impI]) simp_all
  then have "length ovs = 2 \<and> (node_satisfies_soft_dep (local_node ''a'' [] [] 0) (ovs ! 0) \<longrightarrow>
      2 \<le> round_priority (h' ! 1))" using len by (simp add: numeral_2_eq_2)
  then show ?thesis using h' by blast
qed

end
