(* ===== verification/OciRef.thy ===== *)
theory OciRef
  imports Rexp
begin

text \<open>
  \<open>internal/oci/ref.go\<close>: references to Features and Templates in a registry. The bytes past
  0x7F that \<open>strings.ToLower\<close> maps are the argument \<open>ulow\<close>; no accepted path holds one.
\<close>

record oci_ref =
  registry :: string
  owner :: string
  namespace :: string
  ref_path :: string
  resource :: string
  oid :: string
  version :: string
  tag :: string
  digest :: string

record collection_ref =
  coll_registry :: string
  coll_path :: string
  coll_resource :: string
  coll_tag :: string
  coll_version :: string

datatype ref_error =
    StartsWithDot string
  | BadDigestFormat string
  | BadDigestAlgorithm string
  | BadDigest string
  | BadTag string
  | TooShort string
  | BadPath string

subsection \<open>The patterns\<close>

definition low_alnum :: "char \<Rightarrow> bool" where
  "low_alnum c \<longleftrightarrow> is_lower c \<or> is_digit c"

definition path_sep :: "char \<Rightarrow> bool" where
  "path_sep c \<longleftrightarrow> c \<in> set ''._-''"

text \<open>\<open>[a-z0-9]+([._-][a-z0-9]+)*\<close>\<close>

definition segment_re :: rexp where
  "segment_re = RSeq (RPlus (RCls low_alnum)) (RStar (RSeq (RCls path_sep) (RPlus (RCls low_alnum))))"

definition path_re :: rexp where
  "path_re = RSeq segment_re (RStar (RSeq (RLit ''/'') segment_re))"

text \<open>\<open>[a-zA-Z0-9_][a-zA-Z0-9._-]{0,127}\<close>\<close>

definition word_char :: "char \<Rightarrow> bool" where
  "word_char c \<longleftrightarrow> is_lower c \<or> is_upper c \<or> is_digit c \<or> c = CHR ''_''"

definition version_ok :: "string \<Rightarrow> bool" where
  "version_ok s \<longleftrightarrow> (case s of [] \<Rightarrow> False | c # t \<Rightarrow>
     word_char c \<and> length t \<le> 127 \<and> list_all (\<lambda>d. word_char d \<or> d = CHR ''.'' \<or> d = CHR ''-'') t)"

subsection \<open>Parsing\<close>

definition last_index :: "char \<Rightarrow> string \<Rightarrow> int" where
  "last_index c s = (case last_index_byte c s of None \<Rightarrow> -1 | Some i \<Rightarrow> int i)"

text \<open>The resource, tag and digest of a lowercased input.\<close>

definition split_version :: "string \<Rightarrow> (ref_error, string \<times> string \<times> string) res" where
  "split_version s =
     (case last_index_byte CHR ''@'' s of
        Some i \<Rightarrow>
          (let dg = drop (i + 1) s; parts = split_byte CHR '':'' dg in
           if length parts \<noteq> 2 then Inl (BadDigestFormat dg)
           else if parts ! 0 \<noteq> ''sha256'' then Inl (BadDigestAlgorithm (parts ! 0))
           else if \<not> version_ok (parts ! 1) then Inl (BadDigest (parts ! 1))
           else Inr (take i s, [], dg))
      | None \<Rightarrow>
          (if last_index CHR '':'' s > last_index CHR ''/'' s
           then (let i = nat (last_index CHR '':'' s) in Inr (take i s, drop (i + 1) s, []))
           else Inr (s, ''latest'', [])))"

definition ref_of_resource :: "string \<Rightarrow> string \<Rightarrow> string \<Rightarrow> (ref_error, oci_ref) res" where
  "ref_of_resource res tg dg =
     (let parts0 = split_byte CHR ''/'' res in
      if length parts0 < 3 then Inl (TooShort res)
      else (let parts = (if parts0 ! 1 = ''devcontainers-contrib''
                         then parts0[1 := ''devcontainers-extra''] else parts0);
                i = last parts;
                ns = join ''/'' (butlast (tl parts));
                p = ns @ ''/'' @ i
            in if \<not> rmatch path_re p then Inl (BadPath p)
               else Inr \<lparr>registry = parts ! 0, owner = parts ! 1, namespace = ns, ref_path = p,
                   resource = res, oid = i,
                   version = (if dg \<noteq> [] then dg else if tg \<noteq> [] then tg else ''latest''),
                   tag = tg, digest = dg\<rparr>))"

definition parse_ref :: "(string \<Rightarrow> string) \<Rightarrow> string \<Rightarrow> (ref_error, oci_ref) res" where
  "parse_ref ulow input =
     (let s = to_lower ulow input in
      if has_prefix s ''.'' then Inl (StartsWithDot s)
      else bind_res (split_version s) (\<lambda>(res, tg, dg).
        if tg \<noteq> [] \<and> \<not> version_ok tg then Inl (BadTag tg) else ref_of_resource res tg dg))"

definition scheme :: "oci_ref \<Rightarrow> string" where
  "scheme r = (if equal_fold (fst (cut_byte CHR '':'' (registry r))) ''localhost'' then ''http'' else ''https'')"

definition parse_collection_ref ::
  "(string \<Rightarrow> string) \<Rightarrow> string \<Rightarrow> string \<Rightarrow> (ref_error, collection_ref) res" where
  "parse_collection_ref ulow reg ns =
     (let r = to_lower ulow reg; p = to_lower ulow ns in
      if \<not> rmatch path_re p then Inl (BadPath p)
      else Inr \<lparr>coll_registry = r, coll_path = p, coll_resource = r @ ''/'' @ p,
                coll_tag = ''latest'', coll_version = ''latest''\<rparr>)"

definition ref_of_collection :: "collection_ref \<Rightarrow> oci_ref" where
  "ref_of_collection c = \<lparr>registry = coll_registry c, owner = [], namespace = [], ref_path = coll_path c,
     resource = coll_resource c, oid = [], version = coll_version c, tag = coll_tag c, digest = []\<rparr>"

subsection \<open>What the patterns accept\<close>

definition path_shape :: "string \<Rightarrow> bool" where
  "path_shape s \<longleftrightarrow> s \<noteq> [] \<and> low_alnum (hd s) \<and> low_alnum (last s) \<and>
     successively (\<lambda>a b. low_alnum a \<or> low_alnum b) s \<and>
     list_all (\<lambda>c. low_alnum c \<or> path_sep c \<or> c = CHR ''/'') s"

lemma path_shape_append:
  assumes "path_shape a" "path_shape b" "path_sep c \<or> c = CHR ''/''"
  shows "path_shape (a @ c # b)"
  using assms by (auto simp: path_shape_def successively_append_iff successively_Cons)

lemma path_shape_plus: "s \<in> lang (RPlus (RCls low_alnum)) \<Longrightarrow> path_shape s"
proof -
  assume "s \<in> lang (RPlus (RCls low_alnum))"
  then have s: "s \<noteq> []" "\<forall>c\<in>set s. low_alnum c" by (auto simp: list_all_iff)
  have "successively (\<lambda>a b. low_alnum a \<or> low_alnum b) s" using s(2)
    by (induction s rule: induct_list012) auto
  then show ?thesis using s by (auto simp: path_shape_def list_all_iff)
qed

lemma path_shape_star:
  assumes "\<And>x. x \<in> A \<Longrightarrow> \<exists>c y. x = c # y \<and> (path_sep c \<or> c = CHR ''/'') \<and> path_shape y"
    and "b \<in> star A" and "path_shape a"
  shows "path_shape (a @ b)"
  using assms(2,3)
proof (induction arbitrary: a rule: star.induct)
  case (star_step x b)
  then obtain c y where "x = c # y" "path_sep c \<or> c = CHR ''/''" "path_shape y" using assms(1) by blast
  then have "path_shape (a @ x)" using path_shape_append star_step(4) by simp
  then show ?case using star_step(3) [of "a @ x"] by simp
qed simp

lemma path_shape_segment: "s \<in> lang segment_re \<Longrightarrow> path_shape s"
proof -
  let ?A = "lang (RSeq (RCls path_sep) (RPlus (RCls low_alnum)))"
  assume "s \<in> lang segment_re"
  then obtain a b where ab: "s = a @ b" "a \<in> lang (RPlus (RCls low_alnum))" "b \<in> star ?A"
    unfolding segment_re_def lang.simps(4,6) by blast
  have A: "\<exists>c y. x = c # y \<and> (path_sep c \<or> c = CHR ''/'') \<and> path_shape y" if x: "x \<in> ?A" for x
  proof -
    obtain c y where "x = [c] @ y" "path_sep c" "y \<in> lang (RPlus (RCls low_alnum))"
      using x unfolding lang.simps(3,4) by blast
    then show ?thesis using path_shape_plus by auto
  qed
  show ?thesis unfolding ab(1) by (rule path_shape_star [OF A ab(3) path_shape_plus [OF ab(2)]])
qed

lemma path_shape_path: "rmatch path_re p \<Longrightarrow> path_shape p"
proof -
  let ?A = "lang (RSeq (RLit ''/'') segment_re)"
  assume "rmatch path_re p"
  then obtain a b where ab: "p = a @ b" "a \<in> lang segment_re" "b \<in> star ?A"
    unfolding rmatch_lang path_re_def lang.simps(4,6) by blast
  have A: "\<exists>c y. x = c # y \<and> (path_sep c \<or> c = CHR ''/'') \<and> path_shape y" if x: "x \<in> ?A" for x
  proof -
    obtain y where "x = ''/'' @ y" "y \<in> lang segment_re"
      using x unfolding lang.simps(4) lang_RLit by blast
    then show ?thesis using path_shape_segment by auto
  qed
  show ?thesis unfolding ab(1) by (rule path_shape_star [OF A ab(3) path_shape_segment [OF ab(2)]])
qed

text \<open>No two separators stand side by side: no empty segment, no \<open>..\<close>.\<close>

lemma path_shape_no_pair:
  "path_shape p \<Longrightarrow> \<not> low_alnum c \<Longrightarrow> \<not> low_alnum d \<Longrightarrow> \<not> contains_sub p [c, d]"
  by (auto simp: contains_sub_iff path_shape_def successively_append_iff)

lemma path_shape_no_colon: "path_shape p \<Longrightarrow> CHR '':'' \<notin> set p \<and> CHR ''@'' \<notin> set p"
  by (auto simp: path_shape_def list_all_iff low_alnum_def path_sep_def is_lower_def is_digit_def bval_def)

lemma version_ok_chars:
  "version_ok s \<Longrightarrow> s \<noteq> [] \<and> CHR '':'' \<notin> set s \<and> CHR ''@'' \<notin> set s \<and> CHR ''/'' \<notin> set s"
  by (auto simp: version_ok_def word_char_def is_lower_def is_upper_def is_digit_def bval_def list_all_iff
      split: list.splits)

subsection \<open>A parsed reference\<close>

definition ref_wf :: "oci_ref \<Rightarrow> bool" where
  "ref_wf r \<longleftrightarrow>
     ref_path r = namespace r @ ''/'' @ oid r \<and> path_shape (ref_path r) \<and>
     (\<exists>w rest. resource r = registry r @ ''/'' @ w @ rest \<and> ref_path r = owner r @ rest \<and>
        owner r = (if w = ''devcontainers-contrib'' then ''devcontainers-extra'' else w)) \<and>
     (if digest r \<noteq> [] then tag r = [] \<and> version r = digest r \<and> (\<exists>x. digest r = ''sha256:'' @ x \<and> version_ok x)
      else if tag r \<noteq> [] then version r = tag r \<and> version_ok (tag r) else version r = ''latest'')"

lemma split_version_Inr:
  assumes "split_version s = Inr (res, tg, dg)"
  shows "dg \<noteq> [] \<longrightarrow> tg = [] \<and> (\<exists>x. dg = ''sha256:'' @ x \<and> version_ok x)"
proof
  assume "dg \<noteq> []"
  then obtain i where dg: "dg = drop (i + 1) s" "tg = []" and n: "length (split_byte CHR '':'' dg) = 2"
    "split_byte CHR '':'' dg ! 0 = ''sha256''" "version_ok (split_byte CHR '':'' dg ! 1)"
    using assms by (auto simp: split_version_def Let_def split: option.splits if_splits)
  obtain a x where ax: "split_byte CHR '':'' dg = [a, x]"
    using n(1) by (auto simp: numeral_2_eq_2 length_Suc_conv)
  then have "dg = ''sha256:'' @ x" using join_split_byte [of "CHR '':''" dg] n(2) by simp
  then show "tg = [] \<and> (\<exists>x. dg = ''sha256:'' @ x \<and> version_ok x)" using dg(2) n(3) ax by auto
qed

lemma ref_of_resource_Inr:
  assumes "ref_of_resource res tg dg = Inr r"
  shows "ref_path r = namespace r @ ''/'' @ oid r \<and> path_shape (ref_path r) \<and>
     (\<exists>w rest. resource r = registry r @ ''/'' @ w @ rest \<and> ref_path r = owner r @ rest \<and>
        owner r = (if w = ''devcontainers-contrib'' then ''devcontainers-extra'' else w)) \<and>
     tag r = tg \<and> digest r = dg \<and> version r = (if dg \<noteq> [] then dg else if tg \<noteq> [] then tg else ''latest'')"
proof -
  have len: "\<not> length (split_byte CHR ''/'' res) < 3" using assms by (auto simp: ref_of_resource_def Let_def)
  then obtain g o' x xs where ps: "split_byte CHR ''/'' res = g # o' # x # xs"
    by (cases "split_byte CHR ''/'' res" rule: list.exhaust [case_product list.exhaust])
      (auto simp: neq_Nil_conv numeral_3_eq_3 not_less, metis Suc_le_length_iff)
  define ow where "ow = (if o' = ''devcontainers-contrib'' then ''devcontainers-extra'' else o')"
  define parts where "parts = g # ow # x # xs"
  have r: "r = \<lparr>registry = g, owner = ow, namespace = join ''/'' (butlast (tl parts)),
      ref_path = join ''/'' (butlast (tl parts)) @ ''/'' @ last parts,
      resource = res, oid = last parts,
      version = (if dg \<noteq> [] then dg else if tg \<noteq> [] then tg else ''latest''), tag = tg, digest = dg\<rparr>"
    and m: "rmatch path_re (join ''/'' (butlast (tl parts)) @ ''/'' @ last parts)"
    using assms ps by (auto simp: ref_of_resource_def Let_def parts_def ow_def split: if_splits)
  have res: "res = g @ ''/'' @ o' @ ''/'' @ join ''/'' (x # xs)"
    using join_split_byte [of "CHR ''/''" res] ps by simp
  have "join ''/'' (butlast (tl parts)) @ ''/'' @ last parts = ow @ ''/'' @ join ''/'' (x # xs)"
    using join_butlast [of "ow # x # xs" "''/''"] by (simp add: parts_def split: if_splits)
  then show ?thesis using m path_shape_path unfolding r res
    by (auto simp: ow_def intro!: exI [of _ o'] exI [of _ "''/'' @ join ''/'' (x # xs)"])
qed

text \<open>C20. A reference that parses is well formed: its path is namespace, slash, id, made of lower-case
  alphanumeric runs with single separators between (so no empty segment and no \<open>..\<close>); the
  resource is registry and path with the owner as written; it has a digest and no tag, or a
  valid tag, or neither and the version latest.\<close>

theorem parse_ref_wf: "parse_ref ulow input = Inr r \<Longrightarrow> ref_wf r"
proof -
  assume "parse_ref ulow input = Inr r"
  then obtain res tg dg where s: "split_version (to_lower ulow input) = Inr (res, tg, dg)"
    and t: "tg = [] \<or> version_ok tg" and r: "ref_of_resource res tg dg = Inr r"
    by (auto simp: parse_ref_def Let_def bind_res_Inr_iff split: if_splits)
  note R = ref_of_resource_Inr [OF r]
  show ?thesis unfolding ref_wf_def
  proof (intro conjI)
    show "if digest r \<noteq> [] then tag r = [] \<and> version r = digest r \<and> (\<exists>x. digest r = ''sha256:'' @ x \<and> version_ok x)
      else if tag r \<noteq> [] then version r = tag r \<and> version_ok (tag r) else version r = ''latest''"
      using R split_version_Inr [OF s] t by (cases "dg = []"; cases "tg = []") simp_all
  qed (use R in blast)+
qed

theorem parse_ref_wf_witness:
  "\<exists>r. parse_ref id ''ghcr.io/devcontainers/features/Go:1.2'' = Inr r \<and> ref_wf r"
proof -
  have "parse_ref id ''ghcr.io/devcontainers/features/Go:1.2'' = Inr
     \<lparr>registry = ''ghcr.io'', owner = ''devcontainers'', namespace = ''devcontainers/features'',
      ref_path = ''devcontainers/features/go'', resource = ''ghcr.io/devcontainers/features/go'',
      oid = ''go'', version = ''1.2'', tag = ''1.2'', digest = []\<rparr>" by code_simp
  then show ?thesis using parse_ref_wf by blast
qed

subsection \<open>Every well formed reference is parsed\<close>

lemma last_index_byte_tail:
  assumes "c \<notin> set b" and "c \<noteq> d"
  shows "last_index_byte c (a @ d # b) = last_index_byte c a"
proof (cases "c \<in> set a")
  case True
  then obtain x y where xy: "a = x @ c # y" "c \<notin> set y" using split_list_last [OF True] by blast
  then show ?thesis using assms last_index_byte_append [of c "y @ d # b" x] last_index_byte_append [of c y x] by simp
next
  case False
  then show ?thesis using assms by (simp add: last_index_byte_None [THEN iffD2])
qed

lemma last_index_tail: "c \<notin> set b \<Longrightarrow> c \<noteq> d \<Longrightarrow> last_index c (a @ d # b) = last_index c a"
  by (simp add: last_index_def last_index_byte_tail)

lemma last_index_found: "c \<notin> set b \<Longrightarrow> last_index c (a @ c # b) = int (length a)"
  by (simp add: last_index_def last_index_byte_append)

lemma last_index_bound: "last_index c a < int (length a)"
proof (cases "last_index_byte c a")
  case (Some i)
  have "length a = length (take i a @ c # drop (Suc i) a)" using last_index_byte_split [OF Some] by simp
  then have "i < length a" by (cases "i < length a") auto
  then show ?thesis using Some by (simp add: last_index_def)
qed (simp add: last_index_def)

text \<open>A registry host (a port allowed) and a path without the renamed owner, in lower case.\<close>

definition ref_text :: "string \<Rightarrow> string \<Rightarrow> string" where
  "ref_text g p = g @ ''/'' @ p"

definition ref_input_ok :: "string \<Rightarrow> string \<Rightarrow> bool" where
  "ref_input_ok g p \<longleftrightarrow> CHR ''/'' \<notin> set g \<and> CHR ''@'' \<notin> set g \<and> \<not> has_prefix (ref_text g p) ''.'' \<and>
     list_all (\<lambda>c. is_ascii c \<and> lower_char c = c) (ref_text g p) \<and> rmatch path_re p \<and>
     CHR ''/'' \<in> set p \<and> hd (split_byte CHR ''/'' p) \<noteq> ''devcontainers-contrib''"

definition expected_ref :: "string \<Rightarrow> string \<Rightarrow> string \<Rightarrow> string \<Rightarrow> oci_ref" where
  "expected_ref g p tg dg = \<lparr>registry = g, owner = hd (split_byte CHR ''/'' p),
     namespace = join ''/'' (butlast (split_byte CHR ''/'' p)), ref_path = p, resource = ref_text g p,
     oid = last (split_byte CHR ''/'' p), version = (if dg \<noteq> [] then dg else if tg \<noteq> [] then tg else ''latest''),
     tag = tg, digest = dg\<rparr>"

lemma ref_of_resource_text:
  assumes "ref_input_ok g p"
  shows "ref_of_resource (ref_text g p) tg dg = Inr (expected_ref g p tg dg)"
proof -
  have sp: "split_byte CHR ''/'' (ref_text g p) = g # split_byte CHR ''/'' p"
    using assms by (simp add: ref_input_ok_def ref_text_def split_byte_append)
  have "length (split_byte CHR ''/'' p) \<ge> 2"
    using assms count_list_0_iff [of p "CHR ''/''"] by (simp add: ref_input_ok_def length_split_byte Suc_le_eq)
  then obtain ow x xs where ps: "split_byte CHR ''/'' p = ow # x # xs"
    by (metis One_nat_def Suc_le_length_iff numeral_2_eq_2)
  define ss where "ss = ow # x # xs"
  have p: "join ''/'' (butlast ss) @ ''/'' @ last ss = p"
    using join_butlast [of ss "''/''"] join_split_byte [of "CHR ''/''" p] ps by (simp add: ss_def)
  have l: "\<not> length (g # ss) < 3" "(g # ss) ! 1 = ow" "(g # ss) ! 0 = g" "last (g # ss) = last ss" "hd ss = ow"
    "tl (g # ss) = ss"
    by (simp_all add: ss_def)
  have a: "rmatch path_re p" "ow \<noteq> ''devcontainers-contrib''" using assms ps by (simp_all add: ref_input_ok_def)
  show ?thesis unfolding ref_of_resource_def Let_def expected_ref_def sp ps ss_def [symmetric] l
    using a by (simp only: l p if_False not_True_eq_False simp_thms if_cancel)
qed

lemma split_version_text:
  assumes "ref_input_ok g p"
  shows "split_version (ref_text g p) = Inr (ref_text g p, ''latest'', [])"
    and "version_ok t \<Longrightarrow> split_version (ref_text g p @ '':'' @ t) = Inr (ref_text g p, t, [])"
    and "version_ok x \<Longrightarrow> split_version (ref_text g p @ ''@sha256:'' @ x) = Inr (ref_text g p, [], ''sha256:'' @ x)"
proof -
  have p: "CHR '':'' \<notin> set p" "CHR ''@'' \<notin> set p" "CHR ''@'' \<notin> set g"
    using assms path_shape_no_colon path_shape_path by (auto simp: ref_input_ok_def)
  have sl: "CHR ''/'' \<in> set p" using assms by (simp add: ref_input_ok_def)
  then obtain a b where ab: "p = a @ CHR ''/'' # b" "CHR ''/'' \<notin> set b" using split_list_last [OF sl] by blast
  have at: "last_index_byte CHR ''@'' (ref_text g p) = None"
    using p by (simp add: last_index_byte_None ref_text_def)
  have colon: "last_index CHR '':'' (ref_text g p) < int (length g)"
    using last_index_tail [of "CHR '':''" p "CHR ''/''" g] p last_index_bound [of "CHR '':''" g]
    by (simp add: ref_text_def)
  have slash: "last_index CHR ''/'' (ref_text g p) = int (length (g @ ''/'' @ a))"
    using last_index_found [of "CHR ''/''" b "g @ ''/'' @ a"] ab by (simp add: ref_text_def)
  show "split_version (ref_text g p) = Inr (ref_text g p, ''latest'', [])"
    using at colon slash by (simp add: split_version_def)
  show "split_version (ref_text g p @ '':'' @ t) = Inr (ref_text g p, t, [])" if t: "version_ok t"
  proof -
    note tc = version_ok_chars [OF t]
    have "last_index_byte CHR ''@'' (ref_text g p @ '':'' @ t) = None"
      using p tc by (simp add: last_index_byte_None ref_text_def)
    moreover have "last_index CHR '':'' (ref_text g p @ '':'' @ t) = int (length (ref_text g p))"
      using last_index_found [of "CHR '':''" t "ref_text g p"] tc by simp
    moreover have "last_index CHR ''/'' (ref_text g p @ '':'' @ t) = last_index CHR ''/'' (ref_text g p)"
      using last_index_tail [of "CHR ''/''" t "CHR '':''" "ref_text g p"] tc by simp
    ultimately show ?thesis using last_index_bound [of "CHR ''/''" "ref_text g p"]
      by (simp add: split_version_def)
  qed
  show "split_version (ref_text g p @ ''@sha256:'' @ x) = Inr (ref_text g p, [], ''sha256:'' @ x)"
    if x: "version_ok x"
  proof -
    note xc = version_ok_chars [OF x]
    have "last_index_byte CHR ''@'' (ref_text g p @ CHR ''@'' # ''sha256:'' @ x) = Some (length (ref_text g p))"
      using xc by (intro last_index_byte_append) simp
    moreover have "split_byte CHR '':'' (''sha256:'' @ x) = [''sha256'', x]"
      using xc split_byte_append [of "CHR '':''" "''sha256''" x] by (simp add: split_byte_no_sep)
    ultimately show ?thesis using x by (simp add: split_version_def)
  qed
qed

text \<open>Every reference of a registry and a path that matches the pattern is parsed into its parts, with
  no version, a tag or a digest; a colon in the registry (a port) is not taken for a tag.\<close>

theorem parse_ref_complete:
  assumes "ref_input_ok g p" and "version_ok v" and "list_all (\<lambda>c. is_ascii c \<and> lower_char c = c) v"
  shows "parse_ref ulow (ref_text g p) = Inr (expected_ref g p ''latest'' []) \<and>
    parse_ref ulow (ref_text g p @ '':'' @ v) = Inr (expected_ref g p v []) \<and>
    parse_ref ulow (ref_text g p @ ''@sha256:'' @ v) = Inr (expected_ref g p [] (''sha256:'' @ v))"
proof -
  have low: "to_lower ulow s = s" if "list_all (\<lambda>c. is_ascii c \<and> lower_char c = c) s" for s
  proof -
    have "map lower_char s = s" using that by (intro map_idI) (auto simp: list_all_iff)
    then show ?thesis using that by (simp add: to_lower_def list_all_iff)
  qed
  have lo: "list_all (\<lambda>c. is_ascii c \<and> lower_char c = c) (ref_text g p)" "\<not> has_prefix (ref_text g p) ''.''"
    using assms(1) by (simp_all add: ref_input_ok_def)
  have app: "\<not> has_prefix (ref_text g p @ s) ''.''" for s
    using lo(2) by (cases "ref_text g p") (auto simp: ref_text_def has_prefix_iff)
  have latest: "version_ok ''latest''" by code_simp
  have c1: "to_lower ulow (ref_text g p @ '':'' @ v) = ref_text g p @ '':'' @ v"
    using lo(1) assms(3) by (intro low) (simp add: is_ascii_def lower_char_def is_upper_def bval_def)
  have c2: "to_lower ulow (ref_text g p @ ''@sha256:'' @ v) = ref_text g p @ ''@sha256:'' @ v"
    using lo(1) assms(3) by (intro low) (simp add: is_ascii_def lower_char_def is_upper_def bval_def)
  show ?thesis unfolding parse_ref_def Let_def c1 c2 low [OF lo(1)]
    using split_version_text [OF assms(1)] assms(2) app lo(2) latest
    by (simp add: ref_of_resource_text [OF assms(1)])
qed

theorem parse_ref_complete_witness:
  "parse_ref id ''localhost:5000/a/b:v1'' = Inr (expected_ref ''localhost:5000'' ''a/b'' ''v1'' [])"
proof -
  have "ref_input_ok ''localhost:5000'' ''a/b''" "version_ok ''v1''"
    "list_all (\<lambda>c. is_ascii c \<and> lower_char c = c) ''v1''" by code_simp+
  then show ?thesis using parse_ref_complete [of "''localhost:5000''" "''a/b''" "''v1''" id]
    by (simp add: ref_text_def)
qed

end
