(* ===== verification/Advisory.thy ===== *)
theory Advisory
  imports FeatureTypes GoStrings Rounds
begin

text \<open>
  \<open>internal/features/advisory.go\<close>: the control manifest (its cache, its sanitizing), the
  advisories that apply to a version, and the Features it blocks. \<open>encoding/json\<close>'s reading of
  the manifest's bytes is the argument \<open>decode\<close>: \<open>None\<close> for bytes that are not JSON, and the
  members of an object in document order, repeated keys included.
\<close>

record disallowed_feature =
  feature_id_prefix :: string
  dis_documentation_url :: string

record advisory =
  adv_feature_id :: string
  introduced_in_version :: string
  fixed_in_version :: string
  adv_description :: string
  adv_documentation_url :: string

record control_manifest =
  disallowed_features :: "disallowed_feature list"
  feature_advisories :: "advisory list"

definition empty_manifest :: control_manifest where
  "empty_manifest = \<lparr>disallowed_features = [], feature_advisories = []\<rparr>"

subsection \<open>Reading the manifest\<close>

text \<open>Decoding into a map keeps the last of repeated members.\<close>

definition member :: "(string \<times> json) list \<Rightarrow> string \<Rightarrow> json option" where
  "member m k = map_of (rev m) k"

text \<open>
  Decoding a string field of a struct: every member whose name folds to the field's assigns it in
  turn; null and a value of another type leave it. \<open>lname\<close> is the field's name in lower case.
\<close>

definition string_field :: "string \<Rightarrow> (string \<times> json) list \<Rightarrow> string" where
  "string_field lname m =
     foldl (\<lambda>old (k, v). if equal_fold k lname then (case v of JStr s \<Rightarrow> s | _ \<Rightarrow> old) else old) [] m"

definition is_json_string :: "json option \<Rightarrow> bool" where
  "is_json_string v \<longleftrightarrow> (case v of Some (JStr s) \<Rightarrow> True | _ \<Rightarrow> False)"

definition members_of :: "json \<Rightarrow> (string \<times> json) list" where
  "members_of v = (case v of JObj m \<Rightarrow> m | _ \<Rightarrow> [])"

definition manifest_entries :: "json option \<Rightarrow> string list \<Rightarrow> (string \<times> json) list list" where
  "manifest_entries entries fs =
     (case entries of
        Some (JArr elems) \<Rightarrow>
          filter (\<lambda>m. list_all (\<lambda>f. is_json_string (member m f)) fs) (map members_of elems)
      | _ \<Rightarrow> [])"

definition decode_disallowed :: "(string \<times> json) list \<Rightarrow> disallowed_feature" where
  "decode_disallowed m = \<lparr>feature_id_prefix = string_field ''featureidprefix'' m,
     dis_documentation_url = string_field ''documentationurl'' m\<rparr>"

definition decode_advisory :: "(string \<times> json) list \<Rightarrow> advisory" where
  "decode_advisory m = \<lparr>adv_feature_id = string_field ''featureid'' m,
     introduced_in_version = string_field ''introducedinversion'' m,
     fixed_in_version = string_field ''fixedinversion'' m,
     adv_description = string_field ''description'' m,
     adv_documentation_url = string_field ''documentationurl'' m\<rparr>"

definition sanitize_manifest :: "json option \<Rightarrow> control_manifest option" where
  "sanitize_manifest data =
     (case data of
        Some (JObj m) \<Rightarrow> Some
          \<lparr>disallowed_features = map decode_disallowed
             (manifest_entries (member m ''disallowedFeatures'') [''featureIdPrefix'']),
           feature_advisories = map decode_advisory
             (manifest_entries (member m ''featureAdvisories'')
                [''featureId'', ''introducedInVersion'', ''fixedInVersion'', ''description''])\<rparr>
      | Some JNull \<Rightarrow> Some empty_manifest
      | _ \<Rightarrow> None)"

subsection \<open>The cache\<close>

text \<open>The cache file: whether its time is under five minutes old, and its bytes when it can be read.\<close>

record 'b cache_file =
  is_fresh :: bool
  contents :: "'b option"

definition empty_manifest_text :: string where
  "empty_manifest_text = CHR 0x7B # CHR 0x0A # ''  '' @ [CHR 0x22] @ ''disallowedFeatures'' @ [CHR 0x22] @ '': [],''
     @ [CHR 0x0A] @ ''  '' @ [CHR 0x22] @ ''featureAdvisories'' @ [CHR 0x22] @ '': []'' @ [CHR 0x0A, CHR 0x7D]"

definition cached_manifest ::
  "(string \<Rightarrow> json option) \<Rightarrow> string cache_file option \<Rightarrow> control_manifest option" where
  "cached_manifest decode cache =
     (case cache of None \<Rightarrow> None
      | Some c \<Rightarrow> (case contents c of None \<Rightarrow> None | Some b \<Rightarrow> sanitize_manifest (decode b)))"

text \<open>
  \<open>GetControlManifest\<close>: the manifest and the cache file afterwards. \<open>fetched\<close> is the response
  body or \<open>None\<close> for a failed fetch; \<open>writable\<close> tells whether the cache can be replaced
  or touched.
\<close>

definition get_control_manifest ::
  "(string \<Rightarrow> json option) \<Rightarrow> bool \<Rightarrow> string option \<Rightarrow> string cache_file option
     \<Rightarrow> control_manifest \<times> string cache_file option" where
  "get_control_manifest decode writable fetched cache =
     (let cached = cached_manifest decode cache in
      case (cache, cached) of
        (Some c, Some m) \<Rightarrow>
          if is_fresh c then (m, cache)
          else (case fetched of
                  None \<Rightarrow> (m, if writable then Some (c\<lparr>is_fresh := True\<rparr>) else cache)
                | Some body \<Rightarrow>
                    ((case sanitize_manifest (decode body) of Some m' \<Rightarrow> m' | None \<Rightarrow> empty_manifest),
                     if writable then Some \<lparr>is_fresh = True, contents = Some body\<rparr> else cache))
      | _ \<Rightarrow>
          (let body = (case fetched of Some b \<Rightarrow> b | None \<Rightarrow> empty_manifest_text) in
           ((case sanitize_manifest (decode body) of Some m' \<Rightarrow> m' | None \<Rightarrow> empty_manifest),
            if writable then Some \<lparr>is_fresh = True, contents = Some body\<rparr> else cache)))"

subsection \<open>Versions\<close>

text \<open>The numbers of the pattern's dotted part and what follows it.\<close>

function dotted :: "string \<Rightarrow> string list" where
  "dotted s =
     (let d = takeWhile is_digit s; r = dropWhile is_digit s in
      case r of
        c # r' \<Rightarrow> if c = CHR ''.'' \<and> r' \<noteq> [] \<and> is_digit (hd r') then d # dotted r' else [d]
      | [] \<Rightarrow> [d])"
  by pat_completeness auto
termination
proof (relation "measure length")
  fix s d r c r' assume "r = dropWhile is_digit s" "r = c # r'"
  then have "Suc (length r') = length (dropWhile is_digit s)" by (metis length_Cons)
  then have "Suc (length r') \<le> length s" using length_dropWhile_le [of is_digit s] by simp
  then show "(r', s) \<in> measure length" by simp
qed simp

declare dotted.simps [simp del]

definition version_text :: "string \<Rightarrow> string list option" where
  "version_text s =
     (let a = trim_prefix s [CHR 0x27]; b = trim_prefix a ''v''
      in if b \<noteq> [] \<and> is_digit (hd b) then Some (dotted b) else None)"

definition digits_value :: "string \<Rightarrow> nat" where
  "digits_value s = foldl (\<lambda>n c. 10 * n + (bval c - 48)) 0 s"

text \<open>\<open>strconv.Atoi\<close> on digits: an error past the 63-bit range.\<close>

definition atoi :: "string \<Rightarrow> nat option" where
  "atoi s = (if int (digits_value s) < 2 ^ 63 then Some (digits_value s) else None)"

definition parse_version :: "string \<Rightarrow> nat list option" where
  "parse_version s = (case version_text s of None \<Rightarrow> None
     | Some ps \<Rightarrow> (if list_all (\<lambda>p. atoi p \<noteq> None) ps then Some (map (\<lambda>p. the (atoi p)) ps) else None))"

definition nth_or_0 :: "nat list \<Rightarrow> nat \<Rightarrow> nat" where
  "nth_or_0 xs i = (if i < length xs then xs ! i else 0)"

fun earlier_from :: "nat list \<Rightarrow> nat list \<Rightarrow> nat list \<Rightarrow> bool" where
  "earlier_from l r [] = False"
| "earlier_from l r (i # is) =
     (if nth_or_0 l i \<noteq> nth_or_0 r i then nth_or_0 l i < nth_or_0 r i else earlier_from l r is)"

definition is_earlier_version :: "nat list \<Rightarrow> nat list \<Rightarrow> bool" where
  "is_earlier_version l r = earlier_from l r [0 ..< max (length l) (length r)]"

subsection \<open>Advisories\<close>

record versioned_feature =
  vf_id :: string
  vf_version :: string

record with_advisory =
  wa_feature_id :: string
  wa_version :: string
  wa_advisories :: "advisory list"

definition oci_features :: "feature_set list \<Rightarrow> versioned_feature list" where
  "oci_features sets = concat (map (\<lambda>s. case (source_info s, set_features s) of
       (Some (OCI src), f # _) \<Rightarrow>
         [\<lparr>vf_id = oci_registry src @ ''/'' @ oci_namespace src @ ''/'' @ oci_id src, vf_version = feat_version f\<rparr>]
     | _ \<Rightarrow> []) sets)"

definition advisory_applies :: "nat list \<Rightarrow> advisory \<Rightarrow> bool" where
  "advisory_applies v a =
     (case (parse_version (introduced_in_version a), parse_version (fixed_in_version a)) of
        (Some i, Some f) \<Rightarrow> \<not> is_earlier_version v i \<and> is_earlier_version v f
      | _ \<Rightarrow> False)"

text \<open>The second component is what is reported to \<open>warn\<close>.\<close>

fun advisories_of ::
  "advisory list \<Rightarrow> versioned_feature list \<Rightarrow> with_advisory list \<times> string list" where
  "advisories_of advs [] = ([], [])"
| "advisories_of advs (f # fs) =
     (let (rs, ws) = advisories_of advs fs in
      case parse_version (vf_version f) of
        None \<Rightarrow> (rs, (''Unable to parse version for feature '' @ vf_id f @ '': '' @ vf_version f) # ws)
      | Some v \<Rightarrow>
          (let m = filter (advisory_applies v) (filter (\<lambda>a. adv_feature_id a = vf_id f) advs) in
           if m \<noteq> [] then (\<lparr>wa_feature_id = vf_id f, wa_version = vf_version f, wa_advisories = m\<rparr> # rs, ws)
           else (rs, ws)))"

definition find_feature_advisories ::
  "control_manifest \<Rightarrow> feature_set list \<Rightarrow> with_advisory list \<times> string list" where
  "find_feature_advisories m sets =
     (if feature_advisories m = [] then ([], [])
      else advisories_of (feature_advisories m)
             (stable_sort (\<lambda>a b. str_compare (vf_id a) (vf_id b)) (oci_features sets)))"

definition format_advisory :: "advisory \<Rightarrow> string" where
  "format_advisory a = CHR 0x0A # ''  - '' @ adv_description a @ '' (introduced in '' @ introduced_in_version a
     @ '', fixed in '' @ fixed_in_version a
     @ (if adv_documentation_url a \<noteq> [] then '', see '' @ adv_documentation_url a else []) @ '')''"

definition rule_line :: string where
  "rule_line = replicate 107 CHR ''-''"

definition format_feature_advisories :: "with_advisory list \<Rightarrow> string" where
  "format_feature_advisories l =
     (if l = [] then []
      else [CHR 0x0A, CHR 0x0A] @ rule_line @ [CHR 0x0A] @ ''FEATURE ADVISORIES:''
        @ concat (map (\<lambda>f. CHR 0x0A # ''- '' @ wa_feature_id f @ '':'' @ wa_version f @ '':''
            @ concat (map format_advisory (wa_advisories f))) l)
        @ [CHR 0x0A, CHR 0x0A]
        @ ''It is recommended that you update your configuration to versions of these features with the fixes applied.''
        @ [CHR 0x0A] @ rule_line @ [CHR 0x0A, CHR 0x0A])"

subsection \<open>Blocked Features\<close>

definition find_disallowed_feature_entry :: "control_manifest \<Rightarrow> string \<Rightarrow> disallowed_feature option" where
  "find_disallowed_feature_entry m i =
     find (\<lambda>d. let p = feature_id_prefix d in
       has_prefix i p \<and> (length i = length p \<or> i ! length p \<in> set ''/:@'')) (disallowed_features m)"

datatype disallowed_error = DisallowedFeatureError string string

definition disallowed_error_message :: "disallowed_error \<Rightarrow> string" where
  "disallowed_error_message e = (case e of DisallowedFeatureError i u \<Rightarrow>
     ''Cannot use the '' @ [CHR 0x27] @ i @ [CHR 0x27] @ '' Feature since it was reported to be problematic.'')"

fun ensure_no_disallowed_features :: "control_manifest \<Rightarrow> string list \<Rightarrow> (disallowed_error, unit) res" where
  "ensure_no_disallowed_features m [] = Inr ()"
| "ensure_no_disallowed_features m (i # is) =
     (case find_disallowed_feature_entry m i of
        Some d \<Rightarrow> Inl (DisallowedFeatureError i (dis_documentation_url d))
      | None \<Rightarrow> ensure_no_disallowed_features m is)"

subsection \<open>The version order\<close>

text \<open>The reference: trailing zeros dropped, then the lexicographic order.\<close>

definition significant :: "nat list \<Rightarrow> nat list" where
  "significant v = rev (dropWhile (\<lambda>n. n = 0) (rev v))"

fun lex_less :: "nat list \<Rightarrow> nat list \<Rightarrow> bool" where
  "lex_less [] [] = False"
| "lex_less [] (y # ys) = True"
| "lex_less (x # xs) [] = False"
| "lex_less (x # xs) (y # ys) = (x < y \<or> x = y \<and> lex_less xs ys)"

lemma earlier_from_iff:
  "earlier_from l r [i ..< n] \<longleftrightarrow>
   (\<exists>k\<ge>i. k < n \<and> (\<forall>j\<ge>i. j < k \<longrightarrow> nth_or_0 l j = nth_or_0 r j) \<and> nth_or_0 l k < nth_or_0 r k)"
proof (induction "n - i" arbitrary: i)
  case 0
  then show ?case by auto
next
  case (Suc d)
  then have up: "[i ..< n] = i # [Suc i ..< n]" and d: "d = n - Suc i" by (simp_all add: upt_conv_Cons)
  have IH: "earlier_from l r [Suc i ..< n] \<longleftrightarrow>
    (\<exists>k\<ge>Suc i. k < n \<and> (\<forall>j\<ge>Suc i. j < k \<longrightarrow> nth_or_0 l j = nth_or_0 r j) \<and> nth_or_0 l k < nth_or_0 r k)"
    by (rule Suc.hyps(1) [OF d])
  have split: "(\<exists>k\<ge>i. k < n \<and> (\<forall>j\<ge>i. j < k \<longrightarrow> P j) \<and> Q k) \<longleftrightarrow>
      Q i \<or> P i \<and> (\<exists>k\<ge>Suc i. k < n \<and> (\<forall>j\<ge>Suc i. j < k \<longrightarrow> P j) \<and> Q k)" for P Q
  proof (intro iffI)
    assume "\<exists>k\<ge>i. k < n \<and> (\<forall>j\<ge>i. j < k \<longrightarrow> P j) \<and> Q k"
    then obtain k where k: "k \<ge> i" "k < n" "\<forall>j\<ge>i. j < k \<longrightarrow> P j" "Q k" by blast
    show "Q i \<or> P i \<and> (\<exists>k\<ge>Suc i. k < n \<and> (\<forall>j\<ge>Suc i. j < k \<longrightarrow> P j) \<and> Q k)"
    proof (cases "k = i")
      case False
      then have "P i" "Suc i \<le> k" "\<forall>j\<ge>Suc i. j < k \<longrightarrow> P j" using k by auto
      then show ?thesis using k(2,4) by blast
    qed (use k in auto)
  next
    assume "Q i \<or> P i \<and> (\<exists>k\<ge>Suc i. k < n \<and> (\<forall>j\<ge>Suc i. j < k \<longrightarrow> P j) \<and> Q k)"
    then show "\<exists>k\<ge>i. k < n \<and> (\<forall>j\<ge>i. j < k \<longrightarrow> P j) \<and> Q k"
    proof
      assume "P i \<and> (\<exists>k\<ge>Suc i. k < n \<and> (\<forall>j\<ge>Suc i. j < k \<longrightarrow> P j) \<and> Q k)"
      then obtain k where k: "P i" "k \<ge> Suc i" "k < n" "\<forall>j\<ge>Suc i. j < k \<longrightarrow> P j" "Q k" by blast
      have "P j" if "j \<ge> i" "j < k" for j using k that by (cases "j = i") auto
      then show ?thesis using k by (intro exI [of _ k]) auto
    qed (use Suc.hyps(2) in \<open>intro exI [of _ i], auto\<close>)
  qed
  show ?case unfolding up split earlier_from.simps IH by auto
qed

lemma is_earlier_iff:
  "is_earlier_version l r \<longleftrightarrow>
   (\<exists>k. (\<forall>j<k. nth_or_0 l j = nth_or_0 r j) \<and> nth_or_0 l k < nth_or_0 r k)"
proof -
  have "k < max (length l) (length r)" if "nth_or_0 l k < nth_or_0 r k" for k
    using that by (auto simp: nth_or_0_def split: if_splits)
  then show ?thesis unfolding is_earlier_version_def earlier_from_iff by auto
qed


lemma nth_or_0_Cons [simp]: "nth_or_0 (x # xs) 0 = x" "nth_or_0 (x # xs) (Suc k) = nth_or_0 xs k" "nth_or_0 [] k = 0"
  by (simp_all add: nth_or_0_def)

lemma nth_or_0_zeros: "nth_or_0 (v @ replicate m 0) k = nth_or_0 v k"
  by (auto simp: nth_or_0_def nth_append)

lemma significant_zeros: "\<exists>m. v = significant v @ replicate m 0"
proof -
  have "rev v = takeWhile (\<lambda>n. n = 0) (rev v) @ dropWhile (\<lambda>n. n = 0) (rev v)" by simp
  then have "v = significant v @ rev (takeWhile (\<lambda>n. n = 0) (rev v))"
    unfolding significant_def by (metis rev_append rev_rev_ident)
  moreover have "takeWhile (\<lambda>n. n = 0) xs = replicate (length (takeWhile (\<lambda>n. n = 0) xs)) 0" for xs :: "nat list"
    by (rule replicate_length_same [symmetric]) (auto dest: set_takeWhileD)
  ultimately show ?thesis by (metis rev_replicate)
qed

lemma nth_or_0_significant: "nth_or_0 (significant v) k = nth_or_0 v k"
proof -
  obtain m where "v = significant v @ replicate m 0" using significant_zeros by blast
  then show ?thesis using nth_or_0_zeros [of "significant v" m k] by simp
qed

lemma significant_last: "significant v \<noteq> [] \<Longrightarrow> last (significant v) \<noteq> 0"
  unfolding significant_def by (metis (mono_tags) hd_dropWhile last_rev rev_is_Nil_conv)

lemma lex_less_iff:
  "(xs \<noteq> [] \<longrightarrow> last xs \<noteq> 0) \<Longrightarrow> (ys \<noteq> [] \<longrightarrow> last ys \<noteq> 0) \<Longrightarrow>
   lex_less xs ys \<longleftrightarrow> (\<exists>k. (\<forall>j<k. nth_or_0 xs j = nth_or_0 ys j) \<and> nth_or_0 xs k < nth_or_0 ys k)"
proof (induction xs ys rule: lex_less.induct)
  case (2 y ys)
  have "\<exists>k. nth_or_0 (y # ys) k \<noteq> 0"
    using 2 last_conv_nth [of "y # ys"] by (intro exI [of _ "length ys"]) (simp add: nth_or_0_def)
  then obtain k where "nth_or_0 (y # ys) k \<noteq> 0" "\<forall>j<k. nth_or_0 (y # ys) j = 0"
    using exists_least_iff [of "\<lambda>k. nth_or_0 (y # ys) k \<noteq> 0"] by auto
  then show ?case by auto
next
  case (4 x xs y ys)
  have split: "(\<exists>k. (\<forall>j<k. P j) \<and> Q k) \<longleftrightarrow> Q 0 \<or> P 0 \<and> (\<exists>k. (\<forall>j<k. P (Suc j)) \<and> Q (Suc k))" for P Q :: "nat \<Rightarrow> bool"
  proof (intro iffI)
    assume "\<exists>k. (\<forall>j<k. P j) \<and> Q k"
    then obtain k where "\<forall>j<k. P j" "Q k" by blast
    then show "Q 0 \<or> P 0 \<and> (\<exists>k. (\<forall>j<k. P (Suc j)) \<and> Q (Suc k))"
    proof (cases k)
      case (Suc m)
      then have "P 0" "\<forall>j<m. P (Suc j)" "Q (Suc m)" using \<open>\<forall>j<k. P j\<close> \<open>Q k\<close> by auto
      then show ?thesis by blast
    qed (use \<open>Q k\<close> in simp)
  next
    assume "Q 0 \<or> P 0 \<and> (\<exists>k. (\<forall>j<k. P (Suc j)) \<and> Q (Suc k))"
    then show "\<exists>k. (\<forall>j<k. P j) \<and> Q k"
    proof
      assume "P 0 \<and> (\<exists>k. (\<forall>j<k. P (Suc j)) \<and> Q (Suc k))"
      then obtain k where "P 0" "\<forall>j<k. P (Suc j)" "Q (Suc k)" by blast
      then show ?thesis by (intro exI [of _ "Suc k"]) (auto simp: less_Suc_eq_0_disj)
    qed (auto intro: exI [of _ 0])
  qed
  have "(xs \<noteq> [] \<longrightarrow> last xs \<noteq> 0)" "(ys \<noteq> [] \<longrightarrow> last ys \<noteq> 0)" using 4(2,3) by auto
  then show ?case using 4(1) unfolding split [of "\<lambda>j. nth_or_0 (x # xs) j = nth_or_0 (y # ys) j"] by auto
qed auto

text \<open>Versions are compared component by component, a missing component being 0: the loop is the
  lexicographic order of the versions without their trailing zeros, so 1, 1.0 and 1.0.0 are one
  version.\<close>

theorem is_earlier_version_lex: "is_earlier_version l r \<longleftrightarrow> lex_less (significant l) (significant r)"
  using lex_less_iff [of "significant l" "significant r"] significant_last
  unfolding is_earlier_iff nth_or_0_significant by blast


subsection \<open>Which advisories are reported\<close>

text \<open>The specification, over the lexicographic order: the Feature's version is not before the introducing
  one, and strictly before the fixing one.\<close>

definition flagged :: "advisory list \<Rightarrow> versioned_feature \<Rightarrow> advisory \<Rightarrow> bool" where
  "flagged advs f a \<longleftrightarrow> a \<in> set advs \<and> adv_feature_id a = vf_id f \<and>
     (\<exists>v i x. parse_version (vf_version f) = Some v \<and> parse_version (introduced_in_version a) = Some i \<and>
        parse_version (fixed_in_version a) = Some x \<and>
        \<not> lex_less (significant v) (significant i) \<and> lex_less (significant v) (significant x))"

lemma flagged_applies:
  "flagged advs f a \<longleftrightarrow> a \<in> set advs \<and> adv_feature_id a = vf_id f \<and>
     (\<exists>v. parse_version (vf_version f) = Some v \<and> advisory_applies v a)"
  unfolding flagged_def advisory_applies_def is_earlier_version_lex
  by (cases "parse_version (introduced_in_version a)"; cases "parse_version (fixed_in_version a)") auto

lemma advisories_of_spec:
  "w \<in> set (fst (advisories_of advs fs)) \<longleftrightarrow>
   (\<exists>f\<in>set fs. wa_feature_id w = vf_id f \<and> wa_version w = vf_version f \<and> wa_advisories w \<noteq> [] \<and>
      (\<exists>v. parse_version (vf_version f) = Some v \<and>
         wa_advisories w = filter (advisory_applies v) (filter (\<lambda>a. adv_feature_id a = vf_id f) advs)))"
proof (induction fs)
  case (Cons f fs)
  show ?case
  proof (cases "parse_version (vf_version f)")
    case None
    then show ?thesis using Cons by (auto simp: split_def Let_def)
  next
    case (Some v)
    have "w = \<lparr>wa_feature_id = vf_id f, wa_version = vf_version f, wa_advisories = m\<rparr> \<longleftrightarrow>
        wa_feature_id w = vf_id f \<and> wa_version w = vf_version f \<and> wa_advisories w = m" for m
      by (cases w) auto
    then show ?thesis using Cons Some by (auto simp: split_def Let_def)
  qed
qed simp

lemma flagged_reported:
  assumes "f \<in> set fs" and "flagged advs f a"
  shows "\<exists>w\<in>set (fst (advisories_of advs fs)).
    wa_feature_id w = vf_id f \<and> wa_version w = vf_version f \<and> a \<in> set (wa_advisories w)"
proof -
  obtain v where v: "parse_version (vf_version f) = Some v" "advisory_applies v a"
    "a \<in> set advs" "adv_feature_id a = vf_id f" using assms(2) by (auto simp: flagged_applies)
  define m where "m = filter (advisory_applies v) (filter (\<lambda>a. adv_feature_id a = vf_id f) advs)"
  have m: "a \<in> set m" using v by (simp add: m_def)
  then have "m \<noteq> []" by auto
  then have "\<lparr>wa_feature_id = vf_id f, wa_version = vf_version f, wa_advisories = m\<rparr> \<in> set (fst (advisories_of advs fs))"
    unfolding advisories_of_spec using assms(1) v(1) by (intro bexI [of _ f]) (auto simp: m_def)
  then show ?thesis using m by (metis with_advisory.select_convs)
qed

lemma sorted_advisories: "sorted (map vf_id fs) \<Longrightarrow> sorted (map wa_feature_id (fst (advisories_of advs fs)))"
proof (induction fs)
  case (Cons f fs)
  have "vf_id f \<le> wa_feature_id w" if "w \<in> set (fst (advisories_of advs fs))" for w
    using that Cons.prems unfolding advisories_of_spec by auto
  then show ?case using Cons by (auto simp: split_def Let_def split: option.splits)
qed simp

lemma sorted_stable_sort: "sorted (map f (stable_sort (\<lambda>a b. str_compare (f a) (f b)) xs))"
proof -
  have "successively (\<lambda>a b. \<not> str_compare (f b) (f a) < 0) (stable_sort (\<lambda>a b. str_compare (f a) (f b)) xs)"
    by (rule stable_sort_adjacent) auto
  then have "successively (\<le>) (map f (stable_sort (\<lambda>a b. str_compare (f a) (f b)) xs))"
    by (simp add: successively_map not_less)
  then show ?thesis by (simp add: successively_conv_sorted_wrt)
qed

definition sample_manifest :: control_manifest where
  "sample_manifest = \<lparr>disallowed_features = [], feature_advisories =
     [\<lparr>adv_feature_id = ''g/n/f'', introduced_in_version = ''1'', fixed_in_version = ''1.2'',
       adv_description = ''d'', adv_documentation_url = []\<rparr>]\<rparr>"

definition sample_oci_sets :: "feature_set list" where
  "sample_oci_sets = [\<lparr>source_info = Some (OCI \<lparr>oci_manifest = None, manifest_digest = [], oci_feature_ref = None,
     oci_user_id = ''g/n/f'', oci_user_id_without_version = [], oci_registry = ''g'', oci_namespace = ''n'',
     oci_id = ''f'', oci_resource = ''g/n/f'', oci_tag = []\<rparr>),
     set_features = [(blank_feature ''f'')\<lparr>feat_version := ''v1.1''\<rparr>], internal_version = [], computed_digest = []\<rparr>]"

lemma advisories_exact_rs:
  assumes "find_feature_advisories m sets = (rs, ws)"
  shows "sorted (map wa_feature_id rs) \<and>
    (\<forall>w\<in>set rs. \<exists>f\<in>set (oci_features sets). wa_feature_id w = vf_id f \<and> wa_version w = vf_version f \<and>
       wa_advisories w \<noteq> [] \<and> (\<forall>a\<in>set (wa_advisories w). flagged (feature_advisories m) f a)) \<and>
    (\<forall>f\<in>set (oci_features sets). \<forall>a. flagged (feature_advisories m) f a \<longrightarrow>
       (\<exists>w\<in>set rs. wa_feature_id w = vf_id f \<and> wa_version w = vf_version f \<and> a \<in> set (wa_advisories w)))"
proof (cases "feature_advisories m = []")
  case True
  then show ?thesis using assms by (auto simp: find_feature_advisories_def flagged_applies)
next
  case False
  define fs where "fs = stable_sort (\<lambda>a b. str_compare (vf_id a) (vf_id b)) (oci_features sets)"
  have rs: "rs = fst (advisories_of (feature_advisories m) fs)"
    using assms False by (simp add: find_feature_advisories_def fs_def)
  have set_fs: "set fs = set (oci_features sets)" by (simp add: fs_def)
  have "sorted (map wa_feature_id rs)"
    unfolding rs by (intro sorted_advisories) (simp add: fs_def sorted_stable_sort)
  moreover have "\<exists>f\<in>set (oci_features sets). wa_feature_id w = vf_id f \<and> wa_version w = vf_version f \<and>
      wa_advisories w \<noteq> [] \<and> (\<forall>a\<in>set (wa_advisories w). flagged (feature_advisories m) f a)" if "w \<in> set rs" for w
    using that unfolding rs advisories_of_spec set_fs by (fastforce simp: flagged_applies)
  moreover have "\<exists>w\<in>set rs. wa_feature_id w = vf_id f \<and> wa_version w = vf_version f \<and> a \<in> set (wa_advisories w)"
    if "f \<in> set (oci_features sets)" "flagged (feature_advisories m) f a" for f a
    using flagged_reported [of f fs] that set_fs unfolding rs by blast
  ultimately show ?thesis by blast
qed

text \<open>C22. Exactly the advisories that apply are reported: those for the Feature's id whose introduced version is
  not later than the Feature's and whose fixed version is strictly later, versions being compared
  lexicographically without their trailing zeros, for every OCI Feature with a readable version, and
  in the order of the ids; nothing else is reported.\<close>

theorem advisories_exact:
  "(let rs = fst (find_feature_advisories m sets) in
    sorted (map wa_feature_id rs) \<and>
    (\<forall>w\<in>set rs. \<exists>f\<in>set (oci_features sets). wa_feature_id w = vf_id f \<and> wa_version w = vf_version f \<and>
       wa_advisories w \<noteq> [] \<and> (\<forall>a\<in>set (wa_advisories w). flagged (feature_advisories m) f a)) \<and>
    (\<forall>f\<in>set (oci_features sets). \<forall>a. flagged (feature_advisories m) f a \<longrightarrow>
       (\<exists>w\<in>set rs. wa_feature_id w = vf_id f \<and> wa_version w = vf_version f \<and> a \<in> set (wa_advisories w))))"
  using advisories_exact_rs [of m sets "fst (find_feature_advisories m sets)" "snd (find_feature_advisories m sets)"]
  unfolding Let_def by simp

theorem advisories_exact_witness:
  "\<exists>w\<in>set (fst (find_feature_advisories sample_manifest sample_oci_sets)). wa_feature_id w = ''g/n/f''"
proof -
  have "flagged (feature_advisories sample_manifest) \<lparr>vf_id = ''g/n/f'', vf_version = ''v1.1''\<rparr>
      (hd (feature_advisories sample_manifest))"
    "\<lparr>vf_id = ''g/n/f'', vf_version = ''v1.1''\<rparr> \<in> set (oci_features sample_oci_sets)"
  proof -
    have "parse_version ''v1.1'' = Some [1, 1]" "advisory_applies [1, 1] (hd (feature_advisories sample_manifest))"
      by code_simp+
    then show "flagged (feature_advisories sample_manifest) \<lparr>vf_id = ''g/n/f'', vf_version = ''v1.1''\<rparr>
        (hd (feature_advisories sample_manifest))"
      by (simp add: flagged_applies sample_manifest_def)
    show "\<lparr>vf_id = ''g/n/f'', vf_version = ''v1.1''\<rparr> \<in> set (oci_features sample_oci_sets)"
      by (simp add: oci_features_def sample_oci_sets_def)
  qed
  then show ?thesis using advisories_exact [of sample_manifest sample_oci_sets]
    unfolding Let_def by (metis versioned_feature.select_convs(1))
qed

text \<open>The bounds: the introducing version is reported, the fixing one is not, however many zeros follow.\<close>

lemma flagged_bounds:
  "flagged advs f a \<Longrightarrow> vf_version f \<noteq> fixed_in_version a"
  "\<not> flagged (feature_advisories sample_manifest) \<lparr>vf_id = ''g/n/f'', vf_version = ''1.2.0''\<rparr>
     (hd (feature_advisories sample_manifest))"
  "flagged (feature_advisories sample_manifest) \<lparr>vf_id = ''g/n/f'', vf_version = ''1.0''\<rparr>
     (hd (feature_advisories sample_manifest))"
proof -
  have "\<not> lex_less v v" for v by (induction v) auto
  then show "flagged advs f a \<Longrightarrow> vf_version f \<noteq> fixed_in_version a" by (auto simp: flagged_def)
  have "parse_version ''1.2.0'' = Some [1, 2, 0]" "\<not> advisory_applies [1, 2, 0] (hd (feature_advisories sample_manifest))"
    by code_simp+
  then show "\<not> flagged (feature_advisories sample_manifest) \<lparr>vf_id = ''g/n/f'', vf_version = ''1.2.0''\<rparr>
      (hd (feature_advisories sample_manifest))"
    by (simp add: flagged_applies)
  have "parse_version ''1.0'' = Some [1, 0]" "advisory_applies [1, 0] (hd (feature_advisories sample_manifest))"
    by code_simp+
  then show "flagged (feature_advisories sample_manifest) \<lparr>vf_id = ''g/n/f'', vf_version = ''1.0''\<rparr>
      (hd (feature_advisories sample_manifest))"
    by (simp add: flagged_applies sample_manifest_def)
qed

subsection \<open>Which Features are blocked\<close>

text \<open>An entry blocks the id equal to its prefix, and those that go on after it with a separator.\<close>

definition blocks :: "disallowed_feature \<Rightarrow> string \<Rightarrow> bool" where
  "blocks d i \<longleftrightarrow> i = feature_id_prefix d \<or> (\<exists>c r. i = feature_id_prefix d @ c # r \<and> c \<in> set ''/:@'')"

lemma blocks_iff:
  "(let p = feature_id_prefix d in has_prefix i p \<and> (length i = length p \<or> i ! length p \<in> set ''/:@'')) \<longleftrightarrow>
   blocks d i"
proof -
  have "(\<exists>r. i = feature_id_prefix d @ r \<and> (r = [] \<or> i ! length (feature_id_prefix d) \<in> set ''/:@'')) \<longleftrightarrow> blocks d i"
  proof
    assume "\<exists>r. i = feature_id_prefix d @ r \<and> (r = [] \<or> i ! length (feature_id_prefix d) \<in> set ''/:@'')"
    then obtain r where "i = feature_id_prefix d @ r" "r = [] \<or> i ! length (feature_id_prefix d) \<in> set ''/:@''" by blast
    then show "blocks d i" by (cases r) (auto simp: blocks_def nth_append)
  qed (auto simp: blocks_def nth_append)
  then show ?thesis by (auto simp: Let_def has_prefix_iff)
qed


lemma find_disallowed_blocks:
  "find_disallowed_feature_entry m i = find (\<lambda>d. blocks d i) (disallowed_features m)"
  unfolding find_disallowed_feature_entry_def blocks_iff by (rule refl)

text \<open>C21. The blocklist lets a configuration through exactly when no entry blocks any of its Features; otherwise it
  names the first blocked Feature in order and the first entry that blocks it. An entry \<open>foo\<close>
  blocks \<open>foo\<close>, \<open>foo/x\<close>, \<open>foo:1\<close> and \<open>foo@d\<close> but not \<open>foobar\<close>.\<close>

theorem blocklist_exact:
  "ensure_no_disallowed_features m is =
     (case find (\<lambda>i. \<exists>d\<in>set (disallowed_features m). blocks d i) is of
        None \<Rightarrow> Inr ()
      | Some i \<Rightarrow> Inl (DisallowedFeatureError i
          (dis_documentation_url (the (find (\<lambda>d. blocks d i) (disallowed_features m))))))"
proof (induction "is")
  case (Cons i "is")
  show ?case
  proof (cases "find (\<lambda>d. blocks d i) (disallowed_features m)")
    case None
    then have "\<not> (\<exists>d\<in>set (disallowed_features m). blocks d i)" by (auto simp: find_None_iff)
    then show ?thesis using Cons None by (simp add: find_disallowed_blocks)
  next
    case (Some d)
    then have "\<exists>d\<in>set (disallowed_features m). blocks d i"
      by (metis (no_types, lifting) find_Some_iff nth_mem)
    then show ?thesis using Some by (simp add: find_disallowed_blocks)
  qed
qed simp

subsection \<open>The cache\<close>

text \<open>The control manifest never fails the command: a readable fresh cache is used as it is and left alone;
  without a fetch a readable stale cache is used and its time renewed; a failed fetch without a
  readable cache gives the empty manifest, and caches it when the cache can be written, so that
  the next five minutes do not fetch again.\<close>

theorem control_manifest_cache:
  assumes "cached_manifest decode (Some c) = Some m" and "cached_manifest decode unreadable = None"
    and "decode empty_manifest_text = Some (JObj [(''disallowedFeatures'', JArr []), (''featureAdvisories'', JArr [])])"
  shows "(is_fresh c \<longrightarrow> get_control_manifest decode w f (Some c) = (m, Some c)) \<and>
    (\<not> is_fresh c \<longrightarrow> get_control_manifest decode True None (Some c) = (m, Some (c\<lparr>is_fresh := True\<rparr>))) \<and>
    get_control_manifest decode True None unreadable =
      (empty_manifest, Some \<lparr>is_fresh = True, contents = Some empty_manifest_text\<rparr>)"
proof -
  have "sanitize_manifest (decode empty_manifest_text) = Some empty_manifest"
    unfolding assms(3) by (simp add: sanitize_manifest_def member_def manifest_entries_def empty_manifest_def)
  then show ?thesis using assms(1,2)
    by (auto simp: get_control_manifest_def Let_def split: option.splits)
qed

definition sample_decode :: "string \<Rightarrow> json option" where
  "sample_decode b = (if b = empty_manifest_text
     then Some (JObj [(''disallowedFeatures'', JArr []), (''featureAdvisories'', JArr [])])
     else if b = ''M'' then Some (JObj [(''disallowedFeatures'', JArr [JObj [(''featureIdPrefix'', JStr ''bad'')], JNull])])
     else None)"

theorem control_manifest_cache_witness:
  "get_control_manifest sample_decode True None (Some \<lparr>is_fresh = False, contents = Some ''M''\<rparr>) =
     (\<lparr>disallowed_features = [\<lparr>feature_id_prefix = ''bad'', dis_documentation_url = []\<rparr>], feature_advisories = []\<rparr>,
      Some \<lparr>is_fresh = True, contents = Some ''M''\<rparr>)"
proof -
  have "cached_manifest sample_decode (Some \<lparr>is_fresh = False, contents = Some ''M''\<rparr>) =
      Some \<lparr>disallowed_features = [\<lparr>feature_id_prefix = ''bad'', dis_documentation_url = []\<rparr>], feature_advisories = []\<rparr>"
    by code_simp
  then show ?thesis
    using control_manifest_cache [of sample_decode "\<lparr>is_fresh = False, contents = Some ''M''\<rparr>" _ None]
    by (simp add: cached_manifest_def sample_decode_def)
qed

end
