(* ===== verification/V8Json.thy ===== *)
theory V8Json
  imports GoUtf GoNumbers Prelude
begin

text \<open>
  \<open>internal/features/v8json.go\<close>: the syntax check of a lockfile, a port of V8's \<open>JSON.parse\<close> over
  UTF-16 code units. The parser's position is the suffix of the source still to be read. A
  failure carries the token and message template it is reported with and that suffix, of which
  \<open>v8_message\<close> makes the text. The recursion through nested values takes fuel; \<open>v8_fuel\<close>
  shows that twice the length of the source is enough.
\<close>

type_synonym units = "nat list"

datatype json_token =
    TokIllegal | TokEOS | TokString | TokNumber | TokTrue | TokFalse | TokNull | TokWhitespace
  | TokColon | TokComma | TokLBrack | TokRBrack | TokLBrace | TokRBrace

definition digit_unit :: "nat \<Rightarrow> bool" where
  "digit_unit c \<longleftrightarrow> 48 \<le> c \<and> c \<le> 57"

definition token_of :: "nat \<Rightarrow> json_token" where
  "token_of c =
     (if c = 34 then TokString
      else if c = 45 \<or> digit_unit c then TokNumber
      else if c = 32 \<or> c = 9 \<or> c = 13 \<or> c = 10 then TokWhitespace
      else if c = 116 then TokTrue else if c = 102 then TokFalse else if c = 110 then TokNull
      else if c = 58 then TokColon else if c = 44 then TokComma
      else if c = 91 then TokLBrack else if c = 93 then TokRBrack
      else if c = 123 then TokLBrace else if c = 125 then TokRBrace else TokIllegal)"

text \<open>The message templates; \<open>NoMsg\<close> is the empty one, for the token's own message.\<close>

datatype v8_msg =
    NoMsg | PropNameOrRBrace | DoubleQuotedPropName | ColonAfterPropName | CommaOrRBrace | CommaOrRBrack
  | NonWhitespaceAfterJSON | UnterminatedString | BadControlCharacter | BadEscapedCharacter
  | BadUnicodeEscape | NoNumberAfterMinus | UnterminatedFraction | ExponentMissingNumber
  | UnexpectedNumber | UnexpectedString

fun msg_text :: "v8_msg \<Rightarrow> string" where
  "msg_text NoMsg = []"
| "msg_text PropNameOrRBrace = ''Expected property name or '' @ sq @ [CHR 0x7D] @ sq @ '' in JSON''"
| "msg_text DoubleQuotedPropName = ''Expected double-quoted property name in JSON''"
| "msg_text ColonAfterPropName = ''Expected '' @ sq @ '':'' @ sq @ '' after property name in JSON''"
| "msg_text CommaOrRBrace =
     ''Expected '' @ sq @ '','' @ sq @ '' or '' @ sq @ [CHR 0x7D] @ sq @ '' after property value in JSON''"
| "msg_text CommaOrRBrack =
     ''Expected '' @ sq @ '','' @ sq @ '' or '' @ sq @ '']'' @ sq @ '' after array element in JSON''"
| "msg_text NonWhitespaceAfterJSON = ''Unexpected non-whitespace character after JSON''"
| "msg_text UnterminatedString = ''Unterminated string in JSON''"
| "msg_text BadControlCharacter = ''Bad control character in string literal in JSON''"
| "msg_text BadEscapedCharacter = ''Bad escaped character in JSON''"
| "msg_text BadUnicodeEscape = ''Bad Unicode escape in JSON''"
| "msg_text NoNumberAfterMinus = ''No number after minus sign in JSON''"
| "msg_text UnterminatedFraction = ''Unterminated fractional number in JSON''"
| "msg_text ExponentMissingNumber = ''Exponent part is missing a number in JSON''"
| "msg_text UnexpectedNumber = ''Unexpected number in JSON''"
| "msg_text UnexpectedString = ''Unexpected string in JSON''"

subsection \<open>Reports\<close>

datatype v8_report = Report json_token v8_msg units

text \<open>The 1-based line and column of a position; \<open>prev\<close> is the unit before.\<close>

fun location_loop :: "nat option \<Rightarrow> nat \<Rightarrow> nat \<Rightarrow> nat \<Rightarrow> units \<Rightarrow> nat \<times> nat" where
  "location_loop prev line start i [] = (line, i - start + 1)"
| "location_loop prev line start i (c # cs) =
     (if c = 13 then location_loop (Some c) (line + 1) (i + 1) (i + 1) cs
      else if c = 10 then location_loop (Some c) (if prev = Some 13 then line else line + 1) (i + 1) (i + 1) cs
      else location_loop (Some c) line start (i + 1) cs)"

definition location :: "units \<Rightarrow> nat \<Rightarrow> nat \<times> nat" where
  "location s pos = location_loop None 1 0 0 (take pos s)"

definition unit_text :: "units \<Rightarrow> nat \<Rightarrow> nat \<Rightarrow> string" where
  "unit_text s lo hi = of_runes (utf16_decode (take (hi - lo) (drop lo s)))"

definition v8_context :: nat where "v8_context = 10"

definition unexpected_token :: "units \<Rightarrow> nat \<Rightarrow> string" where
  "unexpected_token s pos =
     (let src = unit_text s 0 (length s) in
      if src \<in> {''NaN'', ''Infinity'', ''undefined'', ''[object Object]''}
      then dq @ src @ dq @ '' is not valid JSON''
      else (let head = ''Unexpected token '' @ sq @ unit_text s pos (pos + 1) @ sq @ '', ''; n = length s in
        if n < 2 * v8_context + 1 then head @ dq @ src @ dq @ '' is not valid JSON''
        else if pos < v8_context then head @ dq @ unit_text s 0 (pos + v8_context) @ dq @ ''... is not valid JSON''
        else if pos < n - v8_context
        then head @ ''...'' @ dq @ unit_text s (pos - v8_context) (pos + v8_context) @ dq @ ''... is not valid JSON''
        else head @ ''...'' @ dq @ unit_text s (pos - v8_context) n @ dq @ '' is not valid JSON''))"

definition positioned :: "units \<Rightarrow> nat \<Rightarrow> v8_msg \<Rightarrow> string" where
  "positioned s pos m = (case location s pos of (line, column) \<Rightarrow>
     msg_text m @ '' at position '' @ nat_text pos @ '' (line '' @ nat_text line @ '' column '' @ nat_text column @ '')'')"

definition v8_message :: "units \<Rightarrow> v8_report \<Rightarrow> string" where
  "v8_message s r = (case r of Report t m rest \<Rightarrow>
     (let pos = length s - length rest in
      if m \<noteq> NoMsg then positioned s pos m
      else if t = TokEOS then ''Unexpected end of JSON input''
      else if t = TokNumber then positioned s pos UnexpectedNumber
      else if t = TokString then positioned s pos UnexpectedString
      else unexpected_token s pos))"

subsection \<open>The parser\<close>

type_synonym v8_res = "(v8_report, units) res"

definition skip_ws :: "units \<Rightarrow> units" where
  "skip_ws r = dropWhile (\<lambda>c. token_of c = TokWhitespace) r"

definition peek :: "units \<Rightarrow> json_token" where
  "peek r = (case skip_ws r of [] \<Rightarrow> TokEOS | c # _ \<Rightarrow> token_of c)"

definition check_tok :: "json_token \<Rightarrow> units \<Rightarrow> units option" where
  "check_tok t r = (if peek r = t then Some (tl (skip_ws r)) else None)"

definition expect :: "json_token \<Rightarrow> v8_msg \<Rightarrow> units \<Rightarrow> v8_res" where
  "expect t m r = (case check_tok t r of Some r' \<Rightarrow> Inr r' | None \<Rightarrow> Inl (Report (peek r) m (skip_ws r)))"

definition unexpected_character :: "units \<Rightarrow> v8_report" where
  "unexpected_character r = (case r of [] \<Rightarrow> Report TokEOS NoMsg [] | c # _ \<Rightarrow> Report (token_of c) NoMsg r)"

text \<open>The rest of a literal after its first character.\<close>

fun literal :: "units \<Rightarrow> units \<Rightarrow> v8_res" where
  "literal [] r = Inr r"
| "literal (w # ws) [] = Inl (Report TokEOS NoMsg [])"
| "literal (w # ws) (c # r) = (if c = w then literal ws r else Inl (unexpected_character (c # r)))"

definition hex_unit :: "nat \<Rightarrow> bool" where
  "hex_unit c \<longleftrightarrow> digit_unit c \<or> 97 \<le> c \<and> c \<le> 102 \<or> 65 \<le> c \<and> c \<le> 70"

fun hex_run :: "nat \<Rightarrow> units \<Rightarrow> v8_res" where
  "hex_run 0 r = Inr r"
| "hex_run (Suc n) [] = Inl (Report TokIllegal BadUnicodeEscape [])"
| "hex_run (Suc n) (c # r) = (if hex_unit c then hex_run n r else Inl (Report TokIllegal BadUnicodeEscape (c # r)))"

text \<open>From after the backslash to after the escape.\<close>

definition escape :: "units \<Rightarrow> v8_res" where
  "escape r = (case r of
       [] \<Rightarrow> Inl (unexpected_character [])
     | c # r' \<Rightarrow>
         if c > 0xFF then Inl (unexpected_character r)
         else if c \<in> {34, 92, 47, 98, 102, 110, 114, 116} then Inr r'
         else if c = 117 then hex_run 4 r'
         else Inl (Report TokIllegal BadEscapedCharacter r))"

lemma hex_run_length: "hex_run n r = Inr r' \<Longrightarrow> length r' \<le> length r"
  by (induction n r rule: hex_run.induct) (auto split: if_splits)

lemma escape_length: "escape r = Inr r' \<Longrightarrow> length r' < length r"
  by (auto simp: escape_def split: list.splits if_splits dest: hex_run_length)

function scan_string :: "units \<Rightarrow> v8_res" where
  "scan_string [] = Inl (Report TokIllegal UnterminatedString [])"
| "scan_string (c # r) =
     (if c = 34 then Inr r
      else if c = 92 then (case escape r of Inl e \<Rightarrow> Inl e | Inr r' \<Rightarrow> scan_string r')
      else if c < 0x20 then Inl (Report TokIllegal BadControlCharacter (c # r))
      else scan_string r)"
  by pat_completeness auto
termination
  by (relation "measure length") (auto dest: escape_length)

definition at_unit :: "nat \<Rightarrow> units \<Rightarrow> bool" where
  "at_unit c r \<longleftrightarrow> r \<noteq> [] \<and> hd r = c"

text \<open>A run of digits, which must not be empty.\<close>

definition digits :: "v8_msg \<Rightarrow> units \<Rightarrow> v8_res" where
  "digits m r = (if r \<noteq> [] \<and> digit_unit (hd r) then Inr (dropWhile digit_unit r) else Inl (Report TokIllegal m r))"

definition number_int :: "units \<Rightarrow> v8_res" where
  "number_int r =
     (let r1 = (if at_unit 45 r then tl r else r) in
      if at_unit 48 r1
      then (if tl r1 \<noteq> [] \<and> digit_unit (hd (tl r1)) then Inl (Report TokNumber NoMsg (tl r1)) else Inr (tl r1))
      else digits NoNumberAfterMinus r1)"

definition number_frac :: "units \<Rightarrow> v8_res" where
  "number_frac r = (if at_unit 46 r then digits UnterminatedFraction (tl r) else Inr r)"

definition number_exp :: "units \<Rightarrow> v8_res" where
  "number_exp r =
     (if at_unit 101 r \<or> at_unit 69 r
      then (let r1 = tl r; r2 = (if at_unit 45 r1 \<or> at_unit 43 r1 then tl r1 else r1)
            in digits ExponentMissingNumber r2)
      else Inr r)"

definition number :: "units \<Rightarrow> v8_res" where
  "number r = bind_res (number_int r) (\<lambda>r1. bind_res (number_frac r1) number_exp)"

definition property :: "v8_msg \<Rightarrow> units \<Rightarrow> v8_res" where
  "property missing r = bind_res (expect TokString missing r) (\<lambda>r1.
     bind_res (scan_string r1) (expect TokColon ColonAfterPropName))"

text \<open>\<open>None\<close> is fuel run out.\<close>

fun v8_value :: "nat \<Rightarrow> units \<Rightarrow> v8_res option"
  and v8_members :: "nat \<Rightarrow> units \<Rightarrow> v8_res option"
  and v8_elements :: "nat \<Rightarrow> units \<Rightarrow> v8_res option" where
  "v8_value 0 r = None"
| "v8_value (Suc n) r =
     (let t = peek r; s = skip_ws r in
      if t = TokString then Some (scan_string (tl s))
      else if t = TokNumber then Some (number s)
      else if t = TokLBrace then
        (case check_tok TokRBrace (tl s) of
           Some r' \<Rightarrow> Some (Inr r')
         | None \<Rightarrow> (case property PropNameOrRBrace (tl s) of
             Inl e \<Rightarrow> Some (Inl e) | Inr r' \<Rightarrow> v8_members n r'))
      else if t = TokLBrack then
        (case check_tok TokRBrack (tl s) of Some r' \<Rightarrow> Some (Inr r') | None \<Rightarrow> v8_elements n (tl s))
      else if t = TokTrue then Some (literal [114, 117, 101] (tl s))
      else if t = TokFalse then Some (literal [97, 108, 115, 101] (tl s))
      else if t = TokNull then Some (literal [117, 108, 108] (tl s))
      else Some (Inl (unexpected_character s)))"
| "v8_members 0 r = None"
| "v8_members (Suc n) r =
     (case v8_value n r of
        None \<Rightarrow> None
      | Some (Inl e) \<Rightarrow> Some (Inl e)
      | Some (Inr r1) \<Rightarrow>
          (case check_tok TokComma r1 of
             None \<Rightarrow> Some (expect TokRBrace CommaOrRBrace r1)
           | Some r2 \<Rightarrow> (case property DoubleQuotedPropName r2 of
               Inl e \<Rightarrow> Some (Inl e) | Inr r3 \<Rightarrow> v8_members n r3)))"
| "v8_elements 0 r = None"
| "v8_elements (Suc n) r =
     (case v8_value n r of
        None \<Rightarrow> None
      | Some (Inl e) \<Rightarrow> Some (Inl e)
      | Some (Inr r1) \<Rightarrow>
          (case check_tok TokComma r1 of
             None \<Rightarrow> Some (expect TokRBrack CommaOrRBrack r1)
           | Some r2 \<Rightarrow> v8_elements n r2))"

definition v8_parse :: "units \<Rightarrow> v8_report option option" where
  "v8_parse s =
     (case v8_value (2 * length s + 1) s of
        None \<Rightarrow> None
      | Some (Inl e) \<Rightarrow> Some (Some e)
      | Some (Inr r) \<Rightarrow> Some (if peek r = TokEOS then None
                               else Some (Report (peek r) NonWhitespaceAfterJSON (skip_ws r))))"

text \<open>\<open>v8JSONSyntaxError\<close>: the message, empty for valid JSON.\<close>

definition v8_json_syntax_error :: "string \<Rightarrow> string" where
  "v8_json_syntax_error src =
     (let s = utf16_encode (runes src) in
      case v8_parse s of Some (Some r) \<Rightarrow> v8_message s r | _ \<Rightarrow> [])"

subsection \<open>The grammar\<close>

text \<open>
  The grammar of JSON over code units, after RFC 8259: a value with the whitespace before it, the
  members of an object from the first value on with the closing brace, the elements of an array
  with the closing bracket.
\<close>

definition ws_run :: "units \<Rightarrow> bool" where
  "ws_run w \<longleftrightarrow> (\<forall>c\<in>set w. token_of c = TokWhitespace)"

inductive str_body :: "units \<Rightarrow> bool" where
  str_nil: "str_body []"
| str_plain: "0x20 \<le> c \<Longrightarrow> c \<noteq> 34 \<Longrightarrow> c \<noteq> 92 \<Longrightarrow> str_body b \<Longrightarrow> str_body (c # b)"
| str_short: "c \<in> {34, 92, 47, 98, 102, 110, 114, 116} \<Longrightarrow> str_body b \<Longrightarrow> str_body (92 # c # b)"
| str_hex: "length h = 4 \<Longrightarrow> (\<forall>c\<in>set h. hex_unit c) \<Longrightarrow> str_body b \<Longrightarrow> str_body (92 # 117 # h @ b)"

definition digit_run :: "units \<Rightarrow> bool" where
  "digit_run d \<longleftrightarrow> d \<noteq> [] \<and> (\<forall>c\<in>set d. digit_unit c)"

definition json_number :: "units \<Rightarrow> bool" where
  "json_number x \<longleftrightarrow> (\<exists>s i f e. x = s @ i @ f @ e \<and> s \<in> {[], [45]}
     \<and> (i = [48] \<or> digit_run i \<and> hd i \<noteq> 48)
     \<and> (f = [] \<or> (\<exists>d. f = 46 # d \<and> digit_run d))
     \<and> (e = [] \<or> (\<exists>c g d. e = c # g @ d \<and> c \<in> {101, 69} \<and> g \<in> {[], [43], [45]} \<and> digit_run d)))"

definition json_key :: "units \<Rightarrow> bool" where
  "json_key k \<longleftrightarrow> (\<exists>w b w'. k = w @ 34 # b @ 34 # w' @ [58] \<and> ws_run w \<and> str_body b \<and> ws_run w')"

definition json_words :: "units set" where
  "json_words = {[116, 114, 117, 101], [102, 97, 108, 115, 101], [110, 117, 108, 108]}"

inductive json_value :: "units \<Rightarrow> bool" and json_members :: "units \<Rightarrow> bool" and json_elements :: "units \<Rightarrow> bool" where
  jv_string: "ws_run w \<Longrightarrow> str_body b \<Longrightarrow> json_value (w @ 34 # b @ [34])"
| jv_number: "ws_run w \<Longrightarrow> json_number x \<Longrightarrow> json_value (w @ x)"
| jv_word: "ws_run w \<Longrightarrow> x \<in> json_words \<Longrightarrow> json_value (w @ x)"
| jv_empty_object: "ws_run w \<Longrightarrow> ws_run w' \<Longrightarrow> json_value (w @ 123 # w' @ [125])"
| jv_object: "ws_run w \<Longrightarrow> json_key k \<Longrightarrow> json_members m \<Longrightarrow> json_value (w @ 123 # k @ m)"
| jv_empty_array: "ws_run w \<Longrightarrow> ws_run w' \<Longrightarrow> json_value (w @ 91 # w' @ [93])"
| jv_array: "ws_run w \<Longrightarrow> json_elements e \<Longrightarrow> json_value (w @ 91 # e)"
| jm_last: "json_value v \<Longrightarrow> ws_run w \<Longrightarrow> json_members (v @ w @ [125])"
| jm_more: "json_value v \<Longrightarrow> ws_run w \<Longrightarrow> json_key k \<Longrightarrow> json_members m \<Longrightarrow> json_members (v @ w @ 44 # k @ m)"
| je_last: "json_value v \<Longrightarrow> ws_run w \<Longrightarrow> json_elements (v @ w @ [93])"
| je_more: "json_value v \<Longrightarrow> ws_run w \<Longrightarrow> json_elements e \<Longrightarrow> json_elements (v @ w @ 44 # e)"

subsection \<open>What the scanners consume\<close>

lemma ws_run_simps [simp]: "ws_run []" "ws_run (c # w) \<longleftrightarrow> token_of c = TokWhitespace \<and> ws_run w"
  by (auto simp: ws_run_def)

lemma skip_ws_split: obtains w where "r = w @ skip_ws r" "ws_run w"
proof
  show "r = takeWhile (\<lambda>c. token_of c = TokWhitespace) r @ skip_ws r" by (simp add: skip_ws_def)
  show "ws_run (takeWhile (\<lambda>c. token_of c = TokWhitespace) r)" by (auto simp: ws_run_def dest: set_takeWhileD)
qed

lemma skip_ws_run [simp]: "ws_run w \<Longrightarrow> skip_ws (w @ r) = skip_ws r"
  by (induction w) (auto simp: skip_ws_def)

lemma peek_run [simp]: "ws_run w \<Longrightarrow> peek (w @ r) = peek r"
  by (simp add: peek_def)

lemma skip_ws_cons [simp]: "token_of c \<noteq> TokWhitespace \<Longrightarrow> skip_ws (c # r) = c # r"
  by (simp add: skip_ws_def)

lemma peek_cons [simp]: "token_of c \<noteq> TokWhitespace \<Longrightarrow> peek (c # r) = token_of c"
  by (simp add: peek_def)

lemma skip_ws_nil [simp]: "skip_ws [] = []" "peek [] = TokEOS"
  by (simp_all add: skip_ws_def peek_def)

lemma peek_eos: "peek r = TokEOS \<longleftrightarrow> ws_run r"
proof -
  have t: "token_of c \<noteq> TokEOS" for c by (auto simp: token_of_def)
  show ?thesis by (induction r) (auto simp: peek_def skip_ws_def t split: list.splits)
qed

lemma token_of_inv:
  "token_of c = TokString \<longleftrightarrow> c = 34" "token_of c = TokLBrace \<longleftrightarrow> c = 123" "token_of c = TokRBrace \<longleftrightarrow> c = 125"
  "token_of c = TokLBrack \<longleftrightarrow> c = 91" "token_of c = TokRBrack \<longleftrightarrow> c = 93" "token_of c = TokComma \<longleftrightarrow> c = 44"
  "token_of c = TokColon \<longleftrightarrow> c = 58" "token_of c = TokTrue \<longleftrightarrow> c = 116" "token_of c = TokFalse \<longleftrightarrow> c = 102"
  "token_of c = TokNull \<longleftrightarrow> c = 110" "token_of c = TokNumber \<longleftrightarrow> c = 45 \<or> digit_unit c" "token_of c \<noteq> TokEOS"
  by (auto simp: token_of_def digit_unit_def)

lemma token_of_concrete [simp]:
  "token_of 34 = TokString" "token_of 123 = TokLBrace" "token_of 125 = TokRBrace" "token_of 91 = TokLBrack"
  "token_of 93 = TokRBrack" "token_of 44 = TokComma" "token_of 58 = TokColon" "token_of 116 = TokTrue"
  "token_of 102 = TokFalse" "token_of 110 = TokNull" "token_of 45 = TokNumber"
  by (simp_all add: token_of_inv)

lemma peek_tokD:
  assumes "peek r = t" "t \<noteq> TokEOS"
  obtains w c r' where "r = w @ c # r'" "ws_run w" "token_of c = t" "skip_ws r = c # r'"
proof -
  obtain w where w: "r = w @ skip_ws r" "ws_run w" by (rule skip_ws_split)
  show thesis
  proof (cases "skip_ws r")
    case Nil
    then show thesis using assms by (simp add: peek_def)
  next
    case (Cons c r')
    then show thesis using assms w that by (auto simp: peek_def)
  qed
qed

lemma check_tokD:
  assumes "check_tok t r = Some r'" "t \<noteq> TokEOS"
  obtains w c where "r = w @ c # r'" "ws_run w" "token_of c = t"
proof -
  have p: "peek r = t" "r' = tl (skip_ws r)" using assms(1) by (auto simp: check_tok_def split: if_splits)
  show thesis by (rule peek_tokD [OF p(1) assms(2)]) (use p(2) that in auto)
qed

lemma check_tok_run [simp]:
  "ws_run w \<Longrightarrow> check_tok t (w @ r) = check_tok t r"
  by (simp add: check_tok_def)

lemma check_tok_cons [simp]:
  "token_of c \<noteq> TokWhitespace \<Longrightarrow> check_tok t (c # r) = (if token_of c = t then Some r else None)"
  by (simp add: check_tok_def del: skip_ws_cons) (simp add: skip_ws_def)

lemma expect_Inr: "expect t m r = Inr r' \<longleftrightarrow> check_tok t r = Some r'"
  by (simp add: expect_def split: option.splits)

lemma literal_Inr: "literal ws r = Inr r' \<longleftrightarrow> r = ws @ r'"
  by (induction ws r rule: literal.induct) auto

lemma hex_run_Inr: "hex_run n r = Inr r' \<longleftrightarrow> (\<exists>h. r = h @ r' \<and> length h = n \<and> (\<forall>c\<in>set h. hex_unit c))"
proof (induction n r rule: hex_run.induct)
  case (3 n c r)
  show ?case
  proof
    assume "hex_run (Suc n) (c # r) = Inr r'"
    then obtain h where "r = h @ r' \<and> length h = n \<and> (\<forall>c\<in>set h. hex_unit c)" "hex_unit c"
      using 3 by (auto split: if_splits)
    then show "\<exists>h. c # r = h @ r' \<and> length h = Suc n \<and> (\<forall>c\<in>set h. hex_unit c)"
      by (intro exI [of _ "c # h"]) auto
  next
    assume "\<exists>h. c # r = h @ r' \<and> length h = Suc n \<and> (\<forall>c\<in>set h. hex_unit c)"
    then show "hex_run (Suc n) (c # r) = Inr r'"
      using 3 by (auto simp: length_Suc_conv)
  qed
qed auto

definition no_digit :: "units \<Rightarrow> bool" where
  "no_digit r \<longleftrightarrow> r = [] \<or> \<not> digit_unit (hd r)"

lemma digits_Inr: "digits m r = Inr r' \<longleftrightarrow> (\<exists>d. r = d @ r' \<and> digit_run d \<and> no_digit r')"
proof
  assume "digits m r = Inr r'"
  then have r: "r \<noteq> []" "digit_unit (hd r)" "r' = dropWhile digit_unit r"
    by (auto simp: digits_def split: if_splits)
  have "no_digit r'" using r(3) hd_dropWhile [of digit_unit r] by (auto simp: no_digit_def)
  moreover have "digit_run (takeWhile digit_unit r)"
    using r(1,2) by (cases r) (auto simp: digit_run_def dest: set_takeWhileD)
  ultimately show "\<exists>d. r = d @ r' \<and> digit_run d \<and> no_digit r'"
    using r(3) by (intro exI [of _ "takeWhile digit_unit r"]) simp
next
  assume "\<exists>d. r = d @ r' \<and> digit_run d \<and> no_digit r'"
  then obtain d where d: "r = d @ r'" "digit_run d" "no_digit r'" by blast
  have "dropWhile digit_unit (d @ r') = r'"
    using d(2,3) by (cases r') (auto simp: digit_run_def no_digit_def)
  then show "digits m r = Inr r'" using d by (cases d) (auto simp: digits_def digit_run_def)
qed

lemma scan_string_sound: "scan_string r = Inr r' \<Longrightarrow> \<exists>b. r = b @ 34 # r' \<and> str_body b"
proof (induction r rule: scan_string.induct)
  case (2 c r)
  consider "c = 34" | "c = 92" | "c \<noteq> 34" "c \<noteq> 92" by blast
  then show ?case
  proof cases
    case 1
    then show ?thesis using 2(3) by (auto intro: str_nil)
  next
    case 2: 2
    then obtain e where e: "escape r = Inr e" "scan_string e = Inr r'"
      using "2.prems" by (auto split: sum.splits)
    then obtain b where b: "e = b @ 34 # r'" "str_body b" using "2.IH"(1) 2 by force
    from e(1) consider d where "r = d # e" "d \<in> {34, 92, 47, 98, 102, 110, 114, 116}"
      | r'' where "r = 117 # r''" "hex_run 4 r'' = Inr e"
      by (auto simp: escape_def split: list.splits if_splits)
    then show ?thesis
    proof cases
      case 1
      then show ?thesis using b 2 str_short [OF 1(2) b(2)] by auto
    next
      case h: 2
      then obtain h where h': "r'' = h @ e" "length h = 4" "\<forall>c\<in>set h. hex_unit c" by (auto simp: hex_run_Inr)
      then show ?thesis using b 2 h str_hex [OF h'(2,3) b(2)]
        by (intro exI [of _ "92 # 117 # h @ b"]) auto
    qed
  next
    case 3
    then have "0x20 \<le> c" "scan_string r = Inr r'" using "2.prems" by (auto split: if_splits)
    moreover then obtain b where "r = b @ 34 # r'" "str_body b" using "2.IH"(2) 3 by auto
    ultimately show ?thesis using 3 by (intro exI [of _ "c # b"]) (auto intro: str_plain)
  qed
qed simp

lemma hex_unit_bound: "hex_unit c \<Longrightarrow> c \<le> 0xFF"
  by (auto simp: hex_unit_def digit_unit_def)

lemma scan_string_complete: "str_body b \<Longrightarrow> scan_string (b @ 34 # r) = Inr r"
proof (induction rule: str_body.induct)
  case (str_short c b)
  then have "escape (c # b @ 34 # r) = Inr (b @ 34 # r)" by (auto simp: escape_def)
  then show ?case using str_short by simp
next
  case (str_hex h b)
  then have "hex_run 4 (h @ b @ 34 # r) = Inr (b @ 34 # r)" by (auto simp: hex_run_Inr)
  then have "escape (117 # h @ b @ 34 # r) = Inr (b @ 34 # r)" by (simp add: escape_def)
  then show ?case using str_hex by simp
qed auto

lemma property_Inr: "property m r = Inr r' \<longleftrightarrow> (\<exists>k. r = k @ r' \<and> json_key k)"
proof
  assume "property m r = Inr r'"
  then obtain r1 r2 where p: "check_tok TokString r = Some r1" "scan_string r1 = Inr r2" "check_tok TokColon r2 = Some r'"
    by (auto simp: property_def bind_res_Inr_iff expect_Inr)
  obtain w where w: "r = w @ 34 # r1" "ws_run w"
    by (rule check_tokD [OF p(1)]) (auto simp: token_of_inv)
  obtain w' where w': "r2 = w' @ 58 # r'" "ws_run w'"
    by (rule check_tokD [OF p(3)]) (auto simp: token_of_inv)
  obtain b where "r1 = b @ 34 # r2" "str_body b" using scan_string_sound [OF p(2)] by blast
  then show "\<exists>k. r = k @ r' \<and> json_key k" using w w' unfolding json_key_def
    by (intro exI [of _ "w @ 34 # b @ 34 # w' @ [58]"]) auto
next
  assume "\<exists>k. r = k @ r' \<and> json_key k"
  then obtain w b w' where "r = w @ 34 # b @ 34 # w' @ 58 # r'" "ws_run w" "str_body b" "ws_run w'"
    by (auto simp: json_key_def)
  then show "property m r = Inr r'"
    by (simp add: property_def bind_res_Inr_iff expect_Inr scan_string_complete)
qed

subsection \<open>Numbers\<close>

lemma at_unit_simps [simp]: "\<not> at_unit c []" "at_unit c (d # r) \<longleftrightarrow> d = c"
  by (simp_all add: at_unit_def)

lemma number_int_Inr:
  "number_int r = Inr r1 \<longleftrightarrow>
    (\<exists>s i. r = s @ i @ r1 \<and> s \<in> {[], [45]} \<and> (i = [48] \<or> digit_run i \<and> hd i \<noteq> 48) \<and> no_digit r1)"
  (is "_ \<longleftrightarrow> ?R")
proof
  assume n: "number_int r = Inr r1"
  define s where "s = (if at_unit 45 r then [45::nat] else [])"
  define t where "t = (if at_unit 45 r then tl r else r)"
  have st: "r = s @ t" "s \<in> {[], [45]}" by (cases r; simp add: s_def t_def)+
  have "\<exists>i. t = i @ r1 \<and> (i = [48] \<or> digit_run i \<and> hd i \<noteq> 48) \<and> no_digit r1"
  proof (cases "at_unit 48 t")
    case True
    then have "t = [48] @ r1 \<and> no_digit r1"
      using n by (cases t) (auto simp: number_int_def t_def [symmetric] Let_def no_digit_def split: if_splits)
    then show ?thesis by blast
  next
    case False
    then obtain d where "t = d @ r1" "digit_run d" "no_digit r1"
      using n by (auto simp: number_int_def t_def [symmetric] Let_def digits_Inr)
    then show ?thesis using False by (cases d) (auto simp: digit_run_def)
  qed
  then show ?R using st by auto
next
  assume ?R
  then obtain s i where r: "r = s @ i @ r1" "s \<in> {[], [45]}" "i = [48] \<or> digit_run i \<and> hd i \<noteq> 48" "no_digit r1" by blast
  have i: "i \<noteq> []" "digit_unit (hd i)" using r(3) by (cases i; auto simp: digit_run_def digit_unit_def)+
  then have h: "(if at_unit 45 r then tl r else r) = i @ r1"
    using r(1,2) by (cases i) (auto simp: digit_unit_def)
  show "number_int r = Inr r1"
  proof (cases "i = [48]")
    case True
    then show ?thesis using r(4) by (auto simp: number_int_def h no_digit_def Let_def)
  next
    case False
    then have "\<not> at_unit 48 (i @ r1)" "digits NoNumberAfterMinus (i @ r1) = Inr r1"
      using r i by (cases i; auto simp: digits_Inr)+
    then show ?thesis by (simp add: number_int_def h)
  qed
qed

lemma number_frac_Inr:
  "number_frac r = Inr r' \<longleftrightarrow> (r = r' \<and> \<not> at_unit 46 r \<or> (\<exists>d. r = 46 # d @ r' \<and> digit_run d \<and> no_digit r'))"
  by (cases r) (auto simp: number_frac_def digits_Inr)

lemma number_exp_Inr:
  "number_exp r = Inr r' \<longleftrightarrow>
    (r = r' \<and> \<not> at_unit 101 r \<and> \<not> at_unit 69 r
     \<or> (\<exists>c g d. r = c # g @ d @ r' \<and> c \<in> {101, 69} \<and> g \<in> {[], [43], [45]} \<and> digit_run d \<and> no_digit r'))"
  (is "_ \<longleftrightarrow> ?A \<or> ?B")
proof (cases "at_unit 101 r \<or> at_unit 69 r")
  case False
  then show ?thesis by (auto simp: number_exp_def)
next
  case True
  then obtain c r1 where r: "r = c # r1" "c \<in> {101, 69}" by (cases r) auto
  let ?r2 = "if at_unit 45 r1 \<or> at_unit 43 r1 then tl r1 else r1"
  have e: "number_exp r = digits ExponentMissingNumber ?r2" using True r by (simp add: number_exp_def Let_def)
  have "number_exp r = Inr r' \<longleftrightarrow> (\<exists>d. ?r2 = d @ r' \<and> digit_run d \<and> no_digit r')" by (simp only: e digits_Inr)
  also have "\<dots> \<longleftrightarrow> ?B"
  proof
    assume "\<exists>d. ?r2 = d @ r' \<and> digit_run d \<and> no_digit r'"
    then obtain d where d: "?r2 = d @ r'" "digit_run d" "no_digit r'" by blast
    define g where "g = (if at_unit 45 r1 \<or> at_unit 43 r1 then [hd r1] else [])"
    have "r1 = g @ ?r2" "g \<in> {[], [43], [45]}" by (cases r1; auto simp: g_def)+
    then show ?B using d r by (intro exI [of _ c] exI [of _ g] exI [of _ d]) auto
  next
    assume ?B
    then obtain g d where g: "r1 = g @ d @ r'" "g \<in> {[], [43], [45]}" "digit_run d" "no_digit r'" using r by auto
    then have "?r2 = d @ r'" by (cases d) (auto simp: digit_run_def digit_unit_def)
    then show "\<exists>d. ?r2 = d @ r' \<and> digit_run d \<and> no_digit r'" using g by blast
  qed
  finally show ?thesis using True by auto
qed

definition value_end :: "units \<Rightarrow> bool" where
  "value_end r \<longleftrightarrow> no_digit r \<and> \<not> at_unit 46 r \<and> \<not> at_unit 101 r \<and> \<not> at_unit 69 r"

lemma number_sound:
  assumes "number r = Inr r'"
  shows "\<exists>x. r = x @ r' \<and> json_number x"
proof -
  obtain r1 r2 where p: "number_int r = Inr r1" "number_frac r1 = Inr r2" "number_exp r2 = Inr r'"
    using assms by (auto simp: number_def bind_res_Inr_iff)
  obtain s i where si: "r = s @ i @ r1" "s \<in> {[], [45]}" "i = [48] \<or> digit_run i \<and> hd i \<noteq> 48"
    using p(1) unfolding number_int_Inr by blast
  obtain f where f: "r1 = f @ r2" "f = [] \<or> (\<exists>d. f = 46 # d \<and> digit_run d)"
    using p(2) by (auto simp: number_frac_Inr)
  obtain e where e: "r2 = e @ r'" "e = [] \<or> (\<exists>c g d. e = c # g @ d \<and> c \<in> {101, 69} \<and> g \<in> {[], [43], [45]} \<and> digit_run d)"
    using p(3) unfolding number_exp_Inr by (metis append_Cons append_Nil append_assoc)
  have "json_number (s @ i @ f @ e)" using si f e unfolding json_number_def by blast
  then show ?thesis using si f e by (intro exI [of _ "s @ i @ f @ e"]) simp
qed

lemma number_complete:
  assumes "json_number x" "value_end r"
  shows "number (x @ r) = Inr r"
proof -
  obtain s i f e where x: "x = s @ i @ f @ e" "s \<in> {[], [45]}" "i = [48] \<or> digit_run i \<and> hd i \<noteq> 48"
    "f = [] \<or> (\<exists>d. f = 46 # d \<and> digit_run d)"
    "e = [] \<or> (\<exists>c g d. e = c # g @ d \<and> c \<in> {101, 69} \<and> g \<in> {[], [43], [45]} \<and> digit_run d)"
    using assms(1) unfolding json_number_def by blast
  have er: "no_digit (e @ r)" "\<not> at_unit 46 (e @ r)"
    using x(5) assms(2) by (auto simp: value_end_def no_digit_def digit_unit_def)
  then have fr: "no_digit (f @ e @ r)" using x(4) by (auto simp: no_digit_def digit_unit_def)
  have "number_int (x @ r) = Inr (f @ e @ r)" using x(1-3) fr by (subst number_int_Inr) auto
  moreover have "number_frac (f @ e @ r) = Inr (e @ r)" using x(4) er by (auto simp: number_frac_Inr)
  moreover have "number_exp (e @ r) = Inr r"
    using x(5) assms(2) by (subst number_exp_Inr) (auto simp: value_end_def)
  ultimately show ?thesis by (simp add: number_def bind_res_Inr_iff)
qed

lemma json_number_first: "json_number x \<Longrightarrow> x \<noteq> [] \<and> token_of (hd x) = TokNumber"
  by (auto simp: json_number_def token_of_inv digit_run_def hd_append digit_unit_def)

subsection \<open>The parser implements the grammar\<close>

lemma literal_value: "literal (tl x) (tl s) = Inr r' \<Longrightarrow> s = hd x # tl s \<Longrightarrow> x \<noteq> [] \<Longrightarrow> s = x @ r'"
  by (cases x) (auto simp: literal_Inr)

lemma v8_sound:
  "v8_value n r = Some (Inr r') \<Longrightarrow> \<exists>p. r = p @ r' \<and> json_value p"
  "v8_members n r = Some (Inr r') \<Longrightarrow> \<exists>p. r = p @ r' \<and> json_members p"
  "v8_elements n r = Some (Inr r') \<Longrightarrow> \<exists>p. r = p @ r' \<and> json_elements p"
proof (induction n r and n r and n r arbitrary: r' and r' and r' rule: v8_value_v8_members_v8_elements.induct)
  case (2 n r)
  obtain w where w: "r = w @ skip_ws r" "ws_run w" by (rule skip_ws_split)
  define s where "s = skip_ws r"
  have pk: "peek r = (case s of [] \<Rightarrow> TokEOS | c # _ \<Rightarrow> token_of c)" by (simp add: peek_def s_def)
  have s1: "s = hd s # tl s \<and> token_of (hd s) = peek r" if "peek r \<noteq> TokEOS"
    using that pk by (cases s) auto
  have fin: "\<exists>p. r = p @ r' \<and> json_value p" if "s = q @ r'" "json_value (w @ q)" for q
    using that w by (intro exI [of _ "w @ q"]) (simp add: s_def)
  note v = "2.prems" [simplified v8_value.simps(2) Let_def, folded s_def]
  consider "peek r = TokString" | "peek r = TokNumber" | "peek r = TokLBrace" | "peek r = TokLBrack"
    | "peek r = TokTrue" | "peek r = TokFalse" | "peek r = TokNull"
    using v by (auto split: if_splits)
  then show ?case
  proof cases
    case 1
    then have "s = 34 # tl s" using s1 by (simp add: token_of_inv) metis
    moreover obtain b where "tl s = b @ 34 # r'" "str_body b" using v 1 scan_string_sound [of "tl s" r'] by auto
    ultimately show ?thesis using jv_string [OF w(2)] by (intro fin [of "34 # b @ [34]"]) auto
  next
    case 2
    then obtain x where "s = x @ r'" "json_number x" using v number_sound [of s r'] by auto
    then show ?thesis using fin jv_number [OF w(2)] by blast
  next
    case 3
    then have s: "s = 123 # tl s" using s1 by (simp add: token_of_inv) metis
    show ?thesis
    proof (cases "check_tok TokRBrace (tl s)")
      case (Some t)
      then have "check_tok TokRBrace (tl s) = Some r'" using v 3 by simp
      then obtain w' where w': "tl s = w' @ 125 # r'" "ws_run w'"
        by (rule check_tokD) (auto simp: token_of_inv)
      then show ?thesis using s jv_empty_object [OF w(2) w'(2)] by (intro fin [of "123 # w' @ [125]"]) auto
    next
      case None
      then obtain t where t: "property PropNameOrRBrace (tl s) = Inr t" "v8_members n t = Some (Inr r')"
        using v 3 by (auto split: sum.splits)
      obtain k where k: "tl s = k @ t" "json_key k" using t(1) by (auto simp: property_Inr)
      obtain m where m: "t = m @ r'" "json_members m"
        using "2.IH"(1) [OF refl refl] 3 None t by (auto simp: s_def)
      then show ?thesis using s k jv_object [OF w(2) k(2) m(2)] by (intro fin [of "123 # k @ m"]) auto
    qed
  next
    case 4
    then have s: "s = 91 # tl s" using s1 by (simp add: token_of_inv) metis
    show ?thesis
    proof (cases "check_tok TokRBrack (tl s)")
      case (Some t)
      then have "check_tok TokRBrack (tl s) = Some r'" using v 4 by simp
      then obtain w' where w': "tl s = w' @ 93 # r'" "ws_run w'"
        by (rule check_tokD) (auto simp: token_of_inv)
      then show ?thesis using s jv_empty_array [OF w(2) w'(2)] by (intro fin [of "91 # w' @ [93]"]) auto
    next
      case None
      then have t: "v8_elements n (tl s) = Some (Inr r')" using v 4 by simp
      obtain m where m: "tl s = m @ r'" "json_elements m"
        using "2.IH"(2) [OF refl refl] 4 None t by (auto simp: s_def)
      then show ?thesis using s jv_array [OF w(2) m(2)] by (intro fin [of "91 # m"]) auto
    qed
  next
    case 5
    then have "s = 116 # tl s" using s1 by (simp add: token_of_inv) metis
    then have "s = [116, 114, 117, 101] @ r'" using v 5 literal_value [of "[116, 114, 117, 101]" s r'] by simp
    then show ?thesis by (rule fin) (rule jv_word [OF w(2)], simp add: json_words_def)
  next
    case 6
    then have "s = 102 # tl s" using s1 by (simp add: token_of_inv) metis
    then have "s = [102, 97, 108, 115, 101] @ r'" using v 6 literal_value [of "[102, 97, 108, 115, 101]" s r'] by simp
    then show ?thesis by (rule fin) (rule jv_word [OF w(2)], simp add: json_words_def)
  next
    case 7
    then have "s = 110 # tl s" using s1 by (simp add: token_of_inv) metis
    then have "s = [110, 117, 108, 108] @ r'" using v 7 literal_value [of "[110, 117, 108, 108]" s r'] by simp
    then show ?thesis by (rule fin) (rule jv_word [OF w(2)], simp add: json_words_def)
  qed
next
  case (4 n r)
  then obtain r1 where r1: "v8_value n r = Some (Inr r1)" by (auto split: option.splits sum.splits)
  then obtain v where v: "r = v @ r1" "json_value v" using "4.IH"(1) by blast
  show ?case
  proof (cases "check_tok TokComma r1")
    case None
    then have "check_tok TokRBrace r1 = Some r'" using "4.prems" r1 by (simp add: expect_Inr)
    then obtain w where "r1 = w @ 125 # r'" "ws_run w" by (rule check_tokD) (auto simp: token_of_inv)
    then show ?thesis using v jm_last by (intro exI [of _ "v @ w @ [125]"]) auto
  next
    case (Some r2)
    obtain w where w: "r1 = w @ 44 # r2" "ws_run w" by (rule check_tokD [OF Some]) (auto simp: token_of_inv)
    obtain r3 where r3: "property DoubleQuotedPropName r2 = Inr r3" "v8_members n r3 = Some (Inr r')"
      using "4.prems" r1 Some by (auto split: sum.splits)
    obtain k where k: "r2 = k @ r3" "json_key k" using r3(1) by (auto simp: property_Inr)
    obtain m where m: "r3 = m @ r'" "json_members m" using "4.IH"(2) [OF r1 refl Some r3(1) r3(2)] by blast
    show ?thesis using v w k m jm_more [OF v(2) w(2) k(2) m(2)]
      by (intro exI [of _ "v @ w @ 44 # k @ m"]) auto
  qed
next
  case (6 n r)
  then obtain r1 where r1: "v8_value n r = Some (Inr r1)" by (auto split: option.splits sum.splits)
  then obtain v where v: "r = v @ r1" "json_value v" using "6.IH"(1) by blast
  show ?case
  proof (cases "check_tok TokComma r1")
    case None
    then have "check_tok TokRBrack r1 = Some r'" using "6.prems" r1 by (simp add: expect_Inr)
    then obtain w where "r1 = w @ 93 # r'" "ws_run w" by (rule check_tokD) (auto simp: token_of_inv)
    then show ?thesis using v je_last by (intro exI [of _ "v @ w @ [93]"]) auto
  next
    case (Some r2)
    obtain w where w: "r1 = w @ 44 # r2" "ws_run w" by (rule check_tokD [OF Some]) (auto simp: token_of_inv)
    have "v8_elements n r2 = Some (Inr r')" using "6.prems" r1 Some by simp
    then obtain m where m: "r2 = m @ r'" "json_elements m" using "6.IH"(2) [OF r1 refl Some] by blast
    show ?thesis using v w m je_more [OF v(2) w(2) m(2)]
      by (intro exI [of _ "v @ w @ 44 # m"]) auto
  qed
qed simp_all

lemma json_nonempty: "json_value p \<Longrightarrow> p \<noteq> []" "json_members p \<Longrightarrow> p \<noteq> []" "json_elements p \<Longrightarrow> p \<noteq> []"
  by (induction p and p and p rule: json_value_json_members_json_elements.inducts)
     (auto simp: json_words_def dest: json_number_first)

lemma json_key_nonempty: "json_key k \<Longrightarrow> k \<noteq> []"
  by (auto simp: json_key_def)

lemma check_tok_length: "check_tok t r = Some r' \<Longrightarrow> t \<noteq> TokEOS \<Longrightarrow> length r' < length r"
  by (erule check_tokD) auto

lemma property_length: "property m r = Inr r' \<Longrightarrow> length r' < length r"
  using json_key_nonempty by (fastforce simp: property_Inr)

lemma v8_value_length: "v8_value n r = Some (Inr r') \<Longrightarrow> length r' < length r"
  using v8_sound(1) json_nonempty(1) by fastforce

lemma skip_ws_length: "length (skip_ws r) \<le> length r"
  by (simp add: skip_ws_def length_dropWhile_le)

lemma peek_length: "peek r \<noteq> TokEOS \<Longrightarrow> length (tl (skip_ws r)) < length r"
  using skip_ws_length [of r] by (cases "skip_ws r") (auto simp: peek_def)

lemma v8_fuel:
  "2 * length r + 1 \<le> n \<Longrightarrow> v8_value n r \<noteq> None"
  "2 * length r + 2 \<le> n \<Longrightarrow> v8_members n r \<noteq> None"
  "2 * length r + 2 \<le> n \<Longrightarrow> v8_elements n r \<noteq> None"
proof (induction n r and n r and n r rule: v8_value_v8_members_v8_elements.induct)
  case (2 n r)
  show ?case
  proof (cases "peek r \<in> {TokLBrace, TokLBrack}")
    case False
    then show ?thesis by (auto simp: Let_def)
  next
    case True
    then have l: "length (tl (skip_ws r)) < length r" by (intro peek_length) auto
    have m: "v8_members n r' \<noteq> None"
      if "peek r = TokLBrace" "check_tok TokRBrace (tl (skip_ws r)) = None" "property PropNameOrRBrace (tl (skip_ws r)) = Inr r'" for r'
    proof -
      have "length r' < length (tl (skip_ws r))" using that(3) by (rule property_length)
      then show ?thesis using that 2 l by (intro "2.IH"(1) [OF refl refl]) auto
    qed
    have e: "v8_elements n (tl (skip_ws r)) \<noteq> None"
      if "peek r = TokLBrack" "check_tok TokRBrack (tl (skip_ws r)) = None"
      using that 2 l by (intro "2.IH"(2) [OF refl refl]) auto
    from True m e show ?thesis by (fastforce simp: Let_def split: option.split sum.split)
  qed
next
  case (4 n r)
  have "v8_value n r \<noteq> None" using 4 by (intro "4.IH"(1)) auto
  then obtain x where x: "v8_value n r = Some x" by auto
  show ?case
  proof (cases x)
    case (Inr r1)
    then have l: "length r1 < length r" using x v8_value_length by blast
    have "v8_members n r3 \<noteq> None" if "check_tok TokComma r1 = Some r2" "property DoubleQuotedPropName r2 = Inr r3" for r2 r3
      using that 4 l x Inr check_tok_length [OF that(1)] property_length [OF that(2)] by (intro "4.IH"(2)) auto
    then show ?thesis using x Inr by (auto split: option.split sum.split)
  qed (use x in simp)
next
  case (6 n r)
  have "v8_value n r \<noteq> None" using 6 by (intro "6.IH"(1)) auto
  then obtain x where x: "v8_value n r = Some x" by auto
  show ?case
  proof (cases x)
    case (Inr r1)
    then have l: "length r1 < length r" using x v8_value_length by blast
    have "v8_elements n r2 \<noteq> None" if "check_tok TokComma r1 = Some r2" for r2
      using that 6 l x Inr check_tok_length [OF that(1)] by (intro "6.IH"(2)) auto
    then show ?thesis using x Inr by (auto split: option.split)
  qed (use x in simp)
qed simp_all

lemma json_key_peek: "json_key k \<Longrightarrow> peek (k @ r) = TokString"
  by (auto simp: json_key_def)

lemma json_value_peek: "json_value v \<Longrightarrow> peek (v @ r) \<notin> {TokEOS, TokRBrack, TokRBrace, TokComma, TokColon}"
proof (induction rule: json_value.cases)
  case (jv_number w x)
  then show ?case using json_number_first [of x] by (cases x) auto
qed (auto simp: json_words_def)

lemma json_elements_peek: "json_elements e \<Longrightarrow> peek (e @ r) \<noteq> TokRBrack"
  by (erule json_elements.cases) (auto dest: json_value_peek)

lemma check_tok_None: "peek r \<noteq> t \<Longrightarrow> check_tok t r = None"
  by (simp add: check_tok_def)

lemma value_end_ws: "ws_run w \<Longrightarrow> c \<in> {44, 93, 125} \<Longrightarrow> value_end (w @ c # r)"
  by (cases w) (auto simp: value_end_def no_digit_def digit_unit_def token_of_def)

lemma value_end_ws_only: "ws_run w \<Longrightarrow> value_end w"
  by (cases w) (auto simp: value_end_def no_digit_def digit_unit_def token_of_def)

lemma v8_complete:
  "json_value v \<Longrightarrow> value_end r \<Longrightarrow> 2 * length (v @ r) + 1 \<le> n \<Longrightarrow> v8_value n (v @ r) = Some (Inr r)"
  "json_members m \<Longrightarrow> 2 * length (m @ r) + 2 \<le> n \<Longrightarrow> v8_members n (m @ r) = Some (Inr r)"
  "json_elements e \<Longrightarrow> 2 * length (e @ r) + 2 \<le> n \<Longrightarrow> v8_elements n (e @ r) = Some (Inr r)"
proof (induction v and m and e arbitrary: r n and r n and r n rule: json_value_json_members_json_elements.inducts)
  case (jv_string w b)
  then show ?case by (cases n) (simp_all add: scan_string_complete)
next
  case (jv_number w x)
  then obtain c y where x: "x = c # y" "token_of c = TokNumber"
    using json_number_first [of x] by (cases x) auto
  then show ?case using jv_number number_complete [OF jv_number(2,3)] by (cases n) simp_all
next
  case (jv_word w x)
  then show ?case by (cases n) (auto simp: json_words_def literal_Inr)
next
  case (jv_empty_object w w')
  then show ?case by (cases n) simp_all
next
  case (jv_object w k m)
  have "check_tok TokRBrace (k @ m @ r) = None" using jv_object(2) by (simp add: check_tok_None json_key_peek)
  moreover have "property PropNameOrRBrace (k @ m @ r) = Inr (m @ r)" using jv_object(2) by (auto simp: property_Inr)
  ultimately show ?case using jv_object by (cases n) simp_all
next
  case (jv_empty_array w w')
  then show ?case by (cases n) simp_all
next
  case (jv_array w e)
  have "check_tok TokRBrack (e @ r) = None" using jv_array(2) by (simp add: check_tok_None json_elements_peek)
  then show ?case using jv_array by (cases n) simp_all
next
  case (jm_last v w)
  have "v8_value (n - 1) (v @ w @ 125 # r) = Some (Inr (w @ 125 # r))"
    using jm_last by (intro jm_last.IH value_end_ws) auto
  then show ?case using jm_last by (cases n) (simp_all add: expect_Inr)
next
  case (jm_more v w k m)
  have "v8_value (n - 1) (v @ w @ 44 # k @ m @ r) = Some (Inr (w @ 44 # k @ m @ r))"
    using jm_more by (intro jm_more.IH value_end_ws) auto
  moreover have "property DoubleQuotedPropName (k @ m @ r) = Inr (m @ r)" using jm_more by (auto simp: property_Inr)
  moreover have "v8_members (n - 1) (m @ r) = Some (Inr r)" using jm_more by (intro jm_more.IH) auto
  ultimately show ?case using jm_more by (cases n) simp_all
next
  case (je_last v w)
  have "v8_value (n - 1) (v @ w @ 93 # r) = Some (Inr (w @ 93 # r))"
    using je_last by (intro je_last.IH value_end_ws) auto
  then show ?case using je_last by (cases n) (simp_all add: expect_Inr)
next
  case (je_more v w e)
  have "v8_value (n - 1) (v @ w @ 44 # e @ r) = Some (Inr (w @ 44 # e @ r))"
    using je_more by (intro je_more.IH value_end_ws) auto
  moreover have "v8_elements (n - 1) (e @ r) = Some (Inr r)" using je_more by (intro je_more.IH) auto
  ultimately show ?case using je_more by (cases n) simp_all
qed

lemma v8_message_nonempty: "v8_message s r \<noteq> []"
proof (cases r)
  case (Report t m rest)
  have p: "positioned s p msg \<noteq> []" for p msg
    by (simp add: positioned_def split: prod.splits)
  have u: "unexpected_token s p \<noteq> []" for p
    by (simp add: unexpected_token_def Let_def dq_def)
  show ?thesis by (simp add: Report v8_message_def Let_def p u)
qed

lemma v8_no_error_iff:
  "v8_json_syntax_error src = [] \<longleftrightarrow> (\<exists>v w. utf16_encode (runes src) = v @ w \<and> json_value v \<and> ws_run w)"
proof -
  define s where "s = utf16_encode (runes src)"
  have "v8_value (2 * length s + 1) s \<noteq> None" by (rule v8_fuel(1)) simp
  then obtain x where x: "v8_value (2 * length s + 1) s = Some x" by auto
  have "v8_parse s = Some None \<longleftrightarrow> (\<exists>w. x = Inr w \<and> ws_run w)"
    using x by (cases x) (simp_all add: v8_parse_def peek_eos)
  moreover have "v8_parse s \<noteq> None" using x by (cases x) (simp_all add: v8_parse_def)
  ultimately have "v8_json_syntax_error src = [] \<longleftrightarrow> (\<exists>w. x = Inr w \<and> ws_run w)"
    by (auto simp: v8_json_syntax_error_def s_def [symmetric] v8_message_nonempty split: option.splits)
  also have "\<dots> \<longleftrightarrow> (\<exists>v w. s = v @ w \<and> json_value v \<and> ws_run w)"
  proof
    assume "\<exists>w. x = Inr w \<and> ws_run w"
    then show "\<exists>v w. s = v @ w \<and> json_value v \<and> ws_run w" using x v8_sound(1) by metis
  next
    assume "\<exists>v w. s = v @ w \<and> json_value v \<and> ws_run w"
    then obtain v w where "s = v @ w" "json_value v" "ws_run w" by blast
    then have "v8_value (2 * length s + 1) s = Some (Inr w)"
      by (simp only:) (intro v8_complete(1) value_end_ws_only order_refl)
    then show "\<exists>w. x = Inr w \<and> ws_run w" using x \<open>ws_run w\<close> by auto
  qed
  finally show ?thesis by (simp add: s_def)
qed

text \<open>C31. The lockfile check reports no error exactly for the texts that are a JSON value between
  whitespace, by the grammar of RFC 8259; in particular the parse always finishes.\<close>

theorem v8_accepts_json:
  "v8_json_syntax_error src = [] \<longleftrightarrow> (\<exists>v w. utf16_encode (runes src) = v @ w \<and> json_value v \<and> ws_run w)"
  by (rule v8_no_error_iff)

end
