(* ===== verification/Whatwg.thy ===== *)
theory Whatwg
  imports GoUtf GoNumbers Prelude
begin

text \<open>
  \<open>internal/oci/whatwghost.go\<close>: the host of an http(s) URL as the WHATWG URL standard reads it,
  which the trust decisions of theory AuthPolicy compare. Errors are \<open>None\<close>: the code has the one
  \<open>errInvalidHost\<close>. Parameters: \<open>ulow\<close>, the lower case of text that is not ASCII, and \<open>idna\<close>, the
  ToASCII of \<open>golang.org/x/net/idna\<close>. \<open>netip.ParseAddr\<close> is modelled here for the IPv6 literals.
\<close>

subsection \<open>Ports\<close>

definition parse_whatwg_port :: "string \<Rightarrow> string \<Rightarrow> string option" where
  "parse_whatwg_port s default_port =
     (if s = [] then Some []
      else if \<not> list_all is_digit s then None
      else (let n = min (base_value 10 s) (2 ^ 63 - 1) in
        if n > 65535 then None
        else if base_text 10 n = default_port then Some [] else Some (base_text 10 n)))"

subsection \<open>IPv4\<close>

text \<open>\<open>strconv.ParseUint(s, base, 64)\<close> for a base that is not 0; it stops at the first overflow.\<close>

datatype uint_res = UintSyntax | UintRange | Uint nat

definition max_uint64 :: nat where "max_uint64 = 2 ^ 64 - 1"

fun parse_uint_loop :: "nat \<Rightarrow> nat \<Rightarrow> string \<Rightarrow> uint_res" where
  "parse_uint_loop b n [] = Uint n"
| "parse_uint_loop b n (c # s) =
     (case digit_in c of
        None \<Rightarrow> UintSyntax
      | Some d \<Rightarrow> if d \<ge> b then UintSyntax
          else if n \<ge> max_uint64 div b + 1 \<or> n * b + d > max_uint64 then UintRange
          else parse_uint_loop b (n * b + d) s)"

definition parse_uint :: "string \<Rightarrow> nat \<Rightarrow> uint_res" where
  "parse_uint s b = (if s = [] then UintSyntax else parse_uint_loop b 0 s)"

definition parse_ipv4_number :: "string \<Rightarrow> nat option" where
  "parse_ipv4_number s =
     (if s = [] then None
      else (let hex = has_prefix s ''0x'' \<or> has_prefix s ''0X''; oct = length s \<ge> 2 \<and> hd s = CHR ''0'';
                b = (if hex then 16 else if oct then 8 else 10);
                t = (if hex then drop 2 s else if oct then tl s else s) in
        if hex \<and> t = [] then Some 0
        else (case parse_uint t b of UintSyntax \<Rightarrow> None | UintRange \<Rightarrow> Some max_uint64 | Uint n \<Rightarrow> Some n)))"

definition ipv4_parts :: "string \<Rightarrow> string list" where
  "ipv4_parts domain = split_byte CHR ''.'' (trim_suffix domain ''.'')"

definition ends_in_a_number :: "string \<Rightarrow> bool" where
  "ends_in_a_number domain =
     (let l = last (ipv4_parts domain) in
      l \<noteq> [] \<and> trim_set l ''0123456789'' = [] \<or> parse_ipv4_number l \<noteq> None)"

fun ipv4_numbers :: "string list \<Rightarrow> nat list option" where
  "ipv4_numbers [] = Some []"
| "ipv4_numbers (p # ps) =
     (case parse_ipv4_number p of
        None \<Rightarrow> None
      | Some n \<Rightarrow> if ps \<noteq> [] \<and> n > 255 then None else map_option (Cons n) (ipv4_numbers ps))"

text \<open>The bytes of the address, most significant first.\<close>

definition ipv4_bytes :: "nat \<Rightarrow> nat list" where
  "ipv4_bytes a = [a div 2 ^ 24 mod 256, a div 2 ^ 16 mod 256, a div 2 ^ 8 mod 256, a mod 256]"

definition ipv4_sum :: "nat list \<Rightarrow> nat" where
  "ipv4_sum ns = last ns + sum_list (map (\<lambda>(i, n). n * 2 ^ (8 * (3 - i))) (enumerate 0 (butlast ns)))"

definition parse_whatwg_ipv4 :: "string \<Rightarrow> string option" where
  "parse_whatwg_ipv4 s =
     (let parts = ipv4_parts s in
      if length parts > 4 then None
      else (case ipv4_numbers parts of
          None \<Rightarrow> None
        | Some ns \<Rightarrow> if last ns \<ge> 2 ^ (8 * (5 - length ns)) then None
            else Some (join ''.'' (map nat_text (ipv4_bytes (ipv4_sum ns))))))"

subsection \<open>IPv6\<close>

text \<open>
  \<open>netip.ParseAddr\<close>, for addresses without a zone, as eight 16-bit pieces: the pieces read so far
  and the position of the ellipsis are the loop's state.
\<close>

fun hex_piece :: "nat \<Rightarrow> nat \<Rightarrow> string \<Rightarrow> (nat \<times> nat \<times> string) option" where
  "hex_piece len acc [] = Some (len, acc, [])"
| "hex_piece len acc (c # s) =
     (if is_hex c
      then (if len > 3 then None else hex_piece (Suc len) (acc * 16 + the (digit_in c)) s)
      else Some (len, acc, c # s))"

definition ipv4_octet :: "string \<Rightarrow> nat option" where
  "ipv4_octet p =
     (if p = [] \<or> \<not> list_all is_digit p \<or> length p > 1 \<and> hd p = CHR ''0'' \<or> base_value 10 p > 255 then None
      else Some (nat (base_value 10 p)))"

definition ipv4_fields :: "string \<Rightarrow> nat list option" where
  "ipv4_fields s = (case map ipv4_octet (split_byte CHR ''.'' s) of
     [Some a, Some b, Some c, Some d] \<Rightarrow> Some [a * 256 + b, c * 256 + d] | _ \<Rightarrow> None)"

lemma hex_piece_length:
  "hex_piece l a s = Some (l', a', r) \<Longrightarrow> length r + l' = length s + l"
  by (induction l a s rule: hex_piece.induct) (auto split: if_splits)

definition ipv6_finish :: "nat list \<Rightarrow> nat option \<Rightarrow> nat list option" where
  "ipv6_finish ps el =
     (if length ps < 8
      then (case el of None \<Rightarrow> None | Some e \<Rightarrow> Some (take e ps @ replicate (8 - length ps) 0 @ drop e ps))
      else (if el = None then Some ps else None))"

function ipv6_loop :: "nat list \<Rightarrow> nat option \<Rightarrow> string \<Rightarrow> nat list option" where
  "ipv6_loop ps el s =
     (if length ps \<ge> 8 then (if s = [] then ipv6_finish ps el else None)
      else (case hex_piece 0 0 s of
          None \<Rightarrow> None
        | Some (len, acc, r) \<Rightarrow>
            if len = 0 then None
            else if r \<noteq> [] \<and> hd r = CHR ''.'' then
              (if el = None \<and> length ps \<noteq> 6 \<or> length ps > 6 then None
               else (case ipv4_fields s of None \<Rightarrow> None | Some v \<Rightarrow> ipv6_finish (ps @ v) el))
            else (case r of
                [] \<Rightarrow> ipv6_finish (ps @ [acc]) el
              | c # r1 \<Rightarrow>
                  if c \<noteq> CHR '':'' then None
                  else (case r1 of
                      [] \<Rightarrow> None
                    | d # r2 \<Rightarrow>
                        if d \<noteq> CHR '':'' then ipv6_loop (ps @ [acc]) el r1
                        else if el \<noteq> None then None
                        else if r2 = [] then ipv6_finish (ps @ [acc]) (Some (Suc (length ps)))
                        else ipv6_loop (ps @ [acc]) (Some (Suc (length ps))) r2))))"
  by auto
termination
  by (relation "measure (\<lambda>(ps, el, s). length s)") (auto dest!: hex_piece_length)

declare ipv6_loop.simps [simp del]

text \<open>The first of the characters dot, colon and percent decides the kind of the address.\<close>

definition parse_ipv6_pieces :: "string \<Rightarrow> nat list option" where
  "parse_ipv6_pieces s =
     (if CHR ''%'' \<in> set s \<or> (case index_where (\<lambda>c. c \<in> set ''.:'') s of None \<Rightarrow> True | Some i \<Rightarrow> s ! i = CHR ''.'')
      then None
      else if has_prefix s ''::''
      then (if s = ''::'' then Some (replicate 8 0) else ipv6_loop [] (Some 0) (drop 2 s))
      else ipv6_loop [] None s)"

text \<open>The first longest run of zero pieces.\<close>

definition zeros_at :: "nat list \<Rightarrow> nat \<Rightarrow> nat" where
  "zeros_at ps i = length (takeWhile (\<lambda>p. p = 0) (drop i ps))"

definition longest_run :: "nat list \<Rightarrow> nat \<times> nat" where
  "longest_run ps = foldl (\<lambda>(start, len) i. if zeros_at ps i > len then (i, zeros_at ps i) else (start, len))
     (0, 0) [0..<length ps]"

definition hex_text :: "nat \<Rightarrow> string" where
  "hex_text n = base_text 16 (int n)"

definition ipv6_text :: "nat list \<Rightarrow> string" where
  "ipv6_text ps = (case longest_run ps of (start, len) \<Rightarrow>
     if len \<ge> 2
     then join '':'' (map hex_text (take start ps)) @ ''::'' @ join '':'' (map hex_text (drop (start + len) ps))
     else join '':'' (map hex_text ps))"

definition parse_whatwg_ipv6 :: "string \<Rightarrow> string option" where
  "parse_whatwg_ipv6 s = map_option (\<lambda>ps. ''['' @ ipv6_text ps @ '']'') (parse_ipv6_pieces s)"

subsection \<open>Hosts\<close>

text \<open>\<open>strings.ToValidUTF8\<close>: a run of invalid bytes becomes one U+FFFD.\<close>

fun to_valid_utf8 :: "nat \<Rightarrow> bool \<Rightarrow> string \<Rightarrow> string" where
  "to_valid_utf8 0 bad s = []"
| "to_valid_utf8 (Suc k) bad [] = []"
| "to_valid_utf8 (Suc k) bad (c # s) =
     (if is_ascii c then c # to_valid_utf8 k False s
      else (let wid = snd (decode_rune (c # s)) in
        if wid = 1 then (if bad then [] else encode_rune rune_error) @ to_valid_utf8 k True s
        else take wid (c # s) @ to_valid_utf8 k False (drop wid (c # s))))"

fun percent_decode :: "string \<Rightarrow> string" where
  "percent_decode (c # a # b # s) =
     (if c = CHR ''%'' \<and> is_hex a \<and> is_hex b
      then char_of (the (digit_in a) * 16 + the (digit_in b)) # percent_decode s
      else c # percent_decode (a # b # s))"
| "percent_decode s = s"

definition percent_decode_utf8 :: "string \<Rightarrow> string" where
  "percent_decode_utf8 s = (let b = percent_decode s in to_valid_utf8 (length b) False b)"

definition domain_to_ascii :: "(string \<Rightarrow> string) \<Rightarrow> (string \<Rightarrow> string option) \<Rightarrow> string \<Rightarrow> string option" where
  "domain_to_ascii ulow idna domain =
     (if list_all is_ascii domain then Some (to_lower ulow domain)
      else (case idna domain of None \<Rightarrow> None | Some out \<Rightarrow> if out = [] then None else Some out))"

definition is_forbidden_domain_code_point :: "nat \<Rightarrow> bool" where
  "is_forbidden_domain_code_point r \<longleftrightarrow> r \<le> 0x20 \<or> r = 0x7F \<or> r \<in> bval ` set (''#%/:<>?@['' @ [CHR 0x5C] @ '']^|'')"

definition parse_whatwg_host :: "(string \<Rightarrow> string) \<Rightarrow> (string \<Rightarrow> string option) \<Rightarrow> string \<Rightarrow> string option" where
  "parse_whatwg_host ulow idna input =
     (if has_prefix input ''[''
      then (if has_suffix input '']'' then parse_whatwg_ipv6 (butlast (tl input)) else None)
      else (case domain_to_ascii ulow idna (percent_decode_utf8 input) of
          None \<Rightarrow> None
        | Some domain \<Rightarrow>
            if list_ex is_forbidden_domain_code_point (runes domain) then None
            else if ends_in_a_number domain then parse_whatwg_ipv4 domain else Some domain))"

text \<open>The first colon outside brackets starts the port.\<close>

fun port_colon :: "bool \<Rightarrow> string \<Rightarrow> nat option" where
  "port_colon br [] = None"
| "port_colon br (c # s) =
     (if c = CHR ''['' then map_option Suc (port_colon True s)
      else if c = CHR '']'' then map_option Suc (port_colon False s)
      else if c = CHR '':'' \<and> \<not> br then Some 0
      else map_option Suc (port_colon br s))"

definition split_whatwg_host_port ::
  "(string \<Rightarrow> string) \<Rightarrow> (string \<Rightarrow> string option) \<Rightarrow> string \<Rightarrow> string \<Rightarrow> (string \<times> string) option" where
  "split_whatwg_host_port ulow idna hostport default_port =
     (let (raw_host, raw_port) = (case port_colon False hostport of
            None \<Rightarrow> (hostport, []) | Some i \<Rightarrow> (take i hostport, drop (i + 1) hostport)) in
      case parse_whatwg_port raw_port default_port of
        None \<Rightarrow> None
      | Some p \<Rightarrow> if raw_host = [] then None
          else map_option (\<lambda>h. (h, p)) (parse_whatwg_host ulow idna raw_host))"

definition whatwg_host ::
  "(string \<Rightarrow> string) \<Rightarrow> (string \<Rightarrow> string option) \<Rightarrow> string \<Rightarrow> string \<Rightarrow> string option" where
  "whatwg_host ulow idna hostport default_port =
     map_option (\<lambda>(h, p). if p \<noteq> [] then h @ '':'' @ p else h)
       (split_whatwg_host_port ulow idna hostport default_port)"

subsection \<open>Authorities\<close>

definition is_single_dot_segment :: "string \<Rightarrow> bool" where
  "is_single_dot_segment s \<longleftrightarrow> s = ''.'' \<or> equal_fold s ''%2e''"

definition is_double_dot_segment :: "(string \<Rightarrow> string) \<Rightarrow> string \<Rightarrow> bool" where
  "is_double_dot_segment ulow s \<longleftrightarrow> to_lower ulow s \<in> {''..'', ''.%2e'', ''%2e.'', ''%2e%2e''}"

definition path_slash :: "char \<Rightarrow> bool" where
  "path_slash c \<longleftrightarrow> c = CHR ''/'' \<or> c = CHR 0x5C"

fun split_slashes :: "string \<Rightarrow> string list" where
  "split_slashes [] = [[]]"
| "split_slashes (c # s) = (if path_slash c then [] # split_slashes s
     else (case split_slashes s of [] \<Rightarrow> [[c]] | x # xs \<Rightarrow> (c # x) # xs))"

text \<open>The stack of segments, \<open>True\<close> for an empty one.\<close>

fun path_segments :: "(string \<Rightarrow> string) \<Rightarrow> bool list \<Rightarrow> string list \<Rightarrow> bool list" where
  "path_segments ulow st [] = st"
| "path_segments ulow st (seg # segs) =
     (let at_end = (segs = []) in
      path_segments ulow
       (if is_double_dot_segment ulow seg then (let p = butlast st in if at_end then p @ [True] else p)
        else if is_single_dot_segment seg then (if at_end then st @ [True] else st)
        else st @ [seg = []]) segs)"

definition resolves_to_root_path :: "(string \<Rightarrow> string) \<Rightarrow> string \<Rightarrow> bool" where
  "resolves_to_root_path ulow rest =
     (let (path, tail_ok) = (case index_where (\<lambda>c. c = CHR ''?'' \<or> c = CHR ''#'') rest of
            None \<Rightarrow> (rest, True) | Some i \<Rightarrow> (take i rest, drop i rest \<in> {''?'', ''#'', ''?#''})) in
      tail_ok \<and> path_segments ulow [] (split_slashes (drop 1 path)) = [True])"

definition parse_https_authority ::
  "(string \<Rightarrow> string) \<Rightarrow> (string \<Rightarrow> string option) \<Rightarrow> string \<Rightarrow> string option" where
  "parse_https_authority ulow idna authority =
     (let s0 = rev (dropWhile (\<lambda>c. bval c \<le> 0x20) (rev authority));
          s1 = filter (\<lambda>c. bval c \<notin> {9, 10, 13}) s0;
          s = dropWhile path_slash s1;
          (auth, rest) = (case index_where (\<lambda>c. path_slash c \<or> c = CHR ''?'' \<or> c = CHR ''#'') s of
            None \<Rightarrow> (s, []) | Some e \<Rightarrow> (take e s, drop e s));
          (userinfo, host) = (case last_index_byte CHR ''@'' auth of
            None \<Rightarrow> ([], auth) | Some i \<Rightarrow> (take i auth, drop (i + 1) auth)) in
      if userinfo \<noteq> [] \<and> userinfo \<noteq> '':'' then None
      else if \<not> resolves_to_root_path ulow rest then None
      else whatwg_host ulow idna host ''443'')"

subsection \<open>Digits\<close>

lemma hex_text_nonempty [simp]: "hex_text n \<noteq> []"
  by (simp add: hex_text_def)

lemma hex_text_chars: "c \<in> set (hex_text n) \<Longrightarrow> \<exists>d<16. c = digit_char d"
  using base_text_digits [of 16 "int n" c] by (simp add: hex_text_def)

lemma hex_text_hex: "c \<in> set (hex_text n) \<Longrightarrow> is_hex c"
  using hex_text_chars is_hex_digit_char by blast

lemma length_hex_text: "n < 65536 \<Longrightarrow> length (hex_text n) \<le> 4"
  unfolding hex_text_def using length_base_text [of 16 "int n" 3] by simp

lemma hex_piece_run:
  "\<forall>c\<in>set ds. is_hex c \<Longrightarrow> r = [] \<or> \<not> is_hex (hd r) \<Longrightarrow> l + length ds \<le> 4 \<Longrightarrow>
   hex_piece l a (ds @ r) = Some (l + length ds, nat_fold 16 a ds, r)"
proof (induction ds arbitrary: l a)
  case Nil
  then show ?case by (cases r) (auto simp: nat_fold_def)
next
  case (Cons d ds)
  have "hex_piece l a ((d # ds) @ r) = hex_piece (Suc l) (a * 16 + the (digit_in d)) (ds @ r)"
    using Cons.prems by simp
  also have "\<dots> = Some (Suc l + length ds, nat_fold 16 (a * 16 + the (digit_in d)) ds, r)"
    using Cons.prems by (intro Cons.IH) auto
  finally show ?case by (simp add: nat_fold_def)
qed

lemma hex_piece_text:
  assumes "n < 65536" "r = [] \<or> \<not> is_hex (hd r)"
  shows "hex_piece 0 0 (hex_text n @ r) = Some (length (hex_text n), n, r)"
proof -
  have "nat_fold 16 0 (hex_text n) = n" using nat_fold_text [of 16 n] by (simp add: hex_text_def)
  then show ?thesis
    using hex_piece_run [of "hex_text n" r 0 0] assms length_hex_text hex_text_hex by simp
qed

subsection \<open>IPv6 texts read back\<close>

lemma not_hex [simp]: "\<not> is_hex CHR '':''" "\<not> is_hex CHR ''.''" "\<not> is_hex CHR ''%''"
  by (simp_all add: is_hex_def is_digit_def bval_def)

lemma ipv6_loop_last:
  assumes "length acc < 8" "p < 65536"
  shows "ipv6_loop acc el (hex_text p) = ipv6_finish (acc @ [p]) el"
  using assms hex_piece_text [of p "[]"] by (simp add: ipv6_loop.simps [of acc])

lemma ipv6_loop_colon:
  assumes "length acc < 8" "p < 65536" "s \<noteq> []" "hd s \<noteq> CHR '':''"
  shows "ipv6_loop acc el (hex_text p @ '':'' @ s) = ipv6_loop (acc @ [p]) el s"
  using assms hex_piece_text [of p "'':'' @ s"]
  by (cases s) (simp_all add: ipv6_loop.simps [of acc])

lemma ipv6_loop_ellipsis:
  assumes "length acc < 8" "p < 65536"
  shows "ipv6_loop acc None (hex_text p @ ''::'' @ s) =
    (if s = [] then ipv6_finish (acc @ [p]) (Some (Suc (length acc)))
     else ipv6_loop (acc @ [p]) (Some (Suc (length acc))) s)"
  using assms hex_piece_text [of p "''::'' @ s"] by (simp add: ipv6_loop.simps [of acc])

lemma hd_hex_text: "hd (hex_text p @ s) \<noteq> CHR '':''"
  using hex_text_hex [of "hd (hex_text p)" p] by (metis hd_append2 hd_in_set hex_text_nonempty not_hex(1))

lemma hd_join_hex: "ps \<noteq> [] \<Longrightarrow> hd (join '':'' (map hex_text ps) @ s) \<noteq> CHR '':'' \<and> join '':'' (map hex_text ps) @ s \<noteq> []"
  using hd_hex_text [of _ "[]"] by (cases ps rule: remdups_adj.cases) (auto simp: hd_append split: if_splits)

lemma ipv6_loop_join:
  "length acc + length ps \<le> 8 \<Longrightarrow> ps \<noteq> [] \<Longrightarrow> \<forall>p\<in>set ps. p < 65536 \<Longrightarrow>
   ipv6_loop acc el (join '':'' (map hex_text ps)) = ipv6_finish (acc @ ps) el"
proof (induction ps arbitrary: acc)
  case (Cons p ps)
  show ?case
  proof (cases "ps = []")
    case True
    then show ?thesis using Cons.prems by (simp add: ipv6_loop_last)
  next
    case False
    have "ipv6_loop acc el (hex_text p @ '':'' @ join '':'' (map hex_text ps)) =
        ipv6_loop (acc @ [p]) el (join '':'' (map hex_text ps))"
      using Cons.prems False hd_join_hex [of ps "[]"] by (intro ipv6_loop_colon) auto
    then show ?thesis using Cons.prems Cons.IH [of "acc @ [p]"] False by (simp add: join_Cons)
  qed
qed simp

lemma ipv6_loop_join_ellipsis:
  "length acc + length ps < 8 \<Longrightarrow> ps \<noteq> [] \<Longrightarrow> \<forall>p\<in>set ps. p < 65536 \<Longrightarrow>
   ipv6_loop acc None (join '':'' (map hex_text ps) @ ''::'' @ s) =
    (if s = [] then ipv6_finish (acc @ ps) (Some (length acc + length ps))
     else ipv6_loop (acc @ ps) (Some (length acc + length ps)) s)"
proof (induction ps arbitrary: acc)
  case (Cons p ps)
  show ?case
  proof (cases "ps = []")
    case True
    then show ?thesis using Cons.prems ipv6_loop_ellipsis [of acc p s] by simp
  next
    case False
    have "ipv6_loop acc None (hex_text p @ '':'' @ (join '':'' (map hex_text ps) @ ''::'' @ s)) =
        ipv6_loop (acc @ [p]) None (join '':'' (map hex_text ps) @ ''::'' @ s)"
      using Cons.prems False hd_join_hex [of ps "''::'' @ s"] by (intro ipv6_loop_colon) auto
    then show ?thesis using Cons.prems Cons.IH [of "acc @ [p]"] False by (simp add: join_Cons)
  qed
qed simp

lemma ipv6_text_chars: "c \<in> set (ipv6_text ps) \<Longrightarrow> is_hex c \<or> c = CHR '':''"
proof -
  assume "c \<in> set (ipv6_text ps)"
  moreover have "c \<in> set (join '':'' (map hex_text qs)) \<Longrightarrow> is_hex c \<or> c = CHR '':''" for qs
    using set_join [of "'':''" "map hex_text qs"] hex_text_hex by fastforce
  ultimately show ?thesis by (auto simp: ipv6_text_def split: prod.splits if_splits)
qed

lemma longest_run_zeros:
  assumes "longest_run ps = (start, len)"
  shows "start + len \<le> length ps \<and> take len (drop start ps) = replicate len 0"
proof -
  define g where "g = (\<lambda>(start, len) i. if zeros_at ps i > len then (i, zeros_at ps i) else (start, len :: nat))"
  have inv: "snd (foldl g (0, 0) is) = 0 \<or> snd (foldl g (0, 0) is) = zeros_at ps (fst (foldl g (0, 0) is))" for "is"
    by (induction "is" rule: rev_induct) (auto simp: g_def split: prod.splits)
  have st: "fst (foldl g (0, 0) [0..<n]) = 0 \<or> fst (foldl g (0, 0) [0..<n]) < n" for n
    by (induction n) (auto simp: g_def split: prod.splits)
  have e: "foldl g (0, 0) [0..<length ps] = (start, len)"
    using assms by (simp add: longest_run_def g_def)
  from inv [of "[0..<length ps]"] e consider "len = 0" | "len = zeros_at ps start" by auto
  then show ?thesis
  proof cases
    case 1
    then show ?thesis using st [of "length ps"] e by auto
  next
    case 2
    then have "len \<le> length (drop start ps)"
      using length_takeWhile_le [of "\<lambda>p. p = 0" "drop start ps"] by (simp only: zeros_at_def)
    moreover have "take len (drop start ps) = takeWhile (\<lambda>p. p = 0) (drop start ps)"
      unfolding 2 zeros_at_def by (rule takeWhile_eq_take [symmetric])
    moreover have "takeWhile (\<lambda>p. p = 0) xs = replicate (length (takeWhile (\<lambda>p. p = 0) xs)) (0::nat)" for xs
      by (intro replicate_eqI) (auto dest: set_takeWhileD)
    ultimately show ?thesis using 2 st [of "length ps"] e by (auto simp: zeros_at_def)
  qed
qed

lemma ipv6_finish_parts:
  assumes "length (a @ b) + n = 8" "0 < n"
  shows "ipv6_finish (a @ b) (Some (length a)) = Some (a @ replicate n 0 @ b)"
proof -
  have "8 - length (a @ b) = n" using assms by simp
  then show ?thesis using assms by (simp add: ipv6_finish_def)
qed

lemma ipv6_round_trip_pieces:
  assumes "length ps = 8" "\<forall>p\<in>set ps. p < 65536"
  shows "parse_ipv6_pieces (ipv6_text ps) = Some ps"
proof -
  obtain start len where r: "longest_run ps = (start, len)" by (cases "longest_run ps")
  have no: "CHR ''%'' \<notin> set (ipv6_text ps)" "CHR ''.'' \<notin> set (ipv6_text ps)"
    using ipv6_text_chars not_hex by force+
  have colon: "CHR '':'' \<in> set (ipv6_text ps)"
    using assms(1) r by (cases ps rule: remdups_adj.cases) (auto simp: ipv6_text_def)
  obtain i where i: "index_where (\<lambda>c. c \<in> set ''.:'') (ipv6_text ps) = Some i"
    using colon index_where_None [of "\<lambda>c. c \<in> set ''.:''"] by fastforce
  then have "ipv6_text ps ! i \<noteq> CHR ''.''"
    using index_where_Some [OF i] no(2) nth_mem [of i "ipv6_text ps"] by metis
  then have p: "parse_ipv6_pieces (ipv6_text ps) =
     (if has_prefix (ipv6_text ps) ''::''
      then (if ipv6_text ps = ''::'' then Some (replicate 8 0) else ipv6_loop [] (Some 0) (drop 2 (ipv6_text ps)))
      else ipv6_loop [] None (ipv6_text ps))"
    using no i by (simp add: parse_ipv6_pieces_def)
  show ?thesis
  proof (cases "len \<ge> 2")
    case False
    then have t: "ipv6_text ps = join '':'' (map hex_text ps)" by (simp add: ipv6_text_def r)
    have "ps \<noteq> []" using assms(1) by auto
    then have "\<not> has_prefix (ipv6_text ps) ''::''"
      using hd_join_hex [of ps "[]"] by (cases "ipv6_text ps") (auto simp: t)
    then show ?thesis using \<open>ps \<noteq> []\<close> p assms ipv6_loop_join [of "[]" ps None] by (auto simp: t ipv6_finish_def)
  next
    case True
    define a b where "a = take start ps" and "b = drop (start + len) ps"
    have z: "start + len \<le> 8" "take len (drop start ps) = replicate len 0"
      using longest_run_zeros [OF r] assms(1) by auto
    have ps: "ps = a @ replicate len 0 @ b"
      using z(2) by (metis a_def b_def add.commute append_take_drop_id drop_drop)
    have l: "length (a @ b) + len = 8" "0 < len" using ps assms(1) True by auto
    have bd: "\<forall>p\<in>set a. p < 65536" "\<forall>p\<in>set b. p < 65536" using assms(2) ps by auto
    have t: "ipv6_text ps = join '':'' (map hex_text a) @ ''::'' @ join '':'' (map hex_text b)"
      using True by (simp add: ipv6_text_def r a_def b_def)
    have b0: "join '':'' (map hex_text b) = [] \<longleftrightarrow> b = []" using hd_join_hex [of b "[]"] by auto
    show ?thesis
    proof (cases "a = []")
      case a0: True
      show ?thesis
      proof (cases "b = []")
        case True
        then show ?thesis using p a0 t l ps by simp
      next
        case False
        then have "parse_ipv6_pieces (ipv6_text ps) = ipv6_loop [] (Some 0) (join '':'' (map hex_text b))"
          using p a0 t b0 by simp
        also have "\<dots> = ipv6_finish b (Some 0)" using l a0 False bd by (subst ipv6_loop_join) auto
        finally show ?thesis using ipv6_finish_parts [of "[]" b len] l a0 ps by simp
      qed
    next
      case a1: False
      then have "hd (ipv6_text ps) \<noteq> CHR '':''" using hd_join_hex [of a] by (simp add: t)
      then have "\<not> has_prefix (ipv6_text ps) ''::''" by (cases "ipv6_text ps") auto
      then have e: "parse_ipv6_pieces (ipv6_text ps) =
          ipv6_loop [] None (join '':'' (map hex_text a) @ ''::'' @ join '':'' (map hex_text b))"
        using p t by simp
      show ?thesis
      proof (cases "b = []")
        case True
        then show ?thesis using e l a1 bd ipv6_finish_parts [of a "[]" len] ps
            ipv6_loop_join_ellipsis [of "[]" a "[]"] by simp
      next
        case False
        then have "parse_ipv6_pieces (ipv6_text ps) = ipv6_loop a (Some (length a)) (join '':'' (map hex_text b))"
          using e l a1 bd b0 ipv6_loop_join_ellipsis [of "[]" a "join '':'' (map hex_text b)"] by simp
        also have "\<dots> = ipv6_finish (a @ b) (Some (length a))" using l False bd by (intro ipv6_loop_join) auto
        finally show ?thesis using ipv6_finish_parts [of a b len] l ps by simp
      qed
    qed
  qed
qed

lemma digit_in_hex: "is_hex c \<Longrightarrow> \<exists>d<16. digit_in c = Some d"
  by (auto simp: is_hex_def digit_in_def is_digit_def is_lower_def is_upper_def)

lemma hex_piece_bound:
  "hex_piece l a s = Some (l', a', r) \<Longrightarrow> l \<le> 4 \<Longrightarrow> a < 16 ^ l \<Longrightarrow> l' \<le> 4 \<and> a' < 16 ^ l'"
proof (induction l a s rule: hex_piece.induct)
  case (2 len acc c s)
  show ?case
  proof (cases "is_hex c")
    case True
    then obtain d where "d < 16" "digit_in c = Some d" using digit_in_hex by blast
    then show ?thesis using 2 True by (auto split: if_splits)
  qed (use 2 in auto)
qed auto

lemma piece_bound: "hex_piece 0 0 s = Some (l, a, r) \<Longrightarrow> a < 65536"
proof -
  assume "hex_piece 0 0 s = Some (l, a, r)"
  then have "l \<le> 4" "a < 16 ^ l" using hex_piece_bound [of 0 0 s l a r] by auto
  moreover then have "(16::nat) ^ l \<le> 16 ^ 4" by (intro power_increasing) auto
  ultimately show ?thesis by simp
qed

lemma ipv4_octet_bound: "ipv4_octet p = Some n \<Longrightarrow> n < 256"
  by (auto simp: ipv4_octet_def split: if_splits)

lemma ipv4_fields_bound: "ipv4_fields s = Some v \<Longrightarrow> length v = 2 \<and> (\<forall>p\<in>set v. p < 65536)"
proof -
  assume "ipv4_fields s = Some v"
  then obtain a b c d where v: "v = [a * 256 + b, c * 256 + d]"
    and m: "map ipv4_octet (split_byte CHR ''.'' s) = [Some a, Some b, Some c, Some d]"
    by (auto simp: ipv4_fields_def split: list.splits option.splits)
  have "Some x \<in> set (map ipv4_octet (split_byte CHR ''.'' s)) \<Longrightarrow> x < 256" for x
    by (auto dest: ipv4_octet_bound [OF sym])
  then have "a < 256" "b < 256" "c < 256" "d < 256" using m by auto
  then show ?thesis by (simp add: v)
qed

lemma ipv6_finish_pieces:
  "ipv6_finish ps el = Some qs \<Longrightarrow> length ps \<le> 8 \<Longrightarrow> \<forall>p\<in>set ps. p < 65536 \<Longrightarrow>
   length qs = 8 \<and> (\<forall>p\<in>set qs. p < 65536)"
  by (auto simp: ipv6_finish_def split: if_splits option.splits) (blast dest: in_set_takeD in_set_dropD)+

lemma ipv6_loop_pieces:
  "ipv6_loop ps el s = Some qs \<Longrightarrow> length ps \<le> 8 \<Longrightarrow> \<forall>p\<in>set ps. p < 65536 \<Longrightarrow>
   length qs = 8 \<and> (\<forall>p\<in>set qs. p < 65536)"
proof (induction ps el s rule: ipv6_loop.induct)
  case (1 ps el s)
  note run = "1.prems"(1) [unfolded ipv6_loop.simps [of ps]]
  show ?case
  proof (cases "length ps \<ge> 8")
    case True
    then show ?thesis using run "1.prems"(2,3) ipv6_finish_pieces by (auto split: if_splits)
  next
    case False
    obtain l a r where h: "hex_piece 0 0 s = Some (l, a, r)" using run False by (auto split: option.splits)
    then have a: "\<forall>p\<in>set (ps @ [a]). p < 65536" using piece_bound "1.prems"(3) by auto
    have l: "l \<noteq> 0" using run False h by (auto split: if_splits)
    show ?thesis
    proof (cases "r \<noteq> [] \<and> hd r = CHR ''.''")
      case True
      then obtain v where v: "ipv4_fields s = Some v" "ipv6_finish (ps @ v) el = Some qs" "length ps \<le> 6"
        using run False h l by (auto split: if_splits option.splits)
      then show ?thesis using ipv6_finish_pieces [OF v(2)] ipv4_fields_bound [OF v(1)] "1.prems"(3) by auto
    next
      case nodot: False
      show ?thesis
      proof (cases r)
        case Nil
        then have "ipv6_finish (ps @ [a]) el = Some qs" using run False h l by simp
        then show ?thesis using a False by (intro ipv6_finish_pieces) auto
      next
        case (Cons c r1)
        then have c: "c = CHR '':''" and r1: "r1 \<noteq> []" using run False h l nodot by (auto split: if_splits)
        then obtain d r2 where d: "r1 = d # r2" by (cases r1) auto
        show ?thesis
        proof (cases "d = CHR '':''")
          case False': False
          then have "ipv6_loop (ps @ [a]) el r1 = Some qs" using run False h l nodot Cons c d by auto
          then show ?thesis
            using "1.IH"(1) [OF False h refl refl l nodot Cons _ d False'] c a False by simp
        next
          case True
          then have el: "el = None" using run False h l nodot Cons c d by (auto split: if_splits)
          show ?thesis
          proof (cases "r2 = []")
            case True': True
            then have "ipv6_finish (ps @ [a]) (Some (Suc (length ps))) = Some qs"
              using run False h l nodot Cons c d True el by simp
            then show ?thesis using a False by (intro ipv6_finish_pieces) auto
          next
            case r2: False
            have "ipv6_loop (ps @ [a]) (Some (Suc (length ps))) r2 = Some qs"
              using run False h l nodot Cons c d True el r2 by auto
            then show ?thesis
              using "1.IH"(2) [OF False h refl refl l nodot Cons _ d _ _ r2] c a False True el by simp
          qed
        qed
      qed
    qed
  qed
qed

lemma parse_ipv6_pieces_wf:
  "parse_ipv6_pieces s = Some ps \<Longrightarrow> length ps = 8 \<and> (\<forall>p\<in>set ps. p < 65536)"
  using ipv6_loop_pieces [of "[]" _ _ ps] by (auto simp: parse_ipv6_pieces_def split: if_splits)

lemma ipv6_idem: "parse_whatwg_ipv6 s = Some t \<Longrightarrow> parse_whatwg_ipv6 (butlast (tl t)) = Some t"
  using parse_ipv6_pieces_wf ipv6_round_trip_pieces by (auto simp: parse_whatwg_ipv6_def)

subsection \<open>IPv4 texts read back\<close>

lemma parse_uint_loop_digits:
  "0 < b \<Longrightarrow> \<forall>c\<in>set s. \<exists>d<b. digit_in c = Some d \<Longrightarrow> nat_fold b a s \<le> max_uint64 \<Longrightarrow>
   parse_uint_loop b a s = Uint (nat_fold b a s)"
proof (induction s arbitrary: a)
  case (Cons c s)
  then obtain d where d: "d < b" "digit_in c = Some d" by auto
  have f: "nat_fold b a (c # s) = nat_fold b (a * b + d) s" using d by (simp add: nat_fold_def)
  then have le: "a * b + d \<le> max_uint64" using nat_fold_mono [of b "a * b + d" s] Cons.prems by simp
  then have "a \<le> max_uint64 div b" using Cons.prems(1) by (simp add: less_eq_div_iff_mult_less_eq)
  then show ?case using Cons d f le by simp
qed (simp add: nat_fold_def)

lemma parse_ipv4_number_text:
  assumes "n \<le> max_uint64"
  shows "parse_ipv4_number (nat_text n) = Some n"
proof (cases "n = 0")
  case True
  have "digit_in CHR ''0'' = Some 0" by code_simp
  then show ?thesis using True by (simp add: parse_ipv4_number_def parse_uint_def has_prefix_def max_uint64_def)
next
  case False
  have "parse_uint_loop 10 0 (nat_text n) = Uint (nat_fold 10 0 (nat_text n))"
    using assms nat_fold_text [of 10 n] digit_in_digit nat_text_digit
    by (intro parse_uint_loop_digits) (auto simp: nat_text_def)
  then have "parse_uint (nat_text n) 10 = Uint n"
    using nat_fold_text [of 10 n] by (simp add: parse_uint_def nat_text_def)
  then show ?thesis using nat_text_first [OF False]
    by (cases "nat_text n") (auto simp: parse_ipv4_number_def)
qed

definition dotted_bytes :: "nat list \<Rightarrow> string" where
  "dotted_bytes bs = join ''.'' (map nat_text bs)"

lemma dotted_parts:
  assumes "bs \<noteq> []"
  shows "ipv4_parts (dotted_bytes bs) = map nat_text bs"
proof -
  have nd: "CHR ''.'' \<notin> set (nat_text n)" for n
    using nat_text_digit [of "CHR ''.''" n] by (auto simp: is_digit_def bval_def)
  have "\<not> has_suffix (dotted_bytes bs) ''.''"
  proof
    assume "has_suffix (dotted_bytes bs) ''.''"
    then obtain r where r: "dotted_bytes bs = r @ ''.''" by (auto simp: has_suffix_iff)
    have "split_byte CHR ''.'' (r @ ''.'') = split_byte CHR ''.'' r @ [[]]"
      by (induction r) (auto split: list.splits)
    then have "last (split_byte CHR ''.'' (r @ ''.'')) = []" by simp
    moreover have "split_byte CHR ''.'' (r @ ''.'') = map nat_text bs"
      using assms nd by (simp add: r [symmetric] dotted_bytes_def split_byte_join)
    ultimately show False using assms by (simp add: last_map)
  qed
  then show ?thesis using assms nd by (simp add: ipv4_parts_def trim_suffix_def dotted_bytes_def split_byte_join)
qed

lemma ipv4_numbers_text:
  "\<forall>b\<in>set bs. b < 256 \<Longrightarrow> ipv4_numbers (map nat_text bs) = Some bs"
proof (induction bs)
  case (Cons b bs)
  then have "parse_ipv4_number (nat_text b) = Some b"
    by (intro parse_ipv4_number_text) (auto simp: max_uint64_def)
  then show ?case using Cons by auto
qed simp

lemma ipv4_bytes_sum:
  assumes "a < 256" "b < 256" "c < 256" "d < 256"
  shows "ipv4_bytes (ipv4_sum [a, b, c, d]) = [a, b, c, d]"
proof -
  define n where "n = ipv4_sum [a, b, c, d]"
  define x where "x = b + 256 * a"
  define y where "y = c + 256 * x"
  have n: "n = d + 256 * y" by (simp add: n_def ipv4_sum_def x_def y_def)
  have "n div 256 = y" "n mod 256 = d" using assms by (simp_all add: n)
  moreover have "y div 256 = x" "y mod 256 = c" using assms by (simp_all add: y_def)
  moreover have "x div 256 = a" "x mod 256 = b" using assms by (simp_all add: x_def)
  ultimately show ?thesis using assms
    by (simp add: ipv4_bytes_def n_def [symmetric] div_mult2_eq [of n 256 256, simplified]
        div_mult2_eq [of n 256 65536, simplified] div_mult2_eq [of "y" 256 256, simplified])
qed

lemma ipv4_idem:
  assumes "parse_whatwg_ipv4 s = Some t"
  shows "\<exists>a. t = dotted_bytes (ipv4_bytes a)" "parse_whatwg_ipv4 t = Some t"
proof -
  show "\<exists>a. t = dotted_bytes (ipv4_bytes a)"
    using assms by (auto simp: parse_whatwg_ipv4_def Let_def dotted_bytes_def split: if_splits option.splits)
  then obtain a where a: "t = dotted_bytes (ipv4_bytes a)" by blast
  obtain w x y z where bs: "ipv4_bytes a = [w, x, y, z]" "w < 256" "x < 256" "y < 256" "z < 256"
    by (simp add: ipv4_bytes_def)
  then show "parse_whatwg_ipv4 t = Some t"
    using ipv4_bytes_sum [of w x y z] ipv4_numbers_text [of "[w, x, y, z]"] dotted_parts [of "[w, x, y, z]"]
    by (simp add: a parse_whatwg_ipv4_def dotted_bytes_def)
qed

lemma digit_set: "is_digit c \<Longrightarrow> c \<in> set ''0123456789''"
proof -
  assume "is_digit c"
  then have "bval c \<in> set [48..<58]" unfolding set_upt atLeastLessThan_iff by (simp add: is_digit_def)
  then have "char_of (bval c) \<in> char_of ` set [48..<58]" by blast
  moreover have "char_of ` set [48..<58] = set ''0123456789''" by code_simp
  ultimately show ?thesis by (simp only: char_of_bval)
qed

lemma ends_in_a_number_text: "bs \<noteq> [] \<Longrightarrow> ends_in_a_number (dotted_bytes bs)"
proof -
  assume "bs \<noteq> []"
  moreover have "trim_set (nat_text n) ''0123456789'' = []" for n
  proof -
    have "\<forall>c\<in>set (nat_text n). c \<in> set ''0123456789''" using nat_text_digit digit_set by blast
    then have "trim_left (nat_text n) ''0123456789'' = []" unfolding trim_left_def dropWhile_eq_Nil_conv by blast
    then show ?thesis by (simp add: trim_set_def trim_right_def)
  qed
  ultimately show ?thesis by (simp add: ends_in_a_number_def dotted_parts last_map Let_def)
qed

subsection \<open>Canonical hosts are fixed points\<close>

lemma to_valid_utf8_ascii: "list_all is_ascii s \<Longrightarrow> length s \<le> k \<Longrightarrow> to_valid_utf8 k bad s = s"
  by (induction k bad s rule: to_valid_utf8.induct) auto

lemma percent_decode_id: "CHR ''%'' \<notin> set s \<Longrightarrow> percent_decode s = s"
  by (induction s rule: percent_decode.induct) auto

lemma percent_decode_utf8_id: "CHR ''%'' \<notin> set s \<Longrightarrow> list_all is_ascii s \<Longrightarrow> percent_decode_utf8 s = s"
  by (simp add: percent_decode_utf8_def Let_def percent_decode_id to_valid_utf8_ascii)

lemma runes_all_ascii: "list_all is_ascii s \<Longrightarrow> runes s = map bval s"
  by (induction s) (auto simp: decode_rune_def is_ascii_def Let_def)

lemma ascii_dotted: "c \<in> set (dotted_bytes bs) \<Longrightarrow> is_digit c \<or> c = CHR ''.''"
  using set_join [of "''.''" "map nat_text bs"] nat_text_digit by (fastforce simp: dotted_bytes_def)

lemma forbidden_digit: "is_digit c \<or> c = CHR ''.'' \<Longrightarrow> \<not> is_forbidden_domain_code_point (bval c) \<and> is_ascii c \<and> lower_char c = c \<and> c \<noteq> CHR ''%'' \<and> c \<noteq> CHR ''[''"
proof -
  assume "is_digit c \<or> c = CHR ''.''"
  then have "c \<in> set ''0123456789.''" using digit_set [of c] by auto
  moreover have "\<forall>c\<in>set ''0123456789.''. \<not> is_forbidden_domain_code_point (bval c) \<and>
      is_ascii c \<and> lower_char c = c \<and> c \<noteq> CHR ''%'' \<and> c \<noteq> CHR ''[''" by code_simp
  ultimately show ?thesis by blast
qed

definition plain_domain :: "string \<Rightarrow> bool" where
  "plain_domain d \<longleftrightarrow> list_all is_ascii d \<and> map lower_char d = d"

lemma parse_whatwg_host_domain:
  assumes "plain_domain d" "\<not> list_ex is_forbidden_domain_code_point (runes d)"
  shows "parse_whatwg_host ulow idna d = (if ends_in_a_number d then parse_whatwg_ipv4 d else Some d)"
proof -
  have nf: "\<forall>c\<in>set d. \<not> is_forbidden_domain_code_point (bval c)"
    using assms by (auto simp: plain_domain_def runes_all_ascii list_ex_iff)
  have f: "is_forbidden_domain_code_point (bval CHR ''%'')" "is_forbidden_domain_code_point (bval CHR ''['')"
    by (simp_all add: is_forbidden_domain_code_point_def)
  have "\<not> has_prefix d ''[''" using nf f(2) by (cases d) auto
  moreover have "percent_decode_utf8 d = d"
    using nf f(1) assms(1) by (intro percent_decode_utf8_id) (auto simp: plain_domain_def)
  ultimately show ?thesis using assms
    by (simp add: parse_whatwg_host_def domain_to_ascii_def plain_domain_def to_lower_def)
qed

lemma dotted_plain: "plain_domain (dotted_bytes bs) \<and> \<not> list_ex is_forbidden_domain_code_point (runes (dotted_bytes bs))"
proof -
  have a: "list_all is_ascii (dotted_bytes bs)" using ascii_dotted forbidden_digit by (force simp: list_all_iff)
  moreover have "map lower_char (dotted_bytes bs) = dotted_bytes bs"
    using ascii_dotted forbidden_digit by (intro map_idI) blast
  moreover have "\<not> list_ex is_forbidden_domain_code_point (runes (dotted_bytes bs))"
    using ascii_dotted [of _ bs] forbidden_digit by (force simp: runes_all_ascii [OF a] list_ex_iff)
  ultimately show ?thesis by (simp add: plain_domain_def)
qed

text \<open>A host in canonical form is its own canonical form, for every kind of host: the comparison
  of two canonical hosts does not depend on which of them was canonicalized again.\<close>

theorem parse_whatwg_host_idem:
  assumes idna: "\<And>d out. idna d = Some out \<Longrightarrow> list_all is_ascii out \<and> map lower_char out = out"
    and h: "parse_whatwg_host ulow idna s = Some h"
  shows "parse_whatwg_host ulow idna h = Some h"
proof (cases "has_prefix s ''[''")
  case True
  then obtain t where t: "parse_whatwg_ipv6 t = Some h" using h by (auto simp: parse_whatwg_host_def split: if_splits)
  then have "parse_whatwg_ipv6 (butlast (tl h)) = Some h" by (rule ipv6_idem)
  moreover obtain x where "h = ''['' @ x @ '']''" using t by (auto simp: parse_whatwg_ipv6_def)
  moreover from this have "has_suffix h '']''" unfolding has_suffix_iff by (intro exI [of _ "''['' @ x"]) simp
  ultimately show ?thesis by (simp add: parse_whatwg_host_def)
next
  case False
  then obtain d where d: "domain_to_ascii ulow idna (percent_decode_utf8 s) = Some d"
    "\<not> list_ex is_forbidden_domain_code_point (runes d)"
    "(if ends_in_a_number d then parse_whatwg_ipv4 d else Some d) = Some h"
    using h by (auto simp: parse_whatwg_host_def split: option.splits if_splits)
  have p: "plain_domain d" using d(1) idna
    by (auto simp: domain_to_ascii_def to_lower_def plain_domain_def list_all_iff split: if_splits option.splits)
  show ?thesis
  proof (cases "ends_in_a_number d")
    case True
    then have v: "parse_whatwg_ipv4 d = Some h" using d(3) by simp
    then obtain a where a: "h = dotted_bytes (ipv4_bytes a)" using ipv4_idem(1) by blast
    moreover have "ipv4_bytes a \<noteq> []" by (simp add: ipv4_bytes_def)
    ultimately show ?thesis
      using dotted_plain [of "ipv4_bytes a"] parse_whatwg_host_domain [of h ulow idna] ends_in_a_number_text ipv4_idem(2) [OF v] by simp
  next
    case False
    then show ?thesis using d p parse_whatwg_host_domain [of d ulow idna] by simp
  qed
qed

lemma parse_whatwg_host_idem_witness:
  "parse_whatwg_host id (\<lambda>d. None) ''[::a:1]'' = Some ''[::a:1]''"
proof (rule parse_whatwg_host_idem)
  show "parse_whatwg_host id (\<lambda>d. None) ''[0:0::00A:1]'' = Some ''[::a:1]''" by code_simp
qed simp


subsection \<open>What a trusted host can contain\<close>

lemma ascii_in_runes: "c \<in> set s \<Longrightarrow> is_ascii c \<Longrightarrow> bval c \<in> set (runes s)"
proof (induction s rule: runes.induct)
  case (2 d s)
  obtain r n where d: "decode_rune (d # s) = (r, n)" by (cases "decode_rune (d # s)")
  show ?case
  proof (cases "is_ascii d")
    case True
    then have "decode_rune (d # s) = (bval d, 1)" by (simp add: decode_rune_def is_ascii_def)
    then show ?thesis using 2 by auto
  next
    case False
    then have na: "\<forall>x\<in>set (take n (d # s)). \<not> is_ascii x"
      using d by (auto simp: decode_rune_def Let_def cont_def is_ascii_def split: if_splits list.splits)
    have "n \<ge> 1" using d by (auto simp: decode_rune_def Let_def split: if_splits list.splits)
    then have "d # s = take n (d # s) @ drop (n - 1) s" by (cases n) simp_all
    then have "c \<in> set (take n (d # s)) \<union> set (drop (n - 1) s)" using 2(2) by (metis set_append)
    then have "c \<in> set (drop (n - 1) s)" using na 2(3) by blast
    then show ?thesis using "2.IH" [OF d [symmetric] refl] 2(3) d by simp
  qed
qed simp

definition delimiter :: "char \<Rightarrow> bool" where
  "delimiter c \<longleftrightarrow> bval c \<le> 0x20 \<or> bval c = 0x7F \<or> c \<in> set (''#%/<>?@'' @ [CHR 0x5C] @ ''^|'')"

lemma delimiter_forbidden: "delimiter c \<Longrightarrow> is_forbidden_domain_code_point (bval c) \<and> is_ascii c"
  by (auto simp: delimiter_def is_forbidden_domain_code_point_def is_ascii_def bval_def)

lemma not_delimiter: "is_hex c \<or> is_digit c \<or> c \<in> set ''[]:.'' \<Longrightarrow> \<not> delimiter c"
  by (auto simp: delimiter_def is_hex_def is_digit_def bval_def)

lemma parse_whatwg_host_clean:
  assumes "parse_whatwg_host ulow idna s = Some h" "c \<in> set h"
  shows "\<not> delimiter c"
proof (cases "has_prefix s ''[''")
  case True
  then obtain ps where "h = ''['' @ ipv6_text ps @ '']''"
    using assms(1) by (auto simp: parse_whatwg_host_def parse_whatwg_ipv6_def split: if_splits)
  then have "is_hex c \<or> c \<in> set ''[]:''" using assms(2) ipv6_text_chars by fastforce
  then show ?thesis by (intro not_delimiter) auto
next
  case False
  then obtain d where d: "\<not> list_ex is_forbidden_domain_code_point (runes d)"
    "(if ends_in_a_number d then parse_whatwg_ipv4 d else Some d) = Some h"
    using assms(1) by (auto simp: parse_whatwg_host_def split: option.splits if_splits)
  show ?thesis
  proof (cases "ends_in_a_number d")
    case True
    then obtain a where "h = dotted_bytes (ipv4_bytes a)" using d(2) ipv4_idem(1) by auto
    then show ?thesis using assms(2) ascii_dotted by (intro not_delimiter) fastforce
  next
    case False
    then have "h = d" using d(2) by simp
    then show ?thesis
      using assms(2) d(1) delimiter_forbidden [of c] ascii_in_runes [of c d] by (auto simp: list_ex_iff)
  qed
qed

lemma parse_whatwg_port_digits: "parse_whatwg_port s d = Some p \<Longrightarrow> c \<in> set p \<Longrightarrow> is_digit c"
proof -
  assume p: "parse_whatwg_port s d = Some p" and c: "c \<in> set p"
  then obtain n where n: "p = base_text 10 n" "0 \<le> n"
  proof -
    have "0 \<le> base_value 10 s" if "list_all is_digit s" for s
      using that by (induction s rule: rev_induct) (auto simp: base_value_def digit_val_def is_digit_def)
    then show thesis using p c that by (auto simp: parse_whatwg_port_def Let_def split: if_splits)
  qed
  then show ?thesis using base_text_digits [of 10 n c] c is_digit_digit_char by auto
qed

text \<open>The host that an authority names carries no delimiter of a URL: no space or control
  character, no slash, backslash, question mark, number sign, at sign or percent sign. What is
  compared with the trusted hosts can hide neither a path nor a user name.\<close>

theorem parse_https_authority_clean:
  assumes "parse_https_authority ulow idna a = Some h" "c \<in> set h"
  shows "\<not> delimiter c"
proof -
  obtain hp where "whatwg_host ulow idna hp ''443'' = Some h"
    using assms(1) by (auto simp: parse_https_authority_def Let_def split: if_splits option.splits prod.splits)
  then obtain x p where x: "split_whatwg_host_port ulow idna hp ''443'' = Some (x, p)" "h = x \<or> h = x @ '':'' @ p"
    by (auto simp: whatwg_host_def split: if_splits)
  then obtain s q where "parse_whatwg_host ulow idna s = Some x" "parse_whatwg_port q ''443'' = Some p"
    by (auto simp: split_whatwg_host_port_def Let_def split: if_splits option.splits prod.splits)
  then have "\<forall>c\<in>set x. \<not> delimiter c" "\<forall>c\<in>set p. is_digit c"
    using parse_whatwg_host_clean parse_whatwg_port_digits by blast+
  then show ?thesis using x(2) assms(2) not_delimiter by auto
qed

lemma parse_https_authority_clean_witness: "\<not> delimiter CHR ''['' "
  by (rule parse_https_authority_clean [of id "\<lambda>d. None" "'':@[0:0::00A:1]:443/./%2e''" "''[::a:1]''"]; (code_simp | simp))

lemma parse_uint_loop_append:
  "0 < b \<Longrightarrow> \<forall>c\<in>set s. \<exists>d<b. digit_in c = Some d \<Longrightarrow> nat_fold b a s \<le> max_uint64 \<Longrightarrow>
   parse_uint_loop b a (s @ t) = parse_uint_loop b (nat_fold b a s) t"
proof (induction s arbitrary: a)
  case (Cons c s)
  then obtain d where d: "d < b" "digit_in c = Some d" by auto
  have f: "nat_fold b a (c # s) = nat_fold b (a * b + d) s" using d by (simp add: nat_fold_def)
  then have le: "a * b + d \<le> max_uint64" using nat_fold_mono [of b "a * b + d" s] Cons.prems by simp
  then have "a \<le> max_uint64 div b" using Cons.prems(1) by (simp add: less_eq_div_iff_mult_less_eq)
  then show ?case using Cons d f le by simp
qed (simp add: nat_fold_def)

text \<open>The comment in \<open>parseIPv4Number\<close> takes every digit to be valid when the value is out of range, but
  \<open>ParseUint\<close> stops at the overflow: a last label of twenty nines and a letter counts as a number,
  and its domain is refused, where a shorter one is a domain.\<close>

lemma overflowing_label_refused:
  "parse_ipv4_number ''99999999999999999999z'' = Some max_uint64 \<and> parse_ipv4_number ''9z'' = None"
proof
  have d: "digit_in CHR ''9'' = Some 9" by code_simp
  have f: "nat_fold 10 0 ''9999999999999999999'' = 9999999999999999999"
    by (simp add: nat_fold_def d)
  have "parse_uint_loop 10 0 (''9999999999999999999'' @ ''9z'') = parse_uint_loop 10 9999999999999999999 ''9z''"
    using d f by (subst parse_uint_loop_append) (auto simp: max_uint64_def)
  also have "\<dots> = UintRange" by (simp add: d max_uint64_def)
  finally have "parse_uint ''99999999999999999999z'' 10 = UintRange"
    by (simp add: parse_uint_def del: parse_uint_loop.simps)
  then show "parse_ipv4_number ''99999999999999999999z'' = Some max_uint64"
    by (simp add: parse_ipv4_number_def)
  have "digit_in CHR ''z'' = Some 35" by code_simp
  then show "parse_ipv4_number ''9z'' = None"
    by (simp add: parse_ipv4_number_def parse_uint_def d max_uint64_def)
qed

end
