(* ===== verification/AuthPolicy.thy ===== *)
theory AuthPolicy
  imports Whatwg
begin

text \<open>
  \<open>internal/oci/authpolicy.go\<close>: which realms a registry may send a token request to, and the HTTP
  transport that enforces it. The requests of one command share the policy and the set of token
  endpoints; \<open>RoundTrip\<close> reads the set before the request and the rest of it runs after the response,
  each under a mutex, so \<open>transport_step\<close> has these two as its steps and lets any requests interleave.

  The parameters of \<open>net_env\<close> stand for code outside the repository: \<open>ulow\<close> and \<open>ueq\<close>, the case
  mapping and folding of text that is not ASCII, \<open>idna\<close> of theory Whatwg, and \<open>url_parse\<close>, the
  scheme, host and path that \<open>net/url\<close> reads.
\<close>

record url =
  u_scheme :: string
  u_host :: string
  u_path :: string

record net_env =
  ulow :: "string \<Rightarrow> string"
  ueq :: "string \<Rightarrow> string \<Rightarrow> bool"
  idna :: "string \<Rightarrow> string option"
  url_parse :: "string \<Rightarrow> url option"

definition fold_equal :: "net_env \<Rightarrow> string \<Rightarrow> string \<Rightarrow> bool" where
  "fold_equal E s t = (if list_all is_ascii s \<and> list_all is_ascii t then map lower_char s = map lower_char t
     else ueq E s t)"

abbreviation lowered :: "net_env \<Rightarrow> string \<Rightarrow> string" where
  "lowered E \<equiv> to_lower (ulow E)"

subsection \<open>The policy\<close>

record auth_diagnostics =
  auth_lookup_would_be_blocked :: bool
  registry_redirect_would_prevent_forwarding :: bool
  auth_server_redirect :: bool

definition no_diagnostics :: auth_diagnostics where
  "no_diagnostics = \<lparr>auth_lookup_would_be_blocked = False, registry_redirect_would_prevent_forwarding = False,
     auth_server_redirect = False\<rparr>"

text \<open>\<open>cross_origin\<close> holds the pairs of a registry and an auth host trusted for it; \<open>log_lines\<close> what was
  written, each line with the logger it went to.\<close>

record auth_policy =
  is_hardened :: bool
  cross_origin :: "(string \<times> string) list"
  logger :: nat
  diag :: auth_diagnostics
  log_lines :: "(nat \<times> string) list"

definition built_in_cross_origin_auth_hosts :: "string list" where
  "built_in_cross_origin_auth_hosts =
     [''registry-1.docker.io=auth.docker.io'', ''registry.docker.io=auth.docker.io'', ''docker.io=auth.docker.io'',
      ''index.docker.io=auth.docker.io'', ''registry.gitlab.com=gitlab.com'']"

definition docker_hub_registry_hosts :: "string list" where
  "docker_hub_registry_hosts = [''registry-1.docker.io'', ''registry.docker.io'', ''docker.io'', ''index.docker.io'']"

datatype host_error = InvalidCrossOriginHost string | InvalidAuthority string

definition normalize_https_authority :: "net_env \<Rightarrow> string \<Rightarrow> (host_error, string) res" where
  "normalize_https_authority E authority =
     (case parse_https_authority (ulow E) (idna E) authority of
        None \<Rightarrow> Inl (InvalidAuthority authority) | Some h \<Rightarrow> Inr (lowered E h))"

definition parse_cross_origin_entry :: "net_env \<Rightarrow> string \<Rightarrow> (host_error, string \<times> string) res" where
  "parse_cross_origin_entry E entry =
     (case index_byte CHR ''='' entry of
        None \<Rightarrow> Inl (InvalidCrossOriginHost entry)
      | Some sep \<Rightarrow>
          if sep = 0 \<or> last_index_byte CHR ''='' entry \<noteq> Some sep \<or> sep = length entry - 1
          then Inl (InvalidCrossOriginHost entry)
          else bind_res (normalize_https_authority E (take sep entry)) (\<lambda>registry.
            bind_res (normalize_https_authority E (drop (sep + 1) entry)) (\<lambda>auth_host.
              Inr (registry, auth_host))))"

definition parse_cross_origin_auth_hosts :: "net_env \<Rightarrow> string list \<Rightarrow> (host_error, (string \<times> string) list) res" where
  "parse_cross_origin_auth_hosts E entries = traverse (parse_cross_origin_entry E) entries"

definition null_logger :: nat where "null_logger = 0"

definition new_auth_policy :: "net_env \<Rightarrow> bool \<Rightarrow> string list \<Rightarrow> nat option \<Rightarrow> (host_error, auth_policy) res" where
  "new_auth_policy E hardening allowed l =
     bind_res (parse_cross_origin_auth_hosts E (built_in_cross_origin_auth_hosts @ allowed)) (\<lambda>hosts.
       Inr \<lparr>is_hardened = hardening, cross_origin = hosts, logger = (case l of None \<Rightarrow> null_logger | Some i \<Rightarrow> i),
            diag = no_diagnostics, log_lines = []\<rparr>)"

text \<open>\<open>Inl\<close> is the panic.\<close>

definition default_auth_policy :: "net_env \<Rightarrow> (host_error, auth_policy) res" where
  "default_auth_policy E = new_auth_policy E False [] (Some null_logger)"

text \<open>A nil policy or logger is \<open>None\<close>.\<close>

definition set_logger :: "nat option \<Rightarrow> auth_policy option \<Rightarrow> auth_policy option" where
  "set_logger l p = (case (l, p) of (Some i, Some q) \<Rightarrow> Some (q\<lparr>logger := i\<rparr>) | _ \<Rightarrow> p)"

definition hardening :: "auth_policy option \<Rightarrow> bool" where
  "hardening p = (case p of None \<Rightarrow> False | Some q \<Rightarrow> is_hardened q)"

definition diagnostics :: "auth_policy option \<Rightarrow> auth_diagnostics" where
  "diagnostics p = (case p of None \<Rightarrow> no_diagnostics | Some q \<Rightarrow> diag q)"

text \<open>\<open>record\<close>, for the field that \<open>get\<close> reads and \<open>put\<close> sets.\<close>

definition record_diag ::
  "(auth_diagnostics \<Rightarrow> bool) \<Rightarrow> (auth_diagnostics \<Rightarrow> auth_diagnostics) \<Rightarrow> string \<Rightarrow> auth_policy \<Rightarrow> auth_policy" where
  "record_diag get put message p =
     (if get (diag p) then p
      else p\<lparr>diag := put (diag p),
             log_lines := log_lines p @ [(logger p, ''[httpOci] OCI auth diagnostics: '' @ message)]\<rparr>)"

subsection \<open>Origins\<close>

definition default_port :: "net_env \<Rightarrow> string \<Rightarrow> string" where
  "default_port E s = (if lowered E s = ''https'' then ''443'' else if lowered E s = ''http'' then ''80'' else [])"

definition url_host :: "net_env \<Rightarrow> url \<Rightarrow> string option" where
  "url_host E u = whatwg_host (ulow E) (idna E) (u_host u) (default_port E (u_scheme u))"

text \<open>\<open>net/url\<close>'s \<open>Hostname\<close> and \<open>Port\<close>.\<close>

definition split_host_port :: "string \<Rightarrow> string \<times> string" where
  "split_host_port hp =
     (let (h, p) = (case last_index_byte CHR '':'' hp of
            Some i \<Rightarrow> (if list_all is_digit (drop (i + 1) hp) then (take i hp, drop (i + 1) hp) else (hp, []))
          | None \<Rightarrow> (hp, [])) in
      (if has_prefix h ''['' \<and> has_suffix h '']'' then butlast (tl h) else h, p))"

definition canonical_authority :: "net_env \<Rightarrow> url \<Rightarrow> string" where
  "canonical_authority E u =
     (let (h, p) = split_host_port (u_host u) in
      lowered E h @ '':'' @ (if p = [] then default_port E (u_scheme u) else p))"

definition same_origin :: "net_env \<Rightarrow> url \<Rightarrow> url \<Rightarrow> bool" where
  "same_origin E a b \<longleftrightarrow> fold_equal E (u_scheme a) (u_scheme b) \<and>
     fold_equal E (canonical_authority E a) (canonical_authority E b)"

definition is_registry_origin :: "net_env \<Rightarrow> url \<Rightarrow> url \<Rightarrow> bool" where
  "is_registry_origin E u registry \<longleftrightarrow> same_origin E u registry \<or>
     equal_fold (u_scheme u) ''https'' \<and> equal_fold (u_scheme registry) ''https'' \<and>
     lowered E (u_host u) \<in> set docker_hub_registry_hosts \<and>
     lowered E (u_host registry) \<in> set docker_hub_registry_hosts"

definition is_allowed_same_authority_realm :: "string \<Rightarrow> string \<Rightarrow> string \<Rightarrow> bool" where
  "is_allowed_same_authority_realm realm_scheme realm_host registry_host \<longleftrightarrow>
     realm_host = registry_host \<and>
     (equal_fold realm_scheme ''https'' \<or>
      equal_fold realm_scheme ''http'' \<and> fst (cut_byte CHR '':'' realm_host) = ''localhost'')"

definition allows_token_service_realm :: "net_env \<Rightarrow> auth_policy \<Rightarrow> url \<Rightarrow> url \<Rightarrow> bool" where
  "allows_token_service_realm E p realm registry =
     (case (url_host E realm, url_host E registry) of
        (Some realm_host, Some registry_host) \<Rightarrow>
          is_allowed_same_authority_realm (u_scheme realm) realm_host registry_host
          \<or> equal_fold (u_scheme realm) ''https'' \<and> (registry_host, realm_host) \<in> set (cross_origin p)
      | _ \<Rightarrow> False)"

definition origin_of :: "net_env \<Rightarrow> url \<Rightarrow> string" where
  "origin_of E u = lowered E (u_scheme u @ ''://'' @ u_host u)"

text \<open>The realm of a Bearer challenge, empty when there is none.\<close>

fun find_realm :: "string list \<Rightarrow> string" where
  "find_realm [] = []"
| "find_realm (part # parts) =
     (case cut_byte CHR ''='' (trim_space part) of (k, v, ok) \<Rightarrow>
        if \<not> ok \<or> \<not> equal_fold (trim_space k) ''realm'' then find_realm parts
        else trim_set (trim_space v) [CHR 0x22])"

definition bearer_realm :: "string \<Rightarrow> string" where
  "bearer_realm challenge =
     (case cut_byte CHR '' '' (trim_space challenge) of (sch, params, found) \<Rightarrow>
        if challenge = [] \<or> \<not> found \<or> \<not> equal_fold sch ''Bearer'' then []
        else find_realm (split_byte CHR '','' params))"

subsection \<open>The transport\<close>

record transport =
  t_policy :: auth_policy
  t_registry :: url
  token_endpoints :: "string list"

definition new_auth_policy_transport :: "auth_policy \<Rightarrow> string \<Rightarrow> string \<Rightarrow> transport" where
  "new_auth_policy_transport p registry_scheme registry_host =
     \<lparr>t_policy = p, t_registry = \<lparr>u_scheme = registry_scheme, u_host = registry_host, u_path = []\<rparr>,
      token_endpoints = []\<rparr>"

definition endpoint_key :: "net_env \<Rightarrow> url \<Rightarrow> string" where
  "endpoint_key E u = lowered E (u_scheme u @ ''://'' @ u_host u) @ u_path u"

definition is_token_endpoint :: "net_env \<Rightarrow> transport \<Rightarrow> url \<Rightarrow> bool" where
  "is_token_endpoint E t u \<longleftrightarrow> endpoint_key E u \<in> set (token_endpoints t)"

definition add_token_endpoint :: "net_env \<Rightarrow> url \<Rightarrow> transport \<Rightarrow> transport" where
  "add_token_endpoint E u t = t\<lparr>token_endpoints := List.insert (endpoint_key E u) (token_endpoints t)\<rparr>"

text \<open>\<open>location\<close> is the result of \<open>resp.Location()\<close>, \<open>None\<close> its error.\<close>

record response =
  status :: int
  location :: "url option"
  www_authenticate :: string

datatype auth_error =
    BaseError string
  | TokenRedirected string string
  | UnparsableRealm string string
  | UntrustedRealm string string string

definition note_diag ::
  "(auth_diagnostics \<Rightarrow> bool) \<Rightarrow> (auth_diagnostics \<Rightarrow> auth_diagnostics) \<Rightarrow> string \<Rightarrow> transport \<Rightarrow> transport" where
  "note_diag get put message t = t\<lparr>t_policy := record_diag get put message (t_policy t)\<rparr>"

text \<open>The texts of the log lines and of the hint.\<close>

definition redirect_message :: "net_env \<Rightarrow> url \<Rightarrow> url \<Rightarrow> string" where
  "redirect_message E req loc =
     ''Authentication server redirected a token request '' @
     (if same_origin E req loc then ''within origin '' @ sq @ origin_of E req @ sq
      else ''from origin '' @ sq @ origin_of E req @ sq @ '' to '' @ sq @ origin_of E loc @ sq) @ ''.''"

definition forwarding_message :: "url \<Rightarrow> url \<Rightarrow> string" where
  "forwarding_message req registry =
     ''Request to '' @ sq @ u_host req @ sq @ '' with authentication challenge from '' @ sq @ u_host req
     @ sq @ '' would prevent forwarding registry '' @ sq @ u_host registry @ sq
     @ '' credentials with OCI auth hardening.''"

definition blocked_message :: "net_env \<Rightarrow> url \<Rightarrow> url \<Rightarrow> string" where
  "blocked_message E req realm =
     ''Authentication lookup from registry '' @ sq @ u_host req @ sq @ '' to realm origin '' @ sq
     @ origin_of E realm @ sq @ '' would be blocked by OCI auth hardening.''"

definition trust_hint :: "url \<Rightarrow> url \<Rightarrow> string" where
  "trust_hint req realm =
     (if equal_fold (u_scheme realm) ''https''
      then '' Use '' @ sq @ ''--allow-cross-origin-auth-host '' @ u_host req @ ''='' @ u_host realm @ sq
           @ '' to trust this registry-to-auth-host mapping.'' else [])"

definition inspect_token_response ::
  "net_env \<Rightarrow> url \<Rightarrow> response \<Rightarrow> transport \<Rightarrow> (auth_error, response) res \<times> transport" where
  "inspect_token_response E req resp t =
     (if status resp < 300 \<or> status resp > 399 then (Inr resp, t)
      else (case location resp of
          None \<Rightarrow> (Inr resp, t)
        | Some loc \<Rightarrow>
            if hardening (Some (t_policy t)) then (Inl (TokenRedirected (u_host req) (u_host loc)), t)
            else (Inr resp, add_token_endpoint E loc
                   (note_diag auth_server_redirect (auth_server_redirect_update (\<lambda>_. True)) (redirect_message E req loc) t))))"

text \<open>\<open>inspectRegistryResponse\<close>: first the forwarding diagnostic, then the realm of the challenge.\<close>

definition note_forwarding :: "net_env \<Rightarrow> url \<Rightarrow> transport \<Rightarrow> transport" where
  "note_forwarding E req t =
     (if is_registry_origin E req (t_registry t) then t
      else note_diag registry_redirect_would_prevent_forwarding
             (registry_redirect_would_prevent_forwarding_update (\<lambda>_. True)) (forwarding_message req (t_registry t)) t)"

definition note_blocked :: "net_env \<Rightarrow> url \<Rightarrow> url \<Rightarrow> transport \<Rightarrow> transport" where
  "note_blocked E req realm t =
     note_diag auth_lookup_would_be_blocked (auth_lookup_would_be_blocked_update (\<lambda>_. True)) (blocked_message E req realm) t"

definition inspect_realm ::
  "net_env \<Rightarrow> url \<Rightarrow> response \<Rightarrow> string \<Rightarrow> transport \<Rightarrow> (auth_error, response) res \<times> transport" where
  "inspect_realm E req resp realm t =
     (case url_parse E realm of
        Some r \<Rightarrow>
          if u_host r = [] then
            (if hardening (Some (t_policy t)) then (Inl (UnparsableRealm (u_host req) realm), t) else (Inr resp, t))
          else if allows_token_service_realm E (t_policy t) r req then (Inr resp, add_token_endpoint E r t)
          else (let t2 = note_blocked E req r t in
            if \<not> hardening (Some (t_policy t2)) then (Inr resp, add_token_endpoint E r t2)
            else (Inl (UntrustedRealm (u_host req) realm (trust_hint req r)), t2))
      | None \<Rightarrow>
          (if hardening (Some (t_policy t)) then (Inl (UnparsableRealm (u_host req) realm), t) else (Inr resp, t)))"

definition inspect_registry_response ::
  "net_env \<Rightarrow> url \<Rightarrow> response \<Rightarrow> transport \<Rightarrow> (auth_error, response) res \<times> transport" where
  "inspect_registry_response E req resp t =
     (if status resp \<noteq> 401 \<and> status resp \<noteq> 403 then (Inr resp, t)
      else (let t1 = note_forwarding E req t; realm = bearer_realm (www_authenticate resp) in
        if realm = [] then (Inr resp, t1) else inspect_realm E req resp realm t1))"

text \<open>\<open>RoundTrip\<close> after the request is classified and the base transport has answered.\<close>

definition finish_round_trip ::
  "net_env \<Rightarrow> bool \<Rightarrow> url \<Rightarrow> (string, response) res \<Rightarrow> transport \<Rightarrow> (auth_error, response) res \<times> transport" where
  "finish_round_trip E token_request req answer t =
     (case answer of
        Inl e \<Rightarrow> (Inl (BaseError e), t)
      | Inr resp \<Rightarrow> if token_request then inspect_token_response E req resp t
                    else inspect_registry_response E req resp t)"

definition round_trip ::
  "net_env \<Rightarrow> url \<Rightarrow> (string, response) res \<Rightarrow> transport \<Rightarrow> (auth_error, response) res \<times> transport" where
  "round_trip E req answer t = finish_round_trip E (is_token_endpoint E t req) req answer t"

text \<open>Requests in flight, each with its classification, and what \<open>RoundTrip\<close> returned for each that
  finished.\<close>

record traffic =
  shared :: transport
  in_flight :: "(url \<times> bool) list"
  results :: "((url \<times> bool) \<times> (auth_error, response) res) list"

inductive transport_step :: "net_env \<Rightarrow> traffic \<Rightarrow> traffic \<Rightarrow> bool" for E where
  send: "transport_step E s (s\<lparr>in_flight := (req, is_token_endpoint E (shared s) req) # in_flight s\<rparr>)"
| answered: "in_flight s = xs @ (req, b) # ys \<Longrightarrow> finish_round_trip E b req a (shared s) = (r, t) \<Longrightarrow>
     transport_step E s (s\<lparr>shared := t, in_flight := xs @ ys, results := results s @ [((req, b), r)]\<rparr>)"

definition start_traffic :: "auth_policy \<Rightarrow> string \<Rightarrow> string \<Rightarrow> traffic" where
  "start_traffic p sch h = \<lparr>shared = new_auth_policy_transport p sch h, in_flight = [], results = []\<rparr>"

subsection \<open>The default policy\<close>

lemma parse_https_authority_plain:
  assumes "plain_domain h" "\<not> list_ex is_forbidden_domain_code_point (runes h)" "h \<noteq> []" "\<not> ends_in_a_number h"
  shows "parse_https_authority u i h = Some h"
proof -
  have nf: "c \<in> set h \<Longrightarrow> \<not> is_forbidden_domain_code_point (bval c)" for c
    using assms(1,2) by (auto simp: plain_domain_def runes_all_ascii list_ex_iff)
  have c: "c \<in> set h \<Longrightarrow> \<not> bval c \<le> 0x20 \<and> \<not> path_slash c \<and> c \<notin> set ''?#@:[]''" for c
    using nf [of c] by (auto simp: is_forbidden_domain_code_point_def path_slash_def bval_def)
  have "dropWhile (\<lambda>c. bval c \<le> 0x20) (rev h) = rev h" using c by (cases h rule: rev_cases) auto
  moreover have "filter (\<lambda>c. bval c \<notin> {9, 10, 13}) h = h" using c by (fastforce simp: filter_id_conv)
  moreover have "dropWhile path_slash h = h" using c assms(3) by (cases h) auto
  moreover have "index_where (\<lambda>c. path_slash c \<or> c = CHR ''?'' \<or> c = CHR ''#'') h = None"
    using c by (auto simp: index_where_None)
  moreover have "last_index_byte CHR ''@'' h = None" using c by (auto simp: last_index_byte_None)
  moreover have "resolves_to_root_path u []"
    by (simp add: resolves_to_root_path_def is_double_dot_segment_def is_single_dot_segment_def to_lower_def fold_spellings_def)
  moreover have "port_colon b h = None" if "\<forall>x\<in>set h. x \<notin> set '':[]''" for b h
    using that by (induction h arbitrary: b) auto
  then have "port_colon False h = None" using c by auto
  moreover have "parse_whatwg_host u i h = Some h" using parse_whatwg_host_domain [OF assms(1,2)] assms(4) by simp
  ultimately show ?thesis using assms(3)
    by (simp add: parse_https_authority_def whatwg_host_def split_whatwg_host_port_def parse_whatwg_port_def)
qed

definition plain_host :: "string \<Rightarrow> bool" where
  "plain_host h \<longleftrightarrow> plain_domain h \<and> \<not> list_ex is_forbidden_domain_code_point (runes h) \<and> h \<noteq> [] \<and> \<not> ends_in_a_number h"

lemma normalize_plain_host: "plain_host h \<Longrightarrow> normalize_https_authority E h = Inr h"
  using parse_https_authority_plain [of h]
  by (simp add: normalize_https_authority_def plain_host_def plain_domain_def to_lower_def)

lemma parse_plain_entry:
  assumes "plain_host a" "plain_host b" "CHR ''='' \<notin> set a" "CHR ''='' \<notin> set b"
  shows "parse_cross_origin_entry E (a @ ''='' @ b) = Inr (a, b)"
proof -
  have "a \<noteq> []" "b \<noteq> []" using assms by (auto simp: plain_host_def)
  then show ?thesis using assms index_byte_append [of "CHR ''=''" a b] last_index_byte_append [of "CHR ''=''" b a]
    by (simp add: parse_cross_origin_entry_def normalize_plain_host)
qed

text \<open>The built-in mappings, as the pairs of a registry and its auth host.\<close>

definition built_in_pairs :: "(string \<times> string) list" where
  "built_in_pairs = map (\<lambda>r. (r, ''auth.docker.io''))
     [''registry-1.docker.io'', ''registry.docker.io'', ''docker.io'', ''index.docker.io'']
     @ [(''registry.gitlab.com'', ''gitlab.com'')]"

definition plain_pair :: "string \<times> string \<Rightarrow> bool" where
  "plain_pair p \<longleftrightarrow> plain_host (fst p) \<and> plain_host (snd p) \<and> CHR ''='' \<notin> set (fst p) \<and> CHR ''='' \<notin> set (snd p)"

lemma parse_plain_entries:
  "list_all plain_pair ps \<Longrightarrow> parse_cross_origin_auth_hosts E (map (\<lambda>(a, b). a @ ''='' @ b) ps @ es) =
    bind_res (parse_cross_origin_auth_hosts E es) (\<lambda>hs. Inr (ps @ hs))"
proof (induction ps)
  case Nil
  then show ?case by (cases "parse_cross_origin_auth_hosts E es") (auto simp: bind_res_def)
next
  case (Cons p ps)
  then show ?case
    by (cases p; cases "parse_cross_origin_auth_hosts E es")
       (simp_all add: parse_cross_origin_auth_hosts_def parse_plain_entry [simplified] plain_pair_def bind_res_def)
qed

lemma built_in_entries: "built_in_cross_origin_auth_hosts = map (\<lambda>(a, b). a @ ''='' @ b) built_in_pairs"
  by (simp add: built_in_cross_origin_auth_hosts_def built_in_pairs_def)

lemma built_in_plain: "list_all plain_pair built_in_pairs"
  by code_simp

text \<open>A policy is built exactly when the hosts of the flags parse, and then trusts the built-in
  mappings and theirs; the default policy, with no flags, is always built and does not panic.\<close>

theorem new_auth_policy_hosts:
  "new_auth_policy E h allowed l = bind_res (parse_cross_origin_auth_hosts E allowed) (\<lambda>hosts.
     Inr \<lparr>is_hardened = h, cross_origin = built_in_pairs @ hosts,
          logger = (case l of None \<Rightarrow> null_logger | Some i \<Rightarrow> i), diag = no_diagnostics, log_lines = []\<rparr>)
   \<and> default_auth_policy E = Inr \<lparr>is_hardened = False, cross_origin = built_in_pairs, logger = null_logger,
          diag = no_diagnostics, log_lines = []\<rparr>"
proof -
  have n: "new_auth_policy E h allowed l = bind_res (parse_cross_origin_auth_hosts E allowed) (\<lambda>hosts.
     Inr \<lparr>is_hardened = h, cross_origin = built_in_pairs @ hosts,
          logger = (case l of None \<Rightarrow> null_logger | Some i \<Rightarrow> i), diag = no_diagnostics, log_lines = []\<rparr>)" for h allowed l
    using parse_plain_entries [OF built_in_plain, of E allowed]
    by (cases "parse_cross_origin_auth_hosts E allowed")
       (simp_all add: new_auth_policy_def built_in_entries bind_res_def)
  have "parse_cross_origin_auth_hosts E [] = Inr []" by (simp add: parse_cross_origin_auth_hosts_def)
  then show ?thesis by (simp add: n default_auth_policy_def)
qed

subsection \<open>Invariants of the transport\<close>

lemma record_diag_frame [simp]:
  "is_hardened (record_diag g u m p) = is_hardened p" "cross_origin (record_diag g u m p) = cross_origin p"
  by (simp_all add: record_diag_def)

lemma note_diag_frame [simp]:
  "token_endpoints (note_diag g u m t) = token_endpoints t" "t_registry (note_diag g u m t) = t_registry t"
  "is_hardened (t_policy (note_diag g u m t)) = is_hardened (t_policy t)"
  "cross_origin (t_policy (note_diag g u m t)) = cross_origin (t_policy t)"
  by (simp_all add: note_diag_def)

lemma add_token_endpoint_frame [simp]:
  "t_policy (add_token_endpoint E u t) = t_policy t" "t_registry (add_token_endpoint E u t) = t_registry t"
  "set (token_endpoints (add_token_endpoint E u t)) = insert (endpoint_key E u) (set (token_endpoints t))"
  by (simp_all add: add_token_endpoint_def)

lemma allows_frame:
  "cross_origin p = cross_origin q \<Longrightarrow> allows_token_service_realm E p r u = allows_token_service_realm E q r u"
  by (simp add: allows_token_service_realm_def split: option.split)

lemma hardening_Some [simp]: "hardening (Some p) = is_hardened p"
  by (simp add: hardening_def)

text \<open>When a challenge's realm is trusted for the host that was asked: over HTTPS it is that host itself,
  or one the policy pairs with it; over HTTP it is that host, on localhost.\<close>

definition trusted_realm :: "net_env \<Rightarrow> auth_policy \<Rightarrow> url \<Rightarrow> url \<Rightarrow> bool" where
  "trusted_realm E p realm asked \<longleftrightarrow> (\<exists>h g. url_host E realm = Some h \<and> url_host E asked = Some g \<and>
     (equal_fold (u_scheme realm) ''https'' \<and> (h = g \<or> (g, h) \<in> set (cross_origin p)) \<or>
      equal_fold (u_scheme realm) ''http'' \<and> h = g \<and> takeWhile (\<lambda>c. c \<noteq> CHR '':'') h = ''localhost''))"

text \<open>An exchange of a registry request that was answered by a challenge to the endpoint \<open>k\<close>.\<close>

definition challenged :: "net_env \<Rightarrow> ((url \<times> bool) \<times> (auth_error, response) res) list \<Rightarrow> url \<Rightarrow> url \<Rightarrow> bool" where
  "challenged E l asked realm \<longleftrightarrow> (\<exists>resp. ((asked, False), Inr resp) \<in> set l \<and> status resp \<in> {401, 403} \<and>
     url_parse E (bearer_realm (www_authenticate resp)) = Some realm)"

lemma fst_cut_byte [simp]: "fst (cut_byte c h) = takeWhile (\<lambda>d. d \<noteq> c) h"
proof (cases "cut_byte c h")
  case (fields a b f)
  have "takeWhile (\<lambda>d. d \<noteq> c) h = a"
  proof (cases f)
    case True
    then show ?thesis using fields cut_byte_found [of c h a b] by (auto simp: takeWhile_append)
  next
    case False
    then show ?thesis using fields cut_byte_missing [of c h a b] by (auto simp: takeWhile_eq_all_conv)
  qed
  then show ?thesis using fields by simp
qed

lemma allows_trusted: "allows_token_service_realm E p realm asked \<longleftrightarrow> trusted_realm E p realm asked"
  by (auto simp: allows_token_service_realm_def trusted_realm_def is_allowed_same_authority_realm_def split: option.splits)

text \<open>A transport that differs only in its diagnostics and log.\<close>

definition same_rules :: "transport \<Rightarrow> transport \<Rightarrow> bool" where
  "same_rules t u \<longleftrightarrow> token_endpoints u = token_endpoints t \<and> t_registry u = t_registry t \<and>
     is_hardened (t_policy u) = is_hardened (t_policy t) \<and> cross_origin (t_policy u) = cross_origin (t_policy t)"

lemma same_rules_simps [simp]: "same_rules t t" "same_rules t (note_diag g p m u) = same_rules t u"
  by (simp_all add: same_rules_def)

lemma same_rules_allows:
  "same_rules t u \<Longrightarrow> allows_token_service_realm E (t_policy u) r q = allows_token_service_realm E (t_policy t) r q"
  by (rule allows_frame) (simp add: same_rules_def)

lemma same_rules_note [simp]:
  "same_rules t (note_forwarding E req u) = same_rules t u" "same_rules t (note_blocked E req r u) = same_rules t u"
  by (simp_all add: note_forwarding_def note_blocked_def)

lemma is_hardened_note [simp]:
  "is_hardened (t_policy (note_forwarding E req t)) = is_hardened (t_policy t)"
  "is_hardened (t_policy (note_blocked E req r t)) = is_hardened (t_policy t)"
  by (simp_all add: note_forwarding_def note_blocked_def)

text \<open>What one answer may add to the endpoints of a hardened transport: the realm of its own challenge, when
  it is trusted for the request that was challenged and the challenge is passed on.\<close>

definition extends_endpoints ::
  "net_env \<Rightarrow> url \<Rightarrow> bool \<Rightarrow> transport \<Rightarrow> (auth_error, response) res \<times> transport \<Rightarrow> bool" where
  "extends_endpoints E req b t rt \<longleftrightarrow> (case rt of (r, t') \<Rightarrow>
     is_hardened (t_policy t') = is_hardened (t_policy t) \<and> cross_origin (t_policy t') = cross_origin (t_policy t) \<and>
     (\<forall>k\<in>set (token_endpoints t'). k \<in> set (token_endpoints t) \<or>
        (\<exists>realm. k = endpoint_key E realm \<and> challenged E [((req, b), r)] req realm \<and> trusted_realm E (t_policy t) realm req)))"

lemma extends_intros [inv_intros]:
  "same_rules t u \<Longrightarrow> extends_endpoints E req b t (r, u)"
  "same_rules t u \<Longrightarrow> challenged E [((req, b), r)] req realm \<Longrightarrow> trusted_realm E (t_policy t) realm req \<Longrightarrow>
   extends_endpoints E req b t (r, add_token_endpoint E realm u)"
  by (auto simp: extends_endpoints_def same_rules_def)

lemma trusted_frame: "cross_origin p = cross_origin q \<Longrightarrow> trusted_realm E p realm asked = trusted_realm E q realm asked"
  by (simp add: trusted_realm_def)

lemma extends_same_rules: "same_rules t u \<Longrightarrow> extends_endpoints E req b u v \<Longrightarrow> extends_endpoints E req b t v"
  using trusted_frame [of "t_policy u" "t_policy t" E _ req] by (auto simp: extends_endpoints_def same_rules_def)

lemma inspect_realm_endpoints:
  assumes "is_hardened (t_policy t)" "status resp = 401 \<or> status resp = 403"
  shows "extends_endpoints E req False t (inspect_realm E req resp (bearer_realm (www_authenticate resp)) t)"
  using assms
  by (auto simp: inspect_realm_def Let_def challenged_def allows_trusted split: option.split intro: extends_intros)

lemma inspect_registry_endpoints:
  assumes "is_hardened (t_policy t)"
  shows "extends_endpoints E req False t (inspect_registry_response E req resp t)"
  using assms extends_same_rules [OF _ inspect_realm_endpoints, of t "note_forwarding E req t"]
  by (auto simp: inspect_registry_response_def Let_def intro: inv_intros)

lemma inspect_token_endpoints:
  "is_hardened (t_policy t) \<Longrightarrow> extends_endpoints E req b t (inspect_token_response E req resp t)"
  by (auto simp: inspect_token_response_def split: option.splits intro: inv_intros)

lemma finish_round_trip_endpoints:
  "is_hardened (t_policy t) \<Longrightarrow> extends_endpoints E req b t (finish_round_trip E b req a t)"
  using inspect_registry_endpoints inspect_token_endpoints
  by (auto simp: finish_round_trip_def split: sum.split intro: inv_intros)

lemma challenged_mono: "challenged E l asked realm \<Longrightarrow> set l \<subseteq> set l' \<Longrightarrow> challenged E l' asked realm"
  unfolding challenged_def by blast

text \<open>C12. With hardening, however the requests of a command interleave, a URL is treated as a token endpoint
  only if it is the realm of a challenge: a registry request of this command was answered with 401
  or 403 and this realm, and the realm is trusted for the host that request went to, being an HTTPS
  URL on that host or on one the policy pairs with that very host, or plain HTTP on localhost itself.
  Redirects and challenges from untrusted realms never extend the set.\<close>

theorem hardened_endpoints_trusted:
  assumes "(transport_step E)\<^sup>*\<^sup>* (start_traffic p sch h) s" "is_hardened p" "is_token_endpoint E (shared s) u"
  shows "\<exists>asked realm. challenged E (results s) asked realm \<and> endpoint_key E u = endpoint_key E realm \<and>
    trusted_realm E p realm asked"
proof -
  have "is_hardened (t_policy (shared s)) \<and> cross_origin (t_policy (shared s)) = cross_origin p \<and>
      (\<forall>k\<in>set (token_endpoints (shared s)). \<exists>asked realm. challenged E (results s) asked realm \<and>
         k = endpoint_key E realm \<and> trusted_realm E p realm asked)"
    using assms(1)
  proof (induction rule: rtranclp_induct)
    case base
    then show ?case using assms(2) by (simp add: start_traffic_def new_auth_policy_transport_def)
  next
    case (step s s')
    from step(2) show ?case
    proof cases
      case (send req)
      then show ?thesis using step.IH by simp
    next
      case (answered xs req b ys a r t)
      have e: "extends_endpoints E req b (shared s) (r, t)"
        using finish_round_trip_endpoints [of "shared s" E req b a] step.IH answered(3) by simp
      have m: "challenged E (results s') asked realm" if "challenged E l asked realm" "l = results s \<or> l = [((req, b), r)]"
        for l asked realm
        using challenged_mono [OF that(1), of "results s'"] that(2) answered(1) by auto
      have "trusted_realm E (t_policy (shared s)) realm asked = trusted_realm E p realm asked" for realm asked
        using step.IH trusted_frame [of "t_policy (shared s)" p] by simp
      then show ?thesis using e step.IH m answered(1) unfolding extends_endpoints_def by simp blast
    qed
  qed
  then show ?thesis using assms(3) by (simp add: is_token_endpoint_def)
qed


text \<open>A Docker Hub pull whose first request is challenged.\<close>

definition hub_env :: net_env where
  "hub_env = \<lparr>ulow = id, ueq = (\<lambda>a b. a = b), idna = \<lambda>_. None,
     url_parse = \<lambda>s. Some \<lparr>u_scheme = ''https'', u_host = ''auth.docker.io'', u_path = ''/token''\<rparr>\<rparr>"

definition hub_policy :: "bool \<Rightarrow> auth_policy" where
  "hub_policy h = \<lparr>is_hardened = h, cross_origin = built_in_pairs, logger = 1, diag = no_diagnostics, log_lines = []\<rparr>"

definition hub_request :: url where
  "hub_request = \<lparr>u_scheme = ''https'', u_host = ''docker.io'', u_path = ''/v2/''\<rparr>"

definition hub_challenge :: response where
  "hub_challenge = \<lparr>status = 401, location = None,
     www_authenticate = ''Bearer realm='' @ dq @ ''https://auth.docker.io/token'' @ dq\<rparr>"

definition hub_sent :: traffic where
  "hub_sent = (start_traffic (hub_policy True) ''https'' ''docker.io'')\<lparr>in_flight := [(hub_request, False)]\<rparr>"

definition hub_answered :: traffic where
  "hub_answered = (case finish_round_trip hub_env False hub_request (Inr hub_challenge) (shared hub_sent) of
     (r, t) \<Rightarrow> hub_sent\<lparr>shared := t, in_flight := [], results := results hub_sent @ [((hub_request, False), r)]\<rparr>)"

lemma hub_run: "(transport_step hub_env)\<^sup>*\<^sup>* (start_traffic (hub_policy True) ''https'' ''docker.io'') hub_answered"
proof (rule converse_rtranclp_into_rtranclp [OF _ r_into_rtranclp])
  show "transport_step hub_env (start_traffic (hub_policy True) ''https'' ''docker.io'') hub_sent"
    using send [of hub_env "start_traffic (hub_policy True) ''https'' ''docker.io''" hub_request]
    by (simp add: hub_sent_def start_traffic_def new_auth_policy_transport_def is_token_endpoint_def)
  have "in_flight hub_sent = [] @ (hub_request, False) # []" by (simp add: hub_sent_def)
  then show "transport_step hub_env hub_sent hub_answered" unfolding hub_answered_def
    using answered [of hub_sent "[]" hub_request False "[]" hub_env] by (auto split: prod.split)
qed

lemma hardened_endpoints_trusted_witness:
  "\<exists>asked realm. challenged hub_env (results hub_answered) asked realm \<and>
     ''https://auth.docker.io/token'' = endpoint_key hub_env realm \<and> trusted_realm hub_env (hub_policy True) realm asked"
proof -
  let ?u = "\<lparr>u_scheme = ''https'', u_host = ''auth.docker.io'', u_path = ''/token''\<rparr>"
  have k: "endpoint_key hub_env ?u = ''https://auth.docker.io/token''" by code_simp
  show ?thesis
    unfolding k [symmetric]
  proof (rule hardened_endpoints_trusted [OF hub_run])
    show "is_hardened (hub_policy True)" by code_simp
    show "is_token_endpoint hub_env (shared hub_answered) ?u" by code_simp
  qed
qed

text \<open>A realm of another host that the policy does not pair with the one asked is not trusted, even over HTTPS.\<close>

lemma foreign_realm_untrusted:
  "\<not> trusted_realm hub_env (hub_policy True) \<lparr>u_scheme = ''https'', u_host = ''evil.example'', u_path = ''/token''\<rparr> hub_request"
  unfolding allows_trusted [symmetric] by code_simp

subsection \<open>Diagnostics\<close>

definition flag_count :: "auth_diagnostics \<Rightarrow> nat" where
  "flag_count d = of_bool (auth_lookup_would_be_blocked d) + of_bool (registry_redirect_would_prevent_forwarding d)
     + of_bool (auth_server_redirect d)"

definition diag_le :: "auth_diagnostics \<Rightarrow> auth_diagnostics \<Rightarrow> bool" where
  "diag_le d e \<longleftrightarrow> (auth_lookup_would_be_blocked d \<longrightarrow> auth_lookup_would_be_blocked e) \<and>
     (registry_redirect_would_prevent_forwarding d \<longrightarrow> registry_redirect_would_prevent_forwarding e) \<and>
     (auth_server_redirect d \<longrightarrow> auth_server_redirect e)"

text \<open>A policy recorded soundly: one log line per diagnostic that is set.\<close>

definition logged_once :: "auth_policy \<Rightarrow> bool" where
  "logged_once p \<longleftrightarrow> length (log_lines p) = flag_count (diag p)"

lemma note_logged [inv_intros]:
  "logged_once (t_policy t) \<Longrightarrow> logged_once (t_policy (note_forwarding E req t))"
  "logged_once (t_policy t) \<Longrightarrow> logged_once (t_policy (note_blocked E req r t))"
  "logged_once (t_policy t) \<Longrightarrow>
   logged_once (t_policy (note_diag auth_server_redirect (auth_server_redirect_update (\<lambda>_. True)) m t))"
  by (simp_all add: logged_once_def note_forwarding_def note_blocked_def note_diag_def record_diag_def flag_count_def)

lemma note_le [inv_intros]:
  "diag_le d (diag (t_policy t)) \<Longrightarrow> diag_le d (diag (t_policy (note_forwarding E req t)))"
  "diag_le d (diag (t_policy t)) \<Longrightarrow> diag_le d (diag (t_policy (note_blocked E req r t)))"
  "diag_le d (diag (t_policy t)) \<Longrightarrow>
   diag_le d (diag (t_policy (note_diag auth_server_redirect (auth_server_redirect_update (\<lambda>_. True)) m t)))"
  by (simp_all add: diag_le_def note_forwarding_def note_blocked_def note_diag_def record_diag_def)

lemma diag_le_refl [simp]: "diag_le d d"
  by (simp add: diag_le_def)

lemma finish_logged:
  "logged_once (t_policy t) \<Longrightarrow> logged_once (t_policy (snd (finish_round_trip E b req a t)))"
  by (auto simp: finish_round_trip_def inspect_token_response_def inspect_registry_response_def inspect_realm_def Let_def
      split: sum.split option.split intro: inv_intros)

lemma finish_diag_le: "diag_le (diag (t_policy t)) (diag (t_policy (snd (finish_round_trip E b req a t))))"
  by (auto simp: finish_round_trip_def inspect_token_response_def inspect_registry_response_def inspect_realm_def Let_def
      split: sum.split option.split intro!: note_le)

text \<open>Diagnostics are only ever set, and each is logged exactly once: after any interleaving of
  requests the log has one line for every diagnostic that is set.\<close>

theorem diagnostics_logged_once:
  assumes "(transport_step E)\<^sup>*\<^sup>* s s'" "logged_once (t_policy (shared s))"
  shows "logged_once (t_policy (shared s')) \<and> diag_le (diag (t_policy (shared s))) (diag (t_policy (shared s')))"
  using assms(1)
proof (induction rule: rtranclp_induct)
  case base
  then show ?case using assms(2) by simp
next
  case (step u v)
  from step(2) show ?case
  proof cases
    case (send req)
    then show ?thesis using step.IH by simp
  next
    case (answered xs req b ys a r t)
    then have "t = snd (finish_round_trip E b req a (shared u))" by simp
    then show ?thesis using answered(1) step.IH finish_logged [of "shared u" E b req a] finish_diag_le [of "shared u" E b req a]
      by (auto simp: diag_le_def)
  qed
qed

lemma diagnostics_logged_once_witness: "logged_once (t_policy (shared hub_answered))"
  using diagnostics_logged_once [OF hub_run]
  by (simp add: logged_once_def start_traffic_def new_auth_policy_transport_def hub_policy_def no_diagnostics_def flag_count_def)

subsection \<open>What hardening would change\<close>

text \<open>The same transport without hardening.\<close>

definition soften :: "transport \<Rightarrow> transport" where
  "soften t = t\<lparr>t_policy := (t_policy t)\<lparr>is_hardened := False\<rparr>\<rparr>"

lemma soften_simps [simp]:
  "\<not> is_hardened (t_policy (soften t))" "t_registry (soften t) = t_registry t"
  "diag (t_policy (soften t)) = diag (t_policy t)" "cross_origin (t_policy (soften t)) = cross_origin (t_policy t)"
  by (simp_all add: soften_def)

lemma soften_allows: "allows_token_service_realm E (t_policy (soften t)) r q = allows_token_service_realm E (t_policy t) r q"
  by (rule allows_frame) simp

lemma soften_note: "note_forwarding E req (soften t) = soften (note_forwarding E req t)"
  by (simp add: note_forwarding_def note_diag_def record_diag_def soften_def)

lemma note_sets:
  "auth_lookup_would_be_blocked (diag (t_policy (note_blocked E req r t)))"
  "auth_server_redirect (diag (t_policy (note_diag auth_server_redirect (auth_server_redirect_update (\<lambda>_. True)) m t)))"
  by (simp_all add: note_blocked_def note_diag_def record_diag_def)

text \<open>C33. The diagnostics tell what hardening would change: without it every answered request is
  passed on, and whenever hardening would refuse the response instead, the run without it ends
  with the lookup or the redirect diagnostic set, unless the realm could not be parsed.\<close>

theorem hardening_reported:
  assumes "finish_round_trip E b req (Inr resp) t = (Inl e, t')"
  shows "\<exists>u. finish_round_trip E b req (Inr resp) (soften t) = (Inr resp, u) \<and>
    (auth_lookup_would_be_blocked (diag (t_policy u)) \<or> auth_server_redirect (diag (t_policy u))
     \<or> e = UnparsableRealm (u_host req) (bearer_realm (www_authenticate resp)))"
proof (cases b)
  case True
  then show ?thesis using assms
    by (auto simp: finish_round_trip_def inspect_token_response_def note_sets split: if_splits option.splits)
next
  case False
  let ?realm = "bearer_realm (www_authenticate resp)"
  have r: "inspect_realm E req resp ?realm (note_forwarding E req t) = (Inl e, t')" "status resp = 401 \<or> status resp = 403" "?realm \<noteq> []"
    using assms False by (auto simp: finish_round_trip_def inspect_registry_response_def Let_def split: if_splits)
  have "finish_round_trip E b req (Inr resp) (soften t) = inspect_realm E req resp ?realm (soften (note_forwarding E req t))"
    using r(2,3) False by (auto simp: finish_round_trip_def inspect_registry_response_def soften_note Let_def)
  moreover have "\<exists>u. inspect_realm E req resp ?realm (soften w) = (Inr resp, u) \<and>
    (auth_lookup_would_be_blocked (diag (t_policy u)) \<or> e = UnparsableRealm (u_host req) ?realm)"
    if "inspect_realm E req resp ?realm w = (Inl e, t')" for w
    using that by (auto simp: inspect_realm_def Let_def soften_allows note_sets split: option.splits if_splits)
  ultimately show ?thesis using r(1) by fastforce
qed

lemma hardening_reported_witness:
  "\<exists>u. finish_round_trip hub_env True hub_request (Inr (hub_challenge\<lparr>status := 302, location := Some hub_request\<rparr>))
      (soften (shared hub_sent)) = (Inr (hub_challenge\<lparr>status := 302, location := Some hub_request\<rparr>), u)"
proof -
  have "finish_round_trip hub_env True hub_request (Inr (hub_challenge\<lparr>status := 302, location := Some hub_request\<rparr>)) (shared hub_sent)
      = (Inl (TokenRedirected ''docker.io'' ''docker.io''), shared hub_sent)"
    by (simp add: finish_round_trip_def inspect_token_response_def hub_sent_def start_traffic_def new_auth_policy_transport_def
        hub_policy_def hub_request_def)
  from hardening_reported [OF this] show ?thesis by blast
qed

text \<open>A realm that cannot be parsed is refused with hardening and leaves no diagnostic without it.\<close>

lemma unparsable_realm_unreported:
  assumes "url_parse E (bearer_realm (www_authenticate resp)) = None" "bearer_realm (www_authenticate resp) \<noteq> []"
    "status resp = 401" "is_registry_origin E req (t_registry t)" "is_hardened (t_policy t)"
  shows "fst (finish_round_trip E False req (Inr resp) t) = Inl (UnparsableRealm (u_host req) (bearer_realm (www_authenticate resp)))"
    "finish_round_trip E False req (Inr resp) (soften t) = (Inr resp, soften t)"
  using assms by (simp_all add: finish_round_trip_def inspect_registry_response_def inspect_realm_def note_forwarding_def)

end
