(* ===== verification/Dockerfile.thy ===== *)
theory Dockerfile
  imports GoStrings Prelude
begin

text \<open>
  \<open>internal/docker/dockerfile.go\<close> and \<open>resolve.go\<close>: the projection of a parsed Dockerfile and the
  resolution of its variables, which finds the base image and the user of a build. BuildKit's
  parser is outside the repository: its result is the argument of \<open>extract_dockerfile\<close>, in the
  types \<open>bk_stage\<close> and \<open>bk_command\<close> of what the code reads from it.

  A variable's value is text with variables of its own, so \<open>replace\<close> and \<open>findValue\<close> call each other.
  Here they take fuel and \<open>None\<close> is fuel run out: \<open>find_base_image_returns\<close> and
  \<open>find_user_statement_returns\<close> give the fuel that is enough, \<open>stage_cycle_diverges\<close> a Dockerfile for
  which none is.
\<close>

subsection \<open>Dockerfiles\<close>

datatype instruction_kind = ENV | ARG | USER | LABEL

record instruction =
  ins_kind :: instruction_kind
  ins_name :: string
  ins_value :: string

record from_line =
  from_platform :: string
  from_image_text :: string
  from_label :: string

record stage =
  stage_from :: from_line
  stage_instructions :: "instruction list"

record dockerfile =
  df_version :: string
  df_directives :: "string gomap"
  df_preamble :: "instruction list"
  df_stages :: "stage list"

definition trim_quotes :: "string \<Rightarrow> string" where
  "trim_quotes s = trim_set s (dq @ sq)"

definition deref_trim :: "string option \<Rightarrow> string" where
  "deref_trim p = (case p of None \<Rightarrow> [] | Some s \<Rightarrow> trim_quotes s)"

text \<open>BuildKit's commands, as far as the code reads them.\<close>

datatype bk_command =
    EnvCommand "(string \<times> string) list"
  | ArgCommand "(string \<times> string option) list"
  | UserCommand string
  | LabelCommand "(string \<times> string) list"
  | OtherCommand

record bk_stage =
  bk_platform :: string
  bk_base_name :: string
  bk_name :: string
  bk_source_code :: string
  bk_commands :: "bk_command list"

definition syntax_version :: "string \<Rightarrow> string" where
  "syntax_version syntax =
     (let s = trim_prefix syntax ''docker.io/'' in
      if \<not> has_prefix s ''docker/dockerfile'' then []
      else (let rest = trim_prefix s ''docker/dockerfile'' in
        if has_prefix rest '':'' \<and> split_fields (tl rest) \<noteq> [] then hd (split_fields (tl rest)) else ''latest''))"

fun command_instructions :: "bk_command \<Rightarrow> instruction list" where
  "command_instructions (EnvCommand kvs) =
     map (\<lambda>(k, v). \<lparr>ins_kind = ENV, ins_name = k, ins_value = trim_quotes v\<rparr>) kvs"
| "command_instructions (ArgCommand kvs) =
     map (\<lambda>(k, v). \<lparr>ins_kind = ARG, ins_name = k, ins_value = deref_trim v\<rparr>) kvs"
| "command_instructions (UserCommand u) = [\<lparr>ins_kind = USER, ins_name = u, ins_value = []\<rparr>]"
| "command_instructions (LabelCommand kvs) =
     map (\<lambda>(k, v). \<lparr>ins_kind = LABEL, ins_name = k, ins_value = trim_quotes v\<rparr>) kvs"
| "command_instructions OtherCommand = []"

text \<open>\<open>from_label_of\<close> stands for the regular expression \<open>fromLineLabel\<close> on the stage's source: the
  label group, \<open>None\<close> without a match.\<close>

definition stage_label :: "(string \<Rightarrow> string option) \<Rightarrow> bk_stage \<Rightarrow> string" where
  "stage_label from_label_of s = (case from_label_of (bk_source_code s) of Some l \<Rightarrow> l | None \<Rightarrow> bk_name s)"

definition empty_dockerfile :: dockerfile where
  "empty_dockerfile = \<lparr>df_version = [], df_directives = [], df_preamble = [], df_stages = []\<rparr>"

text \<open>\<open>parsed\<close> is \<open>None\<close> when the parser fails; then the syntax directive found, if any, and the stages
  and global arguments, \<open>None\<close> when these do not parse.\<close>

definition extract_dockerfile ::
  "(string \<Rightarrow> string option) \<Rightarrow>
   (string option \<times> (bk_stage list \<times> (string \<times> string option) list list) option) option \<Rightarrow> dockerfile" where
  "extract_dockerfile from_label_of parsed =
     (case parsed of
        None \<Rightarrow> empty_dockerfile
      | Some (syntax, insts) \<Rightarrow>
          (let df = (case syntax of None \<Rightarrow> empty_dockerfile
               | Some s \<Rightarrow> empty_dockerfile\<lparr>df_directives := [(''syntax'', s)], df_version := syntax_version s\<rparr>) in
           case insts of
             None \<Rightarrow> df
           | Some (stages, meta_args) \<Rightarrow>
               df\<lparr>df_preamble := concat (map (\<lambda>kvs. command_instructions (ArgCommand kvs)) meta_args),
                  df_stages := map (\<lambda>s. \<lparr>stage_from = \<lparr>from_platform = bk_platform s,
                      from_image_text = trim_quotes (bk_base_name s), from_label = stage_label from_label_of s\<rparr>,
                    stage_instructions = concat (map command_instructions (bk_commands s))\<rparr>) stages\<rparr>))"

text \<open>\<open>StagesByLabel\<close>: the last stage with a label; the empty label names none.\<close>

fun last_with_label :: "string \<Rightarrow> stage list \<Rightarrow> nat option" where
  "last_with_label l [] = None"
| "last_with_label l (s # ss) =
     (case last_with_label l ss of Some i \<Rightarrow> Some (Suc i)
      | None \<Rightarrow> if from_label (stage_from s) = l then Some 0 else None)"

definition stage_by_label :: "dockerfile \<Rightarrow> string \<Rightarrow> nat option" where
  "stage_by_label df l = (if l = [] then None else last_with_label l (df_stages df))"

definition stage_labels :: "dockerfile \<Rightarrow> string \<Rightarrow> string gomap option" where
  "stage_labels df name =
     (let st = (case stage_by_label df name of Some i \<Rightarrow> Some (df_stages df ! i)
            | None \<Rightarrow> if df_stages df = [] then None else Some (last (df_stages df))) in
      map_option (\<lambda>s. foldl (\<lambda>m ins. if ins_kind ins = LABEL then aput (ins_name ins) (ins_value ins) m else m)
        [] (stage_instructions s)) st)"

subsection \<open>Variable expressions\<close>

text \<open>
  The matches of \<open>argumentExpression\<close>: a dollar, an optional brace, a name, an optional colon with a
  sign and a word, an optional closing brace. A variable's option is the sign and the word.
\<close>

datatype text_part = Lit string | Var string "(char \<times> string) option"

definition name_char :: "char \<Rightarrow> bool" where
  "name_char c \<longleftrightarrow> is_lower c \<or> is_upper c \<or> is_digit c \<or> c = CHR ''_''"

definition arg_word :: "string \<Rightarrow> (char \<times> string) option \<times> string" where
  "arg_word r = (case r of
       c # d # w \<Rightarrow>
         (if c = CHR '':'' \<and> (d = CHR ''-'' \<or> d = CHR ''+'') \<and> w \<noteq> [] \<and> hd w \<noteq> CHR 0x7D
          then (Some (d, takeWhile (\<lambda>x. x \<noteq> CHR 0x7D) w), dropWhile (\<lambda>x. x \<noteq> CHR 0x7D) w) else (None, r))
     | _ \<Rightarrow> (None, r))"

text \<open>The match after a dollar: the name, the option and what follows.\<close>

definition arg_match :: "string \<Rightarrow> (string \<times> (char \<times> string) option \<times> string) option" where
  "arg_match s =
     (let s1 = (if s \<noteq> [] \<and> hd s = CHR 0x7B then tl s else s);
          name = takeWhile name_char s1 in
      if name = [] then None
      else (let (opt, r) = arg_word (dropWhile name_char s1) in
        Some (name, opt, if r \<noteq> [] \<and> hd r = CHR 0x7D then tl r else r)))"

lemma arg_word_length: "arg_word r = (opt, t) \<Longrightarrow> length t \<le> length r"
  by (auto simp: arg_word_def length_dropWhile_le le_SucI split: list.splits if_splits)

lemma arg_match_length: "arg_match s = Some (name, opt, r) \<Longrightarrow> length r < length s"
proof -
  assume m: "arg_match s = Some (name, opt, r)"
  define s1 where "s1 = (if s \<noteq> [] \<and> hd s = CHR 0x7B then tl s else s)"
  obtain opt' t where w: "arg_word (dropWhile name_char s1) = (opt', t)" by fastforce
  have "takeWhile name_char s1 \<noteq> []" "r = t \<or> r = tl t"
    using m w by (auto simp: arg_match_def s1_def [symmetric] Let_def split: if_splits)
  moreover from this(1) have "length (dropWhile name_char s1) < length s1"
    by (cases s1) (auto simp: length_dropWhile_le less_Suc_eq_le split: if_splits)
  moreover have "length s1 \<le> length s" by (simp add: s1_def)
  ultimately show ?thesis using arg_word_length [OF w] by (cases t) auto
qed

function text_parts :: "string \<Rightarrow> text_part list" where
  "text_parts [] = []"
| "text_parts (c # s) =
     (if c = CHR 0x24
      then (case arg_match s of None \<Rightarrow> Lit [c] # text_parts s
            | Some (name, opt, r) \<Rightarrow> Var name opt # text_parts r)
      else Lit [c] # text_parts s)"
  by pat_completeness auto
termination
  by (relation "measure length") (auto dest: arg_match_length)

definition is_quote :: "char \<Rightarrow> bool" where
  "is_quote c \<longleftrightarrow> c = CHR 0x22 \<or> c = CHR 0x27"

definition trim_one_quote :: "string \<Rightarrow> string" where
  "trim_one_quote s =
     (let t = (if s \<noteq> [] \<and> is_quote (hd s) then tl s else s)
      in if t \<noteq> [] \<and> is_quote (last t) then butlast t else t)"

definition apply_option :: "(char \<times> string) option \<Rightarrow> string \<Rightarrow> string" where
  "apply_option opt v = (case opt of None \<Rightarrow> v
     | Some (sign, word) \<Rightarrow>
         trim_one_quote (if sign = CHR ''-'' \<and> v = [] \<or> sign = CHR ''+'' \<and> v \<noteq> [] then word else v))"

subsection \<open>The resolver\<close>

datatype scope = Preamble | StageAt nat

record resolver =
  r_file :: dockerfile
  build_args :: "string gomap"
  platform_args :: "string gomap"

definition new_resolver :: "dockerfile \<Rightarrow> string gomap \<Rightarrow> string gomap \<Rightarrow> resolver" where
  "new_resolver df ba pa = \<lparr>r_file = df, build_args = ba, platform_args = pa\<rparr>"

fun scope_instructions :: "resolver \<Rightarrow> scope \<Rightarrow> instruction list" where
  "scope_instructions r Preamble = df_preamble (r_file r)"
| "scope_instructions r (StageAt i) = stage_instructions (df_stages (r_file r) ! i)"

definition by_label :: "resolver \<Rightarrow> string \<Rightarrow> nat option" where
  "by_label r l = stage_by_label (r_file r) l"

definition start_stage :: "resolver \<Rightarrow> string \<Rightarrow> nat option" where
  "start_stage r target =
     (if target \<noteq> [] then by_label r target
      else if df_stages (r_file r) = [] then None else Some (length (df_stages (r_file r)) - 1))"

text \<open>The definition of a variable in the instructions before a position, from the last one on: its
  text and the position it stands at.\<close>

fun scan_definitions ::
  "resolver \<Rightarrow> string \<Rightarrow> bool \<Rightarrow> instruction list \<Rightarrow> nat \<Rightarrow> (string \<times> nat) option" where
  "scan_definitions r v consider_arg ins 0 = None"
| "scan_definitions r v consider_arg ins (Suc i) =
     (let x = ins ! i; next_one = scan_definitions r v consider_arg ins i in
      if ins_name x \<noteq> v then next_one
      else if ins_kind x = ENV then Some (ins_value x, i)
      else if ins_kind x = ARG \<and> consider_arg then
        (case map_of (build_args r) (ins_name x) of
           Some b \<Rightarrow> Some (b, i)
         | None \<Rightarrow> if ins_value x \<noteq> [] then Some (ins_value x, i) else next_one)
      else next_one)"

definition outer_value :: "resolver \<Rightarrow> string gomap \<Rightarrow> string \<Rightarrow> string" where
  "outer_value r base_env v =
     (case map_of base_env v of Some x \<Rightarrow> x
      | None \<Rightarrow> (case map_of (platform_args r) v of Some x \<Rightarrow> x | None \<Rightarrow> []))"

fun concat_opt :: "string option list \<Rightarrow> string option" where
  "concat_opt [] = Some []"
| "concat_opt (x # xs) = (case x of None \<Rightarrow> None | Some a \<Rightarrow> map_option (append a) (concat_opt xs))"

text \<open>\<open>replace\<close> and \<open>findValue\<close>; each turn of the latter's loop over the scopes is a call here.\<close>

fun replace_vars :: "resolver \<Rightarrow> string gomap \<Rightarrow> nat \<Rightarrow> string \<Rightarrow> scope \<Rightarrow> nat \<Rightarrow> string option"
  and find_value ::
    "resolver \<Rightarrow> string gomap \<Rightarrow> nat \<Rightarrow> string \<Rightarrow> scope \<Rightarrow> nat \<Rightarrow> bool \<Rightarrow> scope list \<Rightarrow> string option" where
  "replace_vars r env 0 s sc before = None"
| "replace_vars r env (Suc n) s sc before =
     concat_opt (map (\<lambda>p. case p of Lit t \<Rightarrow> Some t
        | Var v opt \<Rightarrow> map_option (apply_option opt) (find_value r env n v sc before True [])) (text_parts s))"
| "find_value r env 0 v sc before consider_arg seen = None"
| "find_value r env (Suc n) v sc before consider_arg seen =
     (if sc \<in> set seen then Some []
      else (case scan_definitions r v consider_arg (scope_instructions r sc)
                   (min before (length (scope_instructions r sc))) of
          Some (text, i) \<Rightarrow> replace_vars r env n text sc i
        | None \<Rightarrow> (case sc of
            Preamble \<Rightarrow> Some (outer_value r env v)
          | StageAt k \<Rightarrow>
              (case replace_vars r env n (from_image_text (stage_from (df_stages (r_file r) ! k))) Preamble
                      (length (df_preamble (r_file r))) of
                 None \<Rightarrow> None
               | Some img \<Rightarrow>
                   (let sc' = (case by_label r img of Some j \<Rightarrow> StageAt j | None \<Rightarrow> Preamble) in
                    find_value r env n v sc' (length (scope_instructions r sc')) (sc' = Preamble) (sc # seen))))))"

definition from_image :: "resolver \<Rightarrow> nat \<Rightarrow> nat \<Rightarrow> string gomap \<Rightarrow> string option" where
  "from_image r n k env = replace_vars r env n (from_image_text (stage_from (df_stages (r_file r) ! k)))
     Preamble (length (df_preamble (r_file r)))"

text \<open>The stages still to visit bound the two walks along the FROM lines; \<open>n\<close> is the fuel of each
  resolution.\<close>

fun base_image_loop :: "resolver \<Rightarrow> nat \<Rightarrow> nat \<Rightarrow> nat option \<Rightarrow> nat list \<Rightarrow> string option" where
  "base_image_loop r n m None seen = Some []"
| "base_image_loop r n 0 (Some k) seen = (if k \<in> set seen then Some [] else None)"
| "base_image_loop r n (Suc m) (Some k) seen =
     (if k \<in> set seen then Some []
      else (case from_image r n k [] of
          None \<Rightarrow> None
        | Some img \<Rightarrow> (case by_label r img of
            None \<Rightarrow> Some img
          | Some j \<Rightarrow> base_image_loop r n m (Some j) (k # seen))))"

definition find_base_image :: "resolver \<Rightarrow> nat \<Rightarrow> string \<Rightarrow> string option" where
  "find_base_image r n target = base_image_loop r n (length (df_stages (r_file r))) (start_stage r target) []"

fun last_user :: "instruction list \<Rightarrow> nat \<Rightarrow> nat option" where
  "last_user ins 0 = None"
| "last_user ins (Suc i) = (if ins_kind (ins ! i) = USER then Some i else last_user ins i)"

fun user_loop :: "resolver \<Rightarrow> string gomap \<Rightarrow> nat \<Rightarrow> nat \<Rightarrow> nat option \<Rightarrow> nat list \<Rightarrow> string option" where
  "user_loop r env n m None seen = Some []"
| "user_loop r env n 0 (Some k) seen = (if k \<in> set seen then Some [] else None)"
| "user_loop r env n (Suc m) (Some k) seen =
     (if k \<in> set seen then Some []
      else (let ins = stage_instructions (df_stages (r_file r) ! k) in
        case last_user ins (length ins) of
          Some i \<Rightarrow> replace_vars r env n (ins_name (ins ! i)) (StageAt k) i
        | None \<Rightarrow> (case from_image r n k env of
            None \<Rightarrow> None
          | Some img \<Rightarrow> user_loop r env n m (by_label r img) (k # seen))))"

definition find_user_statement :: "resolver \<Rightarrow> nat \<Rightarrow> string gomap \<Rightarrow> string \<Rightarrow> string option" where
  "find_user_statement r n env target =
     user_loop r env n (length (df_stages (r_file r))) (start_stage r target) []"

subsection \<open>Fuel\<close>

lemma concat_opt_Some_iff: "concat_opt xs \<noteq> None \<longleftrightarrow> (\<forall>x\<in>set xs. x \<noteq> None)"
  by (induction xs) (auto split: option.splits)

lemma concat_opt_mono:
  "concat_opt (map f ps) = Some s \<Longrightarrow> (\<And>p t. p \<in> set ps \<Longrightarrow> f p = Some t \<Longrightarrow> g p = Some t) \<Longrightarrow>
   concat_opt (map g ps) = Some s"
proof (induction ps arbitrary: s)
  case (Cons p ps)
  then obtain a b where "f p = Some a" "concat_opt (map f ps) = Some b" "s = a @ b" by (auto split: option.splits)
  then show ?case using Cons by auto
qed simp

lemma scan_definitions_bound: "scan_definitions r v c ins n = Some (t, i) \<Longrightarrow> i < n"
  by (induction n) (auto simp: Let_def less_Suc_eq split: if_splits option.splits)

text \<open>More fuel does not change a result.\<close>

lemma fuel_mono:
  "replace_vars r env n s sc b = Some x \<Longrightarrow> n \<le> m \<Longrightarrow> replace_vars r env m s sc b = Some x"
  "find_value r env n v sc b c seen = Some x \<Longrightarrow> n \<le> m \<Longrightarrow> find_value r env m v sc b c seen = Some x"
proof (induction r env n s sc b and r env n v sc b c seen arbitrary: x m and x m rule: replace_vars_find_value.induct)
  case (2 r env n s sc b)
  then obtain m' where m: "m = Suc m'" "n \<le> m'" by (cases m) auto
  have "(case p of Lit t \<Rightarrow> Some t | Var v opt \<Rightarrow> map_option (apply_option opt) (find_value r env m' v sc b True [])) = Some t"
    if "p \<in> set (text_parts s)"
      "(case p of Lit t \<Rightarrow> Some t | Var v opt \<Rightarrow> map_option (apply_option opt) (find_value r env n v sc b True [])) = Some t" for p t
  proof (cases p)
    case (Var v opt)
    note h = that
    obtain y where y: "find_value r env n v sc b True [] = Some y" "t = apply_option opt y" using h(2) Var by auto
    have "find_value r env m' v sc b True [] = Some y" by (rule "2.IH" [OF h(1) Var y(1) m(2)])
    then show ?thesis using Var y(2) by simp
  qed (use that in simp)
  from concat_opt_mono [OF "2.prems"(1) [simplified replace_vars.simps] this] show ?case by (simp add: m)
next
  case (4 r env n v sc b c seen)
  obtain m' where m: "m = Suc m'" "n \<le> m'" using "4.prems"(2) by (cases m) auto
  show ?case
  proof (cases "sc \<in> set seen")
    case False
    let ?d = "scan_definitions r v c (scope_instructions r sc) (min b (length (scope_instructions r sc)))"
    show ?thesis
    proof (cases ?d)
      case (Some ti)
      obtain t i where ti: "ti = (t, i)" by (cases ti)
      have "replace_vars r env n t sc i = Some x" using "4.prems"(1) False Some ti by simp
      then have "replace_vars r env m' t sc i = Some x" using "4.IH"(3) [OF False Some ti [symmetric] _ m(2)] by blast
      then show ?thesis using False m Some ti by simp
    next
      case None
      show ?thesis
      proof (cases sc)
        case Preamble
        then show ?thesis using None "4.prems"(1) False m by simp
      next
        case (StageAt k)
        then obtain img where i: "replace_vars r env n (from_image_text (stage_from (df_stages (r_file r) ! k))) Preamble
            (length (df_preamble (r_file r))) = Some img"
          using None "4.prems"(1) False by (auto split: option.splits)
        define sc' where "sc' = (case by_label r img of Some j \<Rightarrow> StageAt j | None \<Rightarrow> Preamble)"
        have "find_value r env n v sc' (length (scope_instructions r sc')) (sc' = Preamble) (sc # seen) = Some x"
          using "4.prems"(1) False None StageAt i by (simp add: sc'_def Let_def del: scope_instructions.simps)
        then have "find_value r env m' v sc' (length (scope_instructions r sc')) (sc' = Preamble) (sc # seen) = Some x"
          unfolding sc'_def by (rule "4.IH"(2) [OF False None StageAt i refl _ m(2)])
        moreover note "4.IH"(1) [OF False None StageAt i m(2)]
        ultimately show ?thesis using False None StageAt unfolding m(1) find_value.simps(2) sc'_def
          by (simp add: Let_def del: scope_instructions.simps)
      qed
    qed
  qed (use "4.prems"(1) m(1) in simp)
qed simp_all

subsection \<open>The base image\<close>

lemma preamble_returns:
  "(2 * b + 2 \<le> n \<longrightarrow> replace_vars r env n s Preamble b \<noteq> None) \<and> (2 * b + 1 \<le> n \<longrightarrow> find_value r env n v Preamble b c seen \<noteq> None)"
proof (induction b arbitrary: n s v c seen rule: less_induct)
  case (less b)
  have f: "find_value r env n v Preamble b c seen \<noteq> None" if n: "2 * b + 1 \<le> n" for n v c seen
  proof -
    obtain n' where n': "n = Suc n'" using n by (cases n) auto
    have "replace_vars r env n' t Preamble i \<noteq> None"
      if "scan_definitions r v c (df_preamble (r_file r)) (min b (length (df_preamble (r_file r)))) = Some (t, i)" for t i
      using scan_definitions_bound [OF that] n n' less [of i] by auto
    then show ?thesis by (auto simp: n' split: option.splits)
  qed
  have "replace_vars r env n s Preamble b \<noteq> None" if n: "2 * b + 2 \<le> n" for n s
  proof -
    obtain n' where n': "n = Suc n'" "2 * b + 1 \<le> n'" using n by (cases n) auto
    show ?thesis using f [OF n'(2)]
      unfolding n'(1) replace_vars.simps concat_opt_Some_iff by (auto split: text_part.split)
  qed
  then show ?case using f by blast
qed

definition image_fuel :: "resolver \<Rightarrow> nat" where
  "image_fuel r = 2 * length (df_preamble (r_file r)) + 2"

lemma from_image_returns: "image_fuel r \<le> n \<Longrightarrow> \<exists>img. from_image r n k env = Some img"
  using preamble_returns [of "length (df_preamble (r_file r))" n r env] by (auto simp: from_image_def image_fuel_def)

lemma last_with_label_bound: "last_with_label l ss = Some i \<Longrightarrow> i < length ss"
  by (induction ss arbitrary: i) (auto split: option.splits if_splits)

lemma by_label_bound: "by_label r l = Some i \<Longrightarrow> i < length (df_stages (r_file r))"
  by (auto simp: by_label_def stage_by_label_def dest: last_with_label_bound split: if_splits)

lemma start_stage_bound: "start_stage r t = Some i \<Longrightarrow> i < length (df_stages (r_file r))"
  by (auto simp: start_stage_def by_label_bound split: if_splits)

text \<open>A walk that has seen as many stages as there are has seen every stage.\<close>

lemma all_seen:
  assumes "distinct seen" "set seen \<subseteq> {..<n}" "n \<le> length seen" "k < n"
  shows "k \<in> set seen"
proof -
  have "card (set seen) = length seen" using assms(1) by (rule distinct_card)
  then have "set seen = {..<n}" using assms(2,3) by (intro card_subset_eq) (auto dest: card_mono [rotated])
  then show ?thesis using assms(4) by simp
qed

lemma base_image_loop_returns:
  "image_fuel r \<le> n \<Longrightarrow> distinct seen \<Longrightarrow> set seen \<subseteq> {..<length (df_stages (r_file r))} \<Longrightarrow>
    length (df_stages (r_file r)) \<le> m + length seen \<Longrightarrow> (\<forall>k. start = Some k \<longrightarrow> k < length (df_stages (r_file r))) \<Longrightarrow>
    \<exists>img. base_image_loop r n m start seen = Some img \<and> by_label r img = None"
proof (induction r n m start seen rule: base_image_loop.induct)
  case (1 r n m seen)
  then show ?case by (simp add: by_label_def stage_by_label_def)
next
  case (2 r n k seen)
  then show ?case using all_seen [of seen "length (df_stages (r_file r))" k] by (simp add: by_label_def stage_by_label_def)
next
  case (3 r n m k seen)
  show ?case
  proof (cases "k \<in> set seen")
    case True
    then show ?thesis by (simp add: by_label_def stage_by_label_def)
  next
    case False
    obtain img where i: "from_image r n k [] = Some img" using from_image_returns 3(2) by blast
    show ?thesis
    proof (cases "by_label r img")
      case (Some j)
      have "\<exists>img. base_image_loop r n m (Some j) (k # seen) = Some img \<and> by_label r img = None"
        using "3.prems" False by_label_bound [OF Some] by (intro "3.IH" [OF False i Some]) auto
      then show ?thesis using False i Some by simp
    qed (use False i in simp)
  qed
qed


text \<open>C34. The search for the base image always ends, for every Dockerfile, cyclic ones included; it gives
  the empty text or an image that is no stage.\<close>

theorem find_base_image_returns:
  "\<exists>img. find_base_image r (image_fuel r) target = Some img \<and> by_label r img = None"
  unfolding find_base_image_def by (intro base_image_loop_returns) (auto simp: start_stage_bound)

subsection \<open>The user\<close>

text \<open>Every stage is built from an image or from an earlier stage.\<close>

definition from_earlier :: "resolver \<Rightarrow> string gomap \<Rightarrow> bool" where
  "from_earlier r env \<longleftrightarrow> (\<forall>k<length (df_stages (r_file r)). \<forall>img j.
     from_image r (image_fuel r) k env = Some img \<longrightarrow> by_label r img = Some j \<longrightarrow> j < k)"

definition longest_stage :: "resolver \<Rightarrow> nat" where
  "longest_stage r = fold max (map (\<lambda>s. length (stage_instructions s)) (df_stages (r_file r))) 0"

lemma fold_max_le: "(x::nat) \<in> set xs \<or> x \<le> a \<Longrightarrow> x \<le> fold max xs a"
  by (induction xs arbitrary: a) (auto simp: max.coboundedI2)

lemma longest_stage: "k < length (df_stages (r_file r)) \<Longrightarrow> length (stage_instructions (df_stages (r_file r) ! k)) \<le> longest_stage r"
  unfolding longest_stage_def by (intro fold_max_le) auto

fun scope_weight :: "resolver \<Rightarrow> scope \<Rightarrow> nat \<Rightarrow> nat" where
  "scope_weight r Preamble b = min b (length (df_preamble (r_file r)))"
| "scope_weight r (StageAt k) b = length (df_preamble (r_file r)) + 1 + k * (longest_stage r + 1) + min b (longest_stage r)"

definition scope_ok :: "resolver \<Rightarrow> scope \<Rightarrow> bool" where
  "scope_ok r sc \<longleftrightarrow> (case sc of Preamble \<Rightarrow> True | StageAt k \<Rightarrow> k < length (df_stages (r_file r)))"

lemma scope_weight_less:
  assumes "scope_ok r sc" "i < min b (length (scope_instructions r sc))"
  shows "scope_weight r sc i < scope_weight r sc b"
proof (cases sc)
  case (StageAt k)
  then have "length (scope_instructions r sc) \<le> longest_stage r" using assms(1) longest_stage by (simp add: scope_ok_def)
  then show ?thesis using assms(2) StageAt by simp
qed (use assms in simp)

lemma earlier_weight:
  "j < k \<Longrightarrow> scope_weight r (StageAt j) b' < scope_weight r (StageAt k) b"
proof -
  assume "j < k"
  then have "Suc j * (longest_stage r + 1) \<le> k * (longest_stage r + 1)" by (intro mult_right_mono) auto
  then show ?thesis by simp
qed

lemma acyclic_returns:
  assumes "from_earlier r env"
  shows "scope_ok r sc \<Longrightarrow>
    (2 * scope_weight r sc b + 2 \<le> n \<longrightarrow> replace_vars r env n s sc b \<noteq> None) \<and>
    (2 * scope_weight r sc b + 1 \<le> n \<longrightarrow> find_value r env n v sc b c seen \<noteq> None)"
proof (induction "scope_weight r sc b" arbitrary: sc b n s v c seen rule: less_induct)
  case less
  have f: "find_value r env n v sc b c seen \<noteq> None" if n: "2 * scope_weight r sc b + 1 \<le> n" for n v c seen
  proof (cases sc)
    case Preamble
    obtain n' where n': "n = Suc n'" using n by (cases n) auto
    have "replace_vars r env n' t sc i \<noteq> None"
      if "scan_definitions r v c (scope_instructions r sc) (min b (length (scope_instructions r sc))) = Some (t, i)" for t i
    proof -
      have "scope_weight r sc i < scope_weight r sc b"
        using scan_definitions_bound [OF that] less.prems by (rule scope_weight_less [rotated])
      then show ?thesis using less.hyps [of sc i n' t] less.prems n n' by auto
    qed
    then show ?thesis using Preamble by (auto simp: n' split: option.splits)
  next
    case (StageAt k)
    obtain n' where n': "n = Suc n'" using n by (cases n) auto
    have k: "k < length (df_stages (r_file r))" using less.prems StageAt by (simp add: scope_ok_def)
    have w: "scope_weight r sc b \<ge> length (df_preamble (r_file r)) + 1" by (simp add: StageAt)
    have rep: "replace_vars r env n' t sc i \<noteq> None"
      if "scan_definitions r v c (scope_instructions r sc) (min b (length (scope_instructions r sc))) = Some (t, i)" for t i
    proof -
      have "scope_weight r sc i < scope_weight r sc b"
        using scan_definitions_bound [OF that] less.prems by (rule scope_weight_less [rotated])
      then show ?thesis using less.hyps [of sc i n' t] less.prems n n' by auto
    qed
    have ifuel: "image_fuel r \<le> n'" using n n' w by (simp add: image_fuel_def)
    obtain img where img1: "from_image r (image_fuel r) k env = Some img"
      using from_image_returns [of r "image_fuel r" k env] by blast
    then have img: "from_image r (image_fuel r) k env = Some img" "from_image r n' k env = Some img"
      using fuel_mono(1) ifuel unfolding from_image_def by blast+
    define sc' where "sc' = (case by_label r img of Some j \<Rightarrow> StageAt j | None \<Rightarrow> Preamble)"
    have "scope_weight r sc' b' < scope_weight r sc b \<and> scope_ok r sc'" for b'
    proof (cases "by_label r img")
      case None
      then show ?thesis using w by (simp add: sc'_def scope_ok_def)
    next
      case (Some j)
      then have "j < k" using assms img(1) k by (auto simp: from_earlier_def)
      then show ?thesis using Some k earlier_weight [of j k] StageAt by (simp add: sc'_def scope_ok_def)
    qed
    then have "find_value r env n' v sc' b' c' seen' \<noteq> None" for b' c' seen'
    proof -
      note w' = \<open>\<And>b'. scope_weight r sc' b' < scope_weight r sc b \<and> scope_ok r sc'\<close>
      have "2 * scope_weight r sc' b' + 1 \<le> n'" using n n' w' [of b'] by simp
      then show ?thesis using less.hyps [of sc' b' n' s v c' seen'] w' by blast
    qed
    then have fv: "find_value r env n' v sc' (length (scope_instructions r sc')) (sc' = Preamble) (sc # seen) \<noteq> None" .
    show ?thesis
    proof (cases "sc \<in> set seen \<or> scan_definitions r v c (scope_instructions r sc) (min b (length (scope_instructions r sc))) \<noteq> None")
      case True
      then show ?thesis using rep by (auto simp: n')
    next
      case False
      then have "sc \<notin> set seen" "scan_definitions r v c (scope_instructions r sc) (min b (length (scope_instructions r sc))) = None"
        by blast+
      then have "find_value r env n v sc b c seen = find_value r env n' v sc' (length (scope_instructions r sc')) (sc' = Preamble) (sc # seen)"
        using img(2) StageAt unfolding n' find_value.simps(2) from_image_def sc'_def by (simp add: Let_def del: scope_instructions.simps)
      then show ?thesis using fv by simp
    qed
  qed
  moreover have "replace_vars r env n s sc b \<noteq> None" if n: "2 * scope_weight r sc b + 2 \<le> n" for n s
  proof -
    obtain n' where n': "n = Suc n'" "2 * scope_weight r sc b + 1 \<le> n'" using n by (cases n) auto
    show ?thesis using f [OF n'(2)]
      unfolding n'(1) replace_vars.simps concat_opt_Some_iff by (auto split: text_part.split)
  qed
  ultimately show ?case by blast
qed

definition user_fuel :: "resolver \<Rightarrow> nat" where
  "user_fuel r = 2 * scope_weight r (StageAt (length (df_stages (r_file r)))) 0 + 2"

lemma user_fuel_image: "image_fuel r \<le> user_fuel r"
  by (simp add: image_fuel_def user_fuel_def)

lemma user_loop_returns:
  "from_earlier r env \<Longrightarrow> n = user_fuel r \<Longrightarrow> distinct seen \<Longrightarrow> set seen \<subseteq> {..<length (df_stages (r_file r))} \<Longrightarrow>
    length (df_stages (r_file r)) \<le> m + length seen \<Longrightarrow> (\<forall>k. start = Some k \<longrightarrow> k < length (df_stages (r_file r))) \<Longrightarrow>
    \<exists>u. user_loop r env n m start seen = Some u"
proof (induction r env n m start seen rule: user_loop.induct)
  case (2 r env n k seen)
  then show ?case using all_seen [of seen "length (df_stages (r_file r))" k] by simp
next
  case (3 r env n m k seen)
  have k: "k < length (df_stages (r_file r))" using "3.prems" by simp
  show ?case
  proof (cases "k \<in> set seen")
    case False
    let ?ins = "stage_instructions (df_stages (r_file r) ! k)"
    obtain img where i: "from_image r n k env = Some img"
      using from_image_returns user_fuel_image "3.prems"(2) by blast
    have "replace_vars r env n s (StageAt k) b \<noteq> None" for s b
    proof -
      have "scope_weight r (StageAt k) b < scope_weight r (StageAt (length (df_stages (r_file r)))) 0"
        using k by (rule earlier_weight)
      then show ?thesis using acyclic_returns [OF "3.prems"(1), of "StageAt k" b n s] k "3.prems"(2)
        by (simp add: scope_ok_def user_fuel_def del: scope_weight.simps)
    qed
    moreover have "\<exists>u. user_loop r env n m (by_label r img) (k # seen) = Some u" if "last_user ?ins (length ?ins) = None"
      using "3.IH" [OF False refl that i] "3.prems" False k by (auto dest: by_label_bound)
    ultimately show ?thesis using False i by (auto simp: Let_def split: option.split)
  qed simp
qed simp

text \<open>C35. When every stage is built from an image or an earlier stage, the search for the user ends,
  whatever the variables it meets refer to.\<close>

theorem find_user_statement_returns:
  assumes "from_earlier r env"
  shows "\<exists>u. find_user_statement r (user_fuel r) env target = Some u"
  unfolding find_user_statement_def using assms by (intro user_loop_returns) (auto simp: start_stage_bound)

lemma from_earlier_code [code]:
  "from_earlier r env = list_all (\<lambda>k. case from_image r (image_fuel r) k env of None \<Rightarrow> True
     | Some img \<Rightarrow> (case by_label r img of None \<Rightarrow> True | Some j \<Rightarrow> j < k)) [0..<length (df_stages (r_file r))]"
  by (auto simp: from_earlier_def list_all_iff split: option.splits)

definition env_ins :: "string \<Rightarrow> string \<Rightarrow> instruction" where
  "env_ins k v = \<lparr>ins_kind = ENV, ins_name = k, ins_value = v\<rparr>"

definition user_ins :: "string \<Rightarrow> instruction" where
  "user_ins u = \<lparr>ins_kind = USER, ins_name = u, ins_value = []\<rparr>"

definition from_ins :: "string \<Rightarrow> string \<Rightarrow> instruction list \<Rightarrow> stage" where
  "from_ins img l ins = \<lparr>stage_from = \<lparr>from_platform = [], from_image_text = img, from_label = l\<rparr>, stage_instructions = ins\<rparr>"

text \<open>A stage that takes its user from a default, and a stage built from it.\<close>

definition two_stages :: resolver where
  "two_stages = new_resolver (empty_dockerfile\<lparr>
     df_preamble := [\<lparr>ins_kind = ARG, ins_name = ''BASE'', ins_value = ''build''\<rparr>],
     df_stages := [from_ins ''debian'' ''build'' [env_ins ''U'' ''dev'', user_ins (CHR 0x24 # ''U'')],
                   from_ins (CHR 0x24 # ''BASE'') [] []]\<rparr>) [] []"

lemma find_user_statement_returns_witness:
  "find_user_statement two_stages (user_fuel two_stages) [] [] = Some ''dev''"
proof -
  have "from_earlier two_stages []" by code_simp
  from find_user_statement_returns [OF this, of "[]"]
  obtain u where u: "find_user_statement two_stages (user_fuel two_stages) [] [] = Some u" by blast
  have "find_user_statement two_stages (user_fuel two_stages) [] [] = Some ''dev''" by code_simp
  then show ?thesis using u by simp
qed

subsection \<open>A cycle of stages\<close>

text \<open>Two stages built from each other, each defining its variable by the other's.\<close>

definition dollar :: "string \<Rightarrow> string" where
  "dollar v = CHR 0x24 # v"

definition stage_cycle :: resolver where
  "stage_cycle = new_resolver (empty_dockerfile\<lparr>
     df_stages := [from_ins ''b'' ''a'' [env_ins ''x'' (dollar ''y'')],
                   from_ins ''a'' ''b'' [env_ins ''y'' (dollar ''x''), user_ins (dollar ''y'')]]\<rparr>) [] []"

lemma text_parts_cycle: "text_parts (dollar ''x'') = [Var ''x'' None]" "text_parts (dollar ''y'') = [Var ''y'' None]"
  "text_parts ''a'' = [Lit ''a'']" "text_parts ''b'' = [Lit ''b'']"
  by code_simp+

lemma cycle_image:
  "replace_vars stage_cycle [] n ''a'' Preamble b \<in> {None, Some ''a''}" "replace_vars stage_cycle [] n ''b'' Preamble b \<in> {None, Some ''b''}"
  by (cases n; simp add: text_parts_cycle)+

lemma cycle_shape:
  "df_stages (r_file stage_cycle) = [from_ins ''b'' ''a'' [env_ins ''x'' (dollar ''y'')],
     from_ins ''a'' ''b'' [env_ins ''y'' (dollar ''x''), user_ins (dollar ''y'')]]"
  "df_preamble (r_file stage_cycle) = []" "build_args stage_cycle = []"
  by (simp_all add: stage_cycle_def new_resolver_def empty_dockerfile_def)

lemma cycle_labels: "by_label stage_cycle ''a'' = Some 0" "by_label stage_cycle ''b'' = Some 1"
  by code_simp+

lemma cycle_diverges:
  "replace_vars stage_cycle [] n (dollar ''x'') (StageAt 1) 0 = None \<and> replace_vars stage_cycle [] n (dollar ''y'') (StageAt 0) 0 = None"
proof (induction n rule: less_induct)
  case (less n)
  have x: "find_value stage_cycle [] m ''x'' (StageAt 1) 0 True [] = None" if "m < n" for m
  proof (cases m)
    case (Suc m')
    have f: "find_value stage_cycle [] m' ''x'' (StageAt 0) 1 False [StageAt 1] = None"
    proof (cases m')
      case (Suc m'')
      then have "replace_vars stage_cycle [] m'' (dollar ''y'') (StageAt 0) 0 = None" using less that \<open>m = Suc m'\<close> by simp
      then show ?thesis using Suc by (simp add: cycle_shape from_ins_def env_ins_def Let_def)
    qed simp
    then show ?thesis using Suc cycle_image(1) [of m' 0]
      by (auto simp: cycle_shape from_ins_def cycle_labels Let_def)
  qed simp
  have y: "find_value stage_cycle [] m ''y'' (StageAt 0) 0 True [] = None" if "m < n" for m
  proof (cases m)
    case (Suc m')
    have f: "find_value stage_cycle [] m' ''y'' (StageAt 1) 2 False [StageAt 0] = None"
    proof (cases m')
      case (Suc m'')
      then have "replace_vars stage_cycle [] m'' (dollar ''x'') (StageAt 1) 0 = None" using less that \<open>m = Suc m'\<close> by simp
      then show ?thesis using Suc by (simp add: cycle_shape from_ins_def env_ins_def user_ins_def dollar_def Let_def numeral_2_eq_2)
    qed simp
    then show ?thesis using Suc cycle_image(2) [of m' 0]
      by (auto simp: cycle_shape from_ins_def cycle_labels Let_def numeral_2_eq_2)
  qed simp
  show ?case using x y by (cases n) (simp_all add: text_parts_cycle)
qed

text \<open>Two stages built from each other whose variables are defined by each other's: the search for
  the user does not end, with any fuel, though each walk along the FROM lines stops at a
  stage it has seen.\<close>

theorem stage_cycle_diverges:
  "find_user_statement stage_cycle n [] ''b'' = None \<and> find_base_image stage_cycle (image_fuel stage_cycle) ''b'' = Some []"
proof
  have "replace_vars stage_cycle [] n (dollar ''y'') (StageAt 1) 1 = None"
  proof (cases n)
    case (Suc n')
    have "find_value stage_cycle [] n' ''y'' (StageAt 1) 1 True [] = None"
      using cycle_diverges by (cases n') (simp_all add: cycle_shape from_ins_def env_ins_def Let_def)
    then show ?thesis using Suc by (simp add: text_parts_cycle)
  qed simp
  then show "find_user_statement stage_cycle n [] ''b'' = None"
    by (simp add: find_user_statement_def start_stage_def cycle_labels cycle_shape from_ins_def user_ins_def Let_def numeral_2_eq_2)
  show "find_base_image stage_cycle (image_fuel stage_cycle) ''b'' = Some []" by code_simp
qed

end
