(* ===== verification/GoJson.thy ===== *)
theory GoJson
  imports Json
begin

text \<open>
  The text \<open>encoding/json\<close> writes: strings with its escapes, with or without the HTML ones, and
  values on one line with the keys of a map sorted. \<open>ft\<close> is the text of a float64.
\<close>

text \<open>Control characters, quotes and backslashes are escaped, U+2028 and U+2029 always, and an
  invalid byte becomes U+FFFD; with \<open>html\<close> (the default of \<open>Marshal\<close>), \<open>&\<close>, \<open><\<close> and \<open>>\<close> too.\<close>

definition hex4 :: "nat \<Rightarrow> string" where
  "hex4 r = [hex_digit (r div 4096), hex_digit (r div 256 mod 16), hex_digit (r div 16 mod 16), hex_digit (r mod 16)]"

definition go_escape :: "bool \<Rightarrow> nat \<Rightarrow> string \<Rightarrow> string" where
  "go_escape html r raw =
     (if r = 34 then [CHR 0x5C, CHR 0x22] else if r = 92 then [CHR 0x5C, CHR 0x5C]
      else if r = 8 then [CHR 0x5C, CHR ''b''] else if r = 12 then [CHR 0x5C, CHR ''f'']
      else if r = 10 then [CHR 0x5C, CHR ''n''] else if r = 13 then [CHR 0x5C, CHR ''r'']
      else if r = 9 then [CHR 0x5C, CHR ''t'']
      else if r < 0x20 then CHR 0x5C # CHR ''u'' # hex4 r
      else if r < 0x80 then
        (if html then if r \<in> {38, 60, 62} then CHR 0x5C # CHR ''u'' # hex4 r else raw else raw)
      else if r = 0x2028 \<or> r = 0x2029 then CHR 0x5C # CHR ''u'' # hex4 r else raw)"

function go_quote_body :: "bool \<Rightarrow> string \<Rightarrow> string" where
  "go_quote_body html [] = []"
| "go_quote_body html (c # s) =
     (case decode_rune (c # s) of (r, n) \<Rightarrow>
        (if \<not> is_ascii c \<and> n = 1 then CHR 0x5C # CHR ''u'' # ''fffd'' else go_escape html r (take n (c # s)))
        @ go_quote_body html (drop (n - 1) s))"
  by pat_completeness auto
termination
  by (relation "measure (length \<circ> snd)") (auto simp: less_Suc_eq_le)

definition go_quote :: "bool \<Rightarrow> string \<Rightarrow> string" where
  "go_quote html s = dq @ go_quote_body html s @ dq"

fun go_marshal :: "bool \<Rightarrow> (rat \<Rightarrow> string) \<Rightarrow> json \<Rightarrow> string" where
  "go_marshal html ft JNull = ''null''"
| "go_marshal html ft (JBool b) = (if b then ''true'' else ''false'')"
| "go_marshal html ft (JNum q) = ft q"
| "go_marshal html ft (JStr s) = go_quote html s"
| "go_marshal html ft (JArr vs) = ''['' @ join '','' (map (go_marshal html ft) vs) @ '']''"
| "go_marshal html ft (JObj m) =
     [CHR 0x7B] @ join '',''
       (map (\<lambda>(k, t). go_quote html k @ '':'' @ t)
         (sort_key fst (map (\<lambda>p. (fst p, go_marshal html ft (snd p))) m))) @ [CHR 0x7D]"

end
