(* ===== verification/Lockfile.thy ===== *)
theory Lockfile
  imports FeatureTypes V8Json Rounds GoPath GoJson
begin

text \<open>
  \<open>internal/features/lockfile.go\<close>: the lockfile's generation, its text, and the decisions of reading
  and writing it. The file system reaches the model as what \<open>os.ReadFile\<close> and \<open>os.WriteFile\<close>
  return. The parameters of \<open>lock_env\<close> stand for the decoder of \<open>encoding/json\<close>, for a first value,
  for a text that is one value and for a \<open>Lockfile\<close>; for the text of a float64; and for the
  comparison of \<open>golang.org/x/text/collate\<close>.
\<close>

subsection \<open>Lockfiles\<close>

record lockfile_entry =
  le_version :: string
  le_resolved :: string
  le_integrity :: string
  le_depends_on :: "string list"

type_synonym lockfile = "lockfile_entry gomap"

record lock_env =
  decode_first :: "string \<Rightarrow> json option"
  decode_whole :: "string \<Rightarrow> json option"
  unmarshal_lockfile :: "string \<Rightarrow> lockfile option"
  float_text :: "rat \<Rightarrow> string"
  collate :: "string \<Rightarrow> string \<Rightarrow> int"

fun lockable :: "source_info \<Rightarrow> bool" where
  "lockable (OCI s) = True"
| "lockable (Tarball s) = True"
| "lockable (Local s) = False"

fun resolved_text :: "source_info \<Rightarrow> string \<Rightarrow> string" where
  "resolved_text (OCI s) dg = oci_registry s @ ''/'' @ oci_namespace s @ ''/'' @ oci_id s @ ''@'' @ dg"
| "resolved_text (Tarball s) dg = tarball_uri s"
| "resolved_text (Local s) dg = []"

definition lock_entry :: "source_info \<Rightarrow> feature_set \<Rightarrow> feature \<Rightarrow> lockfile_entry" where
  "lock_entry src fs f =
     \<lparr>le_version = feat_version f, le_resolved = resolved_text src (computed_digest fs),
      le_integrity = computed_digest fs,
      le_depends_on = (if depends_on f \<noteq> [] then depends_on_keys f else [])\<rparr>"

definition lock_step :: "string list \<Rightarrow> lockfile \<Rightarrow> feature_set \<Rightarrow> lockfile" where
  "lock_step excluded lf fs =
     (case source_info fs of
        None \<Rightarrow> lf
      | Some src \<Rightarrow>
          if source_type src \<noteq> ''oci'' \<and> source_type src \<noteq> ''direct-tarball'' then lf
          else if source_user_id src \<in> set excluded then lf
          else (case set_features fs of
              [] \<Rightarrow> lf
            | f # _ \<Rightarrow> aput (source_user_id src) (lock_entry src fs f) lf))"

definition generate_lockfile :: "feature_set list \<Rightarrow> string list \<Rightarrow> lockfile" where
  "generate_lockfile sets excluded = foldl (lock_step excluded) [] sets"

subsection \<open>JSON text\<close>

text \<open>A scalar as \<open>Encode\<close> writes it.\<close>

fun scalar_text :: "lock_env \<Rightarrow> json \<Rightarrow> string" where
  "scalar_text E JNull = ''null''"
| "scalar_text E (JBool b) = (if b then ''true'' else ''false'')"
| "scalar_text E (JNum q) = float_text E q"
| "scalar_text E (JStr s) = go_quote False s"
| "scalar_text E _ = []"

text \<open>\<open>Encode\<close> with an indent of two spaces, at a depth; \<open>items\<close> are the texts of the members.\<close>

definition line_at :: "nat \<Rightarrow> string" where
  "line_at d = CHR 0x0A # replicate (2 * d) CHR '' ''"

definition indent_block :: "nat \<Rightarrow> char \<Rightarrow> char \<Rightarrow> string list \<Rightarrow> string" where
  "indent_block d open_c close_c items =
     (if items = [] then [open_c, close_c]
      else [open_c] @ line_at (Suc d) @ join ('','' @ line_at (Suc d)) items @ line_at d @ [close_c])"

fun indented :: "lock_env \<Rightarrow> nat \<Rightarrow> json \<Rightarrow> string" where
  "indented E d (JArr vs) = indent_block d CHR ''['' CHR '']'' (map (indented E (Suc d)) vs)"
| "indented E d (JObj m) =
     indent_block d CHR 0x7B CHR 0x7D (map (\<lambda>p. go_quote False (fst p) @ '': '' @ indented E (Suc d) (snd p)) m)"
| "indented E d v = scalar_text E v"

definition newline :: string where "newline = [CHR 0x0A]"

definition stringify_json :: "lock_env \<Rightarrow> json \<Rightarrow> string" where
  "stringify_json E v = indented E 0 v @ newline"

text \<open>\<open>normalizeValue\<close>: a member is written after its separator, and the line break carries the
  indent. An object's member is its name, a colon and its value.\<close>

fun normalize_value :: "lock_env \<Rightarrow> string \<Rightarrow> json \<Rightarrow> string" where
  "normalize_value E nl (JArr vs) =
     [CHR ''['']
     @ concat (map (\<lambda>(i, v). (if i > 0 then '','' else []) @ (nl @ ''  '') @ v)
         (enumerate 0 (map (normalize_value E (nl @ ''  '')) vs)))
     @ (if vs \<noteq> [] then nl else []) @ [CHR '']'']"
| "normalize_value E nl (JObj m) =
     [CHR 0x7B]
     @ concat (map (\<lambda>(i, v). (if i > 0 then '','' else []) @ (nl @ ''  '') @ v)
         (enumerate 0 (map (\<lambda>p. scalar_text E (JStr (fst p)) @ '': '' @ normalize_value E (nl @ ''  '') (snd p)) m)))
     @ (if m \<noteq> [] then nl else []) @ [CHR 0x7D]"
| "normalize_value E nl v = scalar_text E v"

definition normalize_json :: "lock_env \<Rightarrow> string \<Rightarrow> string option" where
  "normalize_json E data = map_option (\<lambda>v. normalize_value E newline v @ newline) (decode_whole E data)"

text \<open>A lockfile's JSON: the ids in the collator's order.\<close>

definition entry_json :: "lockfile_entry \<Rightarrow> json" where
  "entry_json e = JObj ([(''version'', JStr (le_version e)), (''resolved'', JStr (le_resolved e)),
      (''integrity'', JStr (le_integrity e))]
    @ (if le_depends_on e = [] then [] else [(''dependsOn'', JArr (map JStr (le_depends_on e)))]))"

definition id_compare :: "lock_env \<Rightarrow> string \<Rightarrow> string \<Rightarrow> int" where
  "id_compare E a b = (if collate E a b \<noteq> 0 then collate E a b else str_compare a b)"

definition lockfile_json :: "lock_env \<Rightarrow> lockfile \<Rightarrow> json" where
  "lockfile_json E lf = JObj [(''features'', JObj (map (\<lambda>k. (k, entry_json (the (map_of lf k))))
     (stable_sort (id_compare E) (map fst lf))))]"

subsection \<open>Errors\<close>

text \<open>An error of the file system: an \<open>fs.PathError\<close> with its operation, path and error number, if it
  holds one, or another error.\<close>

datatype fs_error = PathError string string "int option" string | OtherFsError string

record lockfile_error =
  lfe_name :: string
  lfe_message :: string
  lfe_errno :: int
  lfe_code :: string
  lfe_syscall :: string
  lfe_path :: string

datatype lock_failure =
    LockfileFailed lockfile_error
  | FsFailed fs_error
  | ParseLockfileFailed
  | LockfileMissing
  | LockfileMismatch
  | WriteFailed string

fun frozen_message :: "lock_failure \<Rightarrow> string" where
  "frozen_message LockfileMissing = ''Lockfile does not exist.''"
| "frozen_message LockfileMismatch = ''Lockfile does not match.''"
| "frozen_message _ = []"

definition enoent :: int where "enoent = 2"

fun is_not_exist :: "fs_error \<Rightarrow> bool" where
  "is_not_exist (PathError op path n msg) = (n = Some enoent)"
| "is_not_exist (OtherFsError msg) = False"

text \<open>The error numbers are Linux's.\<close>

definition node_errno :: "(int \<times> string \<times> string) list" where
  "node_errno =
     [(13, ''EACCES'', ''permission denied''), (21, ''EISDIR'', ''illegal operation on a directory''),
      (20, ''ENOTDIR'', ''not a directory''), (40, ''ELOOP'', ''too many symbolic links encountered''),
      (36, ''ENAMETOOLONG'', ''name too long''), (1, ''EPERM'', ''operation not permitted''), (5, ''EIO'', ''i/o error'')]"

definition node_fs_error :: "fs_error \<Rightarrow> lock_failure" where
  "node_fs_error err =
     (case err of
        PathError op path (Some n) msg \<Rightarrow>
          (case map_of node_errno n of
             None \<Rightarrow> FsFailed err
           | Some (code, desc) \<Rightarrow>
               (let base = code @ '': '' @ desc @ '', '' @ op in
                LockfileFailed \<lparr>lfe_name = ''Error'',
                  lfe_message = (if op = ''open'' then base @ '' '' @ sq @ path @ sq else base),
                  lfe_errno = - n, lfe_code = code, lfe_syscall = op,
                  lfe_path = (if op = ''open'' then path else [])\<rparr>))
      | _ \<Rightarrow> FsFailed err)"

definition stack_text :: "lockfile_error \<Rightarrow> string" where
  "stack_text e = lfe_name e @ '': '' @ lfe_message e"

definition backtick :: string where "backtick = [CHR 0x60]"

definition js_quote :: "string \<Rightarrow> string" where
  "js_quote s =
     (let q = (if contains_sub s sq
               then (if \<not> contains_sub s dq then dq else if \<not> contains_sub s backtick then backtick else sq)
               else sq);
          t = replace_all s [CHR 0x5C] [CHR 0x5C, CHR 0x5C]
      in q @ replace_all t q (CHR 0x5C # q) @ q)"

definition int_text :: "int \<Rightarrow> string" where
  "int_text n = (if n < 0 then ''-'' @ base_text 10 (- n) else base_text 10 n)"

definition inspect_error :: "lockfile_error \<Rightarrow> string" where
  "inspect_error e =
     (if lfe_code e = [] then stack_text e
      else (let props = ''  errno: '' @ int_text (lfe_errno e) @ '','' @ newline @ ''  code: '' @ js_quote (lfe_code e)
                  @ '','' @ newline @ ''  syscall: '' @ js_quote (lfe_syscall e);
                props' = (if lfe_path e \<noteq> [] then props @ '','' @ newline @ ''  path: '' @ js_quote (lfe_path e) else props)
            in ''['' @ stack_text e @ ''] '' @ [CHR 0x7B] @ newline @ props' @ newline @ [CHR 0x7D]))"

subsection \<open>Reading\<close>

text \<open>Unicode's category Zs, the line terminators and the byte order mark.\<close>

definition is_js_whitespace :: "nat \<Rightarrow> bool" where
  "is_js_whitespace r =
     (if r < 0x80 then r \<in> {9, 10, 11, 12, 13, 0x20}
      else r \<in> {0x2028, 0x2029, 0xFEFF} \<or> r \<in> {0xA0, 0x1680, 0x202F, 0x205F, 0x3000} \<or> 0x2000 \<le> r \<and> r \<le> 0x200A)"

fun seq_more :: "nat \<Rightarrow> nat \<Rightarrow> nat \<Rightarrow> nat \<Rightarrow> string \<Rightarrow> nat" where
  "seq_more need n lo hi [] = n"
| "seq_more need n lo hi (c # s) = (if n \<le> need \<and> cont lo hi c then seq_more need (Suc n) 0x80 0xBF s else n)"

definition sequence_len :: "string \<Rightarrow> nat" where
  "sequence_len b = (case b of [] \<Rightarrow> 0 | c # s \<Rightarrow>
     (let l = bval c in
      if 0xC2 \<le> l \<and> l \<le> 0xDF then seq_more 1 1 0x80 0xBF s
      else if 0xE0 \<le> l \<and> l \<le> 0xEF then seq_more 2 1 (if l = 0xE0 then 0xA0 else 0x80) (if l = 0xED then 0x9F else 0xBF) s
      else if 0xF0 \<le> l \<and> l \<le> 0xF4 then seq_more 3 1 (if l = 0xF0 then 0x90 else 0x80) (if l = 0xF4 then 0x8F else 0xBF) s
      else 1))"

lemma seq_more_ge: "n \<le> seq_more need n lo hi s"
  by (induction need n lo hi s rule: seq_more.induct) auto

lemma sequence_len_pos: "s \<noteq> [] \<Longrightarrow> 0 < sequence_len s"
  using seq_more_ge [of 1] by (auto simp: sequence_len_def Let_def Suc_le_eq split: list.splits)

function lossy_runes :: "string \<Rightarrow> nat list" where
  "lossy_runes s = (if s = [] then [] else
     fst (decode_rune (take (sequence_len s) s)) # lossy_runes (drop (sequence_len s) s))"
  by auto
termination
  by (relation "measure length") (simp_all add: sequence_len_pos)

declare lossy_runes.simps [simp del]

definition decode_utf8_lossy :: "string \<Rightarrow> string" where
  "decode_utf8_lossy s = of_runes (lossy_runes s)"

text \<open>A number that float64 rounds to zero.\<close>

definition float_zero :: "rat \<Rightarrow> bool" where
  "float_zero q \<longleftrightarrow> \<bar>q\<bar> * 2 ^ 1075 \<le> 1"

definition json_truthy :: "lock_env \<Rightarrow> string \<Rightarrow> bool" where
  "json_truthy E data = (case decode_first E data of
       None \<Rightarrow> True
     | Some v \<Rightarrow> (case v of JNull \<Rightarrow> False | JBool b \<Rightarrow> b | JStr s \<Rightarrow> s \<noteq> [] | JNum q \<Rightarrow> \<not> float_zero q | _ \<Rightarrow> True))"

text \<open>The result is the lockfile, if any, and whether an empty file asks for one.\<close>

definition read_lockfile ::
  "lock_env \<Rightarrow> (fs_error, string) res \<Rightarrow> (lock_failure, lockfile option \<times> bool) res" where
  "read_lockfile E read =
     (case read of
        Inl err \<Rightarrow> if is_not_exist err then Inr (None, False) else Inl (node_fs_error err)
      | Inr data \<Rightarrow>
          (let content = decode_utf8_lossy data; msg = v8_json_syntax_error content in
           if list_all is_js_whitespace (runes content) then Inr (None, True)
           else if msg \<noteq> [] then
             Inl (LockfileFailed \<lparr>lfe_name = ''SyntaxError'', lfe_message = msg, lfe_errno = 0, lfe_code = [],
                    lfe_syscall = [], lfe_path = []\<rparr>)
           else if \<not> json_truthy E data then Inr (None, False)
           else (case unmarshal_lockfile E data of
               None \<Rightarrow> Inl ParseLockfileFailed | Some lf \<Rightarrow> Inr (Some lf, False))))"

definition lockfile_path :: "string \<Rightarrow> string" where
  "lockfile_path config_path =
     (if has_prefix (path_base config_path) ''.'' then path_join [path_dir config_path, ''.devcontainer-lock.json'']
      else path_join [path_dir config_path, ''devcontainer-lock.json''])"

subsection \<open>Writing\<close>

text \<open>The file as \<open>os.ReadFile\<close> sees it; \<open>write_error\<close> is the error of \<open>os.WriteFile\<close>, if it fails. The result
  is the error, if any, and the file afterwards; a failed write leaves the file in any state \<open>torn\<close>.\<close>

definition rewrite_lockfile ::
  "lock_env \<Rightarrow> string \<Rightarrow> string \<Rightarrow> bool \<Rightarrow> (fs_error, string) res \<Rightarrow> string option \<Rightarrow> (fs_error, string) res \<Rightarrow>
   lock_failure option \<times> (fs_error, string) res" where
  "rewrite_lockfile E new_data old_data frozen file write_error torn =
     (let unchanged = (normalize_json E old_data = Some new_data) in
      if frozen then (if \<not> unchanged then (Some LockfileMismatch, file) else (None, file))
      else if unchanged then (None, file)
      else (case write_error of Some e \<Rightarrow> (Some (WriteFailed e), torn) | None \<Rightarrow> (None, Inr new_data)))"

definition write_lockfile ::
  "lock_env \<Rightarrow> lockfile \<Rightarrow> bool \<Rightarrow> (fs_error, string) res \<Rightarrow> string option \<Rightarrow> (fs_error, string) res \<Rightarrow>
   lock_failure option \<times> (fs_error, string) res" where
  "write_lockfile E lf frozen file write_error torn =
     (let new_data = stringify_json E (lockfile_json E lf) in
      case file of
        Inl err \<Rightarrow>
          if \<not> is_not_exist err then (Some (FsFailed err), file)
          else if frozen then (Some LockfileMissing, file)
          else rewrite_lockfile E new_data [] frozen file write_error torn
      | Inr old_data \<Rightarrow> rewrite_lockfile E new_data old_data frozen file write_error torn)"

subsection \<open>What is locked\<close>

definition locked_as :: "string list \<Rightarrow> string \<Rightarrow> feature_set \<Rightarrow> bool" where
  "locked_as excluded i fs \<longleftrightarrow> (\<exists>src. source_info fs = Some src \<and> lockable src \<and> source_user_id src = i) \<and>
     i \<notin> set excluded \<and> set_features fs \<noteq> []"

definition locked_entry :: "feature_set \<Rightarrow> lockfile_entry" where
  "locked_entry fs = lock_entry (the (source_info fs)) fs (hd (set_features fs))"

lemma lockable_type: "lockable src \<longleftrightarrow> source_type src = ''oci'' \<or> source_type src = ''direct-tarball''"
  by (cases src) simp_all

lemma lock_step_lookup:
  "map_of (lock_step excluded lf fs) i = (if locked_as excluded i fs then Some (locked_entry fs) else map_of lf i)"
  by (auto simp: lock_step_def locked_as_def locked_entry_def lockable_type split: option.split list.split)

lemma distinct_lock_step: "distinct (map fst lf) \<Longrightarrow> distinct (map fst (lock_step excluded lf fs))"
  by (auto simp: lock_step_def split: option.split list.split)

text \<open>The lockfile holds an entry exactly for the ids of the Features that come from a registry or a
  tarball and are not excluded; the entry is of the last Feature set with the id.\<close>

theorem generate_lockfile_exact:
  "map_of (generate_lockfile sets excluded) i = map_option locked_entry (find (locked_as excluded i) (rev sets))
   \<and> distinct (map fst (generate_lockfile sets excluded))"
  unfolding generate_lockfile_def
  by (induction sets rule: rev_induct) (auto simp: lock_step_lookup distinct_lock_step)

subsection \<open>Decoding invalid UTF-8\<close>

lemma lossy_runes_Nil [simp]: "lossy_runes [] = []"
  by (simp add: lossy_runes.simps)

lemma lossy_runes_Cons: "lossy_runes (c # s) =
    fst (decode_rune (take (sequence_len (c # s)) (c # s))) # lossy_runes (drop (sequence_len (c # s)) (c # s))"
  by (simp add: lossy_runes.simps [of "c # s"])

lemma valid_rune_lossy: "r \<in> set (lossy_runes s) \<Longrightarrow> valid_rune r"
proof (induction s rule: lossy_runes.induct)
  case (1 s)
  then show ?case using decode_rune_valid by (cases s) (auto simp: lossy_runes_Cons)
qed

lemma sequence_len_ascii: "is_ascii c \<Longrightarrow> sequence_len (c # s) = 1 \<and> decode_rune (c # s) = (bval c, 1)"
  by (simp add: sequence_len_def decode_rune_def is_ascii_def)

lemma seq_more_stop [simp]: "need < n \<Longrightarrow> seq_more need n lo hi s = n"
  by (cases s) simp_all

lemma sequence_len_valid:
  assumes "decode_rune (c # s) = (r, n)" "\<not> is_ascii c" "n \<noteq> 1"
  shows "sequence_len (c # s) = n \<and> decode_rune (take n (c # s)) = (r, n)"
proof -
  define b where "b = bval c"
  consider (two) "0xC2 \<le> b" "b \<le> 0xDF" | (three) "0xE0 \<le> b" "b \<le> 0xEF" | (four) "0xF0 \<le> b" "b \<le> 0xF4"
    using assms by (auto simp: decode_rune_def is_ascii_def b_def Let_def split: if_splits)
  then show ?thesis
  proof cases
    case two
    then show ?thesis using assms
      by (cases s) (auto simp: decode_rune_def sequence_len_def is_ascii_def b_def Let_def split: if_splits)
  next
    case three
    then obtain c1 c2 t where s: "s = c1 # c2 # t"
      using assms by (auto simp: decode_rune_def is_ascii_def b_def Let_def split: if_splits list.splits)
    then show ?thesis using three assms unfolding s
      by (auto simp: decode_rune_def sequence_len_def is_ascii_def b_def Let_def take_Cons' split: if_splits)
  next
    case four
    then obtain c1 c2 c3 t where s: "s = c1 # c2 # c3 # t"
      using assms by (auto simp: decode_rune_def is_ascii_def b_def Let_def split: if_splits list.splits)
    then show ?thesis using four assms unfolding s
      by (auto simp: decode_rune_def sequence_len_def is_ascii_def b_def Let_def take_Cons' split: if_splits)
  qed
qed


lemma lossy_valid: "utf8_ok s \<Longrightarrow> lossy_runes s = runes s"
proof (induction s rule: runes.induct)
  case (2 c s)
  obtain r n where d: "decode_rune (c # s) = (r, n)" by (cases "decode_rune (c # s)")
  have rs: "runes (c # s) = r # runes (drop (n - 1) s)" using d by simp
  then have e: "encode_rune r @ of_runes (runes (drop (n - 1) s)) = c # s"
    using 2(2) by (simp add: utf8_ok_def of_runes_def)
  have vr: "valid_rune r" using decode_rune_valid [of "c # s"] d by simp
  then have er: "encode_rune r = encode_valid r" by (simp add: encode_rune_def)
  have n: "n = length (encode_rune r)"
    using decode_encode_rune [OF vr, of "of_runes (runes (drop (n - 1) s))"] e d by simp
  have "c # s = take n (c # s) @ drop n (c # s)" by simp
  moreover have "take n (c # s) = encode_rune r" using e n by (metis append_eq_conv_conj)
  ultimately have "drop n (c # s) = of_runes (runes (drop (n - 1) s))" using e by (metis append_same_eq append_eq_append_conv)
  moreover have "drop n (c # s) = drop (n - 1) s" using n by (simp add: drop_Cons')
  ultimately have ok: "utf8_ok (drop (n - 1) s)" by (simp add: utf8_ok_def)
  have "sequence_len (c # s) = n \<and> decode_rune (take n (c # s)) = (r, n)"
  proof (cases "is_ascii c")
    case True
    then show ?thesis using sequence_len_ascii [OF True, of s] sequence_len_ascii [OF True, of "[]"] d by simp
  next
    case False
    have "n \<noteq> 1"
    proof
      assume "n = 1"
      then have "encode_valid r = [c]" using \<open>take n (c # s) = encode_rune r\<close> er by simp
      then show False using False by (auto simp: encode_valid_def is_ascii_def split: if_splits)
    qed
    then show ?thesis using sequence_len_valid [OF d False] by simp
  qed
  then show ?case using 2(1) [OF d [symmetric] refl] ok rs \<open>drop n (c # s) = drop (n - 1) s\<close> by (simp add: lossy_runes_Cons)
qed simp

text \<open>The lossy decoding of a lockfile gives valid UTF-8, whatever the bytes, and leaves text that is
  already valid as it is.\<close>

theorem decode_utf8_lossy_valid:
  "utf8_ok (decode_utf8_lossy s) \<and> (utf8_ok s \<longleftrightarrow> decode_utf8_lossy s = s)"
proof -
  have "runes (of_runes (lossy_runes s)) = lossy_runes s"
    using valid_rune_lossy by (intro runes_of_runes) blast
  then have ok: "utf8_ok (decode_utf8_lossy s)" by (simp add: utf8_ok_def decode_utf8_lossy_def)
  have "utf8_ok s \<Longrightarrow> decode_utf8_lossy s = s"
    by (simp add: decode_utf8_lossy_def lossy_valid utf8_ok_def)
  then show ?thesis using ok by metis
qed

subsection \<open>The two printers agree\<close>

lemma line_at_Suc: "line_at d @ ''  '' = line_at (Suc d)"
proof -
  have "replicate (2 * d) CHR '' '' @ ''  '' = replicate (2 * d + 2) CHR '' ''"
    by (simp only: replicate_add) (simp add: numeral_2_eq_2)
  then show ?thesis by (simp add: line_at_def)
qed

lemma enumerate_items:
  "concat (map (\<lambda>(i, v). (if i > 0 then '','' else []) @ sep @ v) (enumerate n items)) =
   (if items = [] then [] else (if n > 0 then '','' else []) @ sep @ join ('','' @ sep) items)"
proof (induction items arbitrary: n)
  case (Cons x xs)
  then show ?case by (cases xs) auto
qed simp

lemma normalize_indented: "normalize_value E (line_at d) v = indented E d v"
proof (induction E d v rule: indented.induct)
  case (1 E d vs)
  have m: "map (normalize_value E (line_at (Suc d))) vs = map (indented E (Suc d)) vs" by (rule map_cong) (simp_all add: 1)
  show ?case by (simp add: m line_at_Suc indent_block_def enumerate_items [where sep = "line_at (Suc d)"])
next
  case (2 E d m)
  have m: "map (\<lambda>p. scalar_text E (JStr (fst p)) @ '': '' @ normalize_value E (line_at (Suc d)) (snd p)) m =
    map (\<lambda>p. go_quote False (fst p) @ '': '' @ indented E (Suc d) (snd p)) m" by (rule map_cong) (simp_all add: 2)
  show ?case unfolding normalize_value.simps line_at_Suc m by (simp add: line_at_Suc indent_block_def enumerate_items [where sep = "line_at (Suc d)"])
qed simp_all

lemma normalize_json_text: "normalize_json E s = map_option (stringify_json E) (decode_whole E s)"
  using normalize_indented [of E 0] by (cases "decode_whole E s") (simp_all add: normalize_json_def stringify_json_def line_at_def newline_def)

subsection \<open>Writing and checking\<close>

text \<open>C37. A run with a frozen lockfile never changes the file, and passes exactly when the file is there and
  its JSON value is written as the new lockfile is.\<close>

theorem frozen_lockfile_check:
  "snd (write_lockfile E lf True file w t) = file \<and>
   (fst (write_lockfile E lf True file w t) = None \<longleftrightarrow>
     (\<exists>d v. file = Inr d \<and> decode_whole E d = Some v \<and> stringify_json E v = stringify_json E (lockfile_json E lf)))"
  by (auto simp: write_lockfile_def rewrite_lockfile_def Let_def normalize_json_text split: sum.split)

text \<open>C36. What a run writes, a frozen run with the same Features accepts and a second run leaves as it is:
  the file is stable once the decoder reads the written text back.\<close>

theorem written_lockfile_accepted:
  assumes "decode_whole E (stringify_json E (lockfile_json E lf)) = Some (lockfile_json E lf)"
    and "decode_whole E [] = None"
    and "write_lockfile E lf False file w t = (None, file')"
  shows "write_lockfile E lf fr file' w' t' = (None, file')"
proof -
  have "\<exists>d. file' = Inr d \<and> normalize_json E d = Some (stringify_json E (lockfile_json E lf))"
    using assms by (auto simp: normalize_json_text write_lockfile_def rewrite_lockfile_def Let_def split: sum.splits if_splits option.splits)
  then show ?thesis by (auto simp: write_lockfile_def rewrite_lockfile_def)
qed

text \<open>A lockfile of one Feature, and a decoder that reads its text and an empty object.\<close>

definition one_lock :: lockfile where
  "one_lock = [(''ghcr.io/a/b/c:1'', \<lparr>le_version = ''1.0.0'', le_resolved = ''ghcr.io/a/b/c@sha256:0'', le_integrity = ''sha256:0'',
     le_depends_on = []\<rparr>)]"

definition plain_env :: lock_env where
  "plain_env = \<lparr>decode_first = \<lambda>s. Some (JObj []), decode_whole = \<lambda>s. None, unmarshal_lockfile = \<lambda>s. Some [],
     float_text = \<lambda>q. [], collate = (\<lambda>a b. 0)\<rparr>"

definition one_env :: lock_env where
  "one_env = plain_env\<lparr>decode_whole := \<lambda>s. if s = [] then None else Some (lockfile_json plain_env one_lock)\<rparr>"

lemma written_lockfile_accepted_witness:
  "write_lockfile one_env one_lock True (Inr (stringify_json one_env (lockfile_json one_env one_lock))) None (Inr []) =
    (None, Inr (stringify_json one_env (lockfile_json one_env one_lock)))"
proof (rule written_lockfile_accepted)
  show "decode_whole one_env (stringify_json one_env (lockfile_json one_env one_lock)) = Some (lockfile_json one_env one_lock)"
    "decode_whole one_env [] = None" by code_simp+
  show "write_lockfile one_env one_lock False (Inl (PathError ''open'' ''x'' (Some 2) [])) None (Inr []) =
    (None, Inr (stringify_json one_env (lockfile_json one_env one_lock)))" by code_simp
qed

subsection \<open>Reading\<close>

text \<open>Reading gives a lockfile only for a file whose text is a JSON value that is neither blank nor
  falsy, and fails on a text that is not JSON with a \<open>SyntaxError\<close> of a message that is not empty.\<close>

theorem read_lockfile_json:
  "(read_lockfile E file = Inr (Some lf, b) \<longrightarrow> (\<exists>d v w. file = Inr d \<and> \<not> b \<and>
      utf16_encode (runes (decode_utf8_lossy d)) = v @ w \<and> json_value v \<and> ws_run w \<and> json_truthy E d \<and>
      unmarshal_lockfile E d = Some lf)) \<and>
   (read_lockfile E (Inr d) = Inl (LockfileFailed e) \<longrightarrow> lfe_name e = ''SyntaxError'' \<and> lfe_message e \<noteq> [] \<and>
      \<not> (\<exists>v w. utf16_encode (runes (decode_utf8_lossy d)) = v @ w \<and> json_value v \<and> ws_run w))"
  using v8_no_error_iff [of "decode_utf8_lossy d" for d]
  by (auto simp: read_lockfile_def Let_def v8_no_error_iff [symmetric] node_fs_error_def split: sum.splits if_splits option.splits)

lemma read_lockfile_json_witness:
  "read_lockfile plain_env (Inr [CHR 0x7B, CHR 0x7D]) = Inr (Some [], False) \<and>
   (\<exists>v w. utf16_encode (runes (decode_utf8_lossy [CHR 0x7B, CHR 0x7D])) = v @ w \<and> json_value v \<and> ws_run w)"
proof -
  have r: "read_lockfile plain_env (Inr [CHR 0x7B, CHR 0x7D]) = Inr (Some [], False)" by code_simp
  then show ?thesis using read_lockfile_json [of plain_env "Inr [CHR 0x7B, CHR 0x7D]" "[]" False "[]"] by blast
qed

end
