(* ===== verification/JsObject.thy ===== *)
theory JsObject
  imports FeatureTypes GoNumbers Rounds
begin

text \<open>
  \<open>internal/features/jsobject.go\<close> and the JSON of a Feature in \<open>types.go\<close>: JavaScript objects, which
  keep the order their properties were added in and list array indexes first. An object is its
  keys and the map of their values, as in the code; \<open>view\<close> is the list of properties it stands for,
  and the lemmas of \<open>view\<close> say that each operation is the one on lists of Prelude. The pointers the
  code shares between objects are values here: nothing reads an object after it was changed
  through another.

  A text parsed by \<open>encoding/json\<close> reaches the model as the tree its tokens build, repeated keys
  included; the text of a float64 is a parameter.
\<close>

datatype jsval =
    VNull
  | VBool bool
  | VNum rat
  | VStr string
  | VArr "jsval list"
  | VObj "string list" "(string \<times> jsval) list"

type_synonym js_object = "string list \<times> (string \<times> jsval) list"

lemma size_jsval_vals [termination_simp]: "p \<in> set vs \<Longrightarrow> size (snd p) < Suc (size_list (size_prod (\<lambda>_. 0) size) vs)"
  by (induction vs) auto

subsection \<open>Operations\<close>

definition new_js_object :: js_object where
  "new_js_object = ([], [])"

definition js_set :: "string \<Rightarrow> jsval \<Rightarrow> js_object \<Rightarrow> js_object" where
  "js_set k v = (\<lambda>(ks, vs). (if map_of vs k = None then ks @ [k] else ks, aput k v vs))"

definition js_get :: "string \<Rightarrow> js_object \<Rightarrow> jsval option" where
  "js_get k = (\<lambda>(ks, vs). map_of vs k)"

definition js_remove :: "string \<Rightarrow> js_object \<Rightarrow> js_object" where
  "js_remove k = (\<lambda>(ks, vs). if map_of vs k = None then (ks, vs) else (filter (\<lambda>s. s \<noteq> k) ks, adel k vs))"

definition js_spread :: "js_object \<Rightarrow> js_object \<Rightarrow> js_object" where
  "js_spread base src = foldl (\<lambda>obj k. js_set k (the (js_get k src)) obj) base (fst src)"

text \<open>\<open>strconv.ParseUint(k, 10, 32)\<close>; \<open>None\<close> is its error.\<close>

fun parse_uint32 :: "nat \<Rightarrow> string \<Rightarrow> nat option" where
  "parse_uint32 n [] = Some n"
| "parse_uint32 n (c # s) =
     (case digit_in c of
        None \<Rightarrow> None
      | Some d \<Rightarrow> if d \<ge> 10 then None else if int n * 10 + int d > 2 ^ 32 - 1 then None else parse_uint32 (n * 10 + d) s)"

definition is_array_index :: "string \<Rightarrow> bool" where
  "is_array_index k \<longleftrightarrow> k \<noteq> [] \<and> (case parse_uint32 0 k of None \<Rightarrow> False | Some n \<Rightarrow> int n \<noteq> 2 ^ 32 - 1 \<and> nat_text n = k)"

definition index_compare :: "string \<Rightarrow> string \<Rightarrow> int" where
  "index_compare a b = (if length a < length b then -1 else if length b < length a then 1 else str_compare a b)"

definition js_order :: "js_object \<Rightarrow> string list" where
  "js_order obj = (let ks = fst obj in
     stable_sort index_compare (filter is_array_index ks) @ filter (\<lambda>k. \<not> is_array_index k) ks)"

text \<open>\<open>MarshalJSON\<close>: the tree of the text it writes.\<close>

fun js_to_json :: "jsval \<Rightarrow> json" where
  "js_to_json VNull = JNull"
| "js_to_json (VBool b) = JBool b"
| "js_to_json (VNum q) = JNum q"
| "js_to_json (VStr s) = JStr s"
| "js_to_json (VArr vs) = JArr (map js_to_json vs)"
| "js_to_json (VObj ks vs) =
     (let ts = map (\<lambda>p. (fst p, js_to_json (snd p))) vs in
      JObj (map (\<lambda>k. (k, case map_of ts k of None \<Rightarrow> JNull | Some t \<Rightarrow> t)) (js_order (ks, vs))))"

definition marshal_object :: "js_object \<Rightarrow> json" where
  "marshal_object obj = js_to_json (case_prod VObj obj)"

text \<open>\<open>parseJS\<close> on the tree of the tokens.\<close>

fun parse_js :: "json \<Rightarrow> jsval" where
  "parse_js JNull = VNull"
| "parse_js (JBool b) = VBool b"
| "parse_js (JNum q) = VNum q"
| "parse_js (JStr s) = VStr s"
| "parse_js (JArr vs) = VArr (map parse_js vs)"
| "parse_js (JObj m) = case_prod VObj (foldl (\<lambda>obj (k, v). js_set k v obj) new_js_object (map (\<lambda>p. (fst p, parse_js (snd p))) m))"

definition to_js :: "json \<Rightarrow> jsval" where
  "to_js v = parse_js v"

definition js_truthy :: "jsval option \<Rightarrow> bool" where
  "js_truthy v = (case v of
       None \<Rightarrow> False
     | Some x \<Rightarrow> (case x of VNull \<Rightarrow> False | VBool b \<Rightarrow> b | VStr s \<Rightarrow> s \<noteq> [] | VNum q \<Rightarrow> q \<noteq> 0 | _ \<Rightarrow> True))"

definition set_all :: "(string \<times> jsval) list \<Rightarrow> js_object \<Rightarrow> js_object" where
  "set_all ps obj = foldl (\<lambda>obj (k, v). js_set k v obj) obj ps"

definition index_props :: "jsval list \<Rightarrow> (string \<times> jsval) list" where
  "index_props vs = map (\<lambda>(i, v). (nat_text i, v)) (enumerate 0 vs)"

definition spread_source :: "jsval option \<Rightarrow> js_object" where
  "spread_source v = (case v of
       Some (VObj ks vs) \<Rightarrow> (ks, vs)
     | Some (VArr vs) \<Rightarrow> set_all (index_props vs) new_js_object
     | Some (VStr s) \<Rightarrow>
         set_all (index_props (map (\<lambda>u. VStr (of_runes (utf16_decode [u]))) (utf16_encode (runes s)))) new_js_object
     | _ \<Rightarrow> new_js_object)"

subsection \<open>A Feature's JSON\<close>

text \<open>\<open>orNewObject\<close>: the object found or made, and the object holding it.\<close>

definition or_new_object :: "string \<Rightarrow> js_object \<Rightarrow> js_object \<times> js_object" where
  "or_new_object k obj =
     (case js_get k obj of
        Some (VObj ks vs) \<Rightarrow> ((ks, vs), obj)
      | _ \<Rightarrow> (new_js_object, js_set k (case_prod VObj new_js_object) obj))"

datatype js_error = NotAFunction | BadMetadata

fun js_string :: "(rat \<Rightarrow> string) \<Rightarrow> jsval \<Rightarrow> string" where
  "js_string ft (VStr s) = s"
| "js_string ft (VBool b) = (if b then ''true'' else ''false'')"
| "js_string ft (VNum q) = ft q"
| "js_string ft (VArr vs) = join '','' (map (\<lambda>e. case e of VNull \<Rightarrow> [] | _ \<Rightarrow> js_string ft e) vs)"
| "js_string ft _ = ''[object Object]''"

definition js_concat :: "(rat \<Rightarrow> string) \<Rightarrow> jsval option \<Rightarrow> jsval \<Rightarrow> (js_error, jsval) res" where
  "js_concat ft base v =
     (case (if js_truthy base then the base else VArr []) of
        VArr b \<Rightarrow> Inr (VArr (case v of VArr a \<Rightarrow> b @ a | _ \<Rightarrow> b @ [v]))
      | VStr b \<Rightarrow> Inr (VStr (b @ js_string ft v))
      | _ \<Rightarrow> Inl NotAFunction)"

definition move_settings :: "jsval option \<Rightarrow> js_object \<Rightarrow> js_object" where
  "move_settings settings vscode =
     js_set ''settings'' (case_prod VObj (js_spread (spread_source settings) (spread_source (js_get ''settings'' vscode)))) vscode"

definition update_from_old_properties :: "(rat \<Rightarrow> string) \<Rightarrow> js_object \<Rightarrow> (js_error, js_object) res" where
  "update_from_old_properties ft original =
     (let ext = js_get ''extensions'' original; settings = js_get ''settings'' original in
      if \<not> js_truthy ext \<and> \<not> js_truthy settings then Inr original
      else (let (customizations, cp1) = or_new_object ''customizations'' (js_spread original new_js_object);
                (vscode, cz1) = or_new_object ''vscode'' customizations in
        bind_res (if js_truthy ext
                  then bind_res (js_concat ft (js_get ''extensions'' vscode) (the ext)) (\<lambda>j. Inr (js_set ''extensions'' j vscode))
                  else Inr vscode) (\<lambda>vscode1.
          (let vscode2 = (if js_truthy settings then move_settings settings vscode1 else vscode1);
               cz2 = js_set ''vscode'' (case_prod VObj vscode2) cz1;
               cp2 = js_set ''customizations'' (case_prod VObj cz2) cp1;
               cp3 = (if js_truthy ext then js_remove ''extensions'' cp2 else cp2)
           in Inr (if js_truthy settings then js_remove ''settings'' cp3 else cp3)))))"

text \<open>The raw metadata of a Feature, parsed: absent, not JSON, or its value.\<close>

datatype raw_metadata = NoData | NotJson | Parsed json

record full_feature = feature +
  feat_description :: string
  cache_path :: string
  feat_metadata :: raw_metadata
  feat_file :: raw_metadata
  source_keys :: "string list option"

definition local_feature_keys :: "string list" where
  "local_feature_keys = [''id'', ''name'', ''value'', ''included'']"

definition oci_feature_keys :: "string list" where
  "oci_feature_keys = [''id'', ''included'', ''value'']"

definition metadata_object :: "raw_metadata \<Rightarrow> (js_error, js_object) res" where
  "metadata_object d = (case d of
       NoData \<Rightarrow> Inr new_js_object
     | NotJson \<Rightarrow> Inl BadMetadata
     | Parsed v \<Rightarrow> Inr (spread_source (Some (parse_js v))))"

definition source_property :: "full_feature \<Rightarrow> string \<Rightarrow> json" where
  "source_property f k =
     (if k = ''id'' then JStr (feat_id f) else if k = ''name'' then JStr (feat_name f)
      else if k = ''value'' then feat_value f else if k = ''included'' then JBool (feat_included f) else JNull)"

text \<open>The struct's own JSON: the fields in order, those with \<open>omitempty\<close> left out when empty; Go writes a
  map's keys sorted.\<close>

definition omit_if :: "bool \<Rightarrow> string \<Rightarrow> json \<Rightarrow> (string \<times> json) list" where
  "omit_if e k v = (if e then [] else [(k, v)])"

definition str_field :: "string \<Rightarrow> string \<Rightarrow> (string \<times> json) list" where
  "str_field k s = omit_if (s = []) k (JStr s)"

definition strs_field :: "string \<Rightarrow> string list \<Rightarrow> (string \<times> json) list" where
  "strs_field k ss = omit_if (ss = []) k (JArr (map JStr ss))"

definition map_field :: "string \<Rightarrow> json gomap \<Rightarrow> (string \<times> json) list" where
  "map_field k m = omit_if (m = []) k (JObj (map (\<lambda>i. (i, the (map_of m i))) (sorted_keys m)))"

definition any_field :: "string \<Rightarrow> json \<Rightarrow> (string \<times> json) list" where
  "any_field k v = omit_if (v = JNull) k v"

definition bool_field :: "string \<Rightarrow> bool option \<Rightarrow> (string \<times> json) list" where
  "bool_field k b = (case b of None \<Rightarrow> [] | Some x \<Rightarrow> [(k, JBool x)])"

definition plain_feature_json :: "full_feature \<Rightarrow> json" where
  "plain_feature_json f = JObj (
     [(''id'', JStr (feat_id f))] @ str_field ''version'' (feat_version f) @ str_field ''name'' (feat_name f)
     @ str_field ''description'' (feat_description f) @ str_field ''documentationURL'' (feat_documentation_url f)
     @ map_field ''options'' (feat_options f) @ map_field ''dependsOn'' (depends_on f)
     @ strs_field ''installsAfter'' (installs_after f) @ strs_field ''legacyIds'' (legacy_ids f)
     @ [(''included'', JBool (feat_included f))] @ str_field ''cachePath'' (cache_path f)
     @ str_field ''consecutiveId'' (consecutive_id f) @ [(''value'', feat_value f)]
     @ map_field ''containerEnv'' (map (\<lambda>(k, v). (k, JStr v)) (feat_container_env f))
     @ omit_if (feat_mounts f = []) ''mounts'' (JArr (feat_mounts f)) @ bool_field ''init'' (feat_init f)
     @ bool_field ''privileged'' (feat_privileged f) @ strs_field ''capAdd'' (feat_cap_add f)
     @ strs_field ''securityOpt'' (feat_security_opt f) @ str_field ''entrypoint'' (feat_entrypoint f)
     @ any_field ''onCreateCommand'' (feat_on_create f) @ any_field ''updateContentCommand'' (feat_update_content f)
     @ any_field ''postCreateCommand'' (feat_post_create f) @ any_field ''postStartCommand'' (feat_post_start f)
     @ any_field ''postAttachCommand'' (feat_post_attach f) @ map_field ''customizations'' (feat_customizations f))"

definition marshal_feature :: "(rat \<Rightarrow> string) \<Rightarrow> full_feature \<Rightarrow> (js_error, json) res" where
  "marshal_feature ft f =
     (case source_keys f of
        None \<Rightarrow> Inr (plain_feature_json f)
      | Some ks \<Rightarrow>
          (let start = foldl (\<lambda>obj k. js_set k (to_js (source_property f k)) obj) new_js_object ks in
           bind_res (metadata_object (feat_metadata f)) (\<lambda>meta.
             (let f1 = js_spread start meta;
                  f2 = (if cache_path f \<noteq> [] then js_set ''cachePath'' (VStr (cache_path f)) f1 else f1);
                  f3 = (if consecutive_id f \<noteq> [] then js_set ''consecutiveId'' (VStr (consecutive_id f)) f2 else f2) in
              bind_res (if feat_file f = NoData then Inr meta else metadata_object (feat_file f)) (\<lambda>file.
                bind_res (update_from_old_properties ft (js_spread file f3)) (\<lambda>out. Inr (marshal_object out)))))))"

subsection \<open>Array indexes\<close>

lemma parse_uint32_digits:
  "\<forall>c\<in>set s. is_digit c \<Longrightarrow> int (nat_fold 10 n s) \<le> 2 ^ 32 - 1 \<Longrightarrow> parse_uint32 n s = Some (nat_fold 10 n s)"
proof (induction s arbitrary: n)
  case (Cons c s)
  obtain d where d: "d < 10" "digit_in c = Some d" using Cons.prems(1) digit_in_digit by auto
  have f: "nat_fold 10 n (c # s) = nat_fold 10 (n * 10 + d) s" using d by (simp add: nat_fold_def)
  then have "int (n * 10 + d) \<le> 2 ^ 32 - 1" using nat_fold_mono [of 10 "n * 10 + d" s] Cons.prems(2) by linarith
  then show ?case using Cons d f by simp
qed (simp add: nat_fold_def)

lemma parse_uint32_bound: "parse_uint32 n s = Some m \<Longrightarrow> int n \<le> 2 ^ 32 - 1 \<Longrightarrow> int m \<le> 2 ^ 32 - 1"
  by (induction n s rule: parse_uint32.induct) (auto split: option.splits if_splits)

lemma nat_fold_nat_text: "nat_fold 10 0 (nat_text n) = n"
  using nat_fold_text [of 10 n] by (simp add: nat_text_def)

lemma array_index_iff: "is_array_index k \<longleftrightarrow> (\<exists>n. int n < 2 ^ 32 - 1 \<and> k = nat_text n)"
proof
  assume "is_array_index k"
  then obtain n where "parse_uint32 0 k = Some n" "int n \<noteq> 2 ^ 32 - 1" "nat_text n = k"
    by (auto simp: is_array_index_def split: option.splits)
  then show "\<exists>n. int n < 2 ^ 32 - 1 \<and> k = nat_text n" using parse_uint32_bound [of 0 k n] by fastforce
next
  assume "\<exists>n. int n < 2 ^ 32 - 1 \<and> k = nat_text n"
  then obtain n where n: "int n < 2 ^ 32 - 1" "k = nat_text n" by blast
  have "parse_uint32 0 k = Some n"
    using parse_uint32_digits [of k 0] nat_text_digit n nat_fold_nat_text by simp
  then show "is_array_index k" using n by (simp add: is_array_index_def)
qed

text \<open>The array indexes are the decimal texts of the numbers below 2 to the 32 less one.\<close>

theorem is_array_index_iff: "is_array_index k \<longleftrightarrow> (\<exists>n. int n < 2 ^ 32 - 1 \<and> k = nat_text n)"
  by (rule array_index_iff)

text \<open>The comparison of indexes is that of their numbers.\<close>

lemma append_less_left: "length a = length b \<Longrightarrow> a < b \<Longrightarrow> a @ x < (b @ y :: string)"
  by (induction a b rule: list_induct2) auto

lemma digit_char_less: "d < e \<Longrightarrow> e < 10 \<Longrightarrow> digit_char d < digit_char e"
  by (simp add: digit_char_def less_char_def)

lemma base_text_less:
  "0 \<le> m \<Longrightarrow> m < n \<Longrightarrow> length (base_text 10 m) < length (base_text 10 n) \<or>
   length (base_text 10 m) = length (base_text 10 n) \<and> base_text 10 m < base_text 10 n"
proof (induction "10 :: int" n arbitrary: m rule: base_text.induct)
  case (1 n)
  consider "n < 10" | "n \<ge> 10" "m < 10" | "n \<ge> 10" "m \<ge> 10" by linarith
  then show ?case
  proof cases
    case 1
    then have "base_text 10 m = [digit_char (nat m)]" "base_text 10 n = [digit_char (nat n)]"
      using "1.prems" by (simp_all add: base_text.simps)
    then show ?thesis using 1 "1.prems" digit_char_less [of "nat m" "nat n"] by simp
  next
    case 2
    then have "base_text 10 m = [digit_char (nat m)]" "length (base_text 10 n) = Suc (length (base_text 10 (n div 10)))"
      by (simp_all add: base_text.simps [of 10 m] base_text.simps [of 10 n])
    then show ?thesis by (simp add: Suc_lessI)
  next
    case 3
    then have e: "base_text 10 m = base_text 10 (m div 10) @ [digit_char (nat (m mod 10))]"
      "base_text 10 n = base_text 10 (n div 10) @ [digit_char (nat (n mod 10))]"
      by (simp_all add: base_text.simps [of 10 m] base_text.simps [of 10 n])
    have "m div 10 \<le> n div 10" using "1.prems" by (simp add: zdiv_mono1)
    then consider "m div 10 < n div 10" | "m div 10 = n div 10" "m mod 10 < n mod 10"
      using "1.prems" by (metis mult_div_mod_eq add_less_cancel_left order_le_less)
    then show ?thesis
    proof cases
      case 1
      then have "length (base_text 10 (m div 10)) < length (base_text 10 (n div 10)) \<or>
         length (base_text 10 (m div 10)) = length (base_text 10 (n div 10)) \<and> base_text 10 (m div 10) < base_text 10 (n div 10)"
        using "1.hyps" 3 "1.prems" by simp
      then show ?thesis by (auto simp: e append_less_left)
    next
      case 2
      have "digit_char (nat (m mod 10)) < digit_char (nat (n mod 10))" using 2(2) by (intro digit_char_less) auto
      moreover have "xs @ [c] < xs @ [d]" if "c < d" for xs and c d :: char using that by (induction xs) auto
      ultimately show ?thesis by (simp add: e 2(1))
    qed
  qed
qed

lemma index_compare_nat: "index_compare (nat_text m) (nat_text n) < 0 \<longleftrightarrow> m < n"
proof -
  have less: "index_compare (nat_text m) (nat_text n) < 0 \<and> \<not> index_compare (nat_text n) (nat_text m) < 0" if "m < n" for m n
    using base_text_less [of "int m" "int n"] that by (auto simp: index_compare_def nat_text_def)
  consider "m < n" | "m = n" | "n < m" by linarith
  then show ?thesis by cases (use less [of m n] less [of n m] in \<open>auto simp: index_compare_def\<close>)
qed

subsection \<open>The order of the properties\<close>

lemma stable_sort_id:
  "successively (\<lambda>a b. \<not> cmp b a < (0::int)) xs \<Longrightarrow> stable_sort cmp xs = xs"
proof -
  have "successively (\<lambda>a b. \<not> cmp b a < (0::int)) xs \<Longrightarrow> fold (insert_left cmp) xs [] = rev xs"
  proof (induction xs rule: rev_induct)
    case (snoc x xs)
    then have "fold (insert_left cmp) xs [] = rev xs" "xs \<noteq> [] \<Longrightarrow> \<not> cmp x (last xs) < 0"
      by (auto simp: successively_append_iff)
    then show ?case by (cases xs rule: rev_cases) auto
  qed simp
  then show "successively (\<lambda>a b. \<not> cmp b a < (0::int)) xs \<Longrightarrow> stable_sort cmp xs = xs"
    by (simp add: stable_sort_def)
qed

lemma index_compare_asym: "index_compare a b < 0 \<Longrightarrow> \<not> index_compare b a < 0"
  by (auto simp: index_compare_def split: if_splits)

lemma distinct_stable_sort: "distinct (stable_sort cmp xs) = distinct xs"
  by (metis mset_stable_sort mset_eq_imp_distinct_iff)

lemma js_order_index: "successively (\<lambda>a b. \<not> index_compare b a < 0) (stable_sort index_compare xs)"
  by (rule stable_sort_adjacent) (rule index_compare_asym)

lemma js_order_mset: "mset (js_order obj) = mset (fst obj)"
  by (simp add: js_order_def Let_def mset_filter flip: multiset_partition)

lemma js_order_set [simp]: "set (js_order obj) = set (fst obj)"
  by (metis js_order_mset set_mset_mset)

lemma js_order_distinct [simp]: "distinct (js_order obj) = distinct (fst obj)"
  by (metis js_order_mset mset_eq_imp_distinct_iff)

lemma js_order_idem [simp]: "js_order (js_order obj, vs) = js_order obj"
proof -
  let ?i = "stable_sort index_compare (filter is_array_index (fst obj))"
  have "filter is_array_index ?i = ?i" "filter (\<lambda>k. \<not> is_array_index k) ?i = []"
    by (auto simp: filter_id_conv filter_empty_conv)
  then show ?thesis using stable_sort_id [OF js_order_index]
    by (simp add: js_order_def Let_def filter_empty_conv comp_def)
qed

text \<open>The properties are written with the array indexes first, in the order of their numbers, then the
  others in the order they were added.\<close>

theorem js_order_spec:
  assumes "distinct ks"
  shows "\<exists>ns. js_order (ks, vs) = map nat_text ns @ filter (\<lambda>k. \<not> is_array_index k) ks \<and> sorted_wrt (<) ns \<and>
    set (map nat_text ns) = {k \<in> set ks. is_array_index k}"
proof -
  let ?i = "stable_sort index_compare (filter is_array_index ks)"
  have "\<forall>k\<in>set ?i. \<exists>n. k = nat_text n" using array_index_iff by auto
  then have "\<exists>ns. ?i = map nat_text ns" unfolding ex_map_conv .
  then obtain ns where ns: "?i = map nat_text ns" by blast
  have "distinct ?i" using assms by (simp add: distinct_stable_sort)
  then have "distinct ns" by (simp add: ns distinct_map)
  moreover have "successively (\<lambda>x y. \<not> index_compare (nat_text y) (nat_text x) < 0) ns"
    using js_order_index [of "filter is_array_index ks"] by (simp only: ns successively_map)
  then have "successively (\<le>) ns"
    by (rule successively_mono) (simp only: index_compare_nat not_less)
  ultimately have "sorted_wrt (<) ns" by (simp add: successively_conv_sorted_wrt strict_sorted_iff)
  moreover have "set ?i = {k \<in> set ks. is_array_index k}" by auto
  ultimately show ?thesis by (intro exI [of _ ns]) (simp add: js_order_def ns)
qed

lemma js_order_spec_witness:
  "\<exists>ns. js_order ([''b'', ''10'', ''a'', ''9''], []) = map nat_text ns @ [''b'', ''a''] \<and> sorted_wrt (<) ns"
proof -
  have "distinct [''b'', ''10'', ''a'', ''9'']" by simp
  moreover have "filter (\<lambda>k. \<not> is_array_index k) [''b'', ''10'', ''a'', ''9''] = [''b'', ''a'']" by code_simp
  ultimately show ?thesis using js_order_spec [of "[''b'', ''10'', ''a'', ''9'']" "[]"] by auto
qed

subsection \<open>Objects as lists of properties\<close>

definition obj_wf :: "js_object \<Rightarrow> bool" where
  "obj_wf obj \<longleftrightarrow> distinct (fst obj) \<and> set (fst obj) = fst ` set (snd obj)"

definition view :: "js_object \<Rightarrow> (string \<times> jsval) list" where
  "view obj = map (\<lambda>k. (k, the (map_of (snd obj) k))) (fst obj)"

lemma view_keys [simp]: "map fst (view obj) = fst obj"
  by (simp add: view_def comp_def)

lemma obj_wf_new [simp]: "obj_wf new_js_object" "view new_js_object = []"
  by (simp_all add: obj_wf_def new_js_object_def view_def)

lemma obj_wf_lookup: "obj_wf (ks, vs) \<Longrightarrow> map_of vs k = None \<longleftrightarrow> k \<notin> set ks"
  by (simp add: obj_wf_def map_of_eq_None_iff)

lemma aput_map_new: "k \<notin> set ks \<Longrightarrow> aput k v (map (\<lambda>i. (i, f i)) ks) = map (\<lambda>i. (i, f i)) ks @ [(k, v)]"
  by (induction ks) auto

lemma aput_map_old:
  "k \<in> set ks \<Longrightarrow> distinct ks \<Longrightarrow> aput k v (map (\<lambda>i. (i, f i)) ks) = map (\<lambda>i. (i, (f(k := v)) i)) ks"
  by (induction ks) auto

lemma js_set_view:
  assumes "obj_wf obj"
  shows "obj_wf (js_set k v obj) \<and> view (js_set k v obj) = aput k v (view obj)"
proof -
  obtain ks vs where o: "obj = (ks, vs)" by (cases obj)
  have wf: "distinct ks" "set ks = fst ` set vs" using assms by (auto simp: o obj_wf_def)
  show ?thesis
  proof (cases "k \<in> set ks")
    case True
    then have "js_set k v obj = (ks, aput k v vs)" using assms by (simp add: o js_set_def obj_wf_lookup)
    then show ?thesis using wf True aput_map_old [of k ks v "\<lambda>i. the (map_of vs i)"]
      by (auto simp: obj_wf_def view_def o)
  next
    case False
    then have "js_set k v obj = (ks @ [k], aput k v vs)" using assms by (simp add: o js_set_def obj_wf_lookup)
    then show ?thesis using wf False aput_map_new [of k ks v "\<lambda>i. the (map_of vs i)"]
      by (auto simp: obj_wf_def view_def o)
  qed
qed

lemma js_remove_view:
  assumes "obj_wf obj"
  shows "obj_wf (js_remove k obj) \<and> view (js_remove k obj) = adel k (view obj)"
proof -
  obtain ks vs where o: "obj = (ks, vs)" by (cases obj)
  have wf: "distinct ks" "set ks = fst ` set vs" using assms by (auto simp: o obj_wf_def)
  have f: "adel k (map (\<lambda>i. (i, f i)) ks) = map (\<lambda>i. (i, f i)) (filter (\<lambda>s. s \<noteq> k) ks)" for f
    by (simp add: adel_def filter_map comp_def)
  show ?thesis
  proof (cases "k \<in> set ks")
    case True
    then have "js_remove k obj = (filter (\<lambda>s. s \<noteq> k) ks, adel k vs)" using assms by (auto simp: o js_remove_def obj_wf_lookup)
    moreover have "set (filter (\<lambda>s. s \<noteq> k) ks) = fst ` set (adel k vs)" using wf(2) by (auto simp: set_adel)
    ultimately show ?thesis using wf f [of "\<lambda>i. the (map_of vs i)"] by (auto simp: obj_wf_def view_def o intro!: map_cong)
  next
    case False
    then have "js_remove k obj = obj" using assms by (auto simp: o js_remove_def obj_wf_lookup)
    moreover have "filter (\<lambda>s. s \<noteq> k) ks = ks" using False by (auto simp: filter_id_conv)
    ultimately show ?thesis using assms f [of "\<lambda>i. the (map_of vs i)"] by (simp add: o view_def)
  qed
qed

lemma js_spread_view:
  assumes "obj_wf base"
  shows "obj_wf (js_spread base src) \<and> view (js_spread base src) = acopy (view base) (view src)"
proof -
  have "obj_wf base \<Longrightarrow> obj_wf (foldl (\<lambda>obj k. js_set k (f k) obj) base ks) \<and>
      view (foldl (\<lambda>obj k. js_set k (f k) obj) base ks) = acopy (view base) (map (\<lambda>k. (k, f k)) ks)" for f ks
    by (induction ks arbitrary: base) (auto simp: acopy_def js_set_view)
  from this [OF assms] show ?thesis by (simp add: js_spread_def view_def js_get_def case_prod_beta)
qed

lemma js_get_view: "obj_wf obj \<Longrightarrow> js_get k obj = map_of (view obj) k"
  by (cases obj) (auto simp: js_get_def view_def map_of_map_restrict restrict_map_def obj_wf_lookup map_of_eq_None_iff obj_wf_def)

text \<open>C38. An object stays well formed and behaves as the list of its properties: setting a property again
  keeps its place, a new one goes to the end, removing takes it out, and spreading sets the
  properties of the other object one after the other.\<close>

theorem js_object_refines:
  assumes "obj_wf obj" "obj_wf src"
  shows "obj_wf (js_set k v obj) \<and> view (js_set k v obj) = aput k v (view obj) \<and>
    obj_wf (js_remove k obj) \<and> view (js_remove k obj) = adel k (view obj) \<and>
    obj_wf (js_spread obj src) \<and> view (js_spread obj src) = acopy (view obj) (view src) \<and>
    js_get k obj = map_of (view obj) k"
  using assms js_set_view js_remove_view js_spread_view js_get_view by blast

lemma js_object_refines_witness:
  "view (js_spread ([''a'', ''b''], [(''b'', VNull), (''a'', VBool True)]) ([''b'', ''c''], [(''b'', VStr []), (''c'', VNull)])) =
   [(''a'', VBool True), (''b'', VStr []), (''c'', VNull)]"
proof -
  let ?a = "([''a'', ''b''], [(''b'', VNull), (''a'', VBool True)])" and ?b = "([''b'', ''c''], [(''b'', VStr []), (''c'', VNull)])"
  have "obj_wf ?a" "obj_wf ?b" by (auto simp: obj_wf_def)
  then have "view (js_spread ?a ?b) = acopy (view ?a) (view ?b)" using js_object_refines by blast
  then show ?thesis by (simp add: view_def acopy_def)
qed

subsection \<open>Round trip\<close>

lemma set_all_view:
  "obj_wf obj \<Longrightarrow> obj_wf (set_all ps obj) \<and> view (set_all ps obj) = acopy (view obj) ps"
proof (induction ps arbitrary: obj)
  case (Cons p ps)
  have "set_all (p # ps) obj = set_all ps (js_set (fst p) (snd p) obj)" by (simp add: set_all_def case_prod_beta)
  moreover have "acopy (view obj) (p # ps) = acopy (aput (fst p) (snd p) (view obj)) ps"
    by (simp add: acopy_def case_prod_beta)
  ultimately show ?case using Cons js_set_view [of obj "fst p" "snd p"] by simp
qed (simp add: set_all_def acopy_def)

lemma acopy_distinct: "distinct (map fst (m @ ps)) \<Longrightarrow> acopy m ps = m @ ps"
proof (induction ps arbitrary: m)
  case (Cons p ps)
  have n: "fst p \<notin> fst ` set m" using Cons.prems by auto
  have "aput k v m = m @ [(k, v)]" if "k \<notin> fst ` set m" for k v
    using that by (induction m) auto
  from this [OF n, of "snd p"] have "acopy m (p # ps) = acopy (m @ [p]) ps" by (simp add: acopy_def case_prod_beta)
  then show ?case using Cons by simp
qed (simp add: acopy_def)


lemma view_parts: "obj_wf obj \<Longrightarrow> view obj = ps \<Longrightarrow> fst obj = map fst ps \<and> (\<forall>k. map_of (snd obj) k = map_of ps k)"
  using js_get_view [of obj] by (auto simp: js_get_def case_prod_beta)

text \<open>A value whose objects are well formed, at every depth.\<close>

fun js_wf :: "jsval \<Rightarrow> bool" where
  "js_wf (VArr vs) = (\<forall>v\<in>set vs. js_wf v)"
| "js_wf (VObj ks vs) = (obj_wf (ks, vs) \<and> (\<forall>p\<in>set vs. js_wf (snd p)))"
| "js_wf v = True"

lemma parse_js_obj:
  assumes "distinct (map fst m)"
  shows "\<exists>vs. parse_js (JObj m) = VObj (map fst m) vs \<and> (\<forall>k. map_of vs k = map_option parse_js (map_of m k))"
proof -
  let ?ps = "map (\<lambda>p. (fst p, parse_js (snd p))) m"
  let ?obj = "set_all ?ps new_js_object"
  have "view ?obj = ?ps"
    using set_all_view [of new_js_object ?ps] acopy_distinct [of "[]" ?ps] assms by (simp add: comp_def)
  then have "fst ?obj = map fst ?ps" "\<forall>k. map_of (snd ?obj) k = map_of ?ps k"
    using set_all_view [of new_js_object ?ps] view_parts [of ?obj ?ps] by auto
  moreover have "map_of ?ps k = map_option parse_js (map_of m k)" for k
    by (induction m) auto
  moreover have "parse_js (JObj m) = VObj (fst ?obj) (snd ?obj)" by (simp add: set_all_def case_prod_beta)
  ultimately show ?thesis by (auto simp: comp_def)
qed

text \<open>Writing, parsing and writing again gives the same text: a value's JSON is a fixed point, whatever
  the order its properties were added in.\<close>

theorem js_round_trip:
  assumes "js_wf v"
  shows "js_to_json (parse_js (js_to_json v)) = js_to_json v"
  using assms
proof (induction v)
  case (VArr vs)
  then show ?case by simp
next
  case (VObj ks vs)
  define ts where "ts = map (\<lambda>p. (fst p, js_to_json (snd p))) vs"
  define m where "m = map (\<lambda>k. (k, case map_of ts k of None \<Rightarrow> JNull | Some t \<Rightarrow> t)) (js_order (ks, vs))"
  have j: "js_to_json (VObj ks vs) = JObj m" by (simp add: m_def ts_def)
  have km: "map fst m = js_order (ks, vs)" by (simp add: m_def comp_def)
  have "distinct (map fst m)" using VObj.prems by (simp add: km obj_wf_def)
  then obtain ws where ws: "parse_js (JObj m) = VObj (map fst m) ws" "\<forall>k. map_of ws k = map_option parse_js (map_of m k)"
    using parse_js_obj by blast
  have mt: "map_of m k = (if k \<in> set ks then Some (case map_of ts k of None \<Rightarrow> JNull | Some t \<Rightarrow> t) else None)" for k
    by (simp add: m_def map_of_map_restrict restrict_map_def)
  have tk: "map_of ts k = map_option js_to_json (map_of vs k)" for k unfolding ts_def by (induction vs) auto
  have fp: "js_to_json (parse_js t) = t" if h: "map_of ts k = Some t" for k t
  proof -
    obtain v where "map_of vs k = Some v" "t = js_to_json v" using h by (auto simp: tk)
    then have "(k, v) \<in> set vs" by (blast dest: map_of_SomeD)
    then show ?thesis using VObj.IH [of "(k, v)" v] VObj.prems \<open>t = js_to_json v\<close> by auto
  qed
  define us where "us = map (\<lambda>p. (fst p, js_to_json (snd p))) ws"
  have uk: "map_of us k = map_option js_to_json (map_of ws k)" for k unfolding us_def by (induction ws) auto
  have "(case map_of us k of None \<Rightarrow> JNull | Some t \<Rightarrow> t) = (case map_of ts k of None \<Rightarrow> JNull | Some t \<Rightarrow> t)"
    if "k \<in> set ks" for k
    using that ws(2) mt fp by (cases "map_of ts k") (auto simp: uk)
  then have "js_to_json (VObj (map fst m) ws) = JObj m"
    unfolding km by (simp add: us_def [symmetric] m_def)
  then show ?case by (simp only: j ws(1))
qed simp_all

lemma js_round_trip_witness:
  "js_to_json (parse_js (js_to_json (VObj [''b'', ''0''] [(''0'', VArr [VNull]), (''b'', VStr [])]))) =
   JObj [(''0'', JArr [JNull]), (''b'', JStr [])]"
proof -
  have "js_wf (VObj [''b'', ''0''] [(''0'', VArr [VNull]), (''b'', VStr [])])" by (auto simp: obj_wf_def)
  moreover have "js_to_json (VObj [''b'', ''0''] [(''0'', VArr [VNull]), (''b'', VStr [])]) = JObj [(''0'', JArr [JNull]), (''b'', JStr [])]"
    by code_simp
  ultimately show ?thesis using js_round_trip [of "VObj [''b'', ''0''] [(''0'', VArr [VNull]), (''b'', VStr [])]"] by simp
qed

end
