(* ===== verification/FeatureSource.thy ===== *)
theory FeatureSource
  imports GoPath Prelude
begin

text \<open>
  \<open>internal/features/resolve.go\<close>: how a Feature id is routed, the folder a local reference may name,
  and the registry reference a legacy shorthand stands for. The working directory that
  \<open>filepath.Abs\<close> reads is an argument, \<open>None\<close> when \<open>os.Getwd\<close> fails.
\<close>

subsection \<open>Routing\<close>

datatype source_kind =
    SourceOCI
  | SourceDirectTarball
  | SourceLocalPath
  | SourceLegacyShorthand
  | SourceGitHubShorthand

definition classify_id :: "string \<Rightarrow> source_kind" where
  "classify_id s =
     (if has_prefix s ''http://'' \<or> has_prefix s ''https://'' then SourceDirectTarball
      else if has_prefix s ''./'' \<or> has_prefix s ''../'' \<or> has_prefix s ''/'' then SourceLocalPath
      else case index_byte CHR ''/'' s of
          None \<Rightarrow> SourceLegacyShorthand
        | Some i \<Rightarrow>
            if i > 0 then
              (let first = take i s
               in if contains_sub first ''.'' \<or> has_prefix first ''localhost'' then SourceOCI
                  else SourceGitHubShorthand)
            else SourceLegacyShorthand)"

subsection \<open>Local Features\<close>

datatype local_error =
    AbsoluteLocalFeature
  | LocalFeatureWithoutConfig
  | OutsideDevcontainer string
  | GetwdFailed
  | NotRelative

definition local_error_text :: "local_error \<Rightarrow> string option" where
  "local_error_text e =
     (case e of
        AbsoluteLocalFeature \<Rightarrow> Some ''An Absolute path to a local feature is not allowed.''
      | LocalFeatureWithoutConfig \<Rightarrow> Some ''A local feature requires a configuration path.''
      | OutsideDevcontainer p \<Rightarrow>
          Some (''Local file path parse error. Resolved path must be a child of the .devcontainer/ folder.  Parsed: '' @ p)
      | _ \<Rightarrow> None)"

definition abs_in :: "string option \<Rightarrow> string \<Rightarrow> (local_error, string) res" where
  "abs_in cwd p =
     (if is_abs p then Inr (path_clean p)
      else case cwd of None \<Rightarrow> Inl GetwdFailed | Some d \<Rightarrow> Inr (path_abs d p))"

definition local_feature_path ::
  "string option \<Rightarrow> string \<Rightarrow> string \<Rightarrow> string \<Rightarrow> (local_error, string) res" where
  "local_feature_path cwd fid config_dir workspace_root =
     (if is_abs fid then Inl AbsoluteLocalFeature
      else if config_dir = [] then Inl LocalFeatureWithoutConfig
      else (let folder = path_join [config_dir, fid]
            in bind_res (abs_in cwd (path_join [workspace_root, ''.devcontainer''])) (\<lambda>parent.
               bind_res (abs_in cwd folder) (\<lambda>child.
               case path_rel parent child of
                 None \<Rightarrow> Inl NotRelative
               | Some rel \<Rightarrow> if contains_sub rel ''..'' then Inl (OutsideDevcontainer folder) else Inr folder))))"

subsection \<open>Legacy shorthands\<close>

definition version_backward_comp :: string where
  "version_backward_comp = ''1''"

definition new_feature_path :: string where
  "new_feature_path = ''ghcr.io/devcontainers/features''"

definition migrated_features :: "string list" where
  "migrated_features =
     [''aws-cli'', ''azure-cli'', ''desktop-lite'',
      ''docker-in-docker'', ''docker-from-docker'', ''dotnet'',
      ''git'', ''git-lfs'', ''github-cli'', ''java'',
      ''kubectl-helm-minikube'', ''node'', ''powershell'',
      ''python'', ''ruby'', ''rust'', ''sshd'', ''terraform'']"

definition renamed_features :: "string gomap" where
  "renamed_features = [(''golang'', ''go''), (''common'', ''common-utils'')]"

definition deprecated_into_options :: "(string \<times> string) gomap" where
  "deprecated_into_options =
     [(''gradle'', ''java'', ''installGradle''),
      (''maven'', ''java'', ''installMaven''),
      (''jupyterlab'', ''python'', ''installJupyterlab'')]"

definition is_known_legacy_feature :: "string \<Rightarrow> bool" where
  "is_known_legacy_feature name =
     (if name \<in> set migrated_features \<or> (case map_of renamed_features name of None \<Rightarrow> False | Some t \<Rightarrow> t \<noteq> [])
      then True else map_of deprecated_into_options name \<noteq> None)"

definition shorthand_parts :: "string \<Rightarrow> string \<times> string" where
  "shorthand_parts s =
     (case last_index_byte CHR '':'' s of
        Some i \<Rightarrow> if i > 0 then (take i s, drop i s) else (s, CHR '':'' # version_backward_comp)
      | None \<Rightarrow> (s, CHR '':'' # version_backward_comp))"

definition resolve_id :: "string \<Rightarrow> bool \<Rightarrow> string \<times> bool" where
  "resolve_id s skip_auto_mapping =
     (if classify_id s = SourceGitHubShorthand then (''ghcr.io/'' @ s, True)
      else if classify_id s \<noteq> SourceLegacyShorthand then (s, False)
      else if skip_auto_mapping then (s, False)
      else (case shorthand_parts s of
          (name, tag) \<Rightarrow>
            (new_feature_path @ ''/'' @
               (case map_of renamed_features name of Some renamed \<Rightarrow> renamed | None \<Rightarrow> name) @ tag, True)))"

subsection \<open>Where a local Feature may lie\<close>

lemma strip_common_split:
  "strip_common bs ts = (bs', ts') \<Longrightarrow> \<exists>common. bs = common @ bs' \<and> ts = common @ ts'"
proof (induction bs ts rule: strip_common.induct)
  case (1 b bs t ts)
  show ?case
  proof (cases "b = t")
    case True
    then obtain common where "bs = common @ bs'" "ts = common @ ts'"
      using 1 by auto
    then show ?thesis using True by (intro exI [of _ "b # common"]) simp
  qed (use 1 in auto)
qed auto

lemma contains_across:
  assumes "c \<notin> set p" and "p \<noteq> []"
  shows "contains_sub (x @ c # r) p \<longleftrightarrow> contains_sub x p \<or> contains_sub r p"
proof
  assume "contains_sub (x @ c # r) p"
  then obtain a b where ab: "x @ c # r = a @ p @ b" by (auto simp: contains_sub_iff)
  then consider us where "x = a @ us" "us @ c # r = p @ b" | us where "x @ us = a" "c # r = us @ p @ b"
    by (auto simp: append_eq_append_conv2)
  then show "contains_sub x p \<or> contains_sub r p"
  proof cases
    case 1
    then consider vs where "us = p @ vs" | vs where "us @ vs = p" "c # r = vs @ b"
      by (auto simp: append_eq_append_conv2)
    then show ?thesis
    proof cases
      case 2
      then have "vs = []" using assms(1) by (cases vs) auto
      then show ?thesis using 1 2 by (auto simp: contains_sub_iff intro: exI [of _ a] exI [of _ "[]"])
    qed (use 1 in \<open>auto simp: contains_sub_iff\<close>)
  next
    case 2
    then show ?thesis using assms by (cases us) (auto simp: contains_sub_iff append_eq_Cons_conv Cons_eq_append_conv)
  qed
next
  assume "contains_sub x p \<or> contains_sub r p"
  then show "contains_sub (x @ c # r) p"
  proof
    assume "contains_sub x p"
    then obtain a b where "x = a @ p @ b" by (auto simp: contains_sub_iff)
    then have "x @ c # r = a @ p @ (b @ c # r)" by simp
    then show ?thesis unfolding contains_sub_iff by blast
  next
    assume "contains_sub r p"
    then obtain a b where "r = a @ p @ b" by (auto simp: contains_sub_iff)
    then have "x @ c # r = (x @ c # a) @ p @ b" by simp
    then show ?thesis unfolding contains_sub_iff by blast
  qed
qed

lemma contains_join:
  assumes "c \<notin> set p" and "p \<noteq> []"
  shows "contains_sub (join [c] es) p \<longleftrightarrow> (\<exists>e\<in>set es. contains_sub e p)"
  using contains_across [OF assms] assms(2)
  by (induction "[c]" es rule: join.induct) (auto simp: contains_sub_iff)

lemma contains_dotdot_render:
  "contains_sub (render_path False es) ''..'' \<longleftrightarrow> (\<exists>e\<in>set es. contains_sub e ''..'')"
proof (cases "es = []")
  case True
  then show ?thesis by (auto simp: render_path_def contains_sub_iff Cons_eq_append_conv)
qed (simp add: render_path_def contains_join)

lemma contains_dotdot [simp]: "contains_sub ''..'' ''..''"
  unfolding contains_sub_iff by (metis append_Nil append_Nil2)

lemma strip_common_prefix: "strip_common bs (bs @ ts) = ([], ts)"
  by (induction bs) auto

lemma path_rel_below:
  "(\<exists>rel. path_rel base targ = Some rel \<and> \<not> contains_sub rel ''..'') \<longleftrightarrow>
   is_abs base = is_abs targ \<and>
   (\<exists>below. clean_elems targ = clean_elems base @ below \<and> (\<forall>e\<in>set below. \<not> contains_sub e ''..''))"
  (is "?l \<longleftrightarrow> ?r")
proof
  assume ?l
  then obtain rel where r: "path_rel base targ = Some rel" "\<not> contains_sub rel ''..''" by blast
  obtain bs ts where st: "strip_common (clean_elems base) (clean_elems targ) = (bs, ts)"
    by (cases "strip_common (clean_elems base) (clean_elems targ)") auto
  then obtain common where c: "clean_elems base = common @ bs" "clean_elems targ = common @ ts"
    using strip_common_split by blast
  have rel: "rel = render_path False (replicate (length bs) ''..'' @ ts)" "is_abs base = is_abs targ"
    using r(1) st by (auto simp: path_rel_def split: if_splits)
  have no: "\<forall>e\<in>set (replicate (length bs) ''..'' @ ts). \<not> contains_sub e ''..''"
    using r(2) unfolding rel(1) contains_dotdot_render by blast
  then have "bs = []" by (cases bs) auto
  then show ?r using c rel no by auto
next
  assume ?r
  then show ?l by (auto simp: path_rel_def strip_common_prefix contains_dotdot_render)
qed

lemma below_case:
  "(case path_rel base targ of None \<Rightarrow> Inl e | Some rel \<Rightarrow> if contains_sub rel ''..'' then Inl e' else Inr x) = Inr y \<longleftrightarrow>
   (\<exists>rel. path_rel base targ = Some rel \<and> \<not> contains_sub rel ''..'') \<and> x = y"
  by (cases "path_rel base targ") auto

text \<open>C32. A local Feature reference is accepted exactly when it is relative, a configuration folder is
  known and the folder it names is the workspace's \<open>.devcontainer\<close> or lies below it through path
  elements free of two dots; the folder returned is the reference joined to the configuration's folder.\<close>

theorem local_feature_contained:
  "local_feature_path cwd fid config_dir workspace_root = Inr folder \<longleftrightarrow>
   \<not> is_abs fid \<and> config_dir \<noteq> [] \<and> folder = path_join [config_dir, fid] \<and>
   (\<exists>parent child below.
      abs_in cwd (path_join [workspace_root, ''.devcontainer'']) = Inr parent \<and> abs_in cwd folder = Inr child \<and>
      is_abs parent = is_abs child \<and> clean_elems child = clean_elems parent @ below \<and>
      list_all (\<lambda>e. \<not> contains_sub e ''..'') below)"
proof -
  have "local_feature_path cwd fid config_dir workspace_root = Inr folder \<longleftrightarrow>
    \<not> is_abs fid \<and> config_dir \<noteq> [] \<and> folder = path_join [config_dir, fid] \<and>
    (\<exists>parent child. abs_in cwd (path_join [workspace_root, ''.devcontainer'']) = Inr parent \<and>
       abs_in cwd folder = Inr child \<and> (\<exists>rel. path_rel parent child = Some rel \<and> \<not> contains_sub rel ''..''))"
    unfolding local_feature_path_def Let_def
    by (auto simp: bind_res_Inr_iff below_case)
  then show ?thesis unfolding path_rel_below list_all_iff by blast
qed

subsection \<open>What a resolved id is\<close>

lemma classify_ghcr: "classify_id (''ghcr.io/'' @ s) = SourceOCI"
  by (simp add: classify_id_def index_byte_def contains_sub_def Let_def)

lemma classify_new_path: "classify_id (new_feature_path @ ''/'' @ s) = SourceOCI"
  using classify_ghcr [of "''devcontainers/features/'' @ s"] by (simp add: new_feature_path_def)

text \<open>Resolving an id gives the id itself or, when it was mapped, a reference into a registry; what it
  gives is resolved: resolving again changes nothing and maps nothing.\<close>

theorem resolve_id_canonical:
  "(if snd (resolve_id s skip) then classify_id (fst (resolve_id s skip)) = SourceOCI
    else fst (resolve_id s skip) = s) \<and>
   resolve_id (fst (resolve_id s skip)) skip = (fst (resolve_id s skip), False)"
proof -
  have "resolve_id r skip = (r, False)" if "classify_id r = SourceOCI" for r
    using that by (simp add: resolve_id_def)
  moreover have "resolve_id s skip = (s, False) \<or>
      snd (resolve_id s skip) \<and> classify_id (fst (resolve_id s skip)) = SourceOCI"
    using classify_ghcr classify_new_path by (auto simp: resolve_id_def split: prod.splits)
  ultimately show ?thesis by auto
qed

text \<open>A shorthand that became an option of another Feature is mapped to its own name.\<close>

lemma resolve_gradle: "resolve_id ''gradle'' False = (''ghcr.io/devcontainers/features/gradle:1'', True)"
  by code_simp

end
