(* ===== verification/Mermaid.thy ===== *)
theory Mermaid
  imports FeatureOrder GoJson GoNumbers Sha256 "HOL-Library.Transitive_Closure_Table"
begin

text \<open>
  \<open>internal/features/mermaid.go\<close>: the flowchart of a resolved Feature graph. The heap holds the nodes;
  the builder receives the chunks in the order they are written. \<open>ft\<close> is the text \<open>encoding/json\<close>
  gives a float64.
\<close>

subsection \<open>Nodes\<close>

text \<open>The three first bytes of the digest, two lowercase digits each.\<close>

definition hex_byte :: "int \<Rightarrow> string" where
  "hex_byte b = [hex_digit (nat b div 16), hex_digit (nat b mod 16)]"

text \<open>The aliases are a nil slice until a set with a Feature is resolved (\<open>aliasesFor\<close>).\<close>

definition aliases_json :: "fnode \<Rightarrow> json" where
  "aliases_json n =
     (if feature_id_aliases n = [] \<and> (case node_set n of None \<Rightarrow> True | Some s \<Rightarrow> set_features s = [])
      then JNull else JArr (map JStr (feature_id_aliases n)))"

definition mermaid_payload :: "fnode \<Rightarrow> json" where
  "mermaid_payload n = JObj
     [(''type'', JStr (node_type n)),
      (''userFeatureId'', JStr (user_feature_id n)),
      (''options'', (if node_options n = JNull then JObj [] else node_options n)),
      (''roundPriority'', JNum (of_nat (round_priority n))),
      (''featureIdAliases'', aliases_json n)]"

definition mermaid_node_hash :: "(rat \<Rightarrow> string) \<Rightarrow> fnode \<Rightarrow> string" where
  "mermaid_node_hash ft n =
     concat (map hex_byte (take 3 (sha256 (go_marshal True ft (mermaid_payload n)))))"

definition generate_mermaid_node :: "(rat \<Rightarrow> string) \<Rightarrow> fnode \<Rightarrow> string" where
  "generate_mermaid_node ft n =
     mermaid_node_hash ft n @ ''['' @ user_feature_id n @ ''<br/><'' @ nat_text (round_priority n) @ ''>''
     @ (if feature_id_aliases n \<noteq> [] then ''<br>aliases: '' @ join '', '' (feature_id_aliases n) else [])
     @ '']''"

subsection \<open>Edges\<close>

definition edge_text :: "string \<Rightarrow> string \<Rightarrow> string \<Rightarrow> string" where
  "edge_text a arrow b = a @ arrow @ b @ [CHR 0x0A]"

definition hard_edges :: "(rat \<Rightarrow> string) \<Rightarrow> node_heap \<Rightarrow> node_ptr list \<Rightarrow> node_ptr \<Rightarrow> node_ptr \<Rightarrow> string list" where
  "hard_edges ft h worklist current child =
     map (\<lambda>w. edge_text (generate_mermaid_node ft (h ! current)) '' --> '' (generate_mermaid_node ft (h ! w)))
       (filter (\<lambda>w. nodes_equal (h ! w) (h ! child)) worklist)"

definition soft_edges :: "(rat \<Rightarrow> string) \<Rightarrow> node_heap \<Rightarrow> node_ptr list \<Rightarrow> node_ptr \<Rightarrow> node_ptr \<Rightarrow> string list" where
  "soft_edges ft h worklist current soft =
     map (\<lambda>w. edge_text (generate_mermaid_node ft (h ! current)) '' -.-> '' (generate_mermaid_node ft (h ! w)))
       (filter (\<lambda>w. node_satisfies_soft_dep (h ! w) (h ! soft)) worklist)"

lemma card_not_on_path:
  fixes l n :: nat
  assumes "\<not> l \<le> n" and "n \<notin> P"
  shows "card ({0..<l} - insert n P) < card ({0..<l} - P)"
proof (rule psubset_card_mono)
  have "n \<in> {0..<l} - P" using assms by simp
  then show "{0..<l} - insert n P \<subset> {0..<l} - P" by blast
qed simp

text \<open>
  \<open>on_path\<close> holds the nodes of the calls under way. Every pointer of a graph is a node of its heap;
  a number that is none draws nothing.
\<close>

function mermaid_subtree ::
  "(rat \<Rightarrow> string) \<Rightarrow> node_heap \<Rightarrow> node_ptr list \<Rightarrow> node_ptr set \<Rightarrow> node_ptr \<Rightarrow> string list" where
  "mermaid_subtree ft h worklist on_path current =
     (if current \<in> on_path \<or> length h \<le> current then []
      else (let inner = insert current on_path
        in concat (map (\<lambda>child. hard_edges ft h worklist current child
                          @ mermaid_subtree ft h worklist inner child) (hard_deps (h ! current)))
         @ concat (map (\<lambda>soft. soft_edges ft h worklist current soft
                          @ mermaid_subtree ft h worklist inner soft) (soft_deps (h ! current)))))"
  by pat_completeness auto

termination
  by (relation "measure (\<lambda>(ft, h, worklist, on_path, current). card ({0..<length h} - on_path))")
    (auto simp del: card_Diff_insert intro: card_not_on_path)

declare mermaid_subtree.simps [simp del]

definition mermaid_chunks :: "(rat \<Rightarrow> string) \<Rightarrow> node_heap \<Rightarrow> node_ptr list \<Rightarrow> string list" where
  "mermaid_chunks ft h graph =
     (''flowchart'' @ [CHR 0x0A]) #
     concat (map (\<lambda>n.
         if node_type (h ! n) \<noteq> ''user-provided'' then []
         else (generate_mermaid_node ft (h ! n) @ [CHR 0x0A]) # mermaid_subtree ft h graph {} n) graph)"

definition generate_mermaid_diagram :: "(rat \<Rightarrow> string) \<Rightarrow> node_heap \<Rightarrow> node_ptr list \<Rightarrow> string" where
  "generate_mermaid_diagram ft h graph = concat (mermaid_chunks ft h graph)"

subsection \<open>What the diagram draws\<close>

text \<open>The edges of one node, and the pointers a subtree follows.\<close>

definition node_edges :: "(rat \<Rightarrow> string) \<Rightarrow> node_heap \<Rightarrow> node_ptr list \<Rightarrow> node_ptr \<Rightarrow> string set" where
  "node_edges ft h worklist n =
     (\<Union>c\<in>set (hard_deps (h ! n)). set (hard_edges ft h worklist n c)) \<union>
     (\<Union>s\<in>set (soft_deps (h ! n)). set (soft_edges ft h worklist n s))"

definition dep_step :: "node_heap \<Rightarrow> node_ptr \<Rightarrow> node_ptr \<Rightarrow> bool" where
  "dep_step h a b \<longleftrightarrow> a < length h \<and> b < length h \<and> b \<in> set (hard_deps (h ! a)) \<union> set (soft_deps (h ! a))"

lemma mermaid_subtree_set:
  "set (mermaid_subtree ft h wl P n) =
     (if n \<in> P \<or> length h \<le> n then {}
      else node_edges ft h wl n \<union>
        (\<Union>c\<in>set (hard_deps (h ! n)) \<union> set (soft_deps (h ! n)). set (mermaid_subtree ft h wl (insert n P) c)))"
  by (subst mermaid_subtree.simps) (auto simp: Let_def node_edges_def)

lemma subtree_sound:
  "e \<in> set (mermaid_subtree ft h wl P n) \<Longrightarrow> \<exists>m<length h. (dep_step h)\<^sup>*\<^sup>* n m \<and> e \<in> node_edges ft h wl m"
proof (induction ft h wl P n rule: mermaid_subtree.induct)
  case (1 ft h wl P n)
  from "1.prems" have n: "n \<notin> P" "n < length h" by (auto simp: mermaid_subtree_set [of ft h wl P n] split: if_splits)
  consider "e \<in> node_edges ft h wl n"
    | c where "c \<in> set (hard_deps (h ! n)) \<union> set (soft_deps (h ! n))" "e \<in> set (mermaid_subtree ft h wl (insert n P) c)"
    using "1.prems" n by (auto simp: mermaid_subtree_set [of ft h wl P n])
  then show ?case
  proof cases
    case 2
    then have "\<exists>m<length h. (dep_step h)\<^sup>*\<^sup>* c m \<and> e \<in> node_edges ft h wl m"
      using "1.IH" n by (auto simp: not_le)
    moreover have "c < length h" using 2(2) by (auto simp: mermaid_subtree_set [of ft h wl "insert n P" c] split: if_splits)
    then have "dep_step h n c" using n 2(1) by (simp add: dep_step_def)
    ultimately show ?thesis by (meson converse_rtranclp_into_rtranclp)
  qed (use n in blast)
qed

lemma subtree_complete:
  assumes "rtrancl_path (dep_step h) n xs m" and "distinct (n # xs)" and "set (n # xs) \<inter> P = {}"
    and "n < length h" and "e \<in> node_edges ft h wl m"
  shows "e \<in> set (mermaid_subtree ft h wl P n)"
  using assms
proof (induction arbitrary: P rule: rtrancl_path.induct)
  case (base n)
  then show ?case by (simp add: mermaid_subtree_set [of ft h wl P n])
next
  case (step n c xs m)
  have "e \<in> set (mermaid_subtree ft h wl (insert n P) c)"
    using step.prems step.hyps(1) by (intro step.IH) (auto simp: dep_step_def)
  then show ?case using step.prems step.hyps(1)
    by (auto simp: mermaid_subtree_set [of ft h wl P n] dep_step_def)
qed

lemma dep_path:
  assumes "(dep_step h)\<^sup>*\<^sup>* n m"
  obtains xs where "rtrancl_path (dep_step h) n xs m" and "distinct (n # xs)"
proof -
  obtain xs where "rtrancl_path (dep_step h) n xs m" using assms by (auto simp: rtranclp_eq_rtrancl_path)
  then show thesis using that by (rule rtrancl_path_distinct)
qed

lemma subtree_edges:
  assumes "n < length h"
  shows "set (mermaid_subtree ft h wl {} n) = (\<Union>m\<in>{m. (dep_step h)\<^sup>*\<^sup>* n m}. node_edges ft h wl m)"
proof (rule set_eqI, rule iffI)
  fix e assume "e \<in> set (mermaid_subtree ft h wl {} n)"
  from subtree_sound [OF this] show "e \<in> (\<Union>m\<in>{m. (dep_step h)\<^sup>*\<^sup>* n m}. node_edges ft h wl m)" by blast
next
  fix e assume "e \<in> (\<Union>m\<in>{m. (dep_step h)\<^sup>*\<^sup>* n m}. node_edges ft h wl m)"
  then obtain m where m: "(dep_step h)\<^sup>*\<^sup>* n m" and e: "e \<in> node_edges ft h wl m" by blast
  obtain xs where "rtrancl_path (dep_step h) n xs m" "distinct (n # xs)" using m by (rule dep_path)
  then show "e \<in> set (mermaid_subtree ft h wl {} n)" by (rule subtree_complete) (use assms e in simp_all)
qed

text \<open>The diagram of a graph, whose cycles it does not follow twice: its header, then for the nodes the
  user asked for the node itself and the edges of every node reachable from it, each edge pointing at
  a node of the graph that is, or for a soft dependency satisfies, the dependency.\<close>

theorem mermaid_diagram_edges:
  assumes "\<forall>n\<in>set graph. n < length h"
  shows "generate_mermaid_diagram ft h graph = concat (mermaid_chunks ft h graph) \<and>
    set (mermaid_chunks ft h graph) =
      {''flowchart'' @ [CHR 0x0A]} \<union>
      (\<Union>n\<in>{n \<in> set graph. node_type (h ! n) = ''user-provided''}.
         {generate_mermaid_node ft (h ! n) @ [CHR 0x0A]} \<union>
         (\<Union>m\<in>{m. (dep_step h)\<^sup>*\<^sup>* n m}. node_edges ft h graph m))"
proof -
  have s: "set (mermaid_subtree ft h graph {} n) = (\<Union>m\<in>{m. (dep_step h)\<^sup>*\<^sup>* n m}. node_edges ft h graph m)"
    if "n \<in> set graph" for n
    using that assms by (intro subtree_edges) simp
  have "set (mermaid_chunks ft h graph) =
      {''flowchart'' @ [CHR 0x0A]} \<union>
      (\<Union>n\<in>{n \<in> set graph. node_type (h ! n) = ''user-provided''}.
         {generate_mermaid_node ft (h ! n) @ [CHR 0x0A]} \<union> set (mermaid_subtree ft h graph {} n))"
    unfolding mermaid_chunks_def by (auto split: if_splits)
  also have "\<dots> = {''flowchart'' @ [CHR 0x0A]} \<union>
      (\<Union>n\<in>{n \<in> set graph. node_type (h ! n) = ''user-provided''}.
         {generate_mermaid_node ft (h ! n) @ [CHR 0x0A]} \<union>
         (\<Union>m\<in>{m. (dep_step h)\<^sup>*\<^sup>* n m}. node_edges ft h graph m))"
    by (intro arg_cong2 [where f = "(\<union>)"] refl SUP_cong) (use s in auto)
  finally show ?thesis by (simp add: generate_mermaid_diagram_def)
qed

text \<open>Two Features that depend on each other: both edges are drawn.\<close>

lemma mermaid_diagram_edges_witness:
  "edge_text (generate_mermaid_node (\<lambda>q. []) (sample_cycle ! 0)) '' --> '' (generate_mermaid_node (\<lambda>q. []) (sample_cycle ! 1))
     \<in> set (mermaid_chunks (\<lambda>q. []) sample_cycle [0, 1, 2]) \<and>
   edge_text (generate_mermaid_node (\<lambda>q. []) (sample_cycle ! 1)) '' --> '' (generate_mermaid_node (\<lambda>q. []) (sample_cycle ! 0))
     \<in> set (mermaid_chunks (\<lambda>q. []) sample_cycle [0, 1, 2])"
proof -
  have e: "edge_text (generate_mermaid_node ft (sample_cycle ! 0)) '' --> '' (generate_mermaid_node ft (sample_cycle ! 1))
        \<in> node_edges ft sample_cycle [0, 1, 2] 0"
    "edge_text (generate_mermaid_node ft (sample_cycle ! 1)) '' --> '' (generate_mermaid_node ft (sample_cycle ! 0))
        \<in> node_edges ft sample_cycle [0, 1, 2] 1" for ft
    by (simp_all add: node_edges_def hard_edges_def sample_cycle_def local_node_def nodes_equal_def compare_nodes_def
        node_source_def source_compare_def)
  have "dep_step sample_cycle 0 1" by (simp add: dep_step_def sample_cycle_def local_node_def)
  then have r: "(dep_step sample_cycle)\<^sup>*\<^sup>* 0 1" by blast
  have t: "node_type (sample_cycle ! 0) = ''user-provided''" by (simp add: sample_cycle_def local_node_def)
  have all: "\<forall>n\<in>set [0, 1, 2]. n < length sample_cycle" by (simp add: sample_cycle_def)
  show ?thesis unfolding conjunct2 [OF mermaid_diagram_edges [OF all]]
    using e r t by auto
qed

end
