(* ===== verification/RunArgs.thy ===== *)
theory RunArgs
  imports GoStrings Prelude
begin

text \<open>
  \<open>internal/docker/runargs.go\<close>: the value of \<open>--mount\<close> and the arguments of \<open>docker create\<close>. Of moby's
  \<open>mount.Mount\<close> the fields this file reads and writes are kept.
\<close>

record mount =
  mount_type :: string
  mount_source :: string
  mount_target :: string
  mount_read_only :: bool
  mount_consistency :: string

definition empty_mount :: mount where
  "empty_mount = \<lparr>mount_type = [], mount_source = [], mount_target = [], mount_read_only = False, mount_consistency = []\<rparr>"

subsection \<open>Parsing a mount\<close>

definition set_mount_key :: "mount \<Rightarrow> string \<Rightarrow> string \<Rightarrow> mount" where
  "set_mount_key m k v =
     (if k = ''type'' then m\<lparr>mount_type := v\<rparr>
      else if k = ''source'' \<or> k = ''src'' then m\<lparr>mount_source := v\<rparr>
      else if k = ''target'' \<or> k = ''destination'' \<or> k = ''dst'' then m\<lparr>mount_target := v\<rparr>
      else if k = ''readonly'' \<or> k = ''ro'' then m\<lparr>mount_read_only := (v = [] \<or> v = ''true'' \<or> v = ''1'')\<rparr>
      else if k = ''consistency'' then m\<lparr>mount_consistency := v\<rparr>
      else m)"

definition mount_part :: "mount \<Rightarrow> string \<Rightarrow> mount" where
  "mount_part m part =
     (case cut_byte CHR ''='' part of (k, v, found) \<Rightarrow>
        if \<not> found then (if k = ''readonly'' \<or> k = ''ro'' then m\<lparr>mount_read_only := True\<rparr> else m)
        else set_mount_key m k v)"

definition parse_mount_spec :: "string \<Rightarrow> (string, mount) res" where
  "parse_mount_spec spec =
     (let m = foldl mount_part empty_mount (split_byte CHR '','' spec)
      in if mount_target m = [] then Inl ''mount requires a target/destination''
         else Inr (if mount_type m = [] then m\<lparr>mount_type := ''bind''\<rparr> else m))"

subsection \<open>The arguments of docker create\<close>

definition mount_parts :: "mount \<Rightarrow> string list" where
  "mount_parts m =
     [''type='' @ mount_type m]
     @ (if mount_source m \<noteq> [] then [''source='' @ mount_source m] else [])
     @ (if mount_target m \<noteq> [] then [''target='' @ mount_target m] else [])
     @ (if mount_read_only m then [''readonly''] else [])
     @ (if mount_consistency m \<noteq> [] then [''consistency='' @ mount_consistency m] else [])"

definition mount_text :: "mount \<Rightarrow> string" where
  "mount_text m = join '','' (mount_parts m)"

record create_spec =
  cs_image :: string
  cs_labels :: "string list"
  cs_env :: "string list"
  cs_mounts :: "mount list"
  cs_user :: string
  cs_entrypoint :: "string list"
  cs_cmd :: "string list"
  cs_cap_add :: "string list"
  cs_security_opt :: "string list"
  cs_privileged :: bool
  cs_init :: "bool option"
  cs_run_args :: "string list"

definition flag_args :: "string \<Rightarrow> string list \<Rightarrow> string list" where
  "flag_args flag xs = concat (map (\<lambda>x. [flag, x]) xs)"

definition create_container_args :: "create_spec \<Rightarrow> string list" where
  "create_container_args c =
     [''create'']
     @ flag_args ''-l'' (cs_labels c)
     @ flag_args ''--mount'' (map mount_text (cs_mounts c))
     @ flag_args ''-e'' (cs_env c)
     @ flag_args ''--cap-add'' (cs_cap_add c)
     @ flag_args ''--security-opt'' (cs_security_opt c)
     @ (if cs_privileged c then [''--privileged''] else [])
     @ (if cs_init c = Some True then [''--init''] else [])
     @ (if cs_user c \<noteq> [] then [''-u'', cs_user c] else [])
     @ cs_run_args c
     @ (if cs_entrypoint c \<noteq> [] then [''--entrypoint'', hd (cs_entrypoint c)] else [])
     @ [cs_image c]
     @ cs_cmd c"

subsection \<open>Reading back what is written\<close>

text \<open>No field of a mount has a comma.\<close>

definition mount_clean :: "mount \<Rightarrow> bool" where
  "mount_clean m \<longleftrightarrow> CHR '','' \<notin> set (mount_type m) \<and> CHR '','' \<notin> set (mount_source m)
     \<and> CHR '','' \<notin> set (mount_target m) \<and> CHR '','' \<notin> set (mount_consistency m)"

lemma cut_byte_subset: "cut_byte c s = (a, b, f) \<Longrightarrow> set a \<subseteq> set s \<and> set b \<subseteq> set s"
  using cut_byte_found [of c s a b] cut_byte_missing [of c s a b] by (cases f) auto

lemma set_mount_key_cases:
  "set_mount_key m k v \<in> {m, m\<lparr>mount_type := v\<rparr>, m\<lparr>mount_source := v\<rparr>, m\<lparr>mount_target := v\<rparr>,
     m\<lparr>mount_read_only := (v = [] \<or> v = ''true'' \<or> v = ''1'')\<rparr>, m\<lparr>mount_consistency := v\<rparr>}"
  unfolding set_mount_key_def by simp

lemma mount_part_clean:
  "mount_clean m \<Longrightarrow> CHR '','' \<notin> set p \<Longrightarrow> mount_clean (mount_part m p)"
proof -
  assume m: "mount_clean m" and p: "CHR '','' \<notin> set p"
  obtain k v f where kvf: "cut_byte CHR ''='' p = (k, v, f)" by (cases "cut_byte CHR ''='' p") auto
  then have "CHR '','' \<notin> set v" using cut_byte_subset p by blast
  then have "mount_clean (set_mount_key m k v)" using m set_mount_key_cases [of m k v]
    unfolding mount_clean_def by (elim insertE) simp_all
  then show ?thesis using m by (simp add: mount_part_def kvf mount_clean_def)
qed

lemma mount_fold_clean:
  "mount_clean m \<Longrightarrow> \<forall>p\<in>set ps. CHR '','' \<notin> set p \<Longrightarrow> mount_clean (foldl mount_part m ps)"
  by (induction ps arbitrary: m) (auto simp: mount_part_clean)

lemma cut_key: "CHR ''='' \<notin> set k \<Longrightarrow> cut_byte CHR ''='' (k @ CHR ''='' # v) = (k, v, True)"
  by (simp add: cut_byte_found)

lemma mount_part_set:
  "CHR ''='' \<notin> set k \<Longrightarrow> mount_part m (k @ CHR ''='' # v) = set_mount_key m k v"
  by (simp add: mount_part_def cut_key)

lemma mount_part_keys:
  "mount_part m (''type='' @ v) = m\<lparr>mount_type := v\<rparr>"
  "mount_part m (''source='' @ v) = m\<lparr>mount_source := v\<rparr>"
  "mount_part m (''target='' @ v) = m\<lparr>mount_target := v\<rparr>"
  "mount_part m (''consistency='' @ v) = m\<lparr>mount_consistency := v\<rparr>"
  "mount_part m ''readonly'' = m\<lparr>mount_read_only := True\<rparr>"
  using mount_part_set [of "''type''" m v] mount_part_set [of "''source''" m v] mount_part_set [of "''target''" m v]
    mount_part_set [of "''consistency''" m v]
  by (simp_all add: set_mount_key_def mount_part_def cut_byte_def index_byte_def)

lemma mount_parts_fold:
  "foldl mount_part empty_mount (mount_parts m) = m"
  by (simp add: mount_parts_def mount_part_keys empty_mount_def del: append_Cons)

lemma parse_mount_text:
  assumes "mount_clean m" and "mount_type m \<noteq> []" and "mount_target m \<noteq> []"
  shows "parse_mount_spec (mount_text m) = Inr m"
proof -
  have "\<forall>p\<in>set (mount_parts m). CHR '','' \<notin> set p" and "mount_parts m \<noteq> []"
    using assms(1) by (auto simp: mount_parts_def mount_clean_def)
  then have "split_byte CHR '','' (mount_text m) = mount_parts m"
    unfolding mount_text_def by (simp add: split_byte_join)
  then show ?thesis using assms by (simp add: parse_mount_spec_def mount_parts_fold)
qed

text \<open>Whatever spelling a mount is given in, it is parsed to a mount with a type and a target, and the
  \<open>--mount\<close> argument written for that mount is parsed back to it.\<close>

theorem mount_round_trip:
  assumes "parse_mount_spec spec = Inr m"
  shows "mount_type m \<noteq> [] \<and> mount_target m \<noteq> [] \<and> parse_mount_spec (mount_text m) = Inr m"
proof -
  let ?m = "foldl mount_part empty_mount (split_byte CHR '','' spec)"
  have "mount_clean ?m"
    by (intro mount_fold_clean) (auto simp: mount_clean_def empty_mount_def dest: split_byte_parts)
  moreover have "m = (if mount_type ?m = [] then ?m\<lparr>mount_type := ''bind''\<rparr> else ?m)" "mount_target ?m \<noteq> []"
    using assms by (auto simp: parse_mount_spec_def Let_def split: if_splits)
  ultimately have "mount_clean m" "mount_type m \<noteq> []" "mount_target m \<noteq> []"
    by (auto simp: mount_clean_def)
  then show ?thesis by (simp add: parse_mount_text)
qed

lemma mount_round_trip_witness:
  "parse_mount_spec (mount_text
     \<lparr>mount_type = ''bind'', mount_source = ''/a'', mount_target = ''/b'', mount_read_only = True, mount_consistency = ''cached''\<rparr>)
   = Inr \<lparr>mount_type = ''bind'', mount_source = ''/a'', mount_target = ''/b'', mount_read_only = True, mount_consistency = ''cached''\<rparr>"
proof -
  have "parse_mount_spec ''ro,src=/a,dst=/b,bind-nonrecursive,consistency=cached'' =
    Inr \<lparr>mount_type = ''bind'', mount_source = ''/a'', mount_target = ''/b'', mount_read_only = True, mount_consistency = ''cached''\<rparr>"
    by code_simp
  from conjunct2 [OF conjunct2 [OF mount_round_trip [OF this]]] show ?thesis .
qed

end
