(* ===== verification/ImageMeta.thy ===== *)
theory ImageMeta
  imports GoJson "HOL-Library.Multiset" "HOL-Library.Sublist"
begin

text \<open>
  \<open>internal/imagemeta/metadata.go\<close>: the entries of the \<open>devcontainer.metadata\<close> label and their text. An
  \<open>any\<close> is a \<open>json\<close>, nil as \<open>JNull\<close>; a pointer is an option; a nil and an empty slice or map are one,
  as every use here reads them alike. \<open>ft\<close> is the text of a float64.
\<close>

subsection \<open>Entries\<close>

record entry =
  e_id :: string
  e_init :: "bool option"
  e_privileged :: "bool option"
  e_cap_add :: "string list"
  e_security_opt :: "string list"
  e_mounts :: "json list"
  e_container_env :: "string gomap"
  e_container_user :: string
  e_remote_env :: "string option gomap"
  e_remote_user :: string
  e_update_remote_user_uid :: "bool option"
  e_user_env_probe :: string
  e_override_command :: "bool option"
  e_forward_ports :: "json list"
  e_ports_attributes :: "json gomap"
  e_other_ports_attributes :: json
  e_on_create_command :: json
  e_update_content_command :: json
  e_post_create_command :: json
  e_post_start_command :: json
  e_post_attach_command :: json
  e_wait_for :: string
  e_shutdown_action :: string
  e_host_requirements :: json
  e_customizations :: "json gomap"
  e_entrypoint :: string

definition empty_entry :: entry where
  "empty_entry = \<lparr>e_id = [], e_init = None, e_privileged = None, e_cap_add = [], e_security_opt = [],
     e_mounts = [], e_container_env = [], e_container_user = [], e_remote_env = [], e_remote_user = [],
     e_update_remote_user_uid = None, e_user_env_probe = [], e_override_command = None, e_forward_ports = [],
     e_ports_attributes = [], e_other_ports_attributes = JNull, e_on_create_command = JNull,
     e_update_content_command = JNull, e_post_create_command = JNull, e_post_start_command = JNull,
     e_post_attach_command = JNull, e_wait_for = [], e_shutdown_action = [], e_host_requirements = JNull,
     e_customizations = [], e_entrypoint = []\<rparr>"

subsection \<open>The properties of an entry\<close>

text \<open>What \<open>omitempty\<close> writes of each kind of field.\<close>

definition str_field :: "string \<Rightarrow> string \<Rightarrow> json gomap" where
  "str_field k s = (if s = [] then [] else [(k, JStr s)])"

definition bool_field :: "string \<Rightarrow> bool option \<Rightarrow> json gomap" where
  "bool_field k b = (case b of None \<Rightarrow> [] | Some v \<Rightarrow> [(k, JBool v)])"

definition list_field :: "string \<Rightarrow> json list \<Rightarrow> json gomap" where
  "list_field k vs = (if vs = [] then [] else [(k, JArr vs)])"

definition map_field :: "string \<Rightarrow> json gomap \<Rightarrow> json gomap" where
  "map_field k m = (if m = [] then [] else [(k, JObj m)])"

definition any_field :: "string \<Rightarrow> json \<Rightarrow> json gomap" where
  "any_field k v = (if v = JNull then [] else [(k, v)])"

definition env_json :: "string option \<Rightarrow> json" where
  "env_json v = (case v of None \<Rightarrow> JNull | Some s \<Rightarrow> JStr s)"

definition entry_fields :: "entry \<Rightarrow> json gomap" where
  "entry_fields e = concat
     [str_field ''id'' (e_id e),
      bool_field ''init'' (e_init e),
      bool_field ''privileged'' (e_privileged e),
      list_field ''capAdd'' (map JStr (e_cap_add e)),
      list_field ''securityOpt'' (map JStr (e_security_opt e)),
      list_field ''mounts'' (e_mounts e),
      map_field ''containerEnv'' (map (\<lambda>(k, v). (k, JStr v)) (e_container_env e)),
      str_field ''containerUser'' (e_container_user e),
      map_field ''remoteEnv'' (map (\<lambda>(k, v). (k, env_json v)) (e_remote_env e)),
      str_field ''remoteUser'' (e_remote_user e),
      bool_field ''updateRemoteUserUID'' (e_update_remote_user_uid e),
      str_field ''userEnvProbe'' (e_user_env_probe e),
      bool_field ''overrideCommand'' (e_override_command e),
      list_field ''forwardPorts'' (e_forward_ports e),
      map_field ''portsAttributes'' (e_ports_attributes e),
      any_field ''otherPortsAttributes'' (e_other_ports_attributes e),
      any_field ''onCreateCommand'' (e_on_create_command e),
      any_field ''updateContentCommand'' (e_update_content_command e),
      any_field ''postCreateCommand'' (e_post_create_command e),
      any_field ''postStartCommand'' (e_post_start_command e),
      any_field ''postAttachCommand'' (e_post_attach_command e),
      str_field ''waitFor'' (e_wait_for e),
      str_field ''shutdownAction'' (e_shutdown_action e),
      any_field ''hostRequirements'' (e_host_requirements e),
      map_field ''customizations'' (e_customizations e),
      str_field ''entrypoint'' (e_entrypoint e)]"

definition feature_entry_keys :: "string list" where
  "feature_entry_keys =
     [''id'', ''onCreateCommand'', ''updateContentCommand'', ''postCreateCommand'', ''postStartCommand'',
      ''postAttachCommand'', ''init'', ''privileged'', ''capAdd'', ''securityOpt'', ''entrypoint'', ''mounts'',
      ''customizations'']"

definition config_entry_keys :: "string list" where
  "config_entry_keys =
     [''onCreateCommand'', ''updateContentCommand'', ''postCreateCommand'', ''postStartCommand'',
      ''postAttachCommand'', ''waitFor'', ''customizations'', ''mounts'', ''containerEnv'', ''containerUser'',
      ''init'', ''privileged'', ''capAdd'', ''securityOpt'', ''remoteUser'', ''userEnvProbe'', ''remoteEnv'',
      ''overrideCommand'', ''portsAttributes'', ''otherPortsAttributes'', ''forwardPorts'', ''shutdownAction'',
      ''updateRemoteUserUID'', ''hostRequirements'', ''entrypoint'']"

subsection \<open>The text of an entry\<close>

text \<open>The loop over the order: a key written is deleted, as a Feature's order names some twice.\<close>

fun write_fields :: "string list \<Rightarrow> json gomap \<Rightarrow> json gomap" where
  "write_fields [] fs = []"
| "write_fields (k # ks) fs =
     (case map_of fs k of None \<Rightarrow> write_fields ks fs | Some v \<Rightarrow> (k, v) # write_fields ks (adel k fs))"

definition entry_order :: "entry \<Rightarrow> string list" where
  "entry_order e = (if e_id e \<noteq> [] then feature_entry_keys @ config_entry_keys else config_entry_keys)"

definition entry_members :: "entry \<Rightarrow> json gomap" where
  "entry_members e = write_fields (entry_order e) (entry_fields e)"

definition marshal_entry :: "bool \<Rightarrow> (rat \<Rightarrow> string) \<Rightarrow> entry \<Rightarrow> string" where
  "marshal_entry html ft e =
     [CHR 0x7B] @ join '','' (map (\<lambda>(k, v). dq @ k @ dq @ '':'' @ go_marshal html ft v) (entry_members e)) @ [CHR 0x7D]"

definition non_empty_entries :: "(rat \<Rightarrow> string) \<Rightarrow> entry list \<Rightarrow> entry list" where
  "non_empty_entries ft es = filter (\<lambda>e. marshal_entry True ft e \<noteq> [CHR 0x7B, CHR 0x7D]) es"

definition generate_metadata_label :: "(rat \<Rightarrow> string) \<Rightarrow> entry list \<Rightarrow> string" where
  "generate_metadata_label ft entries =
     (let es = non_empty_entries ft entries
      in if es = [] then [] else ''['' @ join '','' (map (marshal_entry False ft) es) @ '']'')"

text \<open>\<open>encoding/json\<close>'s decoding of a list and of one entry are parameters; the flag is the warning.\<close>

definition read_metadata_from_labels ::
  "(string \<Rightarrow> entry list option) \<Rightarrow> (string \<Rightarrow> entry option) \<Rightarrow> string gomap \<Rightarrow> entry list \<times> bool" where
  "read_metadata_from_labels unmarshal_entries unmarshal_entry labels =
     (case map_of labels ''devcontainer.metadata'' of
        None \<Rightarrow> ([], False)
      | Some raw \<Rightarrow>
          if raw = [] then ([], False)
          else (case unmarshal_entries raw of
              Some es \<Rightarrow> (es, False)
            | None \<Rightarrow> (case unmarshal_entry raw of None \<Rightarrow> ([], True) | Some e \<Rightarrow> ([e], False))))"

subsection \<open>Every property is written once\<close>

lemma write_fields_nil: "write_fields ks [] = []"
  by (induction ks) auto

lemma mset_adel:
  "distinct (map fst fs) \<Longrightarrow> map_of fs k = Some v \<Longrightarrow> mset fs = add_mset (k, v) (mset (adel k fs))"
proof (induction fs)
  case (Cons p fs)
  obtain a b where p: "p = (a, b)" by (cases p)
  show ?case
  proof (cases "a = k")
    case True
    then have "k \<notin> fst ` set fs" using Cons.prems p by auto
    then have "adel k fs = fs" by (force simp: adel_def filter_id_conv)
    then show ?thesis using Cons.prems True p by (simp add: adel_def)
  next
    case False
    then show ?thesis using Cons p by (simp add: adel_def)
  qed
qed simp

lemma write_fields_mset:
  "distinct (map fst fs) \<Longrightarrow> fst ` set fs \<subseteq> set ks \<Longrightarrow> mset (write_fields ks fs) = mset fs"
proof (induction ks arbitrary: fs)
  case (Cons k ks)
  show ?case
  proof (cases "map_of fs k")
    case None
    then have "fst ` set fs \<subseteq> set ks" using Cons.prems(2) by (auto simp: map_of_eq_None_iff)
    then show ?thesis using Cons None by simp
  next
    case (Some v)
    have "fst ` set (adel k fs) \<subseteq> set ks" using Cons.prems(2) by (auto simp: set_adel)
    then show ?thesis using Cons Some by (simp add: mset_adel)
  qed
qed simp

lemma write_fields_subseq: "subseq (map fst (write_fields ks fs)) ks"
  by (induction ks arbitrary: fs) (auto split: option.split intro: subseq_Cons')

text \<open>The keys of one field, and those of all.\<close>

lemma field_keys [simp]:
  "map fst (str_field k s) = (if s = [] then [] else [k])"
  "map fst (bool_field k b) = (if b = None then [] else [k])"
  "map fst (list_field k vs) = (if vs = [] then [] else [k])"
  "map fst (map_field k m) = (if m = [] then [] else [k])"
  "map fst (any_field k v) = (if v = JNull then [] else [k])"
  by (simp_all add: str_field_def bool_field_def list_field_def map_field_def any_field_def split: option.split)

definition entry_keys :: "string list" where
  "entry_keys =
     [''id'', ''init'', ''privileged'', ''capAdd'', ''securityOpt'', ''mounts'', ''containerEnv'', ''containerUser'',
      ''remoteEnv'', ''remoteUser'', ''updateRemoteUserUID'', ''userEnvProbe'', ''overrideCommand'', ''forwardPorts'',
      ''portsAttributes'', ''otherPortsAttributes'', ''onCreateCommand'', ''updateContentCommand'',
      ''postCreateCommand'', ''postStartCommand'', ''postAttachCommand'', ''waitFor'', ''shutdownAction'',
      ''hostRequirements'', ''customizations'', ''entrypoint'']"

lemma subseq_concat:
  "list_all2 (\<lambda>xs k. xs = [] \<or> xs = [k]) xss ks \<Longrightarrow> subseq (concat xss) ks"
  by (induction xss ks rule: list_all2_induct) (auto intro: subseq_Cons')

lemma entry_fields_keys: "subseq (map fst (entry_fields e)) entry_keys"
  unfolding entry_fields_def entry_keys_def map_concat
  by (rule subseq_concat) (simp only: list.map field_keys list_all2_Cons list_all2_Nil, simp)

lemma distinct_entry_keys: "distinct entry_keys"
  unfolding entry_keys_def by simp

lemma entry_keys_ordered: "set entry_keys \<subseteq> insert ''id'' (set config_entry_keys)"
  unfolding entry_keys_def config_entry_keys_def by simp

lemma entry_fields_no_id:
  assumes "e_id e = []"
  shows "''id'' \<notin> set (map fst (entry_fields e))"
  unfolding entry_fields_def map_concat list.map field_keys using assms by simp

lemma distinct_entry_fields: "distinct (map fst (entry_fields e))"
proof -
  obtain N where "map fst (entry_fields e) = nths entry_keys N"
    using entry_fields_keys [of e] by (auto simp: subseq_conv_nths)
  then show ?thesis using distinct_entry_keys by simp
qed

lemma subseq_set: "subseq xs ys \<Longrightarrow> set xs \<subseteq> set ys"
  by (auto dest: subseq_order.trans simp flip: subseq_singleton_left)

lemma entry_fields_ordered: "fst ` set (entry_fields e) \<subseteq> set (entry_order e)"
proof (cases "e_id e = []")
  case True
  have "fst ` set (entry_fields e) \<subseteq> set entry_keys - {''id''}"
    using subseq_set [OF entry_fields_keys [of e]] entry_fields_no_id [OF True] by (simp add: subset_Diff_insert)
  also have "\<dots> \<subseteq> set config_entry_keys" using entry_keys_ordered by blast
  finally show ?thesis using True by (simp add: entry_order_def)
next
  case False
  then have "set entry_keys \<subseteq> set (entry_order e)"
    using entry_keys_ordered by (auto simp: entry_order_def feature_entry_keys_def)
  then show ?thesis using subseq_set [OF entry_fields_keys [of e]] by simp
qed

lemma entry_fields_empty: "entry_fields e = [] \<longleftrightarrow> e = empty_entry"
proof
  assume "entry_fields e = []"
  then show "e = empty_entry" unfolding entry_fields_def
    by (cases e) (simp add: empty_entry_def str_field_def bool_field_def list_field_def map_field_def any_field_def
        split: if_splits option.splits)
qed (simp add: entry_fields_def empty_entry_def str_field_def bool_field_def list_field_def map_field_def any_field_def)

lemma marshal_entry_empty: "marshal_entry html ft e = [CHR 0x7B, CHR 0x7D] \<longleftrightarrow> entry_members e = []"
  by (cases "entry_members e") (auto simp: marshal_entry_def join_head join_Cons dq_def split: prod.splits)

lemma entry_members_mset: "mset (entry_members e) = mset (entry_fields e)"
  using write_fields_mset [OF distinct_entry_fields entry_fields_ordered] by (simp add: entry_members_def)

lemma non_empty_entries_filter: "non_empty_entries ft es = filter (\<lambda>e. e \<noteq> empty_entry) es"
proof -
  have "entry_members e = [] \<longleftrightarrow> e = empty_entry" for e
    using entry_members_mset [of e] entry_fields_empty [of e] by (metis mset_zero_iff)
  then show ?thesis by (simp add: non_empty_entries_def marshal_entry_empty)
qed

text \<open>An entry is written with every property it has, each once, in the order for its kind; the entries
  without any are the ones left out of the label and the merge.\<close>

theorem entry_written_once:
  "mset (entry_members e) = mset (entry_fields e) \<and> distinct (map fst (entry_members e)) \<and>
   subseq (map fst (entry_members e)) (entry_order e) \<and>
   non_empty_entries ft es = filter (\<lambda>e. e \<noteq> empty_entry) es"
proof -
  have "mset (map fst (entry_members e)) = mset (map fst (entry_fields e))"
    using entry_members_mset by simp
  then have "distinct (map fst (entry_members e))" using distinct_entry_fields mset_eq_imp_distinct_iff by blast
  then show ?thesis using entry_members_mset write_fields_subseq non_empty_entries_filter
    by (simp add: entry_members_def)
qed

end
