(* ===== verification/ImageMerge.thy ===== *)
theory ImageMerge
  imports ImageMeta GoNumbers
begin

text \<open>
  \<open>internal/imagemeta/merge.go\<close>: merging the metadata entries of an image, its Features and the
  configuration. A float64 of a host requirement is a rational or infinite; the numbers of JSON are
  finite. Go's map iteration order is not observed, as every map has distinct keys.
\<close>

subsection \<open>float64 values that are not negative\<close>

datatype float_val = Finite rat | Infinite

text \<open>The float64 nearest to an integer, ties to even: 53 bits are kept.\<close>

function f64_shift :: "int \<Rightarrow> nat" where
  "f64_shift n = (if n < 9007199254740992 then 0 else Suc (f64_shift (n div 2)))"
  by auto
termination
  by (relation "measure nat") auto

declare f64_shift.simps [simp del]

definition f64_limit :: int where
  "f64_limit = 2 ^ 1024"

definition round_f64 :: "int \<Rightarrow> float_val" where
  "round_f64 n =
     (let e = f64_shift n; p = 2 ^ e; q = n div p; r = n mod p;
          v = (if 2 * r > p \<or> (2 * r = p \<and> odd q) then q + 1 else q) * p
      in if v < f64_limit then Finite (of_int v) else Infinite)"

fun f64_scale :: "float_val \<Rightarrow> int \<Rightarrow> float_val" where
  "f64_scale Infinite u = Infinite"
| "f64_scale (Finite q) u = (if q * of_int u < of_int f64_limit then Finite (q * of_int u) else Infinite)"

fun f64_less :: "float_val \<Rightarrow> float_val \<Rightarrow> bool" where
  "f64_less (Finite a) (Finite b) = (a < b)"
| "f64_less (Finite a) Infinite = True"
| "f64_less Infinite b = False"

subsection \<open>The merged configuration\<close>

text \<open>A port may have become an infinite number, of which the flag is the sign.\<close>

datatype port_value = Port json | PortInfinity bool

record merged_config =
  m_config_file_path :: json
  m_image :: string
  m_remote_user :: string
  m_container_user :: string
  m_user_env_probe :: string
  m_override_command :: "bool option"
  m_init :: "bool option"
  m_privileged :: "bool option"
  m_wait_for :: string
  m_shutdown_action :: string
  m_host_requirements :: json
  m_update_remote_user_uid :: "bool option"
  m_cap_add :: "string list"
  m_security_opt :: "string list"
  m_ports_attributes :: "json gomap"
  m_other_ports_attributes :: json
  m_forward_ports :: "port_value list"
  m_container_env :: "string gomap"
  m_remote_env :: "string option gomap"
  m_customizations :: "json list gomap"
  m_mounts :: "json list"
  m_entrypoints :: "string list"
  m_on_create_commands :: "json list"
  m_command_origins :: "string list gomap"
  m_update_content_commands :: "json list"
  m_post_create_commands :: "json list"
  m_post_start_commands :: "json list"
  m_post_attach_commands :: "json list"

definition empty_merged :: merged_config where
  "empty_merged = \<lparr>m_config_file_path = JNull, m_image = [], m_remote_user = [], m_container_user = [],
     m_user_env_probe = [], m_override_command = None, m_init = None, m_privileged = None, m_wait_for = [],
     m_shutdown_action = [], m_host_requirements = JNull, m_update_remote_user_uid = None, m_cap_add = [],
     m_security_opt = [], m_ports_attributes = [], m_other_ports_attributes = JNull, m_forward_ports = [],
     m_container_env = [], m_remote_env = [], m_customizations = [], m_mounts = [], m_entrypoints = [],
     m_on_create_commands = [], m_command_origins = [], m_update_content_commands = [],
     m_post_create_commands = [], m_post_start_commands = [], m_post_attach_commands = []\<rparr>"

definition is_non_empty_command :: "json \<Rightarrow> bool" where
  "is_non_empty_command cmd \<longleftrightarrow> cmd \<noteq> JNull \<and> cmd \<noteq> JStr []"

fun append_unique :: "string list \<Rightarrow> string list \<Rightarrow> string list" where
  "append_unique dst [] = dst"
| "append_unique dst (s # src) = (if s \<in> set dst then append_unique dst src else append_unique (dst @ [s]) src)"

text \<open>Appending to the slice a map holds; an absent key is an empty slice.\<close>

definition map_push :: "string \<Rightarrow> 'a \<Rightarrow> 'a list gomap \<Rightarrow> 'a list gomap" where
  "map_push k v m = aput k ((case map_of m k of None \<Rightarrow> [] | Some vs \<Rightarrow> vs) @ [v]) m"

subsection \<open>Lifecycle hooks\<close>

text \<open>\<open>collect\<close>: the command is appended to its hook's list and its origin to the hook's origins.\<close>

definition entry_origin :: "entry \<Rightarrow> string" where
  "entry_origin e = (if e_id e \<noteq> [] then e_id e else ''devcontainer.json'')"

definition collect ::
  "string \<Rightarrow> ((json list \<Rightarrow> json list) \<Rightarrow> merged_config \<Rightarrow> merged_config) \<Rightarrow> string \<Rightarrow> json \<Rightarrow> merged_config \<Rightarrow> merged_config"
  where
  "collect hook upd origin command m =
     (if is_non_empty_command command
      then (upd (\<lambda>cs. cs @ [command]) m)\<lparr>m_command_origins := map_push hook origin (m_command_origins m)\<rparr>
      else m)"

definition collect_hooks :: "entry \<Rightarrow> merged_config \<Rightarrow> merged_config" where
  "collect_hooks e m =
     collect ''postAttachCommand'' m_post_attach_commands_update (entry_origin e) (e_post_attach_command e)
    (collect ''postStartCommand'' m_post_start_commands_update (entry_origin e) (e_post_start_command e)
    (collect ''postCreateCommand'' m_post_create_commands_update (entry_origin e) (e_post_create_command e)
    (collect ''updateContentCommand'' m_update_content_commands_update (entry_origin e) (e_update_content_command e)
    (collect ''onCreateCommand'' m_on_create_commands_update (entry_origin e) (e_on_create_command e) m))))"

subsection \<open>The loops over the entries\<close>

definition merge_entry :: "merged_config \<Rightarrow> entry \<Rightarrow> merged_config" where
  "merge_entry m0 e =
     (let m = collect_hooks e m0
      in m\<lparr>m_entrypoints := m_entrypoints m @ (if e_entrypoint e \<noteq> [] then [e_entrypoint e] else []),
           m_cap_add := append_unique (m_cap_add m) (e_cap_add e),
           m_security_opt := append_unique (m_security_opt m) (e_security_opt e),
           m_forward_ports := m_forward_ports m @ map Port (e_forward_ports e),
           m_mounts := m_mounts m @ e_mounts e,
           m_container_env := acopy (m_container_env m) (e_container_env e),
           m_remote_env := acopy (m_remote_env m) (e_remote_env e),
           m_customizations := foldl (\<lambda>c (k, v). map_push k v c) (m_customizations m) (e_customizations e),
           m_ports_attributes := acopy (m_ports_attributes m) (e_ports_attributes e)\<rparr>)"

definition merge_flags :: "entry list \<Rightarrow> merged_config \<Rightarrow> merged_config" where
  "merge_flags es m =
     m\<lparr>m_init := Some (list_ex (\<lambda>e. e_init e = Some True) es),
       m_privileged := Some (list_ex (\<lambda>e. e_privileged e = Some True) es)\<rparr>"

text \<open>One step of the backward loop: a scalar is taken when none is set yet.\<close>

definition merge_scalars :: "entry \<Rightarrow> merged_config \<Rightarrow> merged_config" where
  "merge_scalars e m =
     m\<lparr>m_remote_user := (if m_remote_user m = [] \<and> e_remote_user e \<noteq> [] then e_remote_user e else m_remote_user m),
       m_container_user :=
         (if m_container_user m = [] \<and> e_container_user e \<noteq> [] then e_container_user e else m_container_user m),
       m_user_env_probe :=
         (if m_user_env_probe m = [] \<and> e_user_env_probe e \<noteq> [] then e_user_env_probe e else m_user_env_probe m),
       m_wait_for := (if m_wait_for m = [] \<and> e_wait_for e \<noteq> [] then e_wait_for e else m_wait_for m),
       m_shutdown_action :=
         (if m_shutdown_action m = [] \<and> e_shutdown_action e \<noteq> [] then e_shutdown_action e else m_shutdown_action m),
       m_other_ports_attributes :=
         (if m_other_ports_attributes m = JNull \<and> e_other_ports_attributes e \<noteq> JNull
          then e_other_ports_attributes e else m_other_ports_attributes m),
       m_override_command :=
         (if m_override_command m = None \<and> e_override_command e \<noteq> None then e_override_command e
          else m_override_command m),
       m_update_remote_user_uid :=
         (if m_update_remote_user_uid m = None \<and> e_update_remote_user_uid e \<noteq> None
          then e_update_remote_user_uid e else m_update_remote_user_uid m)\<rparr>"

subsection \<open>Mounts\<close>

fun spec_target :: "string list \<Rightarrow> string option" where
  "spec_target [] = None"
| "spec_target (part # parts) =
     (case cut_byte CHR ''='' part of (k, v, found) \<Rightarrow>
        if \<not> found then spec_target parts
        else if trim_space k \<in> {''target'', ''destination'', ''dst''} then Some v
        else spec_target parts)"

definition mount_target_key :: "json \<Rightarrow> string" where
  "mount_target_key mnt =
     (case mnt of
        JObj m \<Rightarrow> (case map_of m ''target'' of Some (JStr t) \<Rightarrow> t | _ \<Rightarrow> [])
      | JStr v \<Rightarrow> (case spec_target (split_byte CHR '','' v) of Some t \<Rightarrow> t | None \<Rightarrow> v)
      | _ \<Rightarrow> [])"

text \<open>\<open>lastIdx\<close>: the last index of each target.\<close>

definition last_idx :: "json list \<Rightarrow> nat gomap" where
  "last_idx mounts = foldl (\<lambda>m (i, mnt). aput (mount_target_key mnt) i m) [] (enumerate 0 mounts)"

definition dedupe_mounts_by_target :: "json list \<Rightarrow> json list" where
  "dedupe_mounts_by_target mounts =
     map snd (filter (\<lambda>(i, mnt). map_of (last_idx mounts) (mount_target_key mnt) = Some i) (enumerate 0 mounts))"

subsection \<open>Ports\<close>

definition localhost_colon :: string where
  "localhost_colon = ''localhost:''"

text \<open>\<open>jsNumberString\<close> of an infinite number: \<open>Marshal\<close> fails on the negative one and gives no text.\<close>

fun normalize_forward_port :: "(rat \<Rightarrow> string) \<Rightarrow> port_value \<Rightarrow> json" where
  "normalize_forward_port ft (PortInfinity neg) = JStr (localhost_colon @ (if neg then [] else ''Infinity''))"
| "normalize_forward_port ft (Port p) =
     (case p of
        JNum v \<Rightarrow> JStr (localhost_colon @ (if v = 0 then ''0'' else ft v))
      | _ \<Rightarrow> p)"

text \<open>The pattern \<open>localhost:[0-9]\<close> somewhere in the string.\<close>

fun matches_localhost_port :: "string \<Rightarrow> bool" where
  "matches_localhost_port [] = False"
| "matches_localhost_port (c # s) =
     ((case cut_prefix (c # s) localhost_colon of Some (d # _) \<Rightarrow> is_digit d | _ \<Rightarrow> False)
      \<or> matches_localhost_port s)"

definition js_space_char :: "nat \<Rightarrow> bool" where
  "js_space_char r =
     (if r < 0x80 then r \<in> {9, 10, 11, 12, 13, 32}
      else r \<in> {0xA0, 0x1680, 0x2000, 0x2001, 0x2002, 0x2003, 0x2004, 0x2005, 0x2006, 0x2007, 0x2008,
                 0x2009, 0x200A, 0x2028, 0x2029, 0x202F, 0x205F, 0x3000, 0xFEFF})"

function trim_left_runes :: "(nat \<Rightarrow> bool) \<Rightarrow> string \<Rightarrow> string" where
  "trim_left_runes cutset [] = []"
| "trim_left_runes cutset (c # s) =
     (case decode_rune (c # s) of (r, n) \<Rightarrow>
        if cutset r then trim_left_runes cutset (drop (n - 1) s) else c # s)"
  by pat_completeness auto
termination
  by (relation "measure (length \<circ> snd)") (auto simp: less_Suc_eq_le)

text \<open>\<open>jsParseInt\<close>; \<open>None\<close> is NaN. The result may be infinite; a zero is +0.\<close>

datatype js_int = JsFinite rat | JsInfinite bool

definition js_sign :: "bool \<Rightarrow> float_val \<Rightarrow> js_int" where
  "js_sign neg f = (case f of Finite q \<Rightarrow> JsFinite (if neg \<and> q \<noteq> 0 then - q else q) | Infinite \<Rightarrow> JsInfinite neg)"

definition js_parse_int :: "string \<Rightarrow> js_int option" where
  "js_parse_int s0 =
     (let s1 = trim_left_runes js_space_char s0;
          (neg, s2) = (case s1 of c # r \<Rightarrow> if c = CHR ''-'' \<or> c = CHR ''+'' then (c = CHR ''-'', r) else (False, s1)
                      | [] \<Rightarrow> (False, s1));
          (base, digit, s3) =
            (case s2 of z # x # r \<Rightarrow>
               if z = CHR ''0'' \<and> (x = CHR ''x'' \<or> x = CHR ''X'')
               then (16, \<lambda>c. is_hex (lower_char c), r) else (10, is_digit, s2)
             | _ \<Rightarrow> (10, is_digit, s2));
          digits = takeWhile digit s3
      in if digits = [] then None else Some (js_sign neg (round_f64 (base_value base (map lower_char digits)))))"

definition denormalize_port :: "json \<Rightarrow> port_value" where
  "denormalize_port port =
     (case port of
        JStr s \<Rightarrow>
          if \<not> matches_localhost_port s then Port port
          else (let units = utf16_encode (runes s)
                in case js_parse_int (of_runes (utf16_decode (drop (length localhost_colon) units))) of
                  None \<Rightarrow> Port JNull
                | Some (JsFinite n) \<Rightarrow> Port (JNum n)
                | Some (JsInfinite neg) \<Rightarrow> PortInfinity neg)
      | _ \<Rightarrow> Port port)"

fun hashable_port :: "json \<Rightarrow> bool" where
  "hashable_port (JStr s) = True"
| "hashable_port (JBool b) = True"
| "hashable_port JNull = True"
| "hashable_port v = False"

fun dedupe_ports_from :: "(rat \<Rightarrow> string) \<Rightarrow> json list \<Rightarrow> port_value list \<Rightarrow> port_value list" where
  "dedupe_ports_from ft seen [] = []"
| "dedupe_ports_from ft seen (p # ps) =
     (let port = normalize_forward_port ft p
      in if hashable_port port
         then (if port \<in> set seen then dedupe_ports_from ft seen ps
               else denormalize_port port # dedupe_ports_from ft (port # seen) ps)
         else denormalize_port port # dedupe_ports_from ft seen ps)"

definition dedupe_forward_ports :: "(rat \<Rightarrow> string) \<Rightarrow> port_value list \<Rightarrow> port_value list" where
  "dedupe_forward_ports ft ports = dedupe_ports_from ft [] ports"

subsection \<open>Host requirements\<close>

definition all_digits :: "string \<Rightarrow> bool" where
  "all_digits s = (if s = [] then False else list_all is_digit s)"

definition byte_units :: "(string \<times> int) list" where
  "byte_units = [(''tb'', 2 ^ 40), (''gb'', 2 ^ 30), (''mb'', 2 ^ 20), (''kb'', 2 ^ 10)]"

definition cut_unit :: "string \<Rightarrow> string \<times> int" where
  "cut_unit s =
     (case find (\<lambda>(sfx, sz). has_suffix s sfx) byte_units of
        Some (sfx, sz) \<Rightarrow> (trim_suffix s sfx, sz)
      | None \<Rightarrow> (s, 1))"

definition parse_bytes :: "string \<Rightarrow> float_val" where
  "parse_bytes s =
     (case cut_unit s of (num, u) \<Rightarrow>
        if \<not> all_digits num then Finite 0
        else f64_scale (round_f64 (base_value 10 num)) u)"

definition js_number_string :: "(rat \<Rightarrow> string) \<Rightarrow> float_val \<Rightarrow> string" where
  "js_number_string ft n = (case n of Infinite \<Rightarrow> ''Infinity'' | Finite q \<Rightarrow> ft q)"

text \<open>A missing property of an object, and any property of what is no object, is nil.\<close>

definition jprop :: "string \<Rightarrow> json \<Rightarrow> json" where
  "jprop k v = (case jget k v of None \<Rightarrow> JNull | Some x \<Rightarrow> x)"

definition hr_float :: "json \<Rightarrow> rat" where
  "hr_float v = (case v of JNum q \<Rightarrow> q | _ \<Rightarrow> 0)"

definition hr_string :: "json \<Rightarrow> string" where
  "hr_string v = (case v of JStr s \<Rightarrow> s | _ \<Rightarrow> ''0'')"

definition f64_max :: "float_val \<Rightarrow> float_val \<Rightarrow> float_val" where
  "f64_max a b = (if f64_less a b then b else a)"

definition merge_gpu_requirements :: "(rat \<Rightarrow> string) \<Rightarrow> json \<Rightarrow> json \<Rightarrow> json" where
  "merge_gpu_requirements ft a b =
     (if a = JNull \<or> a = JBool False then b
      else if b = JNull \<or> b = JBool False then a
      else if a = JStr ''optional'' \<and> b = JStr ''optional'' then JStr ''optional''
      else (let cores = (if hr_float (jprop ''cores'' b) > hr_float (jprop ''cores'' a)
                         then hr_float (jprop ''cores'' b) else hr_float (jprop ''cores'' a));
                mem = f64_max (parse_bytes (hr_string (jprop ''memory'' a))) (parse_bytes (hr_string (jprop ''memory'' b)))
            in JObj ((if cores \<noteq> 0 then [(''cores'', JNum cores)] else [])
                   @ (if mem \<noteq> Finite 0 then [(''memory'', JStr (js_number_string ft mem))] else []))))"

record requirements =
  r_cpus :: rat
  r_memory :: float_val
  r_storage :: float_val
  r_gpu :: json

definition no_requirements :: requirements where
  "no_requirements = \<lparr>r_cpus = 0, r_memory = Finite 0, r_storage = Finite 0, r_gpu = JNull\<rparr>"

definition requirements_step :: "(rat \<Rightarrow> string) \<Rightarrow> requirements \<Rightarrow> entry \<Rightarrow> requirements" where
  "requirements_step ft r e =
     (case e_host_requirements e of
        JObj hr \<Rightarrow>
          \<lparr>r_cpus = (if hr_float (jprop ''cpus'' (JObj hr)) > r_cpus r then hr_float (jprop ''cpus'' (JObj hr)) else r_cpus r),
           r_memory = f64_max (r_memory r) (parse_bytes (hr_string (jprop ''memory'' (JObj hr)))),
           r_storage = f64_max (r_storage r) (parse_bytes (hr_string (jprop ''storage'' (JObj hr)))),
           r_gpu = merge_gpu_requirements ft (r_gpu r) (jprop ''gpu'' (JObj hr))\<rparr>
      | _ \<Rightarrow> r)"

definition merge_host_requirements :: "(rat \<Rightarrow> string) \<Rightarrow> entry list \<Rightarrow> json" where
  "merge_host_requirements ft es =
     (if es = [] then JObj [(''cpus'', JNull), (''memory'', JStr ''-Infinity''), (''storage'', JStr ''-Infinity'')]
      else (let r = foldl (requirements_step ft) no_requirements es
            in if r_cpus r = 0 \<and> r_memory r = Finite 0 \<and> r_storage r = Finite 0 \<and> r_gpu r = JNull then JNull
               else JObj ([(''cpus'', JNum (r_cpus r))]
                 @ (if r_memory r \<noteq> Finite 0 then [(''memory'', JStr (js_number_string ft (r_memory r)))] else [])
                 @ (if r_storage r \<noteq> Finite 0 then [(''storage'', JStr (js_number_string ft (r_storage r)))] else [])
                 @ (if r_gpu r \<noteq> JNull then [(''gpu'', r_gpu r)] else []))))"

subsection \<open>Merging\<close>

definition merge_configuration :: "(rat \<Rightarrow> string) \<Rightarrow> entry list \<Rightarrow> merged_config" where
  "merge_configuration ft entries =
     (let es = non_empty_entries ft entries;
          m = foldr merge_scalars es (merge_flags es (foldl merge_entry empty_merged es))
      in m\<lparr>m_mounts := dedupe_mounts_by_target (m_mounts m),
           m_forward_ports := dedupe_forward_ports ft (m_forward_ports m),
           m_host_requirements := merge_host_requirements ft es\<rparr>)"

subsection \<open>The last mount of a target is kept\<close>

lemma last_idx_snoc: "last_idx (ms @ [m]) = aput (mount_target_key m) (length ms) (last_idx ms)"
  by (simp add: last_idx_def enumerate_append_eq)

lemma last_idx_bound: "map_of (last_idx ms) t = Some i \<Longrightarrow> i < length ms"
  by (induction ms arbitrary: i rule: rev_induct) (auto simp: last_idx_snoc less_SucI split: if_splits, simp add: last_idx_def)

lemma dedupe_mounts_snoc:
  "dedupe_mounts_by_target (ms @ [m]) =
   filter (\<lambda>x. mount_target_key x \<noteq> mount_target_key m) (dedupe_mounts_by_target ms) @ [m]"
proof -
  let ?k = mount_target_key
  have "filter (\<lambda>(i, x). map_of (last_idx (ms @ [m])) (?k x) = Some i) (enumerate 0 ms) =
      filter (\<lambda>(i, x). ?k x \<noteq> ?k m) (filter (\<lambda>(i, x). map_of (last_idx ms) (?k x) = Some i) (enumerate 0 ms))"
    unfolding filter_filter by (rule filter_cong) (auto simp: last_idx_snoc in_set_enumerate_eq)
  then show ?thesis
    by (simp add: dedupe_mounts_by_target_def enumerate_append_eq last_idx_snoc filter_map comp_def case_prod_unfold)
qed

lemma dedupe_mounts_shape:
  "distinct (map mount_target_key (dedupe_mounts_by_target ms)) \<and> subseq (dedupe_mounts_by_target ms) ms \<and>
   mount_target_key ` set (dedupe_mounts_by_target ms) = mount_target_key ` set ms"
proof (induction ms rule: rev_induct)
  case Nil
  then show ?case by (simp add: dedupe_mounts_by_target_def last_idx_def)
next
  case (snoc m ms)
  let ?k = mount_target_key and ?d = "dedupe_mounts_by_target ms"
  let ?f = "filter (\<lambda>x. ?k x \<noteq> ?k m) ?d"
  have "subseq ?d ms" using snoc by simp
  with subseq_filter_left have "subseq ?f ms" by (rule subseq_order.trans)
  then have "subseq (?f @ [m]) (ms @ [m])" by (rule list_emb_append_mono) simp
  moreover have "distinct (map ?k ?f)" using snoc by (simp add: distinct_map_filter)
  moreover have "?k ` set ?f = ?k ` set ?d - {?k m}" by auto
  then have "?k ` set ?f = ?k ` set ms - {?k m}" using snoc by simp
  ultimately show ?case unfolding dedupe_mounts_snoc by simp
qed

text \<open>C24. Of the mounts with one target the last is kept, in place: each further mount takes the place of the
  one kept for its target, and the targets stay the same and distinct.\<close>

theorem mounts_last_wins:
  "dedupe_mounts_by_target [] = [] \<and>
   dedupe_mounts_by_target (ms @ [m]) =
     filter (\<lambda>x. mount_target_key x \<noteq> mount_target_key m) (dedupe_mounts_by_target ms) @ [m] \<and>
   distinct (map mount_target_key (dedupe_mounts_by_target ms)) \<and> subseq (dedupe_mounts_by_target ms) ms \<and>
   mount_target_key ` set (dedupe_mounts_by_target ms) = mount_target_key ` set ms"
  using dedupe_mounts_shape dedupe_mounts_snoc by (simp add: dedupe_mounts_by_target_def last_idx_def)

subsection \<open>What each field of the merge holds\<close>

text \<open>The last value set in a list of entries, and the commands and origins of a hook.\<close>

definition last_set :: "('a \<Rightarrow> bool) \<Rightarrow> 'a \<Rightarrow> 'a list \<Rightarrow> 'a" where
  "last_set P d xs = (if filter P xs = [] then d else last (filter P xs))"

definition hook_commands :: "(entry \<Rightarrow> json) \<Rightarrow> entry list \<Rightarrow> json list" where
  "hook_commands sel es = filter is_non_empty_command (map sel es)"

definition hook_origins :: "(entry \<Rightarrow> json) \<Rightarrow> entry list \<Rightarrow> string list" where
  "hook_origins sel es = map entry_origin (filter (\<lambda>e. is_non_empty_command (sel e)) es)"

lemma last_set_simps [simp]:
  "last_set P d [] = d"
  "last_set P d (xs @ [x]) = (if P x then x else last_set P d xs)"
  by (simp_all add: last_set_def)

lemma last_set_Cons: "last_set P d (x # xs) = (if P x then last_set P x xs else last_set P d xs)"
  by (simp add: last_set_def)

text \<open>The backward loop keeps the first value it meets, the last of the entries.\<close>

lemma first_kept:
  assumes "\<And>e m. g (step e m) = (if \<not> P (g m) \<and> P (sel e) then sel e else g m)"
  shows "g (foldr step es m) = (if P (g m) then g m else last_set P (g m) (map sel es))"
  by (induction es arbitrary: m rule: rev_induct) (simp_all add: assms)

lemma scalar_kept:
  assumes "\<And>e m. g (merge_scalars e m) = (if \<not> P (g m) \<and> P (sel e) then sel e else g m)" and "\<not> P (g m)"
  shows "g (foldr merge_scalars es m) = last_set P (g m) (map sel es)"
  using first_kept [of g merge_scalars P sel] assms by simp

text \<open>A field that one of the loops does not write keeps its value.\<close>

lemma untouched: "(\<And>e m. g (step e m) = g m) \<Longrightarrow> g (foldr step es m) = g m"
  by (induction es) simp_all

lemma untouched_left: "(\<And>m e. g (step m e) = g m) \<Longrightarrow> g (foldl step m es) = g m"
  by (induction es arbitrary: m) simp_all

text \<open>A field that grows by a part of each entry.\<close>

lemma grown: "(\<And>m e. g (step m e) = g m @ part e) \<Longrightarrow> g (foldl step m es) = g m @ concat (map part es)"
  by (induction es arbitrary: m) simp_all

lemma collect_fields:
  "m_entrypoints (collect_hooks e m) = m_entrypoints m" "m_cap_add (collect_hooks e m) = m_cap_add m"
  "m_security_opt (collect_hooks e m) = m_security_opt m" "m_forward_ports (collect_hooks e m) = m_forward_ports m"
  "m_mounts (collect_hooks e m) = m_mounts m" "m_container_env (collect_hooks e m) = m_container_env m"
  "m_remote_env (collect_hooks e m) = m_remote_env m" "m_customizations (collect_hooks e m) = m_customizations m"
  "m_ports_attributes (collect_hooks e m) = m_ports_attributes m" "m_remote_user (collect_hooks e m) = m_remote_user m"
  "m_container_user (collect_hooks e m) = m_container_user m" "m_user_env_probe (collect_hooks e m) = m_user_env_probe m"
  "m_wait_for (collect_hooks e m) = m_wait_for m" "m_shutdown_action (collect_hooks e m) = m_shutdown_action m"
  "m_other_ports_attributes (collect_hooks e m) = m_other_ports_attributes m"
  "m_override_command (collect_hooks e m) = m_override_command m"
  "m_update_remote_user_uid (collect_hooks e m) = m_update_remote_user_uid m"
  by (simp_all add: collect_hooks_def collect_def)

lemma collect_commands:
  "m_on_create_commands (collect_hooks e m) = m_on_create_commands m @ filter is_non_empty_command [e_on_create_command e]"
  "m_update_content_commands (collect_hooks e m) =
     m_update_content_commands m @ filter is_non_empty_command [e_update_content_command e]"
  "m_post_create_commands (collect_hooks e m) = m_post_create_commands m @ filter is_non_empty_command [e_post_create_command e]"
  "m_post_start_commands (collect_hooks e m) = m_post_start_commands m @ filter is_non_empty_command [e_post_start_command e]"
  "m_post_attach_commands (collect_hooks e m) = m_post_attach_commands m @ filter is_non_empty_command [e_post_attach_command e]"
  by (simp_all add: collect_hooks_def collect_def)

definition origins_of :: "merged_config \<Rightarrow> string \<Rightarrow> string list" where
  "origins_of m hook = (case map_of (m_command_origins m) hook of None \<Rightarrow> [] | Some os \<Rightarrow> os)"

lemma collect_origins_of:
  assumes "\<And>f m. m_command_origins (upd f m) = m_command_origins m"
  shows "origins_of (collect hook upd origin cmd m) h =
    origins_of m h @ (if h = hook \<and> is_non_empty_command cmd then [origin] else [])"
  using assms by (simp add: collect_def origins_of_def map_push_def)

lemma collect_hooks_origins:
  "origins_of (collect_hooks e m) ''onCreateCommand'' =
     origins_of m ''onCreateCommand'' @ (if is_non_empty_command (e_on_create_command e) then [entry_origin e] else [])"
  "origins_of (collect_hooks e m) ''updateContentCommand'' =
     origins_of m ''updateContentCommand'' @ (if is_non_empty_command (e_update_content_command e) then [entry_origin e] else [])"
  "origins_of (collect_hooks e m) ''postCreateCommand'' =
     origins_of m ''postCreateCommand'' @ (if is_non_empty_command (e_post_create_command e) then [entry_origin e] else [])"
  "origins_of (collect_hooks e m) ''postStartCommand'' =
     origins_of m ''postStartCommand'' @ (if is_non_empty_command (e_post_start_command e) then [entry_origin e] else [])"
  "origins_of (collect_hooks e m) ''postAttachCommand'' =
     origins_of m ''postAttachCommand'' @ (if is_non_empty_command (e_post_attach_command e) then [entry_origin e] else [])"
  by (simp_all add: collect_hooks_def collect_origins_of)

text \<open>The empty entries set nothing.\<close>

lemma last_set_empty_entries:
  "\<not> P (sel empty_entry) \<Longrightarrow> last_set P d (map sel (filter (\<lambda>e. e \<noteq> empty_entry) es)) = last_set P d (map sel es)"
  by (induction es rule: rev_induct) auto

lemma hook_empty_entries:
  assumes "sel empty_entry = JNull"
  shows "hook_commands sel (filter (\<lambda>e. e \<noteq> empty_entry) es) = hook_commands sel es"
    and "hook_origins sel (filter (\<lambda>e. e \<noteq> empty_entry) es) = hook_origins sel es"
proof -
  have no: "\<not> is_non_empty_command (sel empty_entry)" using assms by (simp add: is_non_empty_command_def)
  show "hook_commands sel (filter (\<lambda>e. e \<noteq> empty_entry) es) = hook_commands sel es"
    using no by (induction es) (auto simp: hook_commands_def)
  show "hook_origins sel (filter (\<lambda>e. e \<noteq> empty_entry) es) = hook_origins sel es"
    using no by (induction es) (auto simp: hook_origins_def)
qed

lemma hook_grown:
  assumes "\<And>m e. g (step m e) = g m @ filter is_non_empty_command [sel e]"
  shows "g (foldl step m es) = g m @ hook_commands sel es"
  using assms by (induction es arbitrary: m) (simp_all add: hook_commands_def)

lemma origins_grown:
  assumes "\<And>m e. g (step m e) = g m @ (if is_non_empty_command (sel e) then [entry_origin e] else [])"
  shows "g (foldl step m es) = g m @ hook_origins sel es"
  using assms by (induction es arbitrary: m) (simp_all add: hook_origins_def)

text \<open>The fields of the merge as the loops leave them.\<close>

definition merge_loops :: "entry list \<Rightarrow> merged_config" where
  "merge_loops es = foldr merge_scalars es (merge_flags es (foldl merge_entry empty_merged es))"

lemma origins_of_cong: "m_command_origins m = m_command_origins m' \<Longrightarrow> origins_of m = origins_of m'"
  by (simp add: origins_of_def fun_eq_iff)

lemma scalars_origins [simp]: "origins_of (merge_scalars e m) = origins_of m" "origins_of (merge_flags es m) = origins_of m"
  by (rule origins_of_cong, simp add: merge_scalars_def merge_flags_def)+

lemma merge_entry_origins [simp]: "origins_of (merge_entry m e) = origins_of (collect_hooks e m)"
  by (rule origins_of_cong) (simp add: merge_entry_def Let_def)

lemma empty_origins [simp]: "origins_of empty_merged h = []"
  by (simp add: origins_of_def empty_merged_def)

lemma loops_forward:
  assumes "\<And>e m. g (merge_scalars e m) = g m" and "\<And>m. g (merge_flags es m) = g m"
  shows "g (merge_loops es) = g (foldl merge_entry empty_merged es)"
  unfolding merge_loops_def using untouched [of g merge_scalars] assms by simp

lemma loops_hook:
  assumes "\<And>e m. g (merge_scalars e m) = g m" and "\<And>m. g (merge_flags es m) = g m" and "g empty_merged = []"
    and "\<And>m e. g (merge_entry m e) = g m @ filter is_non_empty_command [sel e]"
  shows "g (merge_loops es) = hook_commands sel es"
  using loops_forward [of g es] hook_grown [of g merge_entry sel] assms by simp

lemma loops_origins:
  assumes "\<And>m e. origins_of (collect_hooks e m) h = origins_of m h @ (if is_non_empty_command (sel e) then [entry_origin e] else [])"
  shows "origins_of (merge_loops es) h = hook_origins sel es"
  using loops_forward [of "\<lambda>m. origins_of m h" es] origins_grown [of "\<lambda>m. origins_of m h" merge_entry sel] assms by simp

lemma loops_scalar:
  assumes "\<And>e m. g (merge_scalars e m) = (if \<not> P (g m) \<and> P (sel e) then sel e else g m)"
    and "\<And>m. g (merge_flags es m) = g m" and "\<And>m e. g (merge_entry m e) = g m" and "g empty_merged = d" and "\<not> P d"
  shows "g (merge_loops es) = last_set P d (map sel es)"
proof -
  have d: "g (merge_flags es (foldl merge_entry empty_merged es)) = d"
    using untouched_left [of g merge_entry] assms by simp
  show ?thesis unfolding merge_loops_def d [symmetric]
    by (rule scalar_kept) (use assms d in simp_all)
qed

lemma merge_configuration_loops:
  "merge_configuration ft entries =
   (let es = filter (\<lambda>e. e \<noteq> empty_entry) entries; m = merge_loops es
    in m\<lparr>m_mounts := dedupe_mounts_by_target (m_mounts m),
         m_forward_ports := dedupe_forward_ports ft (m_forward_ports m),
         m_host_requirements := merge_host_requirements ft es\<rparr>)"
  by (simp add: merge_configuration_def non_empty_entries_filter merge_loops_def Let_def)

lemma origins_of_updates [simp]: "origins_of (m\<lparr>m_mounts := a, m_forward_ports := b, m_host_requirements := c\<rparr>) = origins_of m"
  by (rule origins_of_cong) simp

lemmas loop_fields = merge_entry_def merge_scalars_def merge_flags_def empty_merged_def Let_def collect_fields collect_commands

text \<open>C23. Every lifecycle hook of the merge lists the commands of all entries in order, empty ones left out,
  and beside each the Feature or the configuration it comes from.\<close>

theorem merge_hooks:
  fixes entries ft
  defines "m \<equiv> merge_configuration ft entries"
  shows "m_on_create_commands m = hook_commands e_on_create_command entries \<and>
    origins_of m ''onCreateCommand'' = hook_origins e_on_create_command entries \<and>
    m_update_content_commands m = hook_commands e_update_content_command entries \<and>
    origins_of m ''updateContentCommand'' = hook_origins e_update_content_command entries \<and>
    m_post_create_commands m = hook_commands e_post_create_command entries \<and>
    origins_of m ''postCreateCommand'' = hook_origins e_post_create_command entries \<and>
    m_post_start_commands m = hook_commands e_post_start_command entries \<and>
    origins_of m ''postStartCommand'' = hook_origins e_post_start_command entries \<and>
    m_post_attach_commands m = hook_commands e_post_attach_command entries \<and>
    origins_of m ''postAttachCommand'' = hook_origins e_post_attach_command entries"
proof -
  let ?es = "filter (\<lambda>e. e \<noteq> empty_entry) entries"
  have c: "m_on_create_commands (merge_loops ?es) = hook_commands e_on_create_command ?es"
    "m_update_content_commands (merge_loops ?es) = hook_commands e_update_content_command ?es"
    "m_post_create_commands (merge_loops ?es) = hook_commands e_post_create_command ?es"
    "m_post_start_commands (merge_loops ?es) = hook_commands e_post_start_command ?es"
    "m_post_attach_commands (merge_loops ?es) = hook_commands e_post_attach_command ?es"
    by (rule loops_hook; simp add: loop_fields)+
  have h: "origins_of (merge_loops ?es) ''onCreateCommand'' = hook_origins e_on_create_command ?es"
    "origins_of (merge_loops ?es) ''updateContentCommand'' = hook_origins e_update_content_command ?es"
    "origins_of (merge_loops ?es) ''postCreateCommand'' = hook_origins e_post_create_command ?es"
    "origins_of (merge_loops ?es) ''postStartCommand'' = hook_origins e_post_start_command ?es"
    "origins_of (merge_loops ?es) ''postAttachCommand'' = hook_origins e_post_attach_command ?es"
    by (rule loops_origins; simp add: collect_hooks_origins)+
  have e: "e_on_create_command empty_entry = JNull" "e_update_content_command empty_entry = JNull"
    "e_post_create_command empty_entry = JNull" "e_post_start_command empty_entry = JNull"
    "e_post_attach_command empty_entry = JNull" by (simp_all add: empty_entry_def)
  show ?thesis unfolding m_def merge_configuration_loops Let_def origins_of_updates
    using c h by (simp add: e hook_empty_entries)
qed

text \<open>Of each scalar property the last entry that sets it wins, whatever comes before; \<open>init\<close> and
  \<open>privileged\<close> hold as soon as one entry asks for them.\<close>

theorem merge_scalars_last:
  fixes entries ft
  defines "m \<equiv> merge_configuration ft entries"
  shows "m_remote_user m = last_set (\<lambda>s. s \<noteq> []) [] (map e_remote_user entries) \<and>
    m_container_user m = last_set (\<lambda>s. s \<noteq> []) [] (map e_container_user entries) \<and>
    m_user_env_probe m = last_set (\<lambda>s. s \<noteq> []) [] (map e_user_env_probe entries) \<and>
    m_wait_for m = last_set (\<lambda>s. s \<noteq> []) [] (map e_wait_for entries) \<and>
    m_shutdown_action m = last_set (\<lambda>s. s \<noteq> []) [] (map e_shutdown_action entries) \<and>
    m_other_ports_attributes m = last_set (\<lambda>v. v \<noteq> JNull) JNull (map e_other_ports_attributes entries) \<and>
    m_override_command m = last_set (\<lambda>v. v \<noteq> None) None (map e_override_command entries) \<and>
    m_update_remote_user_uid m = last_set (\<lambda>v. v \<noteq> None) None (map e_update_remote_user_uid entries) \<and>
    m_init m = Some (list_ex (\<lambda>e. e_init e = Some True) entries) \<and>
    m_privileged m = Some (list_ex (\<lambda>e. e_privileged e = Some True) entries)"
proof -
  let ?es = "filter (\<lambda>e. e \<noteq> empty_entry) entries"
  have s: "m_remote_user (merge_loops ?es) = last_set (\<lambda>s. s \<noteq> []) [] (map e_remote_user ?es)"
    "m_container_user (merge_loops ?es) = last_set (\<lambda>s. s \<noteq> []) [] (map e_container_user ?es)"
    "m_user_env_probe (merge_loops ?es) = last_set (\<lambda>s. s \<noteq> []) [] (map e_user_env_probe ?es)"
    "m_wait_for (merge_loops ?es) = last_set (\<lambda>s. s \<noteq> []) [] (map e_wait_for ?es)"
    "m_shutdown_action (merge_loops ?es) = last_set (\<lambda>s. s \<noteq> []) [] (map e_shutdown_action ?es)"
    "m_other_ports_attributes (merge_loops ?es) = last_set (\<lambda>v. v \<noteq> JNull) JNull (map e_other_ports_attributes ?es)"
    "m_override_command (merge_loops ?es) = last_set (\<lambda>v. v \<noteq> None) None (map e_override_command ?es)"
    "m_update_remote_user_uid (merge_loops ?es) = last_set (\<lambda>v. v \<noteq> None) None (map e_update_remote_user_uid ?es)"
    by (rule loops_scalar; simp add: loop_fields)+
  have f: "m_init (merge_loops ?es) = Some (list_ex (\<lambda>e. e_init e = Some True) ?es)"
    "m_privileged (merge_loops ?es) = Some (list_ex (\<lambda>e. e_privileged e = Some True) ?es)"
    unfolding merge_loops_def by (subst untouched; simp add: merge_scalars_def merge_flags_def)+
  have x: "list_ex (\<lambda>e. sel e = Some True) ?es = list_ex (\<lambda>e. sel e = Some True) entries"
    if "sel empty_entry = None" for sel using that by (auto simp: list_ex_iff)
  have e: "e_remote_user empty_entry = []" "e_container_user empty_entry = []" "e_user_env_probe empty_entry = []"
    "e_wait_for empty_entry = []" "e_shutdown_action empty_entry = []" "e_other_ports_attributes empty_entry = JNull"
    "e_override_command empty_entry = None" "e_update_remote_user_uid empty_entry = None"
    "e_init empty_entry = None" "e_privileged empty_entry = None" by (simp_all add: empty_entry_def)
  show ?thesis unfolding m_def merge_configuration_loops Let_def
    using s f by (simp add: e x last_set_empty_entries)
qed

subsection \<open>Byte counts\<close>

lemma round_f64_small:
  assumes "0 \<le> n" and "n < 9007199254740992"
  shows "round_f64 n = Finite (of_int n)"
proof -
  have "(2 :: int) ^ 53 \<le> 2 ^ 1024" by (rule power_increasing) simp_all
  then have "n < f64_limit" using assms by (simp add: f64_limit_def)
  then show ?thesis using assms by (simp add: round_f64_def f64_shift.simps [of n])
qed

lemma f64_scale_small:
  assumes "q < 9007199254740992" and "u \<le> 2 ^ 40" and "0 \<le> q" and "0 \<le> u"
  shows "f64_scale (Finite (of_int q)) u = Finite (of_int (q * u))"
proof -
  have "q * u \<le> 9007199254740992 * 2 ^ 40" using assms by (intro mult_mono) simp_all
  also have "\<dots> = (2 :: int) ^ 93" by simp
  also have "\<dots> < 2 ^ 1024" by (rule power_strict_increasing) simp_all
  finally have "q * u < f64_limit" by (simp add: f64_limit_def)
  then have "(of_int q * of_int u :: rat) < of_int f64_limit" by (metis of_int_less_iff of_int_mult)
  then show ?thesis by simp
qed

lemma is_digit_not: "is_digit c \<Longrightarrow> c \<notin> {CHR ''b'', CHR ''x'', CHR ''X'', CHR ''-'', CHR ''+''}"
  by (auto simp: is_digit_def bval_def)

lemma has_suffix_2: "has_suffix (t @ [c, d]) [a, b] \<longleftrightarrow> c = a \<and> d = b"
proof
  assume "has_suffix (t @ [c, d]) [a, b]"
  then obtain r where "t @ [c, d] = r @ [a, b]" by (auto simp: has_suffix_iff)
  then show "c = a \<and> d = b" by (simp add: append_eq_append_conv)
qed (auto simp: has_suffix_iff)

lemma digits_no_suffix: "\<forall>c\<in>set t. is_digit c \<Longrightarrow> \<not> has_suffix t [a, CHR ''b'']"
proof
  assume "\<forall>c\<in>set t. is_digit c" and "has_suffix t [a, CHR ''b'']"
  then have "is_digit CHR ''b''" by (auto simp: has_suffix_iff)
  then show False using is_digit_not by blast
qed

lemma cut_unit_digits:
  assumes "\<forall>c\<in>set t. is_digit c" and "(sfx, sz) \<in> set (([], 1) # byte_units)"
  shows "cut_unit (t @ sfx) = (t, sz)"
  using assms(2) digits_no_suffix [OF assms(1)]
  by (auto simp: cut_unit_def byte_units_def has_suffix_2 trim_suffix_def)

lemma all_digits_text: "all_digits (nat_text n)"
  by (auto simp: all_digits_def list_all_iff dest: nat_text_digit)

text \<open>C25. A byte count below \<open>2^53\<close>, with any unit, is read exactly: the product with the unit neither
  rounds nor overflows.\<close>

theorem parse_bytes_exact:
  assumes "n < 9007199254740992" and "(sfx, sz) \<in> set (([], 1) # byte_units)"
  shows "parse_bytes (nat_text n @ sfx) = Finite (of_nat n * of_int sz)"
proof -
  have c: "cut_unit (nat_text n @ sfx) = (nat_text n, sz)"
    using cut_unit_digits assms(2) nat_text_digit by blast
  have sz: "0 \<le> sz" "sz \<le> 2 ^ 40" using assms(2) by (auto simp: byte_units_def)
  have r: "round_f64 (int n) = Finite (of_int (int n))" using assms(1) by (intro round_f64_small) simp_all
  have "f64_scale (Finite (of_int (int n))) sz = Finite (of_int (int n * sz))"
    by (rule f64_scale_small) (use assms(1) sz in simp_all)
  then show ?thesis by (simp add: parse_bytes_def c all_digits_text r)
qed

lemma parse_bytes_exact_witness: "parse_bytes (nat_text 8 @ ''gb'') = Finite 8589934592"
  using parse_bytes_exact [of 8 "''gb''" "2 ^ 30"] by (simp add: byte_units_def)

subsection \<open>Ports as numbers and as texts\<close>

lemma ascii_utf16: "\<forall>c\<in>set s. is_ascii c \<Longrightarrow> utf16_encode (runes s) = map bval s"
proof -
  assume a: "\<forall>c\<in>set s. is_ascii c"
  then have "utf16_encode (map bval s) = map bval s"
    by (induction s) (auto simp: utf16_encode_def utf16_units_code is_ascii_def)
  then show ?thesis using runes_ascii [OF a] by simp
qed

lemma ascii_utf16_decode: "\<forall>c\<in>set s. is_ascii c \<Longrightarrow> of_runes (utf16_decode (map bval s)) = s"
proof -
  assume a: "\<forall>c\<in>set s. is_ascii c"
  then have "utf16_decode (map bval s) = map bval s"
    by (induction s) (auto simp: utf16_decode_single is_surrogate_code is_ascii_def)
  moreover have "of_runes (map bval s) = s"
    using a by (induction s) (auto simp: of_runes_def encode_rune_code is_ascii_def)
  ultimately show ?thesis by simp
qed

lemma js_parse_int_text:
  assumes "n < 9007199254740992"
  shows "js_parse_int (nat_text n) = Some (JsFinite (of_nat n))"
proof -
  obtain c s where t: "nat_text n = c # s" by (cases "nat_text n") auto
  have d: "\<forall>x\<in>set (c # s). is_digit x" using nat_text_digit [of _ n] t by metis
  have dec: "decode_rune (c # s) = (bval c, 1)"
    by (rule decode_rune_ascii) (use d in \<open>auto simp: is_digit_def\<close>)
  have "trim_left_runes js_space_char (c # s) = c # s"
    using d dec by (auto simp: js_space_char_def is_digit_def)
  moreover have "c \<noteq> CHR ''-''" "c \<noteq> CHR ''+''" "\<And>x. x \<in> set s \<Longrightarrow> x \<noteq> CHR ''x'' \<and> x \<noteq> CHR ''X''"
    using d is_digit_not by auto
  moreover have "takeWhile is_digit (c # s) = c # s" using d by (simp add: takeWhile_eq_all_conv)
  moreover have "map lower_char (c # s) = c # s"
    by (rule map_idI) (use d in \<open>auto simp: lower_char_def is_upper_def is_digit_def\<close>)
  moreover have "round_f64 (base_value 10 (c # s)) = Finite (of_nat n)"
    using round_f64_small [of "int n"] assms t base_value_nat_text [of n] by simp
  ultimately show ?thesis unfolding t js_parse_int_def
    by (cases s) (auto simp: Let_def js_sign_def)
qed

lemma digit_ascii: "is_digit c \<Longrightarrow> is_ascii c"
  by (simp add: is_digit_def is_ascii_def)

lemma matches_localhost_text: "is_digit c \<Longrightarrow> matches_localhost_port (localhost_colon @ c # s)"
  by (simp add: localhost_colon_def cut_prefix_def)

lemma denormalize_text:
  assumes "n < 9007199254740992"
  shows "denormalize_port (JStr (localhost_colon @ nat_text n)) = Port (JNum (of_nat n))"
proof -
  obtain c s where t: "nat_text n = c # s" by (cases "nat_text n") auto
  then have "is_digit c" using nat_text_digit [of c n] by simp
  then have m: "matches_localhost_port (localhost_colon @ nat_text n)" using matches_localhost_text t by simp
  have "\<forall>c\<in>set (localhost_colon @ nat_text n). is_ascii c"
    using nat_text_digit digit_ascii by (auto simp: localhost_colon_def is_ascii_def bval_def)
  then have "utf16_encode (runes (localhost_colon @ nat_text n)) = map bval (localhost_colon @ nat_text n)"
    by (rule ascii_utf16)
  moreover have "of_runes (utf16_decode (map bval (nat_text n))) = nat_text n"
    using nat_text_digit digit_ascii by (intro ascii_utf16_decode) blast
  ultimately show ?thesis using m js_parse_int_text [OF assms] by (simp add: denormalize_port_def drop_map)
qed

text \<open>A port written as a number or as the text of the local one, and the ports as first listed.\<close>

definition port_spelling :: "nat \<times> bool \<Rightarrow> port_value" where
  "port_spelling p = (case p of (n, number) \<Rightarrow> Port (if number then JNum (of_nat n) else JStr (localhost_colon @ nat_text n)))"

fun firsts :: "nat list \<Rightarrow> nat list \<Rightarrow> nat list" where
  "firsts seen [] = []"
| "firsts seen (n # ns) = (if n \<in> set seen then firsts seen ns else n # firsts (n # seen) ns)"

lemma normalize_spelling:
  assumes "ft (of_nat n) = nat_text n"
  shows "normalize_forward_port ft (port_spelling (n, number)) = JStr (localhost_colon @ nat_text n)"
  using assms by (cases "n = 0") (simp_all add: port_spelling_def)

lemma dedupe_spellings:
  assumes "\<forall>p\<in>set ps. fst p < 9007199254740992 \<and> ft (of_nat (fst p)) = nat_text (fst p)"
  shows "dedupe_ports_from ft (map (\<lambda>n. JStr (localhost_colon @ nat_text n)) seen) (map port_spelling ps) =
    map (\<lambda>n. Port (JNum (of_nat n))) (firsts seen (map fst ps))"
  using assms
proof (induction ps arbitrary: seen)
  case (Cons p ps)
  obtain n b where p: "p = (n, b)" by (cases p)
  have "normalize_forward_port ft (port_spelling (n, b)) = JStr (localhost_colon @ nat_text n)"
    using Cons.prems p by (intro normalize_spelling) simp
  moreover have "JStr (localhost_colon @ nat_text n) \<in> set (map (\<lambda>n. JStr (localhost_colon @ nat_text n)) seen) \<longleftrightarrow> n \<in> set seen"
    by auto
  moreover have "denormalize_port (JStr (localhost_colon @ nat_text n)) = Port (JNum (of_nat n))"
    using Cons.prems p by (intro denormalize_text) simp
  ultimately show ?case using Cons.IH [of seen] Cons.IH [of "n # seen"] Cons.prems by (simp add: p Let_def)
qed simp

lemma firsts_shape: "set (firsts seen ns) = set ns - set seen \<and> distinct (firsts seen ns)"
  by (induction seen ns rule: firsts.induct) auto

text \<open>A port given as a number and as \<open>localhost:\<close> with that number is one port: of ports spelled either
  way the first of each is kept, as a number. The text of a float64 that is an integer below \<open>2^53\<close> is
  its decimal text, as \<open>encoding/json\<close> writes it.\<close>

theorem forward_ports_merged:
  assumes "\<forall>p\<in>set ps. fst p < 9007199254740992"
    and "\<forall>n < 9007199254740992. ft (of_nat n) = nat_text n"
  shows "dedupe_forward_ports ft (map port_spelling ps) = map (\<lambda>n. Port (JNum (of_nat n))) (firsts [] (map fst ps)) \<and>
    set (firsts [] (map fst ps)) = fst ` set ps \<and> distinct (firsts [] (map fst ps))"
  using dedupe_spellings [of ps ft "[]"] assms firsts_shape [of "[]" "map fst ps"]
  by (simp add: dedupe_forward_ports_def)

lemma forward_ports_merged_witness:
  "dedupe_forward_ports (\<lambda>q. nat_text (nat \<lfloor>q\<rfloor>)) (map port_spelling [(3000, True), (5000, False), (3000, False)]) =
   [Port (JNum 3000), Port (JNum 5000)]"
  using forward_ports_merged [of "[(3000, True), (5000, False), (3000, False)]" "\<lambda>q. nat_text (nat \<lfloor>q\<rfloor>)"]
  by simp

end
