(* ===== verification/Shell.thy ===== *)
theory Shell
  imports GoStrings
begin

text \<open>
  A POSIX shell's reading of the words of a command line, for what the CLI writes into scripts: text in
  single quotes is taken as it is, text in double quotes too when it has no dollar, backquote or
  backslash, a backslash outside quotes quotes the next character, and a blank, a line feed or an
  operator ends the word. Words with expansions are not read (\<open>None\<close>).
\<close>

fun sq_body :: "string \<Rightarrow> (string \<times> string) option" where
  "sq_body [] = None"
| "sq_body (c # s) = (if c = CHR 0x27 then Some ([], s) else map_option (\<lambda>(q, r). (c # q, r)) (sq_body s))"

fun dq_body :: "string \<Rightarrow> (string \<times> string) option" where
  "dq_body [] = None"
| "dq_body (c # s) =
     (if c = CHR 0x22 then Some ([], s)
      else if c \<in> {CHR ''$'', CHR 0x60, CHR 0x5C} then None
      else map_option (\<lambda>(q, r). (c # q, r)) (dq_body s))"

lemma sq_body_shorter: "sq_body s = Some (q, r) \<Longrightarrow> length r < length s"
  by (induction s arbitrary: q) (auto split: if_splits)

lemma dq_body_shorter: "dq_body s = Some (q, r) \<Longrightarrow> length r < length s"
  by (induction s arbitrary: q) (auto split: if_splits)

definition word_end :: "char \<Rightarrow> bool" where
  "word_end c \<longleftrightarrow> c \<in> {CHR '' '', CHR 0x09, CHR 0x0A, CHR '';'', CHR ''&'', CHR ''|'', CHR ''<'', CHR ''>'', CHR ''('', CHR '')''}"

function sh_word :: "string \<Rightarrow> (string \<times> string) option" where
  "sh_word [] = Some ([], [])"
| "sh_word (c # s) =
     (if word_end c then Some ([], c # s)
      else if c = CHR 0x27 then
        (case sq_body s of None \<Rightarrow> None
         | Some (q, r) \<Rightarrow> map_option (\<lambda>(w, r'). (q @ w, r')) (sh_word r))
      else if c = CHR 0x22 then
        (case dq_body s of None \<Rightarrow> None
         | Some (q, r) \<Rightarrow> map_option (\<lambda>(w, r'). (q @ w, r')) (sh_word r))
      else if c = CHR 0x5C then
        (case s of [] \<Rightarrow> None | d # t \<Rightarrow> map_option (\<lambda>(w, r'). ((if d = CHR 0x0A then w else d # w), r')) (sh_word t))
      else if c \<in> {CHR ''$'', CHR 0x60} then None
      else map_option (\<lambda>(w, r'). (c # w, r')) (sh_word s))"
  by pat_completeness auto
termination
  by (relation "measure length") (auto dest: sq_body_shorter dq_body_shorter)

lemma sh_word_rest: "sh_word s = Some (w, r) \<Longrightarrow> length r \<le> length s"
proof (induction s arbitrary: w r rule: sh_word.induct)
  case (2 c s)
  show ?case
  proof (cases "word_end c")
    case False
    consider "c = CHR 0x27" | "c \<noteq> CHR 0x27" "c = CHR 0x22" | "c = CHR 0x5C" | "c \<notin> {CHR 0x27, CHR 0x22, CHR 0x5C}" by blast
    then show ?thesis
    proof cases
      case 1
      then show ?thesis using "2.prems" False "2.IH"(1)
        by (fastforce split: option.splits dest: sq_body_shorter)
    next
      case 2
      then show ?thesis using "2.prems" False "2.IH"(2)
        by (fastforce split: option.splits dest: dq_body_shorter)
    next
      case 3
      then show ?thesis using "2.prems" False "2.IH"(3) by (fastforce split: list.splits if_splits)
    next
      case 4
      then show ?thesis using "2.prems" False "2.IH"(4) by (fastforce split: if_splits)
    qed
  qed (use "2.prems" in simp)
qed simp

text \<open>The words of a line whose words are separated by single spaces.\<close>

fun sh_words :: "nat \<Rightarrow> string \<Rightarrow> string list option" where
  "sh_words 0 s = None"
| "sh_words (Suc n) s =
     (case sh_word s of
        None \<Rightarrow> None
      | Some (w, []) \<Rightarrow> Some [w]
      | Some (w, c # r) \<Rightarrow> if c = CHR '' '' then map_option (\<lambda>ws. w # ws) (sh_words n r) else None)"

subsection \<open>Quoting\<close>

text \<open>A quote inside single quotes, as \<open>'\''\<close> and as \<open>'"'"'\<close>: the quotes end, a quoted quote, and they begin again.\<close>

definition backslash_quote :: string where
  "backslash_quote = [CHR 0x27, CHR 0x5C, CHR 0x27, CHR 0x27]"

definition double_quoted_quote :: string where
  "double_quoted_quote = [CHR 0x27, CHR 0x22, CHR 0x27, CHR 0x22, CHR 0x27]"

definition in_quotes :: "string \<Rightarrow> (string \<times> string) option" where
  "in_quotes s = (case sq_body s of None \<Rightarrow> None | Some (q, r) \<Rightarrow> map_option (\<lambda>(w, r'). (q @ w, r')) (sh_word r))"

lemma sh_word_quote: "sh_word (CHR 0x27 # s) = in_quotes s"
  by (simp add: in_quotes_def word_end_def)

lemma sh_word_backslash: "sh_word (CHR 0x5C # d # s) =
    map_option (\<lambda>(w, r'). ((if d = CHR 0x0A then w else d # w), r')) (sh_word s)"
  by (simp add: word_end_def)

lemma sh_word_dq_quote: "sh_word (CHR 0x22 # CHR 0x27 # CHR 0x22 # s) = map_option (\<lambda>(w, r'). (CHR 0x27 # w, r')) (sh_word s)"
  by (simp add: word_end_def)

lemma in_quotes_Cons: "c \<noteq> CHR 0x27 \<Longrightarrow> in_quotes (c # s) = map_option (\<lambda>(w, r). (c # w, r)) (in_quotes s)"
  by (cases "sq_body s") (auto simp: in_quotes_def option.map_comp comp_def case_prod_unfold)

lemma in_quotes_end: "in_quotes (CHR 0x27 # s) = sh_word s"
  by (simp add: in_quotes_def option.map_ident case_prod_unfold)

lemma in_quotes_quote:
  "x \<in> {backslash_quote, double_quoted_quote} \<Longrightarrow> in_quotes (x @ s) = map_option (\<lambda>(w, r). (CHR 0x27 # w, r)) (in_quotes s)"
  by (auto simp: backslash_quote_def double_quoted_quote_def in_quotes_end sh_word_backslash sh_word_dq_quote
      sh_word_quote simp del: sh_word.simps)

lemma in_quotes_escaped:
  assumes "x \<in> {backslash_quote, double_quoted_quote}"
  shows "in_quotes (concat (map (\<lambda>c. if c = CHR 0x27 then x else [c]) t) @ CHR 0x27 # s) =
    map_option (\<lambda>(w, r). (t @ w, r)) (sh_word s)"
proof (induction t)
  case Nil
  then show ?case by (simp add: in_quotes_end option.map_ident case_prod_unfold)
next
  case (Cons c t)
  then show ?case
    by (cases "c = CHR 0x27")
      (simp_all add: in_quotes_quote [OF assms] in_quotes_Cons option.map_comp comp_def case_prod_unfold)
qed

lemma sh_word_end: "word_end e \<Longrightarrow> sh_word (e # s) = Some ([], e # s)"
  by simp

text \<open>A quoted text is one word, the text itself, at the end of a line or before what ends a word.\<close>

lemma sh_word_quoted:
  assumes "word_end e"
  shows "sh_word (CHR 0x27 # concat (map (\<lambda>c. if c = CHR 0x27 then backslash_quote else [c]) t) @ CHR 0x27 # e # s) =
    Some (t, e # s)"
  using in_quotes_escaped [of backslash_quote t "e # s"] assms by (simp add: sh_word_quote sh_word_end del: sh_word.simps)

lemma sh_word_quoted_last:
  "sh_word (CHR 0x27 # concat (map (\<lambda>c. if c = CHR 0x27 then backslash_quote else [c]) t) @ [CHR 0x27]) = Some (t, [])"
  using in_quotes_escaped [of backslash_quote t "[]"] by (simp add: sh_word_quote del: sh_word.simps(2))

lemma sh_word_dquoted:
  assumes "word_end e"
  shows "sh_word (CHR 0x27 # concat (map (\<lambda>c. if c = CHR 0x27 then double_quoted_quote else [c]) t) @ CHR 0x27 # e # s) =
    Some (t, e # s)"
  using in_quotes_escaped [of double_quoted_quote t "e # s"] assms by (simp add: sh_word_quote sh_word_end del: sh_word.simps)

text \<open>\<open>shellQuote\<close>, and the words of quoted arguments.\<close>

definition shell_quote :: "string \<Rightarrow> string" where
  "shell_quote s = sq @ replace_all s sq backslash_quote @ sq"

lemma shell_quote_concat:
  "shell_quote s = CHR 0x27 # concat (map (\<lambda>c. if c = CHR 0x27 then backslash_quote else [c]) s) @ [CHR 0x27]"
  by (simp add: shell_quote_def sq_def replace_all_byte)

lemma sh_words_quoted:
  "args \<noteq> [] \<Longrightarrow> length args \<le> n \<Longrightarrow> sh_words n (join '' '' (map shell_quote args)) = Some args"
proof (induction args arbitrary: n)
  case (Cons a args)
  then obtain m where n: "n = Suc m" by (cases n) auto
  show ?case
  proof (cases "args = []")
    case True
    then show ?thesis using sh_word_quoted_last [of a] by (simp add: n shell_quote_concat)
  next
    case False
    have "sh_word (shell_quote a @ '' '' @ join '' '' (map shell_quote args)) = Some (a, CHR '' '' # join '' '' (map shell_quote args))"
      using sh_word_quoted [of "CHR '' ''" a] by (simp add: shell_quote_concat word_end_def del: sh_word.simps)
    then show ?thesis using Cons False by (simp add: n join_Cons del: sh_word.simps)
  qed
qed simp

end
