(* ===== verification/Extend.thy ===== *)
theory Extend
  imports ImageMeta GoPath JsObject Shell
begin

text \<open>
  \<open>internal/imagemeta/extend.go\<close>: the Dockerfile that installs Features on an image, and the env files and
  the install script it runs. \<open>ft\<close> is the text of a float64 in JSON, \<open>fixed\<close> the one
  \<open>strconv.FormatFloat(x, 'f', -1, 64)\<close> gives.
\<close>

subsection \<open>Names\<close>

definition line_feed :: string where
  "line_feed = [CHR 0x0A]"

definition temp_dest_folder :: string where
  "temp_dest_folder = ''/tmp/dev-container-features''"

definition builtin_env_file :: string where
  "builtin_env_file = ''devcontainer-features.builtin.env''"

definition feature_env_file :: string where
  "feature_env_file = ''devcontainer-features.env''"

definition install_wrapper_file :: string where
  "install_wrapper_file = ''devcontainer-features-install.sh''"

definition feature_content_image :: string where
  "feature_content_image = ''dev_container_feature_content_temp''"

record build_info =
  bi_prefix :: string
  bi_content :: string
  bi_override_target :: string
  bi_build_args :: "string gomap"
  bi_contexts :: "string gomap"
  bi_dst_folder :: string

record build_params =
  bp_base_name :: string
  bp_feature_sets :: "feature_set list"
  bp_metadata :: "entry list"
  bp_container_user :: string
  bp_remote_user :: string
  bp_image_user :: string
  bp_use_contexts :: bool
  bp_syntax :: string
  bp_config_env :: "string gomap"
  bp_secret_ids :: "string list"

subsection \<open>Escapes\<close>

text \<open>A backslash before every character of \<open>special\<close>, rune by rune.\<close>

definition backslash_escape :: "string \<Rightarrow> string \<Rightarrow> string" where
  "backslash_escape s special =
     concat (map (\<lambda>r. (if r \<in> set (runes special) then [CHR 0x5C] else []) @ encode_rune r) (runes s))"

definition dollar_quote_backslash :: string where
  "dollar_quote_backslash = [CHR 0x22, CHR 0x5C, CHR ''$'']"

definition generate_container_envs :: "string gomap \<Rightarrow> bool \<Rightarrow> string" where
  "generate_container_envs env escape_dollar =
     (if env = [] then []
      else (let special = (if escape_dollar then dollar_quote_backslash else [CHR 0x22, CHR 0x5C])
            in join line_feed (map (\<lambda>k. ''ENV '' @ k @ ''='' @ dq
                 @ backslash_escape (case map_of env k of Some v \<Rightarrow> v | None \<Rightarrow> []) special @ dq) (sorted_keys env))))"

definition devcontainer_metadata_label :: "(rat \<Rightarrow> string) \<Rightarrow> entry list \<Rightarrow> string" where
  "devcontainer_metadata_label ft entries =
     (let es = non_empty_entries ft entries
      in if es = [] then []
         else ''LABEL devcontainer.metadata='' @ dq @ ''[''
           @ join '','' (map (\<lambda>e. '' '' @ [CHR 0x5C] @ line_feed @ backslash_escape (marshal_entry False ft e) dollar_quote_backslash) es)
           @ '' '' @ [CHR 0x5C] @ line_feed @ '']'' @ dq)"

text \<open>\<open>ReplaceAllString\<close> of a class of ASCII characters by a backslash and the match.\<close>

definition escape_class :: "char set \<Rightarrow> string \<Rightarrow> string" where
  "escape_class cs s = concat (map (\<lambda>c. if c \<in> cs then [CHR 0x5C, c] else [c]) s)"

definition reg_exp_special :: "char set" where
  "reg_exp_special = set (''[.*+?^${}()|]'' @ [CHR 0x5C])"

definition escaped_for_shell :: "string \<Rightarrow> string" where
  "escaped_for_shell u = escape_class {CHR 0x27, CHR 0x5C} u"

definition get_ent_passwd_shell_command :: "string \<Rightarrow> string" where
  "get_ent_passwd_shell_command u =
     (let re = replace_all (escape_class reg_exp_special u) sq [CHR 0x5C, CHR 0x27]
      in '' (command -v getent >/dev/null 2>&1 && getent passwd '' @ sq @ escaped_for_shell u @ sq
         @ '' || grep -E '' @ sq @ ''^'' @ re @ ''|^[^:]*:[^:]*:'' @ re @ '':'' @ sq @ '' /etc/passwd || true)'')"

definition features_builtin_env_content :: "string \<Rightarrow> string \<Rightarrow> string" where
  "features_builtin_env_content container_user remote_user =
     ''_CONTAINER_USER='' @ container_user @ line_feed @ ''_REMOTE_USER='' @ remote_user @ line_feed"

subsection \<open>The label-only build of a compose service\<close>

definition generate_compose_label_build :: "(rat \<Rightarrow> string) \<Rightarrow> string \<Rightarrow> entry list \<Rightarrow> string \<Rightarrow> build_info" where
  "generate_compose_label_build ft base_name metadata syntax =
     \<lparr>bi_prefix = (if syntax \<noteq> [] then ''# syntax='' @ syntax else [])
        @ line_feed @ ''    ARG _DEV_CONTAINERS_BASE_IMAGE=scratch'' @ line_feed,
      bi_content = line_feed @ ''FROM $_DEV_CONTAINERS_BASE_IMAGE AS dev_containers_target_stage'' @ line_feed
        @ devcontainer_metadata_label ft metadata @ line_feed,
      bi_override_target = ''dev_containers_target_stage'',
      bi_build_args = [(''_DEV_CONTAINERS_BASE_IMAGE'', base_name)],
      bi_contexts = [],
      bi_dst_folder = []\<rparr>"

subsection \<open>The Feature layers\<close>

definition lines_text :: "string list \<Rightarrow> string" where
  "lines_text ls = concat (map (\<lambda>l. l @ line_feed) ls)"

definition home_lookup :: "string \<Rightarrow> string \<Rightarrow> string" where
  "home_lookup var user =
     ''echo '' @ dq @ var @ ''=$('' @ get_ent_passwd_shell_command user @ '' | cut -d: -f6)'' @ dq
     @ '' >> '' @ path_join [temp_dest_folder, builtin_env_file]"

definition secret_mounts :: "string list \<Rightarrow> string" where
  "secret_mounts ids = concat (map (\<lambda>i. '' --mount=type=secret,id='' @ i) ids)"

definition copy_layer :: "string \<Rightarrow> string \<Rightarrow> string \<Rightarrow> string" where
  "copy_layer mounts source dest =
     (let run_mounts = (if mounts \<noteq> [] then trim_prefix mounts '' '' @ '' '' else [])
      in lines_text
           [[], ''COPY --chown=root:root --from=dev_containers_feature_content_source '' @ source @ '' '' @ dest,
            ''RUN '' @ run_mounts @ ''chmod -R 0755 '' @ dest @ '' '' @ [CHR 0x5C],
            ''&& cd '' @ dest @ '' '' @ [CHR 0x5C],
            ''&& chmod +x ./'' @ install_wrapper_file @ '' '' @ [CHR 0x5C],
            ''&& ./'' @ install_wrapper_file, []])"

definition bind_layer :: "string \<Rightarrow> string \<Rightarrow> string \<Rightarrow> string \<Rightarrow> string" where
  "bind_layer mounts source consecutive dest =
     lines_text
       [[], ''RUN --mount=type=bind,from=dev_containers_feature_content_source,source='' @ source
          @ '',target=/tmp/build-features-src/'' @ consecutive @ mounts @ '' '' @ [CHR 0x5C],
        ''    cp -ar /tmp/build-features-src/'' @ consecutive @ '' '' @ temp_dest_folder @ '' '' @ [CHR 0x5C],
        '' && chmod -R 0755 '' @ dest @ '' '' @ [CHR 0x5C],
        '' && cd '' @ dest @ '' '' @ [CHR 0x5C],
        '' && chmod +x ./'' @ install_wrapper_file @ '' '' @ [CHR 0x5C],
        '' && ./'' @ install_wrapper_file @ '' '' @ [CHR 0x5C],
        '' && rm -rf '' @ dest, []]"

definition feature_layer :: "build_params \<Rightarrow> string \<Rightarrow> feature \<Rightarrow> string" where
  "feature_layer p src f =
     generate_container_envs (feat_container_env f) False
     @ (let source = path_join [src, consecutive_id f]; dest = path_join [temp_dest_folder, consecutive_id f];
            mounts = secret_mounts (bp_secret_ids p)
        in if \<not> bp_use_contexts p then copy_layer mounts source dest
           else bind_layer mounts source (consecutive_id f) dest)"

definition feature_layers :: "build_params \<Rightarrow> string \<Rightarrow> string" where
  "feature_layers p src =
     ''RUN '' @ [CHR 0x5C] @ line_feed
     @ home_lookup ''_CONTAINER_USER_HOME'' (bp_container_user p) @ '' && '' @ [CHR 0x5C] @ line_feed
     @ home_lookup ''_REMOTE_USER_HOME'' (bp_remote_user p) @ line_feed @ line_feed
     @ concat (map (\<lambda>s. concat (map (feature_layer p src) (set_features s))) (bp_feature_sets p))"

text \<open>\<open>strings.NewReplacer\<close>: at each place the first old string that is there is replaced.\<close>

function replacer :: "(string \<times> string) list \<Rightarrow> string \<Rightarrow> string" where
  "replacer ps [] = []"
| "replacer ps (c # s) =
     (case find (\<lambda>(old, new). old \<noteq> [] \<and> has_prefix (c # s) old) ps of
        Some (old, new) \<Rightarrow> new @ replacer ps (drop (length old - 1) s)
      | None \<Rightarrow> c # replacer ps s)"
  by pat_completeness auto
termination
  by (relation "measure (length \<circ> snd)") (auto simp: less_Suc_eq_le)

definition base_dockerfile :: string where
  "base_dockerfile = lines_text
     [[], [],
      ''#{nonBuildKitFeatureContentFallback}'', [],
      ''ARG _DEV_CONTAINERS_BASE_IMAGE=scratch'', [],
      ''FROM $_DEV_CONTAINERS_BASE_IMAGE AS dev_containers_feature_content_normalize'',
      ''USER root'',
      ''COPY --from=dev_containers_feature_content_source #{builtinEnvSource} /tmp/build-features/'',
      ''RUN chmod -R 0755 /tmp/build-features/'', [],
      ''FROM $_DEV_CONTAINERS_BASE_IMAGE AS dev_containers_target_stage'', [],
      ''USER root'', [],
      ''RUN mkdir -p '' @ temp_dest_folder,
      ''COPY --from=dev_containers_feature_content_normalize /tmp/build-features/ '' @ temp_dest_folder, [],
      ''#{featureLayer}'', [],
      ''#{containerEnv}'', [],
      ''ARG _DEV_CONTAINERS_IMAGE_USER=root'',
      ''USER $_DEV_CONTAINERS_IMAGE_USER'', [],
      ''#{devcontainerMetadata}'', [],
      ''#{containerEnvMetadata}'']"

definition content_root :: "build_params \<Rightarrow> string" where
  "content_root p = (if bp_use_contexts p then ''.'' else ''/tmp/build-features/'')"

definition dockerfile_parts :: "(rat \<Rightarrow> string) \<Rightarrow> build_params \<Rightarrow> (string \<times> string) list" where
  "dockerfile_parts ft p =
     [(''#{nonBuildKitFeatureContentFallback}'',
       if bp_use_contexts p then [] else ''FROM '' @ feature_content_image @ '' as dev_containers_feature_content_source''),
      (''#{builtinEnvSource}'', path_join [content_root p, builtin_env_file]),
      (''#{featureLayer}'', feature_layers p (content_root p)),
      (''#{containerEnv}'', []),
      (''#{devcontainerMetadata}'', devcontainer_metadata_label ft (bp_metadata p)),
      (''#{containerEnvMetadata}'', generate_container_envs (bp_config_env p) True)]"

definition generate_features_build_options :: "(rat \<Rightarrow> string) \<Rightarrow> build_params \<Rightarrow> build_info" where
  "generate_features_build_options ft p =
     \<lparr>bi_prefix = (if bp_syntax p \<noteq> [] then ''# syntax='' @ bp_syntax p else [])
        @ line_feed @ ''ARG _DEV_CONTAINERS_BASE_IMAGE=scratch'' @ line_feed,
      bi_content = replacer (dockerfile_parts ft p) base_dockerfile,
      bi_override_target = ''dev_containers_target_stage'',
      bi_build_args = [(''_DEV_CONTAINERS_BASE_IMAGE'', bp_base_name p),
        (''_DEV_CONTAINERS_IMAGE_USER'', if bp_image_user p = [] then ''root'' else bp_image_user p),
        (''_DEV_CONTAINERS_FEATURE_CONTENT_SOURCE'', feature_content_image)],
      bi_contexts = (if bp_use_contexts p then [(''dev_containers_feature_content_source'', ''.'')] else []),
      bi_dst_folder = []\<rparr>"

subsection \<open>The options of a Feature\<close>

record feature_file_info =
  option_order :: "string list"
  fi_deprecated :: bool
  fi_current_id :: string

text \<open>What \<open>encoding/json\<close> decodes of the document: the keys of \<open>options\<close> as listed, \<open>None\<close> when it is
  absent or no object, and the two other properties.\<close>

record raw_file_info =
  raw_option_keys :: "string list option"
  raw_deprecated :: bool
  raw_current_id :: string

definition parse_feature_file_info :: "(string \<Rightarrow> raw_file_info option) \<Rightarrow> string \<Rightarrow> feature_file_info option" where
  "parse_feature_file_info decode data =
     map_option (\<lambda>r. \<lparr>option_order = (case raw_option_keys r of None \<Rightarrow> []
           | Some ks \<Rightarrow> foldl (\<lambda>out k. if k \<in> set out then out else out @ [k]) [] ks),
        fi_deprecated = raw_deprecated r, fi_current_id = raw_current_id r\<rparr>) (decode data)"

text \<open>The value object: defaults in the order of the options, then the user's values, sorted.\<close>

definition option_key_order :: "feature \<Rightarrow> feature_file_info \<Rightarrow> string list" where
  "option_key_order f info =
     option_order info @ filter (\<lambda>k. k \<notin> set (option_order info)) (sorted_keys (feat_options f))"

definition option_default :: "feature \<Rightarrow> string \<Rightarrow> json option" where
  "option_default f k =
     (case map_of (feat_options f) k of
        Some (JObj opt) \<Rightarrow> map_of opt ''default''
      | _ \<Rightarrow> None)"

definition feature_value_object :: "feature \<Rightarrow> feature_file_info \<Rightarrow> json gomap" where
  "feature_value_object f info =
     (let defaults = foldl (\<lambda>m k. case option_default f k of None \<Rightarrow> m | Some d \<Rightarrow> aput k d m) [] (option_key_order f info)
      in case feat_value f of
           JObj v \<Rightarrow> foldl (\<lambda>m k. aput k (the (map_of v k)) m) defaults (sorted_keys v)
         | JNull \<Rightarrow> defaults
         | v \<Rightarrow> if map_of (feat_options f) ''version'' \<noteq> None then aput ''version'' v defaults else defaults)"

fun js_text :: "(rat \<Rightarrow> string) \<Rightarrow> json \<Rightarrow> string" where
  "js_text fixed JNull = ''null''"
| "js_text fixed (JStr s) = s"
| "js_text fixed (JBool b) = (if b then ''true'' else ''false'')"
| "js_text fixed (JNum q) = fixed q"
| "js_text fixed (JArr vs) = join '','' (map (\<lambda>v. if v = JNull then [] else js_text fixed v) vs)"
| "js_text fixed (JObj m) = ''[object Object]''"

text \<open>\<open>safeID\<close>: a rune outside the BMP is two UTF-16 units.\<close>

definition word_char :: "char \<Rightarrow> bool" where
  "word_char c \<longleftrightarrow> c = CHR ''_'' \<or> is_lower c \<or> is_upper c \<or> is_digit c"

definition safe_rune :: "nat \<Rightarrow> string" where
  "safe_rune r =
     (if r < 0x80 then if word_char (char_of r) then [char_of r] else ''_''
      else if r > 0xFFFF then ''__'' else ''_'')"

definition safe_id :: "string \<Rightarrow> string" where
  "safe_id s =
     (let result = concat (map safe_rune (runes s));
          rest = dropWhile (\<lambda>c. c = CHR ''_'' \<or> is_digit c) result;
          collapsed = (if length rest < length result then CHR ''_'' # rest else result)
      in map upper_char collapsed)"

definition feature_env_variables :: "(rat \<Rightarrow> string) \<Rightarrow> feature \<Rightarrow> feature_file_info \<Rightarrow> string list" where
  "feature_env_variables fixed f info =
     map (\<lambda>(k, v). safe_id k @ ''='' @ dq @ js_text fixed v @ dq) (feature_value_object f info)"

subsection \<open>The install script\<close>

definition escape_quotes_for_shell :: "string \<Rightarrow> string" where
  "escape_quotes_for_shell s = replace_all s sq (sq @ [CHR 0x5C] @ sq @ sq)"

definition warning_header :: "feature \<Rightarrow> feature_file_info \<Rightarrow> string" where
  "warning_header f info =
     (if fi_deprecated info
      then ''(!) WARNING: Using the deprecated Feature '' @ dq @ escape_quotes_for_shell (feat_id f) @ dq
        @ ''. This Feature will no longer receive any further updates/support.'' @ line_feed
      else [])
     @ (if legacy_ids f \<noteq> [] \<and> fi_current_id info \<noteq> [] \<and> feat_id f \<noteq> fi_current_id info
        then ''(!) WARNING: This feature has been renamed. Please update the reference in devcontainer.json to ''
          @ dq @ escape_quotes_for_shell (fi_current_id info) @ dq @ ''.''
        else [])"

definition wrapper_id :: "source_info option \<Rightarrow> string" where
  "wrapper_id src =
     (case src of Some (OCI s) \<Rightarrow>
          if oci_user_id_without_version s \<noteq> [] then oci_user_id_without_version s else ''Unknown''
      | _ \<Rightarrow> ''Unknown'')"

definition banner_line :: string where
  "banner_line = ''echo ==========================================================================='' "

definition error_line :: "string \<Rightarrow> string \<Rightarrow> string \<Rightarrow> string" where
  "error_line name ident documentation =
     ''ERROR: Feature '' @ dq @ name @ dq @ '' ('' @ ident @ '') failed to install!''
     @ (if documentation \<noteq> [] then '' Look at the documentation at '' @ documentation @ '' for help troubleshooting this error.''
        else [])"

definition quoted_echo :: "string \<Rightarrow> string" where
  "quoted_echo escaped = ''echo '' @ sq @ escaped @ sq"

definition feature_install_wrapper_script ::
  "full_feature \<Rightarrow> source_info option \<Rightarrow> feature_file_info \<Rightarrow> string list \<Rightarrow> string" where
  "feature_install_wrapper_script f src info options =
     (let ident = escape_quotes_for_shell (wrapper_id src);
          name = escape_quotes_for_shell (if feat_name f = [] then ''Unknown'' else feat_name f);
          description = escape_quotes_for_shell (feat_description f);
          version = escape_quotes_for_shell (feat_version f);
          documentation = escape_quotes_for_shell (feat_documentation_url f);
          options_indented = escape_quotes_for_shell (join line_feed (map (\<lambda>x. ''    '' @ x) options));
          header = warning_header (feature.truncate f) info
      in lines_text
           [''#!/bin/sh'', ''set -e'', [],
            ''on_exit () {'',
            CHR 0x09 # ''[ $? -eq 0 ] && exit'',
            CHR 0x09 # quoted_echo (error_line name ident documentation),
            ''}'', [],
            ''trap on_exit EXIT'', [],
            banner_line,
            (if header \<noteq> [] then quoted_echo header else []),
            quoted_echo (''Feature       : '' @ name),
            quoted_echo (''Description   : '' @ description),
            quoted_echo (''Id            : '' @ ident),
            quoted_echo (''Version       : '' @ version),
            quoted_echo (''Documentation : '' @ documentation),
            quoted_echo ''Options       :'',
            quoted_echo options_indented,
            banner_line, [],
            ''set -a'',
            ''. ../'' @ builtin_env_file,
            ''. ./'' @ feature_env_file,
            ''set +a'', [],
            ''chmod +x ./install.sh'',
            ''./install.sh''])"

subsection \<open>Environment names\<close>

lemma safe_rune_shape: "safe_rune r \<noteq> [] \<and> list_all word_char (safe_rune r)"
  by (auto simp: safe_rune_def word_char_def)

lemma upper_word: "word_char c \<Longrightarrow> upper_char c = CHR ''_'' \<or> is_upper (upper_char c) \<or> is_digit (upper_char c)"
  by (auto simp: word_char_def upper_char_def is_lower_def is_upper_def is_digit_def bval_def)

lemma upper_not_digit: "word_char c \<Longrightarrow> \<not> is_digit c \<Longrightarrow> upper_char c = CHR ''_'' \<or> is_upper (upper_char c)"
  by (auto simp: word_char_def upper_char_def is_lower_def is_upper_def is_digit_def bval_def)

lemma safe_result: "list_all word_char (concat (map safe_rune rs)) \<and> (concat (map safe_rune rs) = [] \<longleftrightarrow> rs = [])"
  by (induction rs) (use safe_rune_shape in auto)

text \<open>Every option's name, whatever its characters, becomes a name a shell accepts for a variable: upper-case
  letters, digits and underscores with no digit first. Only the empty name stays empty.\<close>

theorem safe_id_identifier:
  "case safe_id s of [] \<Rightarrow> s = []
   | c # cs \<Rightarrow> (c = CHR ''_'' \<or> is_upper c) \<and> list_all (\<lambda>d. d = CHR ''_'' \<or> is_upper d \<or> is_digit d) cs"
proof -
  define result where "result = concat (map safe_rune (runes s))"
  define rest where "rest = dropWhile (\<lambda>c. c = CHR ''_'' \<or> is_digit c) result"
  have w: "list_all word_char result" and n: "result = [] \<longleftrightarrow> s = []"
    using safe_result [of "runes s"] by (auto simp: result_def)
  have u: "list_all (\<lambda>d. d = CHR ''_'' \<or> is_upper d \<or> is_digit d) (map upper_char xs)" if "list_all word_char xs" for xs
    using that upper_word by (auto simp: list_all_iff)
  have wr: "list_all word_char rest" using w by (auto simp: rest_def list_all_iff dest: set_dropWhileD)
  show ?thesis
  proof (cases "length rest < length result")
    case True
    then have "safe_id s = upper_char CHR ''_'' # map upper_char rest"
      by (simp add: safe_id_def Let_def flip: result_def rest_def)
    then show ?thesis using u [OF wr] by (simp add: upper_char_def is_lower_def bval_def)
  next
    case False
    then have id: "safe_id s = map upper_char result" by (simp add: safe_id_def Let_def flip: result_def rest_def)
    show ?thesis
    proof (cases result)
      case Nil
      then show ?thesis using id n by simp
    next
      case (Cons c cs)
      have "\<not> (c = CHR ''_'' \<or> is_digit c)"
      proof
        assume "c = CHR ''_'' \<or> is_digit c"
        then have "rest = dropWhile (\<lambda>c. c = CHR ''_'' \<or> is_digit c) cs" using Cons by (simp add: rest_def)
        then have "length rest \<le> length cs" by (simp add: length_dropWhile_le)
        then show False using False Cons by simp
      qed
      then show ?thesis using id Cons w u [of cs] upper_not_digit [of c] by simp
    qed
  qed
qed

subsection \<open>What the install script prints\<close>

lemma escape_quotes_concat: "escape_quotes_for_shell s = concat (map (\<lambda>c. if c = CHR 0x27 then backslash_quote else [c]) s)"
  unfolding escape_quotes_for_shell_def sq_def replace_all_byte backslash_quote_def append_Cons append_Nil by simp


text \<open>The script by intention: commands as written, and texts to print.\<close>

datatype script_line = Cmd string | Echo string string

fun render_line :: "script_line \<Rightarrow> string" where
  "render_line (Cmd l) = l"
| "render_line (Echo pad t) = pad @ ''echo '' @ sq @ escape_quotes_for_shell t @ sq"

definition warning_text :: "feature \<Rightarrow> feature_file_info \<Rightarrow> string" where
  "warning_text f info =
     (if fi_deprecated info
      then ''(!) WARNING: Using the deprecated Feature '' @ dq @ feat_id f @ dq
        @ ''. This Feature will no longer receive any further updates/support.'' @ line_feed
      else [])
     @ (if legacy_ids f \<noteq> [] \<and> fi_current_id info \<noteq> [] \<and> feat_id f \<noteq> fi_current_id info
        then ''(!) WARNING: This feature has been renamed. Please update the reference in devcontainer.json to ''
          @ dq @ fi_current_id info @ dq @ ''.''
        else [])"

definition script_plan :: "full_feature \<Rightarrow> source_info option \<Rightarrow> feature_file_info \<Rightarrow> string list \<Rightarrow> script_line list" where
  "script_plan f src info options =
     (let name = (if feat_name f = [] then ''Unknown'' else feat_name f);
          warning = warning_text (feature.truncate f) info
      in [Cmd ''#!/bin/sh'', Cmd ''set -e'', Cmd [],
          Cmd ''on_exit () {'',
          Cmd (CHR 0x09 # ''[ $? -eq 0 ] && exit''),
          Echo [CHR 0x09] (error_line name (wrapper_id src) (feat_documentation_url f)),
          Cmd ''}'', Cmd [],
          Cmd ''trap on_exit EXIT'', Cmd [],
          Cmd banner_line,
          (if warning \<noteq> [] then Echo [] warning else Cmd []),
          Echo [] (''Feature       : '' @ name),
          Echo [] (''Description   : '' @ feat_description f),
          Echo [] (''Id            : '' @ wrapper_id src),
          Echo [] (''Version       : '' @ feat_version f),
          Echo [] (''Documentation : '' @ feat_documentation_url f),
          Echo [] ''Options       :'',
          Echo [] (join line_feed (map (\<lambda>x. ''    '' @ x) options)),
          Cmd banner_line, Cmd [],
          Cmd ''set -a'',
          Cmd (''. ../'' @ builtin_env_file),
          Cmd (''. ./'' @ feature_env_file),
          Cmd ''set +a'', Cmd [],
          Cmd ''chmod +x ./install.sh'',
          Cmd ''./install.sh''])"

lemma escape_append: "escape_quotes_for_shell (s @ t) = escape_quotes_for_shell s @ escape_quotes_for_shell t"
  by (simp add: escape_quotes_concat)

lemma escape_plain: "CHR 0x27 \<notin> set s \<Longrightarrow> escape_quotes_for_shell s = s"
  by (induction s) (auto simp: escape_quotes_concat)

lemma escape_nil: "escape_quotes_for_shell s = [] \<longleftrightarrow> s = []"
  by (cases s) (auto simp: escape_quotes_concat backslash_quote_def)

lemma escape_warning: "escape_quotes_for_shell (warning_text f info) = warning_header f info"
  by (simp add: warning_text_def warning_header_def escape_append escape_plain dq_def line_feed_def
      del: append_Cons)

lemma escape_error:
  "escape_quotes_for_shell (error_line name ident doc) =
   error_line (escape_quotes_for_shell name) (escape_quotes_for_shell ident) (escape_quotes_for_shell doc)"
  by (simp add: error_line_def escape_append escape_plain escape_nil dq_def del: append_Cons)

lemma escape_label:
  "escape_quotes_for_shell (''Feature       : '' @ t) = ''Feature       : '' @ escape_quotes_for_shell t"
  "escape_quotes_for_shell (''Description   : '' @ t) = ''Description   : '' @ escape_quotes_for_shell t"
  "escape_quotes_for_shell (''Id            : '' @ t) = ''Id            : '' @ escape_quotes_for_shell t"
  "escape_quotes_for_shell (''Version       : '' @ t) = ''Version       : '' @ escape_quotes_for_shell t"
  "escape_quotes_for_shell (''Documentation : '' @ t) = ''Documentation : '' @ escape_quotes_for_shell t"
  by (simp_all add: escape_append escape_plain del: append_Cons)

lemma escape_unknown: "escape_quotes_for_shell ''Unknown'' = ''Unknown''" "escape_quotes_for_shell ''Options       :'' = ''Options       :''"
  by (simp_all add: escape_plain)

lemma script_plan_renders:
  "feature_install_wrapper_script f src info options = lines_text (map render_line (script_plan f src info options))"
proof -
  have w: "warning_header (feature.truncate f) info = [] \<longleftrightarrow> warning_text (feature.truncate f) info = []"
    using escape_warning [of "feature.truncate f" info] escape_nil by metis
  show ?thesis
    unfolding feature_install_wrapper_script_def script_plan_def Let_def
    by (simp add: quoted_echo_def escape_error escape_label escape_unknown escape_warning w if_distrib [of escape_quotes_for_shell]
        append_Cons [of "CHR 0x09" "[]"] del: append_Cons append_assoc)
qed

text \<open>
  The shell's reading of a script of this kind, line by line: an \<open>echo\<close> of a quoted word, read as
  \<open>Shell\<close> reads words, whose text may go over several lines and which must end its line; any other line is a
  command taken as it stands, which must hold no quoting and no here-document.
\<close>

function read_script :: "string \<Rightarrow> script_line list option" where
  "read_script s =
     (if s = [] then Some []
      else let b = dropWhile (\<lambda>c. c = CHR 0x09) s in
        if has_prefix b (''echo '' @ sq) then
          (case sh_word (drop 5 b) of
             Some (t, c # r) \<Rightarrow>
               if c = CHR 0x0A then map_option ((#) (Echo (takeWhile (\<lambda>c. c = CHR 0x09) s) t)) (read_script r) else None
           | _ \<Rightarrow> None)
        else (case cut_byte CHR 0x0A s of (l, r, found) \<Rightarrow>
          if found \<and> set l \<inter> {CHR 0x27, CHR 0x22, CHR 0x60, CHR 0x5C, CHR ''<''} = {} then map_option ((#) (Cmd l)) (read_script r)
          else None))"
  by pat_completeness auto
termination
proof (relation "measure length")
  fix s b x2 t xs c r
  assume "b = dropWhile (\<lambda>c. c = CHR 0x09) s" "sh_word (drop 5 b) = Some x2" "(t, xs) = x2" "xs = c # r"
  then have "length (c # r) \<le> length (drop 5 b)" "length b \<le> length s"
    by (auto dest: sh_word_rest simp: length_dropWhile_le)
  then show "(r, s) \<in> measure length" by simp
next
  fix s l y r found
  assume "(l, y) = cut_byte CHR 0x0A s" "(r, found) = y" "found \<and> set l \<inter> {CHR 0x27, CHR 0x22, CHR 0x60, CHR 0x5C, CHR ''<''} = {}"
  then have "cut_byte CHR 0x0A s = (l, r, True)" by simp
  then show "(r, s) \<in> measure length" unfolding cut_byte_found by auto
qed simp

declare read_script.simps [simp del]

fun clear_line :: "script_line \<Rightarrow> bool" where
  "clear_line (Cmd l) \<longleftrightarrow> set l \<inter> {CHR 0x0A, CHR 0x27, CHR 0x22, CHR 0x60, CHR 0x5C, CHR ''<''} = {}"
| "clear_line (Echo pad t) \<longleftrightarrow> set pad \<subseteq> {CHR 0x09}"

lemma prefix_of_line:
  assumes "has_prefix (l @ CHR 0x0A # r) p" "CHR 0x0A \<notin> set p"
  shows "has_prefix l p"
proof -
  obtain q where "l @ CHR 0x0A # r = p @ q" using assms(1) by (auto simp: has_prefix_iff)
  then obtain us where "l = p @ us \<or> l @ us = p \<and> CHR 0x0A # r = us @ q" unfolding append_eq_append_conv2 by blast
  then show ?thesis using assms(2) by (cases us) (auto simp: has_prefix_iff)
qed

lemma read_command:
  assumes "clear_line (Cmd l)"
  shows "read_script (l @ line_feed @ r) = map_option ((#) (Cmd l)) (read_script r)"
proof -
  have d: "dropWhile (\<lambda>c. c = CHR 0x09) (l @ CHR 0x0A # r) = dropWhile (\<lambda>c. c = CHR 0x09) l @ CHR 0x0A # r" for l
    by (induction l) auto
  have "\<not> has_prefix (dropWhile (\<lambda>c. c = CHR 0x09) (l @ CHR 0x0A # r)) (''echo '' @ sq)"
  proof
    assume "has_prefix (dropWhile (\<lambda>c. c = CHR 0x09) (l @ CHR 0x0A # r)) (''echo '' @ sq)"
    then have "has_prefix (dropWhile (\<lambda>c. c = CHR 0x09) l) (''echo '' @ sq)"
      unfolding d by (rule prefix_of_line) (simp add: sq_def)
    then obtain x where x: "dropWhile (\<lambda>c. c = CHR 0x09) l = (''echo '' @ sq) @ x" unfolding has_prefix_iff by blast
    have "CHR 0x27 \<in> set (dropWhile (\<lambda>c. c = CHR 0x09) l)" unfolding x by (simp add: sq_def)
    then have "CHR 0x27 \<in> set l" by (rule set_dropWhileD)
    then show False using assms by simp
  qed
  moreover have "cut_byte CHR 0x0A (l @ CHR 0x0A # r) = (l, r, True)" using assms by (simp add: cut_byte_found)
  ultimately show ?thesis using assms by (simp add: read_script.simps [of "l @ CHR 0x0A # r"] line_feed_def Let_def)
qed

lemma read_echo:
  assumes "clear_line (Echo pad t)"
  shows "read_script (render_line (Echo pad t) @ line_feed @ r) = map_option ((#) (Echo pad t)) (read_script r)"
proof -
  let ?e = "''echo '' @ sq @ escape_quotes_for_shell t @ sq @ line_feed @ r"
  have p: "dropWhile (\<lambda>c. c = CHR 0x09) (pad @ ?e) = ?e" "takeWhile (\<lambda>c. c = CHR 0x09) (pad @ ?e) = pad"
    using assms by (auto simp: dropWhile_append takeWhile_append subset_iff)
  have w: "sh_word (sq @ escape_quotes_for_shell t @ sq @ line_feed @ r) = Some (t, line_feed @ r)"
    using sh_word_quoted [of "CHR 0x0A" t r] by (simp add: sq_def line_feed_def escape_quotes_concat word_end_def del: sh_word.simps)
  have h: "has_prefix ?e (''echo '' @ sq)" "drop 5 ?e = sq @ escape_quotes_for_shell t @ sq @ line_feed @ r"
    by (simp_all add: has_prefix_iff sq_def)
  have "render_line (Echo pad t) @ line_feed @ r = pad @ ?e" by simp
  then show ?thesis
    by (simp only: read_script.simps [of "pad @ ?e"] Let_def p h w) (simp add: line_feed_def)
qed

lemma read_lines: "\<forall>l\<in>set ls. clear_line l \<Longrightarrow> read_script (lines_text (map render_line ls)) = Some ls"
proof (induction ls)
  case Nil
  then show ?case by (simp add: lines_text_def read_script.simps [of "[]"])
next
  case (Cons l ls)
  have "lines_text (map render_line (l # ls)) = render_line l @ line_feed @ lines_text (map render_line ls)"
    by (simp add: lines_text_def)
  then show ?case using Cons read_command read_echo by (cases l) simp_all
qed

text \<open>C26. The install script, as the shell reads it, is its plan, whatever a Feature's id, name, description,
  version, documentation URL, options and renaming contain: each of these texts is the argument of an
  \<open>echo\<close>, as one word and unchanged, and the commands besides are the fixed ones of the plan, so the script's
  own text runs nothing of them. The env files and the \<open>install.sh\<close> that two of these commands source and
  run are not part of the script's text.\<close>

theorem install_script_prints:
  "read_script (feature_install_wrapper_script f src info options) = Some (script_plan f src info options)"
  unfolding script_plan_renders
proof (rule read_lines)
  show "\<forall>l\<in>set (script_plan f src info options). clear_line l"
    unfolding script_plan_def Let_def banner_line_def builtin_env_file_def feature_env_file_def by simp
qed

text \<open>The env file is another matter: an option's value is written between double quotes as it is, so a default
  with a command substitution is expanded when the script sources the file. The shell's reader of literal
  words refuses it.\<close>

lemma option_value_expanded:
  "feature_env_variables fixed ((blank_feature ''f'')\<lparr>feat_options := [(''k'', JObj [(''default'', JStr ''$(id)'')])]\<rparr>)
     \<lparr>option_order = [''k''], fi_deprecated = False, fi_current_id = []\<rparr> = [''K='' @ dq @ ''$(id)'' @ dq]"
  "sh_word (''K='' @ dq @ ''$(id)'' @ dq) = None"
proof -
  have i: "safe_id ''k'' = ''K''" by code_simp
  show "feature_env_variables fixed ((blank_feature ''f'')\<lparr>feat_options := [(''k'', JObj [(''default'', JStr ''$(id)'')])]\<rparr>)
     \<lparr>option_order = [''k''], fi_deprecated = False, fi_current_id = []\<rparr> = [''K='' @ dq @ ''$(id)'' @ dq]"
    by (simp add: feature_env_variables_def feature_value_object_def option_key_order_def option_default_def
        blank_feature_def i sorted_keys_def)
  show "sh_word (''K='' @ dq @ ''$(id)'' @ dq) = None" by code_simp
qed

text \<open>A user name with a quote is not one word for the shell: \<open>\'\<close> ends the quotes.\<close>

lemma getent_quote_lost:
  "sh_word (sq @ escaped_for_shell [CHR ''o'', CHR 0x27, CHR ''b''] @ sq @ '' |'') = None"
  by code_simp

subsection \<open>What the Dockerfile reads\<close>

text \<open>
  The Dockerfile frontend is not part of the program: its reading of one line is the argument \<open>rd\<close>. What is
  documented of it: in \<open>ENV name="..."\<close> a backslash before a double quote, a dollar or a backslash stands for
  that character, any other byte for itself; a dollar without a backslash is a variable, and the
  instruction ends with its line. A unit is the text of one byte and that byte.
\<close>

definition quoted_unit :: "string \<times> char \<Rightarrow> bool" where
  "quoted_unit u \<longleftrightarrow>
     snd u \<in> {CHR 0x22, CHR 0x5C, CHR ''$''} \<and> fst u = [CHR 0x5C, snd u] \<or>
     snd u \<notin> {CHR 0x22, CHR 0x5C, CHR ''$'', CHR 0x0A} \<and> fst u = [snd u]"

definition env_name :: "string \<Rightarrow> bool" where
  "env_name k \<longleftrightarrow> k \<noteq> [] \<and> list_all word_char k"

definition documented_env_lines :: "(string \<Rightarrow> (string \<times> string) option) \<Rightarrow> bool" where
  "documented_env_lines rd \<longleftrightarrow> (\<forall>k us. env_name k \<and> list_all quoted_unit us \<and> utf8_ok (map snd us) \<longrightarrow>
     rd (''ENV '' @ k @ ''='' @ dq @ concat (map fst us) @ dq) = Some (k, map snd us))"

text \<open>The lines of a text, each read; an empty text has none.\<close>

fun read_all :: "('a \<Rightarrow> 'b option) \<Rightarrow> 'a list \<Rightarrow> 'b list option" where
  "read_all rd [] = Some []"
| "read_all rd (x # xs) = (case rd x of None \<Rightarrow> None | Some y \<Rightarrow> map_option ((#) y) (read_all rd xs))"

definition read_env_lines :: "(string \<Rightarrow> (string \<times> string) option) \<Rightarrow> string \<Rightarrow> (string \<times> string) list option" where
  "read_env_lines rd t = (if t = [] then Some [] else read_all rd (split_byte CHR 0x0A t))"

lemma read_all_map: "\<forall>x\<in>set xs. rd (f x) = Some (g x) \<Longrightarrow> read_all rd (map f xs) = Some (map g xs)"
  by (induction xs) auto

lemma encode_high:
  assumes "valid_rune r" and "\<not> r < 0x80" and "c \<in> set (encode_rune r)"
  shows "128 \<le> bval c"
  using assms unfolding encode_rune_def encode_valid_def valid_rune_def
  by (auto split: if_splits)

lemma high_plain: "128 \<le> bval c \<Longrightarrow> c \<notin> set dollar_quote_backslash"
  by (auto simp: dollar_quote_backslash_def bval_def)

lemma runes_special: "runes dollar_quote_backslash = [34, 92, 36]"
  by code_simp

lemma char_numbers: "char_of (34 :: nat) = CHR 0x22" "char_of (92 :: nat) = CHR 0x5C" "char_of (36 :: nat) = CHR ''$''"
  by (simp_all add: char_of_def bit_simps)

text \<open>The units of a rune, as the escape writes it.\<close>

definition rune_units :: "nat \<Rightarrow> (string \<times> char) list" where
  "rune_units r = (if r \<in> {34, 92, 36} then [([CHR 0x5C, char_of r], char_of r)] else map (\<lambda>c. ([c], c)) (encode_rune r))"

lemma rune_units_text:
  "concat (map fst (rune_units r)) = (if r \<in> {34, 92, 36} then [CHR 0x5C] else []) @ encode_rune r"
  "map snd (rune_units r) = encode_rune r"
proof -
  have "concat (map (\<lambda>c. [c]) s) = s" for s :: string by (induction s) auto
  then show "concat (map fst (rune_units r)) = (if r \<in> {34, 92, 36} then [CHR 0x5C] else []) @ encode_rune r"
    "map snd (rune_units r) = encode_rune r"
    by (auto simp: rune_units_def comp_def encode_rune_code)
qed

lemma rune_units_ok:
  assumes "valid_rune r" "CHR 0x0A \<notin> set (encode_rune r)"
  shows "list_all quoted_unit (rune_units r)"
proof (cases "r \<in> {34, 92, 36}")
  case True
  then show ?thesis by (auto simp: rune_units_def quoted_unit_def char_numbers)
next
  case False
  have "c \<notin> set dollar_quote_backslash" if "c \<in> set (encode_rune r)" for c
  proof (cases "r < 0x80")
    case True
    then have "c = char_of r" "bval c = r" using that by (simp_all add: encode_rune_code)
    moreover have "c \<in> set dollar_quote_backslash \<Longrightarrow> bval c \<in> {34, 92, 36}" by (auto simp: dollar_quote_backslash_def bval_def)
    ultimately show ?thesis using False by metis
  next
    case h: False
    then show ?thesis using encode_high [OF assms(1) h that] high_plain by blast
  qed
  then show ?thesis using False assms(2)
    by (auto simp: rune_units_def quoted_unit_def list_all_iff dollar_quote_backslash_def)
qed

lemma escape_units:
  assumes "utf8_ok v" "CHR 0x0A \<notin> set v"
  obtains us where "list_all quoted_unit us" "concat (map fst us) = backslash_escape v dollar_quote_backslash" "map snd us = v"
proof
  let ?us = "concat (map rune_units (runes v))"
  have v: "v = concat (map encode_rune (runes v))" using assms(1) by (simp add: utf8_ok_def of_runes_def)
  have c: "concat (map f (concat (map rune_units rs))) = concat (map (\<lambda>r. concat (map f (rune_units r))) rs)" for f :: "string \<times> char \<Rightarrow> string" and rs
    by (induction rs) auto
  show "concat (map fst ?us) = backslash_escape v dollar_quote_backslash"
    unfolding c backslash_escape_def runes_special rune_units_text by simp
  show "map snd ?us = v" by (subst (2) v) (simp add: map_concat comp_def rune_units_text)
  have "CHR 0x0A \<notin> set (encode_rune r)" if "r \<in> set (runes v)" for r using assms(2) that by (subst (asm) v) auto
  then show "list_all quoted_unit ?us"
    using rune_units_ok runes_valid by (fastforce simp: list_all_iff)
qed

lemma env_name_plain: "env_name k \<Longrightarrow> CHR 0x0A \<notin> set k" "env_name k \<Longrightarrow> CHR ''='' \<notin> set k"
proof -
  have "\<not> word_char CHR 0x0A" "\<not> word_char CHR ''=''" by code_simp+
  then show "env_name k \<Longrightarrow> CHR 0x0A \<notin> set k" "env_name k \<Longrightarrow> CHR ''='' \<notin> set k"
    unfolding env_name_def list_all_iff by blast+
qed

lemma read_env_line:
  assumes "documented_env_lines rd" "env_name k" "utf8_ok v" "CHR 0x0A \<notin> set v"
  shows "rd (''ENV '' @ k @ ''='' @ dq @ backslash_escape v dollar_quote_backslash @ dq) = Some (k, v)"
proof -
  obtain us where us: "list_all quoted_unit us" "concat (map fst us) = backslash_escape v dollar_quote_backslash" "map snd us = v"
    using escape_units [OF assms(3,4)] .
  show ?thesis using assms(1-3) us unfolding documented_env_lines_def by metis
qed

lemma escape_line:
  assumes "utf8_ok v" "CHR 0x0A \<notin> set v"
  shows "CHR 0x0A \<notin> set (backslash_escape v dollar_quote_backslash)"
proof -
  obtain us where us: "list_all quoted_unit us" "concat (map fst us) = backslash_escape v dollar_quote_backslash"
    using escape_units [OF assms] .
  have "CHR 0x0A \<notin> set (fst u)" if "quoted_unit u" for u using that by (cases u) (auto simp: quoted_unit_def)
  then show ?thesis using us(1) unfolding us(2) [symmetric] by (auto simp: list_all_iff)
qed

lemma read_container_envs:
  assumes "documented_env_lines rd" "\<forall>(k, v)\<in>set env. env_name k \<and> utf8_ok v \<and> CHR 0x0A \<notin> set v"
  shows "read_env_lines rd (generate_container_envs env True) = Some (map (\<lambda>k. (k, the (map_of env k))) (sorted_keys env))"
proof (cases "env = []")
  case True
  then show ?thesis by (simp add: read_env_lines_def generate_container_envs_def sorted_keys_def)
next
  case False
  define line where "line = (\<lambda>k. ''ENV '' @ k @ ''='' @ dq @ backslash_escape (the (map_of env k)) dollar_quote_backslash @ dq)"
  have ok: "env_name k \<and> utf8_ok (the (map_of env k)) \<and> CHR 0x0A \<notin> set (the (map_of env k)) \<and> map_of env k \<noteq> None"
    if "k \<in> set (sorted_keys env)" for k
  proof -
    have "map_of env k \<noteq> None" using that by (simp add: map_of_eq_None_iff)
    then obtain v where v: "map_of env k = Some v" by blast
    then have "(k, v) \<in> set env" by (rule map_of_SomeD)
    then show ?thesis using assms(2) v by auto
  qed
  have g: "generate_container_envs env True = join [CHR 0x0A] (map line (sorted_keys env))"
  proof -
    have m: "map (\<lambda>k. ''ENV '' @ k @ ''='' @ dq @ backslash_escape (case map_of env k of Some v \<Rightarrow> v | None \<Rightarrow> [])
        dollar_quote_backslash @ dq) (sorted_keys env) = map line (sorted_keys env)"
    proof (rule map_cong [OF refl])
      fix k assume "k \<in> set (sorted_keys env)"
      then obtain v where "map_of env k = Some v" using ok by blast
      then show "''ENV '' @ k @ ''='' @ dq @ backslash_escape (case map_of env k of Some v \<Rightarrow> v | None \<Rightarrow> [])
          dollar_quote_backslash @ dq = line k" by (simp add: line_def)
    qed
    show ?thesis by (simp only: generate_container_envs_def line_feed_def Let_def False if_True if_False m)
  qed
  have ne: "map line (sorted_keys env) \<noteq> []" using False by (cases env) (auto simp: sorted_keys_def)
  have "\<forall>x\<in>set (map line (sorted_keys env)). CHR 0x0A \<notin> set x"
    using ok env_name_plain(1) escape_line by (auto simp: line_def dq_def)
  then have sp: "split_byte CHR 0x0A (join [CHR 0x0A] (map line (sorted_keys env))) = map line (sorted_keys env)"
    by (rule split_byte_join [OF ne])
  have "join [CHR 0x0A] (map line (sorted_keys env)) \<noteq> []"
    using ne by (cases "sorted_keys env"; cases "map line (tl (sorted_keys env))") (auto simp: line_def)
  then show ?thesis unfolding g read_env_lines_def sp
    using read_env_line [OF assms(1)] ok by (simp add: line_def read_all_map)
qed

text \<open>The placeholders of the base Dockerfile, replaced one after the other.\<close>

lemma replacer_plain:
  "CHR ''#'' \<notin> set x \<Longrightarrow> \<forall>(old, new)\<in>set ps. has_prefix old ''#'' \<Longrightarrow> replacer ps (x @ s) = x @ replacer ps s"
proof (induction x)
  case (Cons c x)
  have "\<not> (case p of (old, new) \<Rightarrow> old \<noteq> [] \<and> has_prefix (c # x @ s) old)" if "p \<in> set ps" for p
    using Cons.prems that by (cases p; cases "fst p") fastforce+
  then have "find (\<lambda>(old, new). old \<noteq> [] \<and> has_prefix (c # x @ s) old) ps = None" unfolding find_None_iff by blast
  then show ?case using Cons by simp
qed simp

lemma replacer_old:
  assumes "find (\<lambda>(old', new). old' \<noteq> [] \<and> has_prefix (old @ s) old') ps = Some (old, new)"
  shows "replacer ps (old @ s) = new @ replacer ps s"
proof -
  have "old \<noteq> []" using assms by (auto simp: find_Some_iff)
  then obtain c x where "old = c # x" by (cases old) auto
  then show ?thesis using assms by simp
qed

lemma replacer_parts:
  "replacer (dockerfile_parts ft p) (''#{nonBuildKitFeatureContentFallback}'' @ s) =
     the (map_of (dockerfile_parts ft p) ''#{nonBuildKitFeatureContentFallback}'') @ replacer (dockerfile_parts ft p) s"
  "replacer (dockerfile_parts ft p) (''#{builtinEnvSource}'' @ s) =
     the (map_of (dockerfile_parts ft p) ''#{builtinEnvSource}'') @ replacer (dockerfile_parts ft p) s"
  "replacer (dockerfile_parts ft p) (''#{featureLayer}'' @ s) =
     the (map_of (dockerfile_parts ft p) ''#{featureLayer}'') @ replacer (dockerfile_parts ft p) s"
  "replacer (dockerfile_parts ft p) (''#{containerEnv}'' @ s) =
     the (map_of (dockerfile_parts ft p) ''#{containerEnv}'') @ replacer (dockerfile_parts ft p) s"
  "replacer (dockerfile_parts ft p) (''#{devcontainerMetadata}'' @ s) =
     the (map_of (dockerfile_parts ft p) ''#{devcontainerMetadata}'') @ replacer (dockerfile_parts ft p) s"
  "replacer (dockerfile_parts ft p) (''#{containerEnvMetadata}'' @ s) =
     generate_container_envs (bp_config_env p) True @ replacer (dockerfile_parts ft p) s"
  by (rule replacer_old, simp add: dockerfile_parts_def)+

lemma replacer_line:
  "CHR ''#'' \<notin> set l \<Longrightarrow> replacer (dockerfile_parts ft p) (l @ s) = l @ replacer (dockerfile_parts ft p) s"
  by (rule replacer_plain) (simp_all add: dockerfile_parts_def)

definition copy_builtin_line :: string where
  "copy_builtin_line = ''COPY --from=dev_containers_feature_content_source #{builtinEnvSource} /tmp/build-features/''"

definition placeholders :: "string list" where
  "placeholders = [''#{nonBuildKitFeatureContentFallback}'', ''#{featureLayer}'', ''#{containerEnv}'', ''#{devcontainerMetadata}'']"

lemma replacer_base_line:
  assumes "CHR ''#'' \<notin> set l \<or> l \<in> set placeholders \<or> l = copy_builtin_line"
  shows "\<exists>pre. replacer (dockerfile_parts ft p) (l @ s) = pre @ replacer (dockerfile_parts ft p) s"
proof -
  consider "CHR ''#'' \<notin> set l" | "l \<in> set placeholders" | "l = copy_builtin_line" using assms by blast
  then show ?thesis
  proof cases
    case 1
    then show ?thesis using replacer_line by blast
  next
    case 2
    then show ?thesis unfolding placeholders_def by (auto intro: replacer_parts simp del: append_Cons)
  next
    case 3
    have r: "replacer (dockerfile_parts ft p) (''COPY --from=dev_containers_feature_content_source '' @ t) =
        ''COPY --from=dev_containers_feature_content_source '' @ replacer (dockerfile_parts ft p) t"
      "replacer (dockerfile_parts ft p) ('' /tmp/build-features/'' @ t) =
        '' /tmp/build-features/'' @ replacer (dockerfile_parts ft p) t" for t
      by (rule replacer_line, simp)+
    have "copy_builtin_line @ s = ''COPY --from=dev_containers_feature_content_source '' @ ''#{builtinEnvSource}'' @ '' /tmp/build-features/'' @ s"
      by (simp add: copy_builtin_line_def)
    then have "replacer (dockerfile_parts ft p) (l @ s) = ''COPY --from=dev_containers_feature_content_source '' @
        the (map_of (dockerfile_parts ft p) ''#{builtinEnvSource}'') @ '' /tmp/build-features/'' @ replacer (dockerfile_parts ft p) s"
      using 3 by (simp only: r replacer_parts)
    then show ?thesis by (metis append.assoc)
  qed
qed

lemma replacer_base_lines:
  "\<forall>l\<in>set ls. CHR ''#'' \<notin> set l \<or> l \<in> set placeholders \<or> l = copy_builtin_line \<Longrightarrow>
   \<exists>pre. replacer (dockerfile_parts ft p) (lines_text ls @ s) = pre @ replacer (dockerfile_parts ft p) s"
proof (induction ls)
  case Nil
  then show ?case by (simp add: lines_text_def)
next
  case (Cons l ls)
  have e: "lines_text (l # ls) @ s = l @ line_feed @ lines_text ls @ s" by (simp add: lines_text_def)
  obtain pre where "replacer (dockerfile_parts ft p) (l @ line_feed @ lines_text ls @ s) =
      pre @ replacer (dockerfile_parts ft p) (line_feed @ lines_text ls @ s)"
    using replacer_base_line [of l ft p "line_feed @ lines_text ls @ s"] Cons.prems by auto
  then show ?case using Cons replacer_line [of line_feed ft p] unfolding e
    by (auto simp: line_feed_def simp del: replacer.simps)
qed

lemma dockerfile_end:
  "\<exists>pre. bi_content (generate_features_build_options ft p) =
     pre @ line_feed @ generate_container_envs (bp_config_env p) True @ line_feed"
proof -
  let ?R = "replacer (dockerfile_parts ft p)"
  have lf: "?R (line_feed @ s) = line_feed @ ?R s" for s by (rule replacer_line) (simp add: line_feed_def)
  have l: "lines_text (xs @ [[], x]) = lines_text xs @ line_feed @ x @ line_feed" for xs x by (simp add: lines_text_def)
  obtain ls where b: "base_dockerfile = lines_text (ls @ [[], ''#{containerEnvMetadata}''])"
    and ls: "\<forall>l\<in>set ls. CHR ''#'' \<notin> set l \<or> l \<in> set placeholders \<or> l = copy_builtin_line"
  proof
    show "base_dockerfile = lines_text ([[], [],
        ''#{nonBuildKitFeatureContentFallback}'', [],
        ''ARG _DEV_CONTAINERS_BASE_IMAGE=scratch'', [],
        ''FROM $_DEV_CONTAINERS_BASE_IMAGE AS dev_containers_feature_content_normalize'',
        ''USER root'',
        ''COPY --from=dev_containers_feature_content_source #{builtinEnvSource} /tmp/build-features/'',
        ''RUN chmod -R 0755 /tmp/build-features/'', [],
        ''FROM $_DEV_CONTAINERS_BASE_IMAGE AS dev_containers_target_stage'', [],
        ''USER root'', [],
        ''RUN mkdir -p '' @ temp_dest_folder,
        ''COPY --from=dev_containers_feature_content_normalize /tmp/build-features/ '' @ temp_dest_folder, [],
        ''#{featureLayer}'', [],
        ''#{containerEnv}'', [],
        ''ARG _DEV_CONTAINERS_IMAGE_USER=root'',
        ''USER $_DEV_CONTAINERS_IMAGE_USER'', [],
        ''#{devcontainerMetadata}''] @ [[], ''#{containerEnvMetadata}''])"
      unfolding base_dockerfile_def by simp
  qed (simp add: placeholders_def copy_builtin_line_def temp_dest_folder_def)
  obtain pre where "?R (lines_text ls @ line_feed @ ''#{containerEnvMetadata}'' @ line_feed) =
      pre @ ?R (line_feed @ ''#{containerEnvMetadata}'' @ line_feed)"
    using replacer_base_lines [OF ls] by blast
  then have "?R base_dockerfile = pre @ line_feed @ generate_container_envs (bp_config_env p) True @ line_feed @ ?R []"
    unfolding b l lf replacer_parts(6) using lf [of "[]"] by simp
  then show ?thesis by (auto simp: generate_features_build_options_def)
qed

text \<open>C27. The configuration's \<open>containerEnv\<close> reaches the image as written: the generated Dockerfile ends with
  lines of its own which, read one by one as the frontend reads \<open>ENV\<close>, give exactly its names and values, in the
  order of the names, with no variable expanded. Names are those of variables, and a value has no line
  feed, which would end the line.\<close>

theorem env_value_round_trip:
  assumes "documented_env_lines rd"
    "\<forall>(k, v)\<in>set (bp_config_env p). env_name k \<and> utf8_ok v \<and> CHR 0x0A \<notin> set v"
  shows "\<exists>pre t l. bi_content (generate_features_build_options ft p) = pre @ line_feed @ t @ line_feed \<and>
    t = generate_container_envs (bp_config_env p) True \<and>
    read_env_lines rd t = Some l \<and> sorted (map fst l) \<and> map_of l = map_of (bp_config_env p)"
proof -
  let ?env = "bp_config_env p"
  have "map_of (map (\<lambda>k. (k, the (map_of ?env k))) ks) k = (if k \<in> set ks then Some (the (map_of ?env k)) else None)" for ks k
    by (induction ks) auto
  moreover have "k \<in> fst ` set ?env \<longleftrightarrow> map_of ?env k \<noteq> None" for k by (simp add: map_of_eq_None_iff)
  ultimately have "map_of (map (\<lambda>k. (k, the (map_of ?env k))) (sorted_keys ?env)) = map_of ?env" by (auto simp: fun_eq_iff)
  moreover have "sorted (map fst (map (\<lambda>k. (k, the (map_of ?env k))) (sorted_keys ?env)))" by (simp add: comp_def)
  ultimately show ?thesis using dockerfile_end [of ft p] read_container_envs [OF assms] by blast
qed

text \<open>A reader that does what is documented.\<close>

fun dq_value :: "string \<Rightarrow> (string \<times> string) option" where
  "dq_value [] = None"
| "dq_value (c # s) =
     (if c = CHR 0x22 then Some ([], s)
      else if c = CHR ''$'' \<or> c = CHR 0x0A then None
      else if c = CHR 0x5C then
        (case s of [] \<Rightarrow> None
         | d # t \<Rightarrow> if d \<in> {CHR 0x22, CHR 0x5C, CHR ''$''} then map_option (\<lambda>(v, r). (d # v, r)) (dq_value t)
                  else map_option (\<lambda>(v, r). (c # v, r)) (dq_value s))
      else map_option (\<lambda>(v, r). (c # v, r)) (dq_value s))"

definition env_line :: "string \<Rightarrow> (string \<times> string) option" where
  "env_line s =
     (if has_prefix s ''ENV ''
      then (case cut_byte CHR ''='' (drop 4 s) of (k, r, found) \<Rightarrow>
        if found \<and> env_name k \<and> has_prefix r dq
        then (case dq_value (drop 1 r) of Some (v, []) \<Rightarrow> Some (k, v) | _ \<Rightarrow> None) else None)
      else None)"

lemma dq_value_units: "list_all quoted_unit us \<Longrightarrow> dq_value (concat (map fst us) @ CHR 0x22 # s) = Some (map snd us, s)"
  by (induction us) (auto simp: quoted_unit_def)

lemma env_line_documented: "documented_env_lines env_line"
  unfolding documented_env_lines_def
proof (intro allI impI)
  fix k us
  assume a: "env_name k \<and> list_all quoted_unit us \<and> utf8_ok (map snd us)"
  let ?r = "dq @ concat (map fst us) @ dq"
  have "CHR ''='' \<notin> set k" using a env_name_plain(2) by blast
  then have "cut_byte CHR ''='' (k @ CHR ''='' # ?r) = (k, ?r, True)" by (simp add: cut_byte_found)
  moreover have "dq_value (drop 1 ?r) = Some (map snd us, [])" using a dq_value_units [of us "[]"] by (simp add: dq_def)
  ultimately show "env_line (''ENV '' @ k @ ''='' @ ?r) = Some (k, map snd us)"
    using a by (simp add: env_line_def dq_def)
qed

definition sample_build :: build_params where
  "sample_build = \<lparr>bp_base_name = ''debian'', bp_feature_sets = [], bp_metadata = [], bp_container_user = ''root'',
     bp_remote_user = ''root'', bp_image_user = ''root'', bp_use_contexts = True, bp_syntax = [],
     bp_config_env = [(''B'', [CHR ''$'', CHR ''A'', CHR 0x22]), (''A'', [CHR 0x5C])], bp_secret_ids = []\<rparr>"

lemma env_value_round_trip_witness:
  "(\<exists>pre. bi_content (generate_features_build_options (\<lambda>q. []) sample_build) =
      pre @ line_feed @ generate_container_envs (bp_config_env sample_build) True @ line_feed) \<and>
   map_option map_of (read_env_lines env_line (generate_container_envs (bp_config_env sample_build) True)) =
     Some [''A'' \<mapsto> [CHR 0x5C], ''B'' \<mapsto> [CHR ''$'', CHR ''A'', CHR 0x22]]"
proof -
  have "list_all (\<lambda>(k, v). env_name k \<and> utf8_ok v \<and> CHR 0x0A \<notin> set v) (bp_config_env sample_build)" by code_simp
  then have "\<forall>(k, v)\<in>set (bp_config_env sample_build). env_name k \<and> utf8_ok v \<and> CHR 0x0A \<notin> set v" unfolding list_all_iff .
  note w = env_value_round_trip [OF env_line_documented this, of "\<lambda>q. []"]
  have "map_of (bp_config_env sample_build) = [''A'' \<mapsto> [CHR 0x5C], ''B'' \<mapsto> [CHR ''$'', CHR ''A'', CHR 0x22]]"
    by (simp add: sample_build_def fun_eq_iff)
  then show ?thesis using w by fastforce
qed

text \<open>A value with a line feed ends its line early: the Dockerfile is refused. Without the escape of the
  dollar, as in a Feature's own \<open>containerEnv\<close>, a variable is left to be expanded.\<close>

lemma env_value_line_feed:
  "read_env_lines env_line (generate_container_envs [(''A'', [CHR ''x'', CHR 0x0A, CHR ''y''])] True) = None"
  "read_env_lines env_line (generate_container_envs [(''A'', ''$B'')] False) = None"
  by code_simp+

subsection \<open>The values of the options\<close>

lemma fold_defaults:
  "map_of (foldl (\<lambda>m k. case d k of None \<Rightarrow> m | Some v \<Rightarrow> aput k v m) m ks) k =
   (if k \<in> set ks \<and> d k \<noteq> None then d k else map_of m k)"
  by (induction ks arbitrary: m) (auto split: option.split)

lemma fold_user:
  "map_of (foldl (\<lambda>m k. aput k (g k) m) m ks) k = (if k \<in> set ks then Some (g k) else map_of m k)"
  by (induction ks arbitrary: m) auto

lemma distinct_fold_defaults:
  "distinct (map fst m) \<Longrightarrow> distinct (map fst (foldl (\<lambda>m k. case d k of None \<Rightarrow> m | Some v \<Rightarrow> aput k v m) m ks))"
  by (induction ks arbitrary: m) (auto split: option.split simp del: distinct_map)

lemma distinct_fold_user:
  "distinct (map fst m) \<Longrightarrow> distinct (map fst (foldl (\<lambda>m k. aput k (g k) m) m ks))"
  by (induction ks arbitrary: m) (auto simp del: distinct_map)

lemma defaults_of:
  "map_of (foldl (\<lambda>m k. case option_default f k of None \<Rightarrow> m | Some v \<Rightarrow> aput k v m) [] (option_key_order f info)) k =
   option_default f k"
proof -
  have "k \<in> set (option_key_order f info)" if "option_default f k \<noteq> None"
  proof -
    have "map_of (feat_options f) k \<noteq> None" using that by (auto simp: option_default_def split: option.splits)
    then show ?thesis by (auto simp: option_key_order_def map_of_eq_None_iff)
  qed
  then show ?thesis by (cases "option_default f k") (auto simp: fold_defaults)
qed

text \<open>An option has the user's value when the user gives one and its default otherwise; a value that is no
  object is the version's, when the Feature has that option. Each option is named once.\<close>

theorem option_values:
  "map_of (feature_value_object f info) k =
     (case feat_value f of
        JObj v \<Rightarrow> (case map_of v k of Some x \<Rightarrow> Some x | None \<Rightarrow> option_default f k)
      | JNull \<Rightarrow> option_default f k
      | v \<Rightarrow> if k = ''version'' \<and> map_of (feat_options f) k \<noteq> None then Some v else option_default f k) \<and>
   distinct (map fst (feature_value_object f info))"
proof
  have u: "k \<in> fst ` set v \<longleftrightarrow> map_of v k \<noteq> None" for v :: "json gomap" by (simp add: map_of_eq_None_iff)
  show "map_of (feature_value_object f info) k =
     (case feat_value f of
        JObj v \<Rightarrow> (case map_of v k of Some x \<Rightarrow> Some x | None \<Rightarrow> option_default f k)
      | JNull \<Rightarrow> option_default f k
      | v \<Rightarrow> if k = ''version'' \<and> map_of (feat_options f) k \<noteq> None then Some v else option_default f k)"
    unfolding feature_value_object_def Let_def
    by (cases "feat_value f") (auto simp: fold_user defaults_of u split: option.split)
  show "distinct (map fst (feature_value_object f info))"
    unfolding feature_value_object_def Let_def
    by (cases "feat_value f") (auto simp: distinct_fold_user distinct_fold_defaults simp del: distinct_map)
qed

end
