(* ===== verification/Hooks.thy ===== *)
theory Hooks
  imports ImageMerge Shell
begin

text \<open>
  \<open>internal/lifecycle/hooks.go\<close> and \<open>shell.go\<close>: running the lifecycle hooks of a merged configuration. What
  runs in the container is a parameter on a world of its own; the log is kept in order. \<open>fv\<close> is the text
  \<open>fmt\<close>'s \<open>%v\<close> gives a float64. The goroutines of an object's commands run each as one step, in an order
  a scheduler gives.
\<close>

subsection \<open>Commands in the container\<close>

datatype exec_error =
    CommandFailure string int "string list option"
  | OtherFailure string

datatype log_item =
    LogWrite string string
  | LogProgress string string
  | LogStart string string
  | LogStop string string
  | LogRaw string string

record 'w hook_state =
  world :: 'w
  out :: "log_item list"

definition log_write :: "string \<Rightarrow> string \<Rightarrow> 'w hook_state \<Rightarrow> 'w hook_state" where
  "log_write level text st = st\<lparr>out := out st @ [LogWrite level text]\<rparr>"

definition log_progress :: "string \<Rightarrow> string \<Rightarrow> 'w hook_state \<Rightarrow> 'w hook_state" where
  "log_progress name status st = st\<lparr>out := out st @ [LogProgress name status]\<rparr>"

definition log_item_add :: "log_item \<Rightarrow> 'w hook_state \<Rightarrow> 'w hook_state" where
  "log_item_add i st = st\<lparr>out := out st @ [i]\<rparr>"

type_synonym 'w executor = "string \<Rightarrow> 'w hook_state \<Rightarrow> exec_error option \<times> 'w hook_state"

text \<open>\<open>ExecInContainer\<close>: container, user, environment and command; the output, the errors and the exit code.\<close>

type_synonym 'w container_exec =
  "string \<Rightarrow> string \<Rightarrow> string list \<Rightarrow> string \<Rightarrow> 'w \<Rightarrow> (string, string \<times> string \<times> int) res \<times> 'w"

record shell_server =
  ss_container :: string
  ss_user :: string
  ss_env :: "string list"

definition exec_with_stderr :: "'w container_exec \<Rightarrow> shell_server \<Rightarrow> string \<Rightarrow> 'w \<Rightarrow> (string, string \<times> string \<times> int) res \<times> 'w" where
  "exec_with_stderr ex s command w = ex (ss_container s) (ss_user s) (ss_env s) command w"

definition server_exec :: "'w container_exec \<Rightarrow> shell_server \<Rightarrow> string \<Rightarrow> 'w \<Rightarrow> (string, string \<times> int) res \<times> 'w" where
  "server_exec ex s command w =
     (case exec_with_stderr ex s command w of
        (Inl e, w') \<Rightarrow> (Inl e, w')
      | (Inr (o1, o2, code), w') \<Rightarrow> (Inr (o1, code), w'))"

definition shell_single_quote :: "string \<Rightarrow> string" where
  "shell_single_quote v = (if v = [] then sq @ sq else sq @ replace_all v sq double_quoted_quote @ sq)"

definition command_line :: "string \<Rightarrow> string \<Rightarrow> string" where
  "command_line work_dir command =
     (if work_dir \<noteq> [] then ''cd '' @ shell_single_quote work_dir @ '' && '' @ command else command)"

definition shell_executor_exec :: "'w container_exec \<Rightarrow> shell_server \<Rightarrow> string \<Rightarrow> 'w executor" where
  "shell_executor_exec ex s work_dir command st =
     (case exec_with_stderr ex s (command_line work_dir command) (world st) of
        (Inl e, w) \<Rightarrow> (Some (OtherFailure e), st\<lparr>world := w\<rparr>)
      | (Inr (o1, o2, code), w) \<Rightarrow>
          (let st1 = st\<lparr>world := w\<rparr>;
               st2 = (if o1 \<noteq> [] then log_write ''info'' o1 st1 else st1);
               st3 = (if trim_space o2 \<noteq> [] then log_write ''info'' o2 st2 else st2)
           in (if code \<noteq> 0 then Some (CommandFailure command code None) else None, st3)))"

fun exec_error_text :: "exec_error \<Rightarrow> string" where
  "exec_error_text (CommandFailure command code (Some argv)) = ''Command failed: '' @ join '' '' argv"
| "exec_error_text (CommandFailure command code None) = ''Command failed: /bin/sh -c '' @ command"
| "exec_error_text (OtherFailure e) = e"

subsection \<open>Commands as text\<close>

text \<open>\<open>fmt\<close>'s \<open>%v\<close> of a decoded JSON value; a map is printed with its keys sorted.\<close>

fun go_v :: "(rat \<Rightarrow> string) \<Rightarrow> json \<Rightarrow> string" where
  "go_v fv JNull = ''<nil>''"
| "go_v fv (JBool b) = (if b then ''true'' else ''false'')"
| "go_v fv (JNum q) = fv q"
| "go_v fv (JStr s) = s"
| "go_v fv (JArr vs) = ''['' @ join '' '' (map (go_v fv) vs) @ '']''"
| "go_v fv (JObj m) = ''map['' @ join '' '' (map (\<lambda>(k, t). k @ '':'' @ t)
     (sort_key fst (map (\<lambda>p. (fst p, go_v fv (snd p))) m))) @ '']''"

text \<open>An object inside an object is joined in the iteration order of Go's map, which the list stands for.\<close>

fun command_to_string :: "(rat \<Rightarrow> string) \<Rightarrow> json \<Rightarrow> string" where
  "command_to_string fv (JStr s) = s"
| "command_to_string fv (JArr vs) = join '' '' (map (\<lambda>v. shell_quote (go_v fv v)) vs)"
| "command_to_string fv (JObj m) =
     foldl (\<lambda>r s. if s \<noteq> [] then (if r \<noteq> [] then r @ '' && '' else r) @ s else r) []
       (map (\<lambda>p. command_to_string fv (snd p)) m)"
| "command_to_string fv JNull = []"
| "command_to_string fv v = go_v fv v"

definition with_argv :: "(rat \<Rightarrow> string) \<Rightarrow> exec_error \<Rightarrow> json \<Rightarrow> exec_error" where
  "with_argv fv err cmd =
     (case (err, cmd) of
        (CommandFailure c code a, JArr args) \<Rightarrow> CommandFailure c code (Some (map (go_v fv) args))
      | _ \<Rightarrow> err)"

subsection \<open>Hook errors\<close>

record hook_error =
  he_phase :: string
  he_name :: string
  he_origin :: string
  he_err :: exec_error

definition display_origin :: "string \<Rightarrow> string" where
  "display_origin origin =
     (if origin = [] then ''devcontainer.json''
      else if origin = ''devcontainer.json'' then origin
      else ''Feature '' @ sq @ origin @ sq)"

definition he_label :: "hook_error \<Rightarrow> string" where
  "he_label e = (if he_name e \<noteq> [] then he_name e @ '' of '' @ he_phase e else he_phase e)"

definition he_description :: "hook_error \<Rightarrow> string" where
  "he_description e = he_label e @ '' from '' @ display_origin (he_origin e) @ '' failed.''"

definition hook_error_text :: "hook_error \<Rightarrow> string" where
  "hook_error_text e =
     (if he_name e \<noteq> [] then he_phase e @ '' failed: '' @ he_name e @ '': '' @ exec_error_text (he_err e)
      else he_phase e @ '' failed: '' @ exec_error_text (he_err e))"

definition int_text :: "int \<Rightarrow> string" where
  "int_text i = (if i < 0 then CHR ''-'' # base_text 10 (- i) else base_text 10 i)"

definition log_failure :: "hook_error \<Rightarrow> 'w hook_state \<Rightarrow> 'w hook_state" where
  "log_failure he st =
     (case he_err he of
        CommandFailure c code a \<Rightarrow>
          if code \<noteq> 0
          then log_write ''error'' (he_label he @ '' from '' @ display_origin (he_origin he) @ '' failed with exit code ''
                 @ int_text code @ ''. Skipping any further user-provided commands.'') st
          else st
      | _ \<Rightarrow> st)"

subsection \<open>One command of a hook\<close>

text \<open>A step of the goroutine of one named command: its error is kept, its header written on success.\<close>

definition named_step ::
  "(rat \<Rightarrow> string) \<Rightarrow> 'w executor \<Rightarrow> string \<Rightarrow> string \<Rightarrow> json gomap \<Rightarrow>
   exec_error gomap \<times> 'w hook_state \<Rightarrow> string \<Rightarrow> exec_error gomap \<times> 'w hook_state" where
  "named_step fv ex phase from_text m acc name =
     (case acc of (errs, st) \<Rightarrow>
        (let cmd = (case map_of m name of Some v \<Rightarrow> v | None \<Rightarrow> JNull) in
         case ex (command_to_string fv cmd) st of
           (Some e, st') \<Rightarrow> (aput name (with_argv fv e cmd) errs, st')
         | (None, st') \<Rightarrow>
             (errs, log_write ''info'' (''Running '' @ name @ '' of '' @ phase @ '' from '' @ from_text @ ''...'') st')))"

definition runnable_names :: "(rat \<Rightarrow> string) \<Rightarrow> json gomap \<Rightarrow> string list" where
  "runnable_names fv m =
     filter (\<lambda>n. command_to_string fv (case map_of m n of Some v \<Rightarrow> v | None \<Rightarrow> JNull) \<noteq> []) (sorted_keys m)"

definition fail_hook :: "hook_error \<Rightarrow> 'w hook_state \<Rightarrow> hook_error option \<times> 'w hook_state" where
  "fail_hook he st = (Some he, log_failure he st)"

definition execute_named ::
  "(rat \<Rightarrow> string) \<Rightarrow> (string list \<Rightarrow> string list) \<Rightarrow> 'w executor \<Rightarrow> string \<Rightarrow> json gomap \<Rightarrow> string \<Rightarrow> 'w hook_state
   \<Rightarrow> hook_error option \<times> 'w hook_state" where
  "execute_named fv sched ex phase m origin st =
     (case foldl (named_step fv ex phase (display_origin origin) m) ([], st) (sched (runnable_names fv m)) of
        (errs, st') \<Rightarrow>
          (case find (\<lambda>n. map_of errs n \<noteq> None) (sorted_keys m) of
             None \<Rightarrow> (None, st')
           | Some n \<Rightarrow> fail_hook \<lparr>he_phase = phase, he_name = n, he_origin = origin, he_err = the (map_of errs n)\<rparr> st'))"

definition execute_single ::
  "(rat \<Rightarrow> string) \<Rightarrow> 'w executor \<Rightarrow> string \<Rightarrow> json \<Rightarrow> string \<Rightarrow> 'w hook_state
   \<Rightarrow> hook_error option \<times> 'w hook_state" where
  "execute_single fv ex phase cmd origin st =
     (case ex (command_to_string fv cmd) st of
        (None, st') \<Rightarrow> (None, st')
      | (Some e, st') \<Rightarrow>
          fail_hook \<lparr>he_phase = phase, he_name = [], he_origin = origin, he_err = with_argv fv e cmd\<rparr> st')"

definition running_header :: "string \<Rightarrow> string \<Rightarrow> string" where
  "running_header phase origin = ''Running the '' @ phase @ '' from '' @ display_origin origin @ ''...''"

fun execute_command ::
  "(rat \<Rightarrow> string) \<Rightarrow> (string list \<Rightarrow> string list) \<Rightarrow> 'w executor \<Rightarrow> string \<Rightarrow> json \<Rightarrow> string \<Rightarrow> 'w hook_state
   \<Rightarrow> hook_error option \<times> 'w hook_state" where
  "execute_command fv sched ex phase (JObj m) origin st =
     execute_named fv sched ex phase m origin (log_write ''info'' (running_header phase origin) st)"
| "execute_command fv sched ex phase cmd origin st =
     (if command_to_string fv cmd = [] then (None, st)
      else execute_single fv ex phase cmd origin (log_write ''info'' (running_header phase origin) st))"

subsection \<open>The phases\<close>

record 'w run_options =
  skip_post_create :: bool
  skip_non_blocking :: bool
  skip_post_attach :: bool
  prebuild :: bool
  wait_for :: string
  after_post_create :: "('w hook_state \<Rightarrow> 'w hook_state) option"

definition wait_phase :: "'w run_options \<Rightarrow> merged_config \<Rightarrow> string" where
  "wait_phase opts m =
     (if wait_for opts \<noteq> [] then wait_for opts
      else if m_wait_for m \<noteq> [] then m_wait_for m else ''updateContentCommand'')"

definition hook_phases :: "merged_config \<Rightarrow> (string \<times> json list) list" where
  "hook_phases m =
     [(''onCreateCommand'', m_on_create_commands m),
      (''updateContentCommand'', m_update_content_commands m),
      (''postCreateCommand'', m_post_create_commands m),
      (''postStartCommand'', m_post_start_commands m),
      (''postAttachCommand'', m_post_attach_commands m)]"

definition origin_at :: "merged_config \<Rightarrow> string \<Rightarrow> nat \<Rightarrow> string" where
  "origin_at m phase i =
     (let origins = (case map_of (m_command_origins m) phase of None \<Rightarrow> [] | Some os \<Rightarrow> os)
      in if i < length origins then origins ! i else [])"

fun run_commands ::
  "(string \<Rightarrow> json \<Rightarrow> string \<Rightarrow> 'w hook_state \<Rightarrow> hook_error option \<times> 'w hook_state) \<Rightarrow> merged_config \<Rightarrow> string \<Rightarrow> nat
   \<Rightarrow> json list \<Rightarrow> 'w hook_state \<Rightarrow> hook_error option \<times> 'w hook_state" where
  "run_commands run m phase i [] st = (None, st)"
| "run_commands run m phase i (c # cs) st =
     (case run phase c (origin_at m phase i) st of
        (Some e, st') \<Rightarrow> (Some e, st')
      | (None, st') \<Rightarrow> run_commands run m phase (Suc i) cs st')"

definition progress_name :: "string \<Rightarrow> string" where
  "progress_name phase = ''Running '' @ phase @ ''...''"

definition run_phase ::
  "(string \<Rightarrow> json \<Rightarrow> string \<Rightarrow> 'w hook_state \<Rightarrow> hook_error option \<times> 'w hook_state) \<Rightarrow> merged_config \<Rightarrow> string
   \<Rightarrow> json list \<Rightarrow> 'w hook_state \<Rightarrow> hook_error option \<times> 'w hook_state" where
  "run_phase run m phase cs st =
     (if cs = [] then (None, st)
      else (case run_commands run m phase 0 cs (log_progress (progress_name phase) ''running'' st) of
          (Some e, st') \<Rightarrow> (Some e, log_progress (progress_name phase) ''failed'' st')
        | (None, st') \<Rightarrow> (None, log_progress (progress_name phase) ''succeeded'' st')))"

definition stop_reason :: "'w run_options \<Rightarrow> string \<Rightarrow> string \<Rightarrow> string option" where
  "stop_reason opts wait phase =
     (if prebuild opts \<and> phase = ''updateContentCommand''
      then Some ''Stopping after updateContentCommand (prebuild)''
      else if skip_non_blocking opts \<and> phase = wait
      then Some (''Stopping after '' @ wait @ '' (skipNonBlocking)'')
      else None)"

definition after_phase :: "'w run_options \<Rightarrow> string \<Rightarrow> 'w hook_state \<Rightarrow> 'w hook_state" where
  "after_phase opts phase st =
     (if phase = ''postCreateCommand'' then (case after_post_create opts of None \<Rightarrow> st | Some f \<Rightarrow> f st) else st)"

fun run_phases ::
  "(string \<Rightarrow> json \<Rightarrow> string \<Rightarrow> 'w hook_state \<Rightarrow> hook_error option \<times> 'w hook_state) \<Rightarrow> merged_config \<Rightarrow> 'w run_options
   \<Rightarrow> string \<Rightarrow> (string \<times> json list) list \<Rightarrow> 'w hook_state \<Rightarrow> hook_error option \<times> 'w hook_state" where
  "run_phases run m opts wait [] st = (None, st)"
| "run_phases run m opts wait ((phase, cs) # ps) st =
     (if skip_post_create opts
      then run_phases run m opts wait ps (log_write ''info'' (''Skipping '' @ phase @ '' (skipPostCreate)'') st)
      else if skip_post_attach opts \<and> phase = ''postAttachCommand''
      then run_phases run m opts wait ps (log_write ''info'' (''Skipping '' @ phase @ '' (skipPostAttach)'') st)
      else (case run_phase run m phase cs st of
          (Some e, st') \<Rightarrow> (Some e, st')
        | (None, st') \<Rightarrow>
            (let st2 = after_phase opts phase st' in
             case stop_reason opts wait phase of
               Some why \<Rightarrow> (None, log_write ''info'' why st2)
             | None \<Rightarrow> run_phases run m opts wait ps st2)))"

definition run_hooks ::
  "(rat \<Rightarrow> string) \<Rightarrow> (string list \<Rightarrow> string list) \<Rightarrow> 'w executor \<Rightarrow> merged_config \<Rightarrow> 'w run_options \<Rightarrow> 'w hook_state
   \<Rightarrow> hook_error option \<times> 'w hook_state" where
  "run_hooks fv sched ex m opts st =
     run_phases (execute_command fv sched ex) m opts (wait_phase opts m) (hook_phases m) st"


subsection \<open>The arguments of an array command\<close>

text \<open>An array command runs as its arguments: the shell reads each one back as one word, the very text,
  without expanding or splitting it.\<close>

theorem array_command_words:
  assumes "vs \<noteq> []"
  shows "sh_words (length vs) (command_to_string fv (JArr vs)) = Some (map (go_v fv) vs)"
  using sh_words_quoted [of "map (go_v fv) vs" "length vs"] assms by (simp add: comp_def)

lemma array_command_words_witness:
  "sh_words 2 (command_to_string (\<lambda>q. []) (JArr [JStr ''echo'', JStr [CHR ''$'', CHR 0x27, CHR '' '']])) =
   Some [''echo'', [CHR ''$'', CHR 0x27, CHR '' '']]"
  using array_command_words [of "[JStr ''echo'', JStr [CHR ''$'', CHR 0x27, CHR '' '']]" "\<lambda>q. []"]
  by (simp add: numeral_2_eq_2 del: command_to_string.simps sh_words.simps)

subsection \<open>What runs, and in which order\<close>

definition named_command :: "(rat \<Rightarrow> string) \<Rightarrow> json gomap \<Rightarrow> string \<Rightarrow> string" where
  "named_command fv m n = command_to_string fv (case map_of m n of Some v \<Rightarrow> v | None \<Rightarrow> JNull)"

fun entry_group :: "(string \<Rightarrow> string) \<Rightarrow> (rat \<Rightarrow> string) \<Rightarrow> json \<Rightarrow> string list" where
  "entry_group shown fv (JObj m) = map (\<lambda>n. shown (named_command fv m n)) (runnable_names fv m)"
| "entry_group shown fv cmd = (if command_to_string fv cmd = [] then [] else [shown (command_to_string fv cmd)])"

text \<open>The groups of command lines a run is meant to run: one per command of a hook, and one for what follows
  \<open>postCreateCommand\<close>.\<close>

fun planned :: "(string \<Rightarrow> string) \<Rightarrow> (rat \<Rightarrow> string) \<Rightarrow> 'w run_options \<Rightarrow> string \<Rightarrow> string list \<Rightarrow> (string \<times> json list) list \<Rightarrow> string list list" where
  "planned shown fv opts wait extra [] = []"
| "planned shown fv opts wait extra ((phase, cs) # ps) =
     (if skip_post_create opts \<or> (skip_post_attach opts \<and> phase = ''postAttachCommand'')
      then planned shown fv opts wait extra ps
      else map (entry_group shown fv) cs @ (if phase = ''postCreateCommand'' then [extra] else [])
        @ (if stop_reason opts wait phase \<noteq> None then [] else planned shown fv opts wait extra ps))"

text \<open>A trace follows the groups: each group whole, in some order, none out of turn.\<close>

definition follows :: "string list list \<Rightarrow> string list list \<Rightarrow> bool" where
  "follows segs groups \<longleftrightarrow> list_all2 (\<lambda>s g. mset s = mset g) segs (take (length segs) groups)"

lemma follows_Nil [simp]: "follows [] gs"
  by (simp add: follows_def)

lemma follows_length: "follows segs gs \<Longrightarrow> length segs \<le> length gs"
  by (auto simp: follows_def dest: list_all2_lengthD)

lemma follows_append:
  "follows segs gs \<Longrightarrow> length segs = length gs \<Longrightarrow> follows segs' gs' \<Longrightarrow> follows (segs @ segs') (gs @ gs')"
  by (simp add: follows_def list_all2_appendI)

lemma follows_weaken: "follows segs gs \<Longrightarrow> follows segs (gs @ gs')"
  using follows_length [of segs gs] by (simp add: follows_def)

text \<open>An executor that leaves a trace of the command lines it is given.\<close>

locale tracing =
  fixes ex :: "'w executor" and shown :: "string \<Rightarrow> string" and trace :: "'w \<Rightarrow> string list" and sched :: "string list \<Rightarrow> string list"
  assumes traced: "trace (world (snd (ex c st))) = trace (world st) @ [shown c]"
    and all_scheduled: "mset (sched ns) = mset ns"
begin

lemma log_world [simp]:
  "world (log_write l t st) = world st" "world (log_progress n s st) = world st" "world (log_failure he st) = world st"
  by (simp_all add: log_write_def log_progress_def log_failure_def split: exec_error.split)

lemma named_trace:
  "trace (world (snd (foldl (named_step fv ex phase from_text m) acc ns))) =
   trace (world (snd acc)) @ map (\<lambda>n. shown (named_command fv m n)) ns"
proof (induction ns arbitrary: acc)
  case (Cons n ns)
  have "trace (world (snd (named_step fv ex phase from_text m acc n))) = trace (world (snd acc)) @ [shown (named_command fv m n)]"
    using traced [of "named_command fv m n" "snd acc"]
    by (auto simp: named_step_def named_command_def Let_def split: prod.splits option.splits)
  then show ?case using Cons by simp
qed simp

lemma single_trace:
  "trace (world (snd (execute_single fv ex phase cmd origin st))) = trace (world st) @ [shown (command_to_string fv cmd)]"
  using traced [of "command_to_string fv cmd" st]
  by (auto simp: execute_single_def fail_hook_def split: prod.split option.split)

lemma execute_trace:
  "\<exists>seg. trace (world (snd (execute_command fv sched ex phase cmd origin st))) = trace (world st) @ seg \<and>
    mset seg = mset (entry_group shown fv cmd)"
proof (cases cmd)
  case (JObj m)
  have "mset (map (\<lambda>n. shown (named_command fv m n)) (sched (runnable_names fv m))) = mset (entry_group shown fv cmd)"
    using all_scheduled [of "runnable_names fv m"] JObj by simp
  moreover have "trace (world (snd (execute_command fv sched ex phase cmd origin st))) =
      trace (world st) @ map (\<lambda>n. shown (named_command fv m n)) (sched (runnable_names fv m))"
    using named_trace [of fv phase "display_origin origin" m "([], log_write ''info'' (running_header phase origin) st)"
        "sched (runnable_names fv m)"] JObj
    by (auto simp: execute_named_def fail_hook_def split: prod.splits option.splits)
  ultimately show ?thesis by blast
qed (use single_trace in \<open>simp_all del: command_to_string.simps\<close>)

lemma commands_trace:
  fixes run fv
  defines "run \<equiv> execute_command fv sched ex"
  shows "\<exists>segs. trace (world (snd (run_commands run m phase i cs st))) = trace (world st) @ concat segs \<and>
    follows segs (map (entry_group shown fv) cs) \<and>
    (fst (run_commands run m phase i cs st) = None \<longrightarrow> length segs = length cs)"
proof (induction cs arbitrary: i st)
  case Nil
  show ?case by (intro exI [of _ "[]"]) simp
next
  case (Cons c cs)
  obtain r st1 where r: "run phase c (origin_at m phase i) st = (r, st1)" by force
  obtain seg where seg: "trace (world st1) = trace (world st) @ seg" "mset seg = mset (entry_group shown fv c)"
    using execute_trace [of fv phase c "origin_at m phase i" st] r unfolding run_def by auto
  show ?case
  proof (cases r)
    case None
    obtain segs where "trace (world (snd (run_commands run m phase (Suc i) cs st1))) = trace (world st1) @ concat segs"
      "follows segs (map (entry_group shown fv) cs)"
      "fst (run_commands run m phase (Suc i) cs st1) = None \<longrightarrow> length segs = length cs" using Cons by blast
    then show ?thesis using r None seg by (intro exI [of _ "seg # segs"]) (auto simp: follows_def)
  next
    case (Some e)
    then show ?thesis using r seg by (intro exI [of _ "[seg]"]) (simp add: follows_def)
  qed
qed

lemma phase_trace:
  "\<exists>segs. trace (world (snd (run_phase (execute_command fv sched ex) m phase cs st))) = trace (world st) @ concat segs \<and>
    follows segs (map (entry_group shown fv) cs) \<and>
    (fst (run_phase (execute_command fv sched ex) m phase cs st) = None \<longrightarrow> length segs = length cs)"
proof (cases "cs = []")
  case True
  then show ?thesis by (intro exI [of _ "[]"]) (simp add: run_phase_def)
next
  case False
  obtain segs where "trace (world (snd (run_commands (execute_command fv sched ex) m phase 0 cs
        (log_progress (progress_name phase) ''running'' st)))) = trace (world st) @ concat segs"
    "follows segs (map (entry_group shown fv) cs)"
    "fst (run_commands (execute_command fv sched ex) m phase 0 cs (log_progress (progress_name phase) ''running'' st)) = None
       \<longrightarrow> length segs = length cs"
    using commands_trace [of fv m phase 0 cs "log_progress (progress_name phase) ''running'' st"] by auto
  then show ?thesis using False
    by (intro exI [of _ segs]) (auto simp: run_phase_def split: prod.split option.split)
qed

lemma phases_trace:
  assumes cb: "\<And>st. trace (world (after_phase opts ''postCreateCommand'' st)) = trace (world st) @ extra"
  shows "\<exists>segs. trace (world (snd (run_phases (execute_command fv sched ex) m opts wait ps st))) = trace (world st) @ concat segs \<and>
    follows segs (planned shown fv opts wait extra ps) \<and>
    (fst (run_phases (execute_command fv sched ex) m opts wait ps st) = None \<longrightarrow>
      length segs = length (planned shown fv opts wait extra ps))"
proof (induction ps arbitrary: st)
  case Nil
  show ?case by (intro exI [of _ "[]"]) simp
next
  case (Cons p ps)
  obtain phase cs where p: "p = (phase, cs)" by (cases p)
  let ?run = "execute_command fv sched ex"
  show ?case
  proof (cases "skip_post_create opts \<or> (skip_post_attach opts \<and> phase = ''postAttachCommand'')")
    case True
    then show ?thesis
      using p Cons [of "log_write ''info'' (''Skipping '' @ phase @ '' (skipPostCreate)'') st"]
        Cons [of "log_write ''info'' (''Skipping '' @ phase @ '' (skipPostAttach)'') st"]
      by (cases "skip_post_create opts") (simp_all del: append_Cons append_assoc)
  next
    case False
    obtain r st1 where r: "run_phase ?run m phase cs st = (r, st1)" by force
    obtain segs where segs: "trace (world st1) = trace (world st) @ concat segs"
      "follows segs (map (entry_group shown fv) cs)" "r = None \<longrightarrow> length segs = length cs"
      using phase_trace [of fv m phase cs st] r by auto
    show ?thesis
    proof (cases r)
      case (Some e)
      then show ?thesis using False p r segs
        by (intro exI [of _ segs]) (auto intro: follows_weaken)
    next
      case None
      define st2 where "st2 = after_phase opts phase st1"
      define more where "more = (if phase = ''postCreateCommand'' then [extra] else [])"
      have t2: "trace (world st2) = trace (world st1) @ concat more"
        using cb [of st1] by (auto simp: st2_def more_def after_phase_def)
      have f2: "follows (segs @ more) (map (entry_group shown fv) cs @ more)"
        using segs None by (intro follows_append) (auto simp: follows_def more_def)
      have l2: "length (segs @ more) = length (map (entry_group shown fv) cs @ more)" using segs None by simp
      show ?thesis
      proof (cases "stop_reason opts wait phase")
        case (Some why)
        then show ?thesis using False p r None segs t2 f2 l2
          by (intro exI [of _ "segs @ more"]) (auto simp: st2_def [symmetric] more_def [symmetric] Let_def)
      next
        case go: None
        obtain segs' where s': "trace (world (snd (run_phases ?run m opts wait ps st2))) = trace (world st2) @ concat segs'"
          "follows segs' (planned shown fv opts wait extra ps)"
          "fst (run_phases ?run m opts wait ps st2) = None \<longrightarrow> length segs' = length (planned shown fv opts wait extra ps)"
          using Cons by blast
        have "follows ((segs @ more) @ segs') ((map (entry_group shown fv) cs @ more) @ planned shown fv opts wait extra ps)"
          using follows_append [OF f2 l2 s'(2)] .
        then show ?thesis using False p r None go segs t2 l2 s'
          by (intro exI [of _ "(segs @ more) @ segs'"]) (auto simp: st2_def [symmetric] more_def [symmetric] Let_def)
      qed
    qed
  qed
qed

end

subsection \<open>The shell executor leaves a trace\<close>

lemma shell_executor_world:
  "world (snd (shell_executor_exec cex s wd c st)) =
   snd (cex (ss_container s) (ss_user s) (ss_env s) (command_line wd c) (world st))"
  by (auto simp: shell_executor_exec_def exec_with_stderr_def log_write_def Let_def split: prod.split sum.split)

lemma shell_executor_tracing:
  assumes "\<And>c u e line w. hist (snd (cex c u e line w)) = hist w @ [line]"
    and "\<And>ns. mset (sched ns) = mset ns"
  shows "tracing (shell_executor_exec cex s wd) (command_line wd) hist sched"
  using assms by unfold_locales (simp_all add: shell_executor_world)

text \<open>A container that keeps the history of its command lines and answers each by its text.\<close>

definition recording :: "(string \<Rightarrow> (string, string \<times> string \<times> int) res) \<Rightarrow> string list container_exec" where
  "recording answer c u e line w = (answer line, w @ [line])"

interpretation recorded: tracing "shell_executor_exec (recording answer) s wd" "command_line wd" "\<lambda>w. w" rev
  for answer s wd
  by (rule shell_executor_tracing) (simp_all add: recording_def)

text \<open>C28. The hooks run in their order: the container sees the commands of one entry after another, phase by
  phase from \<open>onCreateCommand\<close> up to where the options say to stop, only the parallel commands of one object
  in an order of the scheduler's; without an error every planned command has run.\<close>

theorem run_hooks_trace:
  assumes "\<And>c u e line w. hist (snd (cex c u e line w)) = hist w @ [line]"
    and "\<And>ns. mset (sched ns) = mset ns"
    and "\<And>st. hist (world (after_phase opts ''postCreateCommand'' st)) = hist (world st) @ extra"
    and "run_hooks fv sched (shell_executor_exec cex s wd) m opts st = (r, st')"
    and "plan = planned (command_line wd) fv opts (wait_phase opts m) extra (hook_phases m)"
  shows "\<exists>segs. hist (world st') = hist (world st) @ concat segs \<and> follows segs plan \<and>
    (r = None \<longrightarrow> length segs = length plan)"
proof -
  have "tracing (shell_executor_exec cex s wd) (command_line wd) hist sched"
    using assms(1,2) by (rule shell_executor_tracing)
  from tracing.phases_trace [OF this assms(3), of fv m "wait_phase opts m" "hook_phases m" st]
  show ?thesis using assms(4,5) by (simp add: run_hooks_def)
qed

definition plain_options :: "'w run_options" where
  "plain_options = \<lparr>skip_post_create = False, skip_non_blocking = False, skip_post_attach = False, prebuild = False,
     wait_for = [], after_post_create = None\<rparr>"

lemma run_hooks_trace_witness:
  fixes m defines "m \<equiv> empty_merged\<lparr>m_on_create_commands := [JStr ''a''],
      m_post_create_commands := [JObj [(''x'', JStr ''b''), (''y'', JStr ''c'')]]\<rparr>"
  shows "\<exists>segs. world (snd (run_hooks (\<lambda>q. []) rev (shell_executor_exec (recording (\<lambda>l. Inr ([], [], 0)))
      \<lparr>ss_container = [], ss_user = [], ss_env = []\<rparr> ''/w'') m plain_options \<lparr>world = [], out = []\<rparr>)) = concat segs \<and>
    follows segs [[''cd '' @ shell_single_quote ''/w'' @ '' && a''],
      [''cd '' @ shell_single_quote ''/w'' @ '' && b'', ''cd '' @ shell_single_quote ''/w'' @ '' && c''], []]"
  using run_hooks_trace [of "\<lambda>w. w" "recording (\<lambda>l. Inr ([], [], 0))" rev plain_options "[]" "\<lambda>q. []"
      "\<lparr>ss_container = [], ss_user = [], ss_env = []\<rparr>" "''/w''" m "\<lparr>world = [], out = []\<rparr>"]
  by (simp add: recording_def after_phase_def plain_options_def m_def hook_phases_def empty_merged_def wait_phase_def
      stop_reason_def command_line_def named_command_def runnable_names_def sorted_keys_def prod_eq_iff) blast

lemma find_in_filter:
  "(\<And>x. x \<in> set xs \<Longrightarrow> P x \<longleftrightarrow> R x \<and> Q x) \<Longrightarrow> find P xs = find Q (filter R xs)"
  by (induction xs) auto

subsection \<open>The error does not depend on the schedule\<close>

text \<open>An executor whose verdict depends on the command alone.\<close>

locale verdicts =
  fixes ex :: "'w executor" and verdict :: "string \<Rightarrow> exec_error option" and sched :: "string list \<Rightarrow> string list"
  assumes judged: "fst (ex c st) = verdict c"
    and all_scheduled: "mset (sched ns) = mset ns"
begin

lemma named_errors:
  "map_of (fst (foldl (named_step fv ex phase from_text m) acc ns)) n =
   (if n \<in> set ns \<and> verdict (named_command fv m n) \<noteq> None
    then map_option (\<lambda>e. with_argv fv e (case map_of m n of Some v \<Rightarrow> v | None \<Rightarrow> JNull)) (verdict (named_command fv m n))
    else map_of (fst acc) n)"
proof (induction ns arbitrary: acc)
  case (Cons k ns)
  obtain errs st where acc: "acc = (errs, st)" by force
  obtain r st' where r: "ex (named_command fv m k) st = (r, st')" by force
  have v: "verdict (named_command fv m k) = r" using judged [of "named_command fv m k" st] r by simp
  have "map_of (fst (named_step fv ex phase from_text m acc k)) n =
    (if n = k \<and> r \<noteq> None then map_option (\<lambda>e. with_argv fv e (case map_of m n of Some v \<Rightarrow> v | None \<Rightarrow> JNull)) r
     else map_of (fst acc) n)"
    using r acc by (auto simp: named_step_def named_command_def Let_def split: option.split)
  then show ?case using Cons v by auto
qed simp

lemma first_failure:
  "fst (execute_named fv sched ex phase m origin st) =
   map_option (\<lambda>n. \<lparr>he_phase = phase, he_name = n, he_origin = origin,
       he_err = with_argv fv (the (verdict (named_command fv m n))) (the (map_of m n))\<rparr>)
     (find (\<lambda>n. verdict (named_command fv m n) \<noteq> None) (runnable_names fv m))"
proof -
  obtain errs st' where f: "foldl (named_step fv ex phase (display_origin origin) m) ([], st) (sched (runnable_names fv m)) = (errs, st')"
    by force
  have s: "set (sched (runnable_names fv m)) = set (runnable_names fv m)"
    using all_scheduled by (metis set_mset_mset)
  have e: "map_of errs n = (if n \<in> set (runnable_names fv m) \<and> verdict (named_command fv m n) \<noteq> None
      then map_option (\<lambda>e. with_argv fv e (case map_of m n of Some v \<Rightarrow> v | None \<Rightarrow> JNull)) (verdict (named_command fv m n))
      else None)" for n
    using named_errors [of fv phase "display_origin origin" m "([], st)" "sched (runnable_names fv m)" n] f s by simp
  have "find (\<lambda>n. map_of errs n \<noteq> None) (sorted_keys m) =
        find (\<lambda>n. verdict (named_command fv m n) \<noteq> None) (runnable_names fv m)" (is "?l = ?r")
    unfolding runnable_names_def using e by (intro find_in_filter) (auto simp: runnable_names_def)
  moreover have "the (map_of errs n) = with_argv fv (the (verdict (named_command fv m n))) (the (map_of m n))" if "?l = Some n" for n
    using that e [of n] by (auto simp: find_Some_iff runnable_names_def split: if_splits option.splits)
  ultimately show ?thesis using f by (cases ?l) (simp_all add: execute_named_def fail_hook_def)
qed

end

text \<open>A container whose answer depends on the command line alone gives such an executor.\<close>

definition answer_verdict :: "(string \<Rightarrow> (string, string \<times> string \<times> int) res) \<Rightarrow> string \<Rightarrow> string \<Rightarrow> exec_error option" where
  "answer_verdict answer wd c =
     (case answer (command_line wd c) of
        Inl e \<Rightarrow> Some (OtherFailure e)
      | Inr (o1, o2, code) \<Rightarrow> if code \<noteq> 0 then Some (CommandFailure c code None) else None)"

lemma shell_executor_verdicts:
  assumes "\<And>line w. fst (cex (ss_container s) (ss_user s) (ss_env s) line w) = answer line"
    and "\<And>ns. mset (sched ns) = mset ns"
  shows "verdicts (shell_executor_exec cex s wd) (answer_verdict answer wd) sched"
proof
  fix c st
  show "fst (shell_executor_exec cex s wd c st) = answer_verdict answer wd c"
    using assms(1) [of "command_line wd c" "world st"]
    by (auto simp: shell_executor_exec_def exec_with_stderr_def answer_verdict_def Let_def split: prod.split sum.split)
qed (rule assms(2))

interpretation answered: verdicts "shell_executor_exec (recording answer) s wd" "answer_verdict answer wd" rev
  for answer s wd
  by (rule shell_executor_verdicts) (simp_all add: recording_def)

text \<open>C29. The error of a hook's parallel commands does not depend on the order they end in: when each command's
  answer is its own, every schedule reports the first failing name in sorted order, with its own error.\<close>

theorem parallel_error_deterministic:
  assumes "\<And>line w. fst (cex (ss_container s) (ss_user s) (ss_env s) line w) = answer line"
    and "\<And>ns. mset (sched ns) = mset ns"
  shows "fst (execute_named fv sched (shell_executor_exec cex s wd) phase m origin st) =
    map_option (\<lambda>n. \<lparr>he_phase = phase, he_name = n, he_origin = origin,
        he_err = with_argv fv (the (answer_verdict answer wd (named_command fv m n))) (the (map_of m n))\<rparr>)
      (find (\<lambda>n. answer_verdict answer wd (named_command fv m n) \<noteq> None) (runnable_names fv m))"
proof -
  have "verdicts (shell_executor_exec cex s wd) (answer_verdict answer wd) sched"
    using assms by (rule shell_executor_verdicts)
  then show ?thesis by (rule verdicts.first_failure)
qed

lemma parallel_error_deterministic_witness:
  "map_option he_name (fst (execute_named (\<lambda>q. []) rev
      (shell_executor_exec (recording (\<lambda>l. if l = ''ok'' then Inr ([], [], 0) else Inr ([], [], 2)))
        \<lparr>ss_container = [], ss_user = [], ss_env = []\<rparr> []) ''onCreateCommand''
      [(''c'', JStr ''bad''), (''a'', JStr ''ok''), (''b'', JStr ''worse'')] [] \<lparr>world = [], out = []\<rparr>)) = Some ''b''"
  by (subst parallel_error_deterministic [where answer = "\<lambda>l. if l = ''ok'' then Inr ([], [], 0) else Inr ([], [], 2)"])
    (simp_all add: recording_def answer_verdict_def command_line_def named_command_def runnable_names_def sorted_keys_def)

end
