(* ===== verification/Probe.thy ===== *)
theory Probe
  imports Hooks GoJson "HOL-Library.Sublist"
begin

text \<open>
  \<open>internal/lifecycle/probe.go\<close>: reading the remote user's environment with a shell of the container, its
  cache in a file there, and the merge of the two \<open>PATH\<close>s. The shell is a parameter on the world of
  \<open>Hooks\<close>; decoding JSON (\<open>dec\<close>) and \<open>fmt\<close>'s \<open>%q\<close> (\<open>q\<close>) are parameters.
\<close>

type_synonym 'w shell_exec = "string \<Rightarrow> 'w \<Rightarrow> (string, string \<times> int) res \<times> 'w"

definition run_shell :: "'w shell_exec \<Rightarrow> string \<Rightarrow> 'w hook_state \<Rightarrow> (string, string \<times> int) res \<times> 'w hook_state" where
  "run_shell sx cmd st = (case sx cmd (world st) of (r, w) \<Rightarrow> (r, st\<lparr>world := w\<rparr>))"

subsection \<open>The output of env\<close>

text \<open>A line that starts an entry has an equals sign after a name without blanks.\<close>

definition starts_entry :: "string \<Rightarrow> bool" where
  "starts_entry line =
     (case index_byte (CHR ''='') line of None \<Rightarrow> False
      | Some i \<Rightarrow> 0 < i \<and> index_where (\<lambda>c. c = CHR '' '' \<or> c = CHR 0x09) (take i line) = None)"

definition save_entry :: "string gomap \<times> string \<times> string \<Rightarrow> string gomap" where
  "save_entry acc = (case acc of (env, k, v) \<Rightarrow> if k \<noteq> [] then aput k v env else env)"

definition env_line :: "string gomap \<times> string \<times> string \<Rightarrow> string \<Rightarrow> string gomap \<times> string \<times> string" where
  "env_line acc raw =
     (let line = trim_right raw [CHR 0x0D] in
      if line = [] then acc
      else if starts_entry line
      then (save_entry acc, take (the (index_byte (CHR ''='') line)) line,
            drop (Suc (the (index_byte (CHR ''='') line))) line)
      else (case acc of (env, k, v) \<Rightarrow> if k \<noteq> [] then (env, k, v @ [CHR 0x0A] @ line) else acc))"

definition parse_env_output :: "string \<Rightarrow> string gomap" where
  "parse_env_output output = save_entry (foldl env_line ([], [], []) (split_byte (CHR 0x0A) output))"

subsection \<open>Merging two PATHs\<close>

definition is_sbin_path :: "string \<Rightarrow> bool" where
  "is_sbin_path entry \<longleftrightarrow> has_suffix entry ''/sbin'' \<or> contains_sub entry ''/sbin/''"

fun index_of :: "string \<Rightarrow> string list \<Rightarrow> nat option" where
  "index_of x [] = None"
| "index_of x (y # ys) = (if y = x then Some 0 else map_option Suc (index_of x ys))"

definition path_step :: "bool \<Rightarrow> string list \<times> nat \<Rightarrow> string \<Rightarrow> string list \<times> nat" where
  "path_step root_user acc entry =
     (case acc of (result, insert_at) \<Rightarrow>
        (case index_of entry result of
           Some i \<Rightarrow> (result, i + 1)
         | None \<Rightarrow> if root_user \<or> \<not> is_sbin_path entry
             then (take insert_at result @ entry # drop insert_at result, insert_at + 1) else acc))"

definition merge_paths :: "string \<Rightarrow> string \<Rightarrow> bool \<Rightarrow> string" where
  "merge_paths shell_path container_path root_user =
     join '':'' (fst (foldl (path_step root_user) (split_byte (CHR '':'') shell_path, 0)
       (split_byte (CHR '':'') container_path)))"

subsection \<open>The cache\<close>

definition cache_path :: "string \<Rightarrow> string \<Rightarrow> string" where
  "cache_path strategy folder = folder @ ''/env-'' @ strategy @ ''.json''"

text \<open>\<open>Unmarshal\<close> into a \<open>map[string]string\<close>: the outer \<open>None\<close> is the error, the inner one a nil map.\<close>

definition string_members :: "json \<Rightarrow> string gomap option option" where
  "string_members v =
     (case v of
        JNull \<Rightarrow> Some None
      | JObj m \<Rightarrow>
          (if list_all (\<lambda>p. case snd p of JStr s \<Rightarrow> True | JNull \<Rightarrow> True | _ \<Rightarrow> False) m
           then Some (Some (map (\<lambda>p. (fst p, case snd p of JStr s \<Rightarrow> s | _ \<Rightarrow> [])) m)) else None)
      | _ \<Rightarrow> None)"

definition read_env_cache ::
  "(string \<Rightarrow> json option) \<Rightarrow> 'w shell_exec \<Rightarrow> string \<Rightarrow> string \<Rightarrow> 'w hook_state \<Rightarrow> string gomap option \<times> 'w hook_state" where
  "read_env_cache dec sx strategy folder st =
     (case run_shell sx (''cat '' @ sq @ cache_path strategy folder @ sq @ '' 2>/dev/null'') st of
        (Inl e, st') \<Rightarrow> (None, st')
      | (Inr (stdout, code), st') \<Rightarrow>
          (if code \<noteq> 0 \<or> stdout = [] then (None, st')
           else (case dec stdout of None \<Rightarrow> (None, st')
             | Some v \<Rightarrow> (case string_members v of Some (Some m) \<Rightarrow> (Some m, st') | _ \<Rightarrow> (None, st')))))"

text \<open>\<open>MarshalIndent\<close> of a \<open>map[string]string\<close> with a tab.\<close>

definition marshal_env :: "string gomap \<Rightarrow> string" where
  "marshal_env env =
     (if env = [] then [CHR 0x7B, CHR 0x7D]
      else [CHR 0x7B, CHR 0x0A]
        @ join [CHR '','', CHR 0x0A]
            (map (\<lambda>k. CHR 0x09 # go_quote True k @ '': '' @ go_quote True (the (map_of env k))) (sorted_keys env))
        @ [CHR 0x0A, CHR 0x7D])"

definition write_cache_head :: "string \<Rightarrow> string \<Rightarrow> string" where
  "write_cache_head strategy folder =
     ''mkdir -p '' @ sq @ folder @ sq @ '' && cat > '' @ sq @ cache_path strategy folder @ sq @ '' << '' @ sq @ ''ENVJSON'' @ sq"

definition write_cache_command :: "string gomap \<Rightarrow> string \<Rightarrow> string \<Rightarrow> string" where
  "write_cache_command env strategy folder =
     write_cache_head strategy folder @ [CHR 0x0A] @ marshal_env env @ [CHR 0x0A] @ ''ENVJSON''"

definition write_env_cache :: "'w shell_exec \<Rightarrow> string gomap \<Rightarrow> string \<Rightarrow> string \<Rightarrow> 'w hook_state \<Rightarrow> 'w hook_state" where
  "write_env_cache sx env strategy folder st = snd (run_shell sx (write_cache_command env strategy folder) st)"

subsection \<open>The probe\<close>

definition get_user_shell :: "'w shell_exec \<Rightarrow> 'w hook_state \<Rightarrow> string \<times> 'w hook_state" where
  "get_user_shell sx st =
     (case run_shell sx (''getent passwd '' @ dq @ ''$(id -un)'' @ dq @ '' 2>/dev/null | cut -d: -f7'') st of
        (Inl e, st') \<Rightarrow> (''/bin/sh'', st')
      | (Inr (stdout, code), st') \<Rightarrow>
          (if code = 0 \<and> trim_space stdout \<noteq> [] then trim_space stdout else ''/bin/sh'', st'))"

definition probe_command :: "string \<Rightarrow> string \<Rightarrow> string" where
  "probe_command strategy shell =
     (if strategy = ''loginInteractiveShell'' then shell @ '' -lic env''
      else if strategy = ''interactiveShell'' then shell @ '' -ic env''
      else if strategy = ''loginShell'' then shell @ '' -lc env''
      else ''env'')"

definition timed_out_line :: string where
  "timed_out_line = ''userEnvProbe timed out after 10s; avoid waiting for input in shell startup scripts. ''
     @ ''Falling back to plain '' @ sq @ ''env'' @ sq @ ''.''"

text \<open>The output of the probe, or of plain \<open>env\<close> when the probe exits with an error.\<close>

definition probe_output :: "'w shell_exec \<Rightarrow> string \<Rightarrow> 'w hook_state \<Rightarrow> (string, string) res \<times> 'w hook_state" where
  "probe_output sx cmd st =
     (case run_shell sx (''timeout 10 '' @ cmd) st of
        (Inl e, st1) \<Rightarrow> (Inl (''probe remote env: '' @ e), st1)
      | (Inr (stdout, code), st1) \<Rightarrow>
          (if code = 0 then (Inr stdout, st1)
           else (let st2 = (if code = 124 then log_write ''warning'' timed_out_line st1
                            else log_write ''trace'' (''Probe failed, falling back to plain '' @ sq @ ''env'' @ sq) st1)
                 in case run_shell sx ''env'' st2 of
                      (Inl e, st3) \<Rightarrow> (Inl e, st3)
                    | (Inr (plain, code'), st3) \<Rightarrow> (Inr plain, st3))))"

definition is_root_user :: "string \<Rightarrow> bool" where
  "is_root_user user \<longleftrightarrow> user = [] \<or> user = ''root'' \<or> user = ''0''"

definition with_base_path :: "'w shell_exec \<Rightarrow> string \<Rightarrow> string gomap \<Rightarrow> 'w hook_state \<Rightarrow> string gomap \<times> 'w hook_state" where
  "with_base_path sx user env st =
     (case map_of env ''PATH'' of
        None \<Rightarrow> (env, st)
      | Some path \<Rightarrow>
          (if path = [] then (env, st)
           else (case run_shell sx (''printf %s '' @ dq @ ''$PATH'' @ dq) st of
               (Inl e, st') \<Rightarrow> (env, st')
             | (Inr (base, code), st') \<Rightarrow>
                 (if trim_space base = [] then (env, st')
                  else (aput ''PATH'' (merge_paths path (trim_space base) (is_root_user user)) env, st')))))"

definition fresh_probe ::
  "(string \<Rightarrow> string) \<Rightarrow> 'w shell_exec \<Rightarrow> string \<Rightarrow> string \<Rightarrow> string \<Rightarrow> 'w hook_state
   \<Rightarrow> (string, string gomap) res \<times> 'w hook_state" where
  "fresh_probe q sx strategy user folder st =
     (case get_user_shell sx st of (shell, st1) \<Rightarrow>
        (case probe_output sx (probe_command strategy shell)
            (log_write ''trace'' (''Probing remote env with strategy '' @ q strategy @ '' (shell '' @ shell @ '')...'') st1) of
           (Inl e, st2) \<Rightarrow> (Inl e, st2)
         | (Inr stdout, st2) \<Rightarrow>
             (case with_base_path sx user (adel ''PWD'' (parse_env_output stdout)) st2 of (env, st3) \<Rightarrow>
                (Inr env, if folder \<noteq> [] \<and> env \<noteq> [] then write_env_cache sx env strategy folder st3 else st3))))"

definition probe_remote_env ::
  "(string \<Rightarrow> json option) \<Rightarrow> (string \<Rightarrow> string) \<Rightarrow> 'w shell_exec \<Rightarrow> string \<Rightarrow> string \<Rightarrow> string \<Rightarrow> 'w hook_state
   \<Rightarrow> (string, string gomap) res \<times> 'w hook_state" where
  "probe_remote_env dec q sx strategy user folder st =
     (if strategy = ''none'' \<or> strategy = [] then (Inr [], st)
      else if folder = [] then fresh_probe q sx strategy user folder st
      else (case read_env_cache dec sx strategy folder st of
          (Some env, st') \<Rightarrow> (Inr env, log_write ''trace'' (''Using cached env probe ('' @ strategy @ '')'') st')
        | (None, st') \<Rightarrow> fresh_probe q sx strategy user folder st'))"

definition probed_remote_env ::
  "(string \<Rightarrow> json option) \<Rightarrow> (string \<Rightarrow> string) \<Rightarrow> 'w container_exec \<Rightarrow> string \<Rightarrow> string \<Rightarrow> string \<Rightarrow> string
   \<Rightarrow> 'w hook_state \<Rightarrow> string gomap \<times> 'w hook_state" where
  "probed_remote_env dec q cex container user strategy folder st =
     (if strategy = ''none'' then ([], st)
      else (case probe_remote_env dec q
              (server_exec cex \<lparr>ss_container = container, ss_user = user, ss_env = []\<rparr>) strategy user folder st of
          (Inl e, st') \<Rightarrow> ([], st')
        | (Inr env, st') \<Rightarrow> (env, st')))"

subsection \<open>The environment is read back\<close>

definition continues :: "string \<Rightarrow> bool" where
  "continues line \<longleftrightarrow> line \<noteq> [] \<and> last line \<noteq> CHR 0x0D \<and> \<not> starts_entry line"

definition env_entry_ok :: "string \<times> string \<Rightarrow> bool" where
  "env_entry_ok p \<longleftrightarrow> fst p \<noteq> [] \<and> list_all (\<lambda>c. c \<notin> {CHR ''='', CHR '' '', CHR 0x09, CHR 0x0A}) (fst p) \<and>
     (case split_byte (CHR 0x0A) (snd p) of [] \<Rightarrow> False
      | l # ls \<Rightarrow> (l = [] \<or> last l \<noteq> CHR 0x0D) \<and> list_all continues ls)"

definition env_text :: "string gomap \<Rightarrow> string" where
  "env_text env = concat (map (\<lambda>p. fst p @ ''='' @ snd p @ [CHR 0x0A]) env)"

lemma continues_line:
  "continues line \<Longrightarrow> k \<noteq> [] \<Longrightarrow> env_line (env, k, v) line = (env, k, v @ CHR 0x0A # line)"
  by (simp add: continues_def env_line_def trim_right_id)

lemma join_shift: "join sep ((x @ y) # ls) = x @ join sep (y # ls)"
  by (cases ls) simp_all

lemma continues_fold:
  "list_all continues ls \<Longrightarrow> k \<noteq> [] \<Longrightarrow>
   foldl env_line (env, k, v) ls = (env, k, join [CHR 0x0A] (v # ls))"
proof (induction ls arbitrary: v)
  case (Cons l ls)
  then show ?case using Cons.IH [of "v @ CHR 0x0A # l"] join_shift [of "[CHR 0x0A]" "v @ [CHR 0x0A]" l ls]
    by (simp add: continues_line)
qed simp

lemma entry_line:
  assumes "k \<noteq> []" "list_all (\<lambda>c. c \<notin> {CHR ''='', CHR '' '', CHR 0x09, CHR 0x0A}) k" "l = [] \<or> last l \<noteq> CHR 0x0D"
  shows "env_line acc (k @ ''='' @ l) = (save_entry acc, k, l)"
proof -
  have t: "trim_right (k @ ''='' @ l) [CHR 0x0D] = k @ ''='' @ l" using assms(3) by (intro trim_right_id) auto
  have i: "index_byte (CHR ''='') (k @ ''='' @ l) = Some (length k)"
    using index_byte_append [of "CHR ''=''" k l] assms(2) by (auto simp: list_all_iff)
  have "index_where (\<lambda>c. c = CHR '' '' \<or> c = CHR 0x09) k = None"
    using assms(2) by (auto simp: index_where_None list_all_iff)
  then show ?thesis using i assms(1) t by (simp add: env_line_def starts_entry_def Let_def)
qed

lemma entry_lines:
  assumes "env_entry_ok (k, v)"
  shows "foldl env_line acc (split_byte (CHR 0x0A) (k @ ''='' @ v)) = (save_entry acc, k, v)"
proof -
  have k: "k \<noteq> []" "list_all (\<lambda>c. c \<notin> {CHR ''='', CHR '' '', CHR 0x09, CHR 0x0A}) k"
    using assms by (auto simp: env_entry_ok_def)
  obtain l ls where v: "split_byte (CHR 0x0A) v = l # ls" "l = [] \<or> last l \<noteq> CHR 0x0D" "list_all continues ls"
    using assms by (auto simp: env_entry_ok_def split: list.splits)
  have "split_byte (CHR 0x0A) (x @ v) = (x @ l) # ls" if "CHR 0x0A \<notin> set x" for x
    using that v(1) by (induction x) auto
  from this [of "k @ ''=''"] have s: "split_byte (CHR 0x0A) (k @ ''='' @ v) = (k @ ''='' @ l) # ls"
    using k by (auto simp: list_all_iff)
  have "join [CHR 0x0A] (l # ls) = v" using join_split_byte [of "CHR 0x0A" v] v(1) by simp
  then show ?thesis
    using continues_fold [OF v(3) k(1), of "save_entry acc" l] entry_line [OF k v(2), of acc] by (simp only: s foldl_Cons)
qed

lemma env_fold:
  "list_all env_entry_ok env \<Longrightarrow>
   save_entry (foldl env_line acc (split_byte (CHR 0x0A) (env_text env))) =
   foldl (\<lambda>m p. aput (fst p) (snd p) m) (save_entry acc) env"
proof (induction env arbitrary: acc)
  case Nil
  then show ?case by (simp add: env_text_def env_line_def trim_right_def)
next
  case (Cons p env)
  obtain k v where p: "p = (k, v)" by force
  have k: "k \<noteq> []" using Cons.prems p by (simp add: env_entry_ok_def)
  have "env_text (p # env) = (k @ ''='' @ v) @ CHR 0x0A # env_text env" by (simp add: env_text_def p)
  then have "split_byte (CHR 0x0A) (env_text (p # env)) = split_byte (CHR 0x0A) (k @ ''='' @ v) @ split_byte (CHR 0x0A) (env_text env)"
    by (simp only: split_byte_at)
  then show ?case using Cons entry_lines [of k v acc] p k by (simp add: save_entry_def)
qed

lemma aput_all_new:
  "distinct (map fst (m @ env)) \<Longrightarrow> foldl (\<lambda>m p. aput (fst p) (snd p) m) m env = m @ env"
proof (induction env arbitrary: m)
  case (Cons p env)
  then have "aput (fst p) (snd p) m = m @ [p]" by (simp add: aput_new)
  then show ?case using Cons by simp
qed simp

text \<open>The probed environment is the environment: what \<open>env\<close> prints is read back entry by entry, values
  of several lines included as long as no line of theirs is empty, ends in a carriage return or looks like
  an entry.\<close>

theorem env_round_trip:
  assumes "distinct (map fst env)" and "list_all env_entry_ok env"
  shows "parse_env_output (env_text env) = env"
  using env_fold [OF assms(2), of "([], [], [])"] aput_all_new [of "[]" env] assms(1)
  by (simp add: parse_env_output_def save_entry_def)

lemma env_round_trip_witness:
  "parse_env_output (''A=1'' @ [CHR 0x0A] @ ''B=x'' @ [CHR 0x0A] @ ''y z'' @ [CHR 0x0A] @ ''C='' @ [CHR 0x0A]) =
   [(''A'', ''1''), (''B'', ''x'' @ [CHR 0x0A] @ ''y z''), (''C'', [])]"
  using env_round_trip [of "[(''A'', ''1''), (''B'', ''x'' @ [CHR 0x0A] @ ''y z''), (''C'', [])]"]
  by (simp add: env_text_def env_entry_ok_def continues_def starts_entry_def index_byte_def)

subsection \<open>The merged PATH\<close>

abbreviation path_fold :: "bool \<Rightarrow> string list \<times> nat \<Rightarrow> string list \<Rightarrow> string list \<times> nat" where
  "path_fold ru \<equiv> foldl (path_step ru)"

abbreviation kept_entry :: "bool \<Rightarrow> string \<Rightarrow> bool" where
  "kept_entry ru e \<equiv> ru \<or> \<not> is_sbin_path e"

lemma index_of_Some: "index_of x ys = Some i \<Longrightarrow> i < length ys \<and> ys ! i = x"
  by (induction ys arbitrary: i) (auto split: if_splits)

lemma index_of_None: "index_of x ys = None \<longleftrightarrow> x \<notin> set ys"
  by (induction ys) auto

lemma subseq_insert: "subseq r (take n r @ e # drop n r)"
proof -
  have "subseq (take n r @ drop n r) (take n r @ e # drop n r)"
    by (intro list_emb_append_mono) auto
  then show ?thesis by simp
qed

lemma path_step_set:
  "set (fst (path_step ru acc e)) = set (fst acc) \<union> (if kept_entry ru e then {e} else set (fst acc) \<inter> {e})"
proof -
  obtain r n where acc: "acc = (r, n)" by force
  have "set (take n r) \<union> set (drop n r) = set r" by (metis append_take_drop_id set_append)
  then show ?thesis
    using index_of_Some [of e r] index_of_None [of e r] acc by (auto simp: path_step_def split: option.split)
qed

lemma path_fold_set: "set (fst (path_fold ru acc es)) = set (fst acc) \<union> {e \<in> set es. kept_entry ru e}"
  by (induction es arbitrary: acc) (auto simp: path_step_set)

lemma path_step_subseq: "subseq (fst acc) (fst (path_step ru acc e))"
  using subseq_insert [of "fst acc" "snd acc" e] by (cases acc) (auto simp: path_step_def split: option.split)

lemma path_fold_subseq: "subseq (fst acc) (fst (path_fold ru acc es))"
proof (induction es arbitrary: acc)
  case (Cons e es)
  show ?case using subseq_order.trans [OF path_step_subseq [of acc ru e] Cons [of "path_step ru acc e"]] by simp
qed simp

text \<open>The insertion point is behind an entry of the container's \<open>PATH\<close>.\<close>

definition behind :: "string set \<Rightarrow> string list \<times> nat \<Rightarrow> bool" where
  "behind S acc \<longleftrightarrow> 0 < snd acc \<and> snd acc \<le> length (fst acc) \<and> fst acc ! (snd acc - 1) \<in> S"

lemma behind_step: "behind S acc \<Longrightarrow> behind (insert e S) (path_step ru acc e)"
  using index_of_Some [of e "fst acc"]
  by (cases acc) (auto simp: behind_def path_step_def nth_append min_def split: option.split)

lemma behind_found: "e \<in> set (fst (path_step ru acc e)) \<Longrightarrow> snd acc \<le> length (fst acc) \<Longrightarrow> behind {e} (path_step ru acc e)"
  using index_of_Some [of e "fst acc"] index_of_None [of e "fst acc"]
  by (cases acc) (auto simp: behind_def path_step_def nth_append min_def split: option.splits if_splits)

lemma path_step_bound: "snd acc \<le> length (fst acc) \<Longrightarrow> snd (path_step ru acc e) \<le> length (fst (path_step ru acc e))"
  using index_of_Some [of e "fst acc"]
  by (cases acc) (auto simp: path_step_def split: option.split)

lemma path_fold_bound: "snd acc \<le> length (fst acc) \<Longrightarrow> snd (path_fold ru acc es) \<le> length (fst (path_fold ru acc es))"
  by (induction es arbitrary: acc) (simp_all add: path_step_bound)

definition next_to :: "string \<Rightarrow> string \<Rightarrow> string list \<Rightarrow> bool" where
  "next_to a e r \<longleftrightarrow> (\<exists>p s. r = p @ a # e # s)"

lemma next_to_insert:
  assumes "next_to a e r" and "0 < n" "n \<le> length r" "r ! (n - 1) \<noteq> a"
  shows "next_to a e (take n r @ x # drop n r)"
proof -
  obtain p s where r: "r = p @ a # e # s" using assms(1) by (auto simp: next_to_def)
  consider "n \<le> length p" | "n = Suc (length p)" | "n \<ge> Suc (Suc (length p))" by linarith
  then show ?thesis
  proof cases
    case 1
    then have "take n r @ x # drop n r = (take n p @ x # drop n p) @ a # e # s" by (simp add: r)
    then show ?thesis unfolding next_to_def by blast
  next
    case 2
    then show ?thesis using assms r by (simp add: nth_append)
  next
    case 3
    then obtain k where "n = Suc (Suc (length p)) + k" using le_Suc_ex by blast
    then have "take n r @ x # drop n r = p @ a # e # (take k s @ x # drop k s)" by (simp add: r)
    then show ?thesis unfolding next_to_def by blast
  qed
qed

lemma next_to_step:
  assumes "next_to a e (fst acc)" and "behind S acc" and "a \<notin> S"
  shows "next_to a e (fst (path_step ru acc x))"
  using assms next_to_insert [of a e "fst acc" "snd acc" x]
  by (cases acc) (auto simp: path_step_def behind_def split: option.split)

lemma next_to_fold:
  "next_to a e (fst acc) \<Longrightarrow> behind S acc \<Longrightarrow> a \<notin> S \<union> set es \<Longrightarrow> next_to a e (fst (path_fold ru acc es))"
proof (induction es arbitrary: acc S)
  case (Cons x es)
  then show ?case using next_to_step [of a e acc S ru x] behind_step [of S acc x ru] by simp
qed simp

lemma behind_weaken: "behind S acc \<Longrightarrow> S \<subseteq> T \<Longrightarrow> behind T acc"
  by (auto simp: behind_def)

lemma merged_entries:
  fixes shell_path container_path ru
  defines "r \<equiv> fst (path_fold ru (split_byte (CHR '':'') shell_path, 0) (split_byte (CHR '':'') container_path))"
  shows "split_byte (CHR '':'') (merge_paths shell_path container_path ru) = r"
proof -
  have s: "subseq (split_byte (CHR '':'') shell_path) r"
    using path_fold_subseq [of "(split_byte (CHR '':'') shell_path, 0)" ru] by (simp add: r_def)
  have "\<forall>e\<in>set r. CHR '':'' \<notin> set e"
    unfolding r_def path_fold_set by (auto dest: split_byte_parts)
  moreover have "r \<noteq> []" using s by (cases r) auto
  ultimately show ?thesis by (simp add: merge_paths_def r_def [symmetric] split_byte_join)
qed

lemma missing_next_to:
  assumes "distinct (us @ a # e # vs)" and "kept_entry ru e" and "e \<notin> set sh"
    and "a \<in> set (fst (path_fold ru (sh, 0) (us @ [a])))"
  shows "next_to a e (fst (path_fold ru (sh, 0) (us @ a # e # vs)))"
proof -
  define acc where "acc = path_fold ru (sh, 0) us"
  obtain r n where acc1: "path_step ru acc a = (r, n)" by force
  have "snd acc \<le> length (fst acc)" unfolding acc_def by (rule path_fold_bound) simp
  then have b: "behind {a} (r, n)" using behind_found [of a ru acc] assms(4) acc1 by (simp add: acc_def)
  have "set r = set sh \<union> {x \<in> set (us @ [a]). kept_entry ru x}"
    using path_fold_set [of ru "(sh, 0)" "us @ [a]"] acc1 by (simp add: acc_def)
  then have "e \<notin> set r" using assms(1,3) by auto
  then have e: "index_of e r = None" by (simp add: index_of_None)
  then have st: "path_step ru (r, n) e = (take n r @ e # drop n r, Suc n)" using assms(2) by (simp add: path_step_def)
  have "take n r = take (n - 1) r @ [a]" using b by (cases n) (auto simp: behind_def take_Suc_conv_app_nth)
  then have nt: "next_to a e (fst (path_step ru (r, n) e))" unfolding st next_to_def by auto
  have be: "behind {e} (path_step ru (r, n) e)" using b by (intro behind_found) (auto simp: st behind_def)
  show ?thesis using next_to_fold [OF nt be, of vs ru] assms(1) acc1 by (simp add: acc_def)
qed

text \<open>The merged \<open>PATH\<close> keeps the shell's entries in their order and adds the container's, except an
  \<open>sbin\<close> directory for a user other than root, and nothing else; an added entry stands directly behind
  the one before it in the container's \<open>PATH\<close>, when that is in the result.\<close>

theorem merge_paths_spec:
  fixes shell_path container_path ru
  defines "sh \<equiv> split_byte (CHR '':'') shell_path" and "co \<equiv> split_byte (CHR '':'') container_path"
    and "r \<equiv> split_byte (CHR '':'') (merge_paths shell_path container_path ru)"
  shows "subseq sh r \<and> set r = set sh \<union> {e \<in> set co. ru \<or> \<not> is_sbin_path e} \<and>
    (distinct co \<longrightarrow> (\<forall>us a e vs. co = us @ a # e # vs \<and> e \<notin> set sh \<and> {a, e} \<subseteq> set r \<longrightarrow> next_to a e r))"
proof (intro conjI impI allI)
  have r: "r = fst (path_fold ru (sh, 0) co)" by (simp add: r_def sh_def co_def merged_entries)
  show "subseq sh r" using path_fold_subseq [of "(sh, 0)" ru co] by (simp add: r)
  show s: "set r = set sh \<union> {e \<in> set co. ru \<or> \<not> is_sbin_path e}" by (simp add: r path_fold_set)
  fix us a e vs
  assume d: "distinct co" and co: "co = us @ a # e # vs \<and> e \<notin> set sh \<and> {a, e} \<subseteq> set r"
  have "kept_entry ru e" using co s by auto
  moreover have "a \<in> set (fst (path_fold ru (sh, 0) (us @ [a])))"
    unfolding path_fold_set using co s by auto
  ultimately show "next_to a e r"
    using missing_next_to [of us a e vs ru sh] co d by (simp add: r)
qed

lemma merge_paths_spec_witness:
  "next_to ''/a'' ''/b'' (split_byte (CHR '':'') (merge_paths ''/x:/a'' ''/a:/b:/usr/sbin'' False))"
proof -
  note m = merge_paths_spec [of "''/x:/a''" "''/a:/b:/usr/sbin''" False]
  have "{''/a'', ''/b''} \<subseteq> set (split_byte (CHR '':'') (merge_paths ''/x:/a'' ''/a:/b:/usr/sbin'' False))"
    using m by (simp add: is_sbin_path_def has_suffix_def contains_sub_def)
  moreover have "split_byte (CHR '':'') ''/a:/b:/usr/sbin'' = [] @ ''/a'' # ''/b'' # [''/usr/sbin'']" by simp
  moreover have "distinct (split_byte (CHR '':'') ''/a:/b:/usr/sbin'')" "''/b'' \<notin> set (split_byte (CHR '':'') ''/x:/a'')"
    by simp_all
  ultimately show ?thesis using m by blast
qed

subsection \<open>The cached environment is written whole\<close>

lemma decoded_high:
  assumes "\<not> bval c < 0x80" and "x \<in> set (take (snd (decode_rune (c # s))) (c # s))"
  shows "0x80 \<le> bval x"
  using assms
  by (auto simp: decode_rune_def Let_def cont_def numeral_2_eq_2 numeral_3_eq_3 split: if_splits list.splits)

lemma bval_hex_digit_ge: "d < 16 \<Longrightarrow> 0x20 \<le> bval (hex_digit d)"
  by (simp add: hex_digit_def)

lemma hex4_printable: "x \<in> set (hex4 r) \<Longrightarrow> r < 0x10000 \<Longrightarrow> 0x20 \<le> bval x"
  by (auto simp: hex4_def intro!: bval_hex_digit_ge)

lemma escape_printable:
  assumes "x \<in> set (go_escape html r raw)" and "0x20 \<le> r \<longrightarrow> (\<forall>y\<in>set raw. 0x20 \<le> bval y)"
  shows "0x20 \<le> bval x"
  using assms hex4_printable [of x r] by (auto simp: go_escape_def bval_def split: if_splits)

lemma go_quote_printable: "x \<in> set (go_quote html s) \<Longrightarrow> 0x20 \<le> bval x"
proof -
  have "\<forall>x\<in>set (go_quote_body html s). 0x20 \<le> bval x"
  proof (induction html s rule: go_quote_body.induct)
    case (2 html c s)
    obtain r n where d: "decode_rune (c # s) = (r, n)" by force
    have "0x20 \<le> bval x" if "x \<in> set (go_escape html r (take n (c # s)))" for x
    proof (cases "bval c < 0x80")
      case True
      then have "r = bval c" "n = 1" using d decode_rune_ascii [of c s] by simp_all
      then show ?thesis using that escape_printable [of x html r "[c]"] by simp
    next
      case False
      then have "\<forall>y\<in>set (take n (c # s)). 0x20 \<le> bval y" using decoded_high [of c _ s] d by fastforce
      then show ?thesis using escape_printable [OF that] by blast
    qed
    then show ?case using 2 d by (auto simp: bval_def)
  qed simp
  then show "x \<in> set (go_quote html s) \<Longrightarrow> 0x20 \<le> bval x" by (auto simp: go_quote_def dq_def bval_def)
qed

text \<open>The shell reads a here-document with a quoted delimiter as it is, up to the first line that is it.\<close>

definition here_document :: "string \<Rightarrow> string \<Rightarrow> string" where
  "here_document delimiter s = join [CHR 0x0A] (takeWhile (\<lambda>l. l \<noteq> delimiter) (split_byte (CHR 0x0A) s))"

lemma here_document_end:
  assumes "delimiter \<notin> set (split_byte (CHR 0x0A) s)" and "CHR 0x0A \<notin> set delimiter"
  shows "here_document delimiter (s @ CHR 0x0A # delimiter) = s"
proof -
  have "takeWhile (\<lambda>l. l \<noteq> delimiter) (split_byte (CHR 0x0A) s @ [delimiter]) = split_byte (CHR 0x0A) s"
    using assms(1) by (subst takeWhile_append2) auto
  then show ?thesis using assms(2) by (simp add: here_document_def split_byte_at split_byte_no_sep)
qed

lemma env_members_lines:
  assumes "ms \<noteq> []" and "\<forall>m\<in>set ms. CHR 0x0A \<notin> set m"
  shows "split_byte (CHR 0x0A) (join [CHR '','', CHR 0x0A] (map ((#) (CHR 0x09)) ms) @ [CHR 0x0A, CHR 0x7D]) =
    map (\<lambda>m. CHR 0x09 # m @ '','') (butlast ms) @ [CHR 0x09 # last ms, [CHR 0x7D]]"
  using assms
proof (induction ms)
  case (Cons m ms)
  have one: "split_byte (CHR 0x0A) (CHR 0x09 # m @ t @ CHR 0x0A # u) = (CHR 0x09 # m @ t) # split_byte (CHR 0x0A) u"
    if "CHR 0x0A \<notin> set t" for t u
    using split_byte_append [of "CHR 0x0A" "CHR 0x09 # m @ t" u] Cons.prems that by simp
  show ?case
  proof (cases ms)
    case Nil
    then show ?thesis using one [of "[]" "[CHR 0x7D]"] by simp
  next
    case (Cons m' ms')
    then show ?thesis using Cons.IH Cons.prems one [of "'',''"] by simp
  qed
qed simp

text \<open>The environment in the cache file is the one probed: no line of it ends the here-document early,
  whatever the variables hold.\<close>

theorem cache_document_whole:
  "here_document ''ENVJSON'' (marshal_env env @ [CHR 0x0A] @ ''ENVJSON'') = marshal_env env"
proof (cases "env = []")
  case True
  then show ?thesis by (simp add: marshal_env_def here_document_def)
next
  case False
  define ms where "ms = map (\<lambda>k. go_quote True k @ '': '' @ go_quote True (the (map_of env k))) (sorted_keys env)"
  have ms: "ms \<noteq> []" using False by (simp add: ms_def sorted_keys_def flip: length_greater_0_conv)
  have q: "CHR 0x0A \<notin> set (go_quote True k)" for k using go_quote_printable [of "CHR 0x0A" True k] by (auto simp: bval_def)
  then have lf: "\<forall>m\<in>set ms. CHR 0x0A \<notin> set m" by (auto simp: ms_def)
  have "marshal_env env = CHR 0x7B # CHR 0x0A # join [CHR '','', CHR 0x0A] (map ((#) (CHR 0x09)) ms) @ [CHR 0x0A, CHR 0x7D]"
    using False by (simp add: marshal_env_def ms_def comp_def)
  then have "split_byte (CHR 0x0A) (marshal_env env) =
      [CHR 0x7B] # map (\<lambda>m. CHR 0x09 # m @ '','') (butlast ms) @ [CHR 0x09 # last ms, [CHR 0x7D]]"
    using env_members_lines [OF ms lf] by simp
  then have "''ENVJSON'' \<notin> set (split_byte (CHR 0x0A) (marshal_env env))" by auto
  then show ?thesis using here_document_end [of "''ENVJSON''" "marshal_env env"] by simp
qed

end
