(* ===== verification/ConfigTypes.thy ===== *)
theory ConfigTypes
  imports Json
begin

text \<open>
  \<open>internal/config/types.go\<close>: a devcontainer.json as Go decodes it. The decoding is \<open>encoding/json\<close>'s, into
  values that may already hold something: a member goes to the field of its name, else to the first field
  whose name folds to it; null leaves a string as it is and clears a pointer, slice or map; a slice's elements
  are decoded over the ones there and a map's are added to it. \<open>None\<close> is a value of the wrong type. A nil and
  an empty slice or map are one, as every use reads them alike.
\<close>

subsection \<open>Decoding\<close>

type_synonym 'a decoder = "json \<Rightarrow> 'a \<Rightarrow> 'a option"

fun string_dec :: "string decoder" where
  "string_dec (JStr s) old = Some s"
| "string_dec JNull old = Some old"
| "string_dec v old = None"

fun bool_dec :: "bool decoder" where
  "bool_dec (JBool b) old = Some b"
| "bool_dec JNull old = Some old"
| "bool_dec v old = None"

text \<open>An \<open>int\<close>: the number's text must be an integer's, in range.\<close>

fun int_dec :: "int decoder" where
  "int_dec (JNum q) old =
     (if quotient_of q = (\<lfloor>q\<rfloor>, 1) \<and> - (2 ^ 63) \<le> \<lfloor>q\<rfloor> \<and> \<lfloor>q\<rfloor> < 2 ^ 63 then Some \<lfloor>q\<rfloor> else None)"
| "int_dec JNull old = Some old"
| "int_dec v old = None"

definition any_dec :: "json decoder" where
  "any_dec v old = Some v"

text \<open>A \<open>json.RawMessage\<close>: \<open>None\<close> is the empty one.\<close>

definition raw_dec :: "json option decoder" where
  "raw_dec v old = Some (Some v)"

fun ptr_dec :: "'a \<Rightarrow> 'a decoder \<Rightarrow> 'a option decoder" where
  "ptr_dec zero dec JNull old = Some None"
| "ptr_dec zero dec v old = map_option Some (dec v (case old of None \<Rightarrow> zero | Some x \<Rightarrow> x))"

fun elems_dec :: "'a \<Rightarrow> 'a decoder \<Rightarrow> json list \<Rightarrow> 'a list \<Rightarrow> 'a list option" where
  "elems_dec zero dec [] old = Some []"
| "elems_dec zero dec (v # vs) old =
     (case dec v (if old = [] then zero else hd old) of None \<Rightarrow> None
      | Some x \<Rightarrow> map_option ((#) x) (elems_dec zero dec vs (tl old)))"

fun slice_dec :: "'a \<Rightarrow> 'a decoder \<Rightarrow> 'a list decoder" where
  "slice_dec zero dec JNull old = Some []"
| "slice_dec zero dec (JArr vs) old = elems_dec zero dec vs old"
| "slice_dec zero dec v old = None"

fun members_dec :: "'a \<Rightarrow> 'a decoder \<Rightarrow> (string \<times> json) list \<Rightarrow> 'a gomap \<Rightarrow> 'a gomap option" where
  "members_dec zero dec [] old = Some old"
| "members_dec zero dec ((k, v) # m) old =
     (case dec v zero of None \<Rightarrow> None | Some x \<Rightarrow> members_dec zero dec m (aput k x old))"

fun map_dec :: "'a \<Rightarrow> 'a decoder \<Rightarrow> 'a gomap decoder" where
  "map_dec zero dec JNull old = Some []"
| "map_dec zero dec (JObj m) old = members_dec zero dec m old"
| "map_dec zero dec v old = None"

text \<open>A struct: its fields by name. The members come sorted, as \<open>Marshal\<close> writes a map.\<close>

type_synonym 'c field = "string \<times> 'c decoder"

definition fld :: "string \<Rightarrow> ('c \<Rightarrow> 'v) \<Rightarrow> (('v \<Rightarrow> 'v) \<Rightarrow> 'c \<Rightarrow> 'c) \<Rightarrow> 'v decoder \<Rightarrow> 'c field" where
  "fld name get upd dec = (name, \<lambda>v c. map_option (\<lambda>x. upd (\<lambda>_. x) c) (dec v (get c)))"

definition field_of :: "'c field list \<Rightarrow> string \<Rightarrow> 'c decoder option" where
  "field_of fs k = (case map_of fs k of Some d \<Rightarrow> Some d | None \<Rightarrow> map_option snd (find (\<lambda>f. equal_fold k (fst f)) fs))"

fun fields_dec :: "'c field list \<Rightarrow> (string \<times> json) list \<Rightarrow> 'c \<Rightarrow> 'c option" where
  "fields_dec fs [] c = Some c"
| "fields_dec fs ((k, v) # m) c =
     (case field_of fs k of None \<Rightarrow> fields_dec fs m c
      | Some dec \<Rightarrow> (case dec v c of None \<Rightarrow> None | Some c' \<Rightarrow> fields_dec fs m c'))"

fun struct_dec :: "'c field list \<Rightarrow> 'c decoder" where
  "struct_dec fs JNull c = Some c"
| "struct_dec fs (JObj m) c = fields_dec fs (sort_key fst m) c"
| "struct_dec fs v c = None"

subsection \<open>The parts of a configuration\<close>

text \<open>A string or strings; null is the empty string.\<close>

fun strings_dec :: "string list decoder" where
  "strings_dec (JStr s) old = Some [s]"
| "strings_dec JNull old = Some [[]]"
| "strings_dec v old = slice_dec [] string_dec v []"

record build =
  b_dockerfile :: string
  b_context :: string
  b_target :: string
  b_args :: "string gomap"
  b_cache_from :: "string list"
  b_options :: "string list"

definition empty_build :: build where
  "empty_build = \<lparr>b_dockerfile = [], b_context = [], b_target = [], b_args = [], b_cache_from = [], b_options = []\<rparr>"

definition build_fields :: "build field list" where
  "build_fields =
     [fld ''dockerfile'' b_dockerfile b_dockerfile_update string_dec,
      fld ''context'' b_context b_context_update string_dec,
      fld ''target'' b_target b_target_update string_dec,
      fld ''args'' b_args b_args_update (map_dec [] string_dec),
      fld ''cacheFrom'' b_cache_from b_cache_from_update strings_dec,
      fld ''options'' b_options b_options_update (slice_dec [] string_dec)]"

record port_attrs =
  pa_label :: string
  pa_protocol :: string
  pa_on_auto_forward :: string
  pa_require_local_port :: "bool option"
  pa_elevate_if_needed :: "bool option"

definition empty_port_attrs :: port_attrs where
  "empty_port_attrs = \<lparr>pa_label = [], pa_protocol = [], pa_on_auto_forward = [], pa_require_local_port = None,
     pa_elevate_if_needed = None\<rparr>"

definition port_attrs_fields :: "port_attrs field list" where
  "port_attrs_fields =
     [fld ''label'' pa_label pa_label_update string_dec,
      fld ''protocol'' pa_protocol pa_protocol_update string_dec,
      fld ''onAutoForward'' pa_on_auto_forward pa_on_auto_forward_update string_dec,
      fld ''requireLocalPort'' pa_require_local_port pa_require_local_port_update (ptr_dec False bool_dec),
      fld ''elevateIfNeeded'' pa_elevate_if_needed pa_elevate_if_needed_update (ptr_dec False bool_dec)]"

record host_requirements =
  hr_cpus :: "int option"
  hr_memory :: string
  hr_storage :: string
  hr_gpu :: "json option"

definition empty_host_requirements :: host_requirements where
  "empty_host_requirements = \<lparr>hr_cpus = None, hr_memory = [], hr_storage = [], hr_gpu = None\<rparr>"

definition host_requirements_fields :: "host_requirements field list" where
  "host_requirements_fields =
     [fld ''cpus'' hr_cpus hr_cpus_update (ptr_dec 0 int_dec),
      fld ''memory'' hr_memory hr_memory_update string_dec,
      fld ''storage'' hr_storage hr_storage_update string_dec,
      fld ''gpu'' hr_gpu hr_gpu_update raw_dec]"

record cfg_mount =
  cm_type :: string
  cm_source :: string
  cm_target :: string
  cm_external :: "bool option"
  cm_readonly :: "bool option"

definition empty_cfg_mount :: cfg_mount where
  "empty_cfg_mount = \<lparr>cm_type = [], cm_source = [], cm_target = [], cm_external = None, cm_readonly = None\<rparr>"

definition cfg_mount_fields :: "cfg_mount field list" where
  "cfg_mount_fields =
     [fld ''type'' cm_type cm_type_update string_dec,
      fld ''source'' cm_source cm_source_update string_dec,
      fld ''target'' cm_target cm_target_update string_dec,
      fld ''external'' cm_external cm_external_update (ptr_dec False bool_dec),
      fld ''readonly'' cm_readonly cm_readonly_update (ptr_dec False bool_dec)]"

datatype mount_or_string = MString string | MMount cfg_mount | MOther json

definition mount_dec :: "mount_or_string decoder" where
  "mount_dec v old =
     (case string_dec v [] of Some s \<Rightarrow> Some (MString s)
      | None \<Rightarrow> (case struct_dec cfg_mount_fields v empty_cfg_mount of
            Some m \<Rightarrow> Some (MMount m)
          | None \<Rightarrow> Some (MOther v)))"

definition customizations_dec :: "json gomap decoder" where
  "customizations_dec v old = Some (case v of JObj m \<Rightarrow> m | _ \<Rightarrow> [])"

subsection \<open>A configuration\<close>

record dev_container =
  dc_config_file_path :: string
  dc_workspace_mount_set :: bool
  dc_name :: string
  dc_forward_ports :: "json list"
  dc_app_port :: "json option"
  dc_ports_attributes :: "port_attrs gomap"
  dc_other_ports_attributes :: "port_attrs option"
  dc_run_args :: "string list"
  dc_shutdown_action :: string
  dc_override_command :: "bool option"
  dc_initialize_command :: json
  dc_on_create_command :: json
  dc_update_content_command :: json
  dc_post_create_command :: json
  dc_post_start_command :: json
  dc_post_attach_command :: json
  dc_wait_for :: string
  dc_workspace_folder :: string
  dc_workspace_mount :: string
  dc_mounts :: "mount_or_string list"
  dc_container_env :: "string gomap"
  dc_container_user :: string
  dc_init :: "bool option"
  dc_privileged :: "bool option"
  dc_cap_add :: "string list"
  dc_security_opt :: "string list"
  dc_remote_env :: "string option gomap"
  dc_remote_user :: string
  dc_update_remote_user_uid :: "bool option"
  dc_user_env_probe :: string
  dc_features :: "json gomap"
  dc_override_feature_install_order :: "string list"
  dc_host_requirements :: "host_requirements option"
  dc_customizations :: "json gomap"
  dc_secrets :: "json gomap"
  dc_image :: string
  dc_docker_file :: string
  dc_build :: "build option"
  dc_context :: string
  dc_docker_compose_file :: "string list"
  dc_service :: string
  dc_run_services :: "string list"
  dc_extensions :: json
  dc_settings :: json
  dc_dev_port :: json

definition empty_dev_container :: dev_container where
  "empty_dev_container = \<lparr>dc_config_file_path = [], dc_workspace_mount_set = False, dc_name = [],
     dc_forward_ports = [], dc_app_port = None, dc_ports_attributes = [], dc_other_ports_attributes = None,
     dc_run_args = [], dc_shutdown_action = [], dc_override_command = None, dc_initialize_command = JNull,
     dc_on_create_command = JNull, dc_update_content_command = JNull, dc_post_create_command = JNull,
     dc_post_start_command = JNull, dc_post_attach_command = JNull, dc_wait_for = [], dc_workspace_folder = [],
     dc_workspace_mount = [], dc_mounts = [], dc_container_env = [], dc_container_user = [], dc_init = None,
     dc_privileged = None, dc_cap_add = [], dc_security_opt = [], dc_remote_env = [], dc_remote_user = [],
     dc_update_remote_user_uid = None, dc_user_env_probe = [], dc_features = [],
     dc_override_feature_install_order = [], dc_host_requirements = None, dc_customizations = [],
     dc_secrets = [], dc_image = [], dc_docker_file = [], dc_build = None, dc_context = [],
     dc_docker_compose_file = [], dc_service = [], dc_run_services = [], dc_extensions = JNull,
     dc_settings = JNull, dc_dev_port = JNull\<rparr>"

definition dev_container_fields :: "dev_container field list" where
  "dev_container_fields =
     [fld ''configFilePath'' dc_config_file_path dc_config_file_path_update string_dec,
      fld ''name'' dc_name dc_name_update string_dec,
      fld ''forwardPorts'' dc_forward_ports dc_forward_ports_update (slice_dec JNull any_dec),
      fld ''appPort'' dc_app_port dc_app_port_update raw_dec,
      fld ''portsAttributes'' dc_ports_attributes dc_ports_attributes_update
        (map_dec empty_port_attrs (struct_dec port_attrs_fields)),
      fld ''otherPortsAttributes'' dc_other_ports_attributes dc_other_ports_attributes_update
        (ptr_dec empty_port_attrs (struct_dec port_attrs_fields)),
      fld ''runArgs'' dc_run_args dc_run_args_update (slice_dec [] string_dec),
      fld ''shutdownAction'' dc_shutdown_action dc_shutdown_action_update string_dec,
      fld ''overrideCommand'' dc_override_command dc_override_command_update (ptr_dec False bool_dec),
      fld ''initializeCommand'' dc_initialize_command dc_initialize_command_update any_dec,
      fld ''onCreateCommand'' dc_on_create_command dc_on_create_command_update any_dec,
      fld ''updateContentCommand'' dc_update_content_command dc_update_content_command_update any_dec,
      fld ''postCreateCommand'' dc_post_create_command dc_post_create_command_update any_dec,
      fld ''postStartCommand'' dc_post_start_command dc_post_start_command_update any_dec,
      fld ''postAttachCommand'' dc_post_attach_command dc_post_attach_command_update any_dec,
      fld ''waitFor'' dc_wait_for dc_wait_for_update string_dec,
      fld ''workspaceFolder'' dc_workspace_folder dc_workspace_folder_update string_dec,
      fld ''workspaceMount'' dc_workspace_mount dc_workspace_mount_update string_dec,
      fld ''mounts'' dc_mounts dc_mounts_update (slice_dec (MOther JNull) mount_dec),
      fld ''containerEnv'' dc_container_env dc_container_env_update (map_dec [] string_dec),
      fld ''containerUser'' dc_container_user dc_container_user_update string_dec,
      fld ''init'' dc_init dc_init_update (ptr_dec False bool_dec),
      fld ''privileged'' dc_privileged dc_privileged_update (ptr_dec False bool_dec),
      fld ''capAdd'' dc_cap_add dc_cap_add_update (slice_dec [] string_dec),
      fld ''securityOpt'' dc_security_opt dc_security_opt_update (slice_dec [] string_dec),
      fld ''remoteEnv'' dc_remote_env dc_remote_env_update (map_dec None (ptr_dec [] string_dec)),
      fld ''remoteUser'' dc_remote_user dc_remote_user_update string_dec,
      fld ''updateRemoteUserUID'' dc_update_remote_user_uid dc_update_remote_user_uid_update (ptr_dec False bool_dec),
      fld ''userEnvProbe'' dc_user_env_probe dc_user_env_probe_update string_dec,
      fld ''features'' dc_features dc_features_update (map_dec JNull any_dec),
      fld ''overrideFeatureInstallOrder'' dc_override_feature_install_order dc_override_feature_install_order_update
        (slice_dec [] string_dec),
      fld ''hostRequirements'' dc_host_requirements dc_host_requirements_update
        (ptr_dec empty_host_requirements (struct_dec host_requirements_fields)),
      fld ''customizations'' dc_customizations dc_customizations_update customizations_dec,
      fld ''secrets'' dc_secrets dc_secrets_update (map_dec JNull any_dec),
      fld ''image'' dc_image dc_image_update string_dec,
      fld ''dockerFile'' dc_docker_file dc_docker_file_update string_dec,
      fld ''build'' dc_build dc_build_update (ptr_dec empty_build (struct_dec build_fields)),
      fld ''context'' dc_context dc_context_update string_dec,
      fld ''dockerComposeFile'' dc_docker_compose_file dc_docker_compose_file_update strings_dec,
      fld ''service'' dc_service dc_service_update string_dec,
      fld ''runServices'' dc_run_services dc_run_services_update (slice_dec [] string_dec),
      fld ''extensions'' dc_extensions dc_extensions_update any_dec,
      fld ''settings'' dc_settings dc_settings_update any_dec,
      fld ''devPort'' dc_dev_port dc_dev_port_update any_dec]"

subsection \<open>Which kind of configuration\<close>

definition config_dockerfile :: "dev_container \<Rightarrow> string" where
  "config_dockerfile c =
     (if dc_docker_file c \<noteq> [] then dc_docker_file c
      else (case dc_build c of None \<Rightarrow> [] | Some b \<Rightarrow> b_dockerfile b))"

definition build_context :: "dev_container \<Rightarrow> string" where
  "build_context c =
     (if dc_context c \<noteq> [] then dc_context c
      else (case dc_build c of None \<Rightarrow> [] | Some b \<Rightarrow> b_context b))"

definition is_dockerfile_config :: "dev_container \<Rightarrow> bool" where
  "is_dockerfile_config c \<longleftrightarrow>
     dc_docker_file c \<noteq> [] \<or> (case dc_build c of None \<Rightarrow> False | Some b \<Rightarrow> b_dockerfile b \<noteq> [])"

definition is_compose_config :: "dev_container \<Rightarrow> bool" where
  "is_compose_config c \<longleftrightarrow> dc_docker_compose_file c \<noteq> []"

definition is_image_config :: "dev_container \<Rightarrow> bool" where
  "is_image_config c \<longleftrightarrow> \<not> is_dockerfile_config c \<and> \<not> is_compose_config c"

subsection \<open>Commands and mounts\<close>

definition command_string :: "json \<Rightarrow> string option" where
  "command_string v = (case v of JStr s \<Rightarrow> Some s | _ \<Rightarrow> None)"

definition command_strings :: "json \<Rightarrow> string list option" where
  "command_strings v = (case v of JArr vs \<Rightarrow> those (map command_string vs) | _ \<Rightarrow> None)"

definition command_map :: "json \<Rightarrow> json gomap option" where
  "command_map v = (case v of JObj m \<Rightarrow> Some m | _ \<Rightarrow> None)"

definition mount_as_string :: "mount_or_string \<Rightarrow> string option" where
  "mount_as_string m = (case m of MString s \<Rightarrow> Some s | MOther (JStr s) \<Rightarrow> Some s | _ \<Rightarrow> None)"

definition mount_as_mount :: "mount_or_string \<Rightarrow> cfg_mount option" where
  "mount_as_mount m = (case m of MMount c \<Rightarrow> Some c | _ \<Rightarrow> None)"

subsection \<open>The deprecated properties\<close>

fun truthy :: "json \<Rightarrow> bool" where
  "truthy JNull = False"
| "truthy (JBool b) = b"
| "truthy (JStr s) = (s \<noteq> [])"
| "truthy (JNum q) = (q \<noteq> 0)"
| "truthy v = True"

text \<open>A missing member reads as nil.\<close>

definition member_or_nil :: "json gomap \<Rightarrow> string \<Rightarrow> json" where
  "member_or_nil m k = (case map_of m k of None \<Rightarrow> JNull | Some v \<Rightarrow> v)"

definition object_or_new :: "json \<Rightarrow> json gomap" where
  "object_or_new v = (case v of JObj m \<Rightarrow> m | _ \<Rightarrow> [])"

definition array_or_nil :: "json \<Rightarrow> json list" where
  "array_or_nil v = (case v of JArr vs \<Rightarrow> vs | _ \<Rightarrow> [])"

definition move_extensions :: "json gomap \<times> json gomap \<Rightarrow> json gomap \<times> json gomap" where
  "move_extensions acc =
     (case acc of (out, vscode) \<Rightarrow>
        (let ext = member_or_nil out ''extensions'';
             added = (case ext of JArr vs \<Rightarrow> vs | _ \<Rightarrow> [ext])
         in if truthy ext
            then (adel ''extensions'' out,
                  aput ''extensions'' (JArr (array_or_nil (member_or_nil vscode ''extensions'') @ added)) vscode)
            else acc))"

definition move_settings :: "json gomap \<times> json gomap \<Rightarrow> json gomap \<times> json gomap" where
  "move_settings acc =
     (case acc of (out, vscode) \<Rightarrow>
        (let set = member_or_nil out ''settings''
         in if truthy set
            then (adel ''settings'' out,
                  aput ''settings''
                    (JObj (acopy (acopy [] (object_or_new set)) (object_or_new (member_or_nil vscode ''settings'')))) vscode)
            else acc))"

definition move_dev_port :: "json gomap \<times> json gomap \<Rightarrow> json gomap \<times> json gomap" where
  "move_dev_port acc =
     (case acc of (out, vscode) \<Rightarrow>
        (case map_of out ''devPort'' of None \<Rightarrow> acc
         | Some p \<Rightarrow> if map_of vscode ''devPort'' = None
             then (adel ''devPort'' out, aput ''devPort'' p vscode) else acc))"

definition has_old_properties :: "json gomap \<Rightarrow> bool" where
  "has_old_properties raw \<longleftrightarrow>
     truthy (member_or_nil raw ''extensions'') \<or> truthy (member_or_nil raw ''settings'') \<or> map_of raw ''devPort'' \<noteq> None"

definition update_from_old_properties :: "json gomap \<Rightarrow> json gomap" where
  "update_from_old_properties raw =
     (if \<not> has_old_properties raw then raw
      else (let customizations = object_or_new (member_or_nil raw ''customizations'');
                vscode = object_or_new (member_or_nil customizations ''vscode'')
            in case move_dev_port (move_settings (move_extensions (raw, vscode))) of
                 (out, vs) \<Rightarrow> aput ''customizations'' (JObj (aput ''vscode'' (JObj vs) customizations)) out))"

subsection \<open>The migration moves and keeps\<close>

definition vscode_of :: "json gomap \<Rightarrow> json gomap" where
  "vscode_of raw = object_or_new (member_or_nil (object_or_new (member_or_nil raw ''customizations'')) ''vscode'')"

lemma member_simps [simp]:
  "member_or_nil (aput k v m) k' = (if k = k' then v else member_or_nil m k')"
  "member_or_nil (adel k m) k' = (if k = k' then JNull else member_or_nil m k')"
  "object_or_new (JObj m) = m"
  by (simp_all add: member_or_nil_def object_or_new_def)

lemma aput_same: "map_of m k = Some v \<Longrightarrow> aput k v m = m"
  by (induction m) (auto split: if_splits)

definition moved :: "json gomap \<Rightarrow> json gomap \<times> json gomap" where
  "moved raw = move_dev_port (move_settings (move_extensions (raw, vscode_of raw)))"

lemma update_moved:
  "update_from_old_properties raw =
   (if \<not> has_old_properties raw then raw
    else aput ''customizations'' (JObj (aput ''vscode'' (JObj (snd (moved raw)))
      (object_or_new (member_or_nil raw ''customizations'')))) (fst (moved raw)))"
  by (simp add: update_from_old_properties_def moved_def vscode_of_def Let_def case_prod_unfold)

lemma vscode_update:
  "vscode_of (update_from_old_properties raw) = (if has_old_properties raw then snd (moved raw) else vscode_of raw)"
  by (simp add: update_moved vscode_of_def)

lemma moved_parts:
  fixes raw
  defines "vs \<equiv> vscode_of raw" and "ext \<equiv> member_or_nil raw ''extensions''" and "st \<equiv> member_or_nil raw ''settings''"
  shows "member_or_nil (snd (moved raw)) ''extensions'' =
      (if truthy ext then JArr (array_or_nil (member_or_nil vs ''extensions'') @ (case ext of JArr es \<Rightarrow> es | _ \<Rightarrow> [ext]))
       else member_or_nil vs ''extensions'')"
    and "member_or_nil (snd (moved raw)) ''settings'' =
      (if truthy st then JObj (acopy (acopy [] (object_or_new st)) (object_or_new (member_or_nil vs ''settings'')))
       else member_or_nil vs ''settings'')"
    and "map_of (snd (moved raw)) ''devPort'' = (case map_of vs ''devPort'' of None \<Rightarrow> map_of raw ''devPort'' | Some p \<Rightarrow> Some p)"
    and "map_of (fst (moved raw)) ''extensions'' = (if truthy ext then None else map_of raw ''extensions'')"
    and "map_of (fst (moved raw)) ''settings'' = (if truthy st then None else map_of raw ''settings'')"
    and "map_of (fst (moved raw)) ''devPort'' = (if map_of vs ''devPort'' = None then None else map_of raw ''devPort'')"
    and "k \<notin> {''extensions'', ''settings'', ''devPort''} \<Longrightarrow>
      map_of (fst (moved raw)) k = map_of raw k \<and> map_of (snd (moved raw)) k = map_of vs k"
  unfolding assms
  by (auto simp: moved_def move_dev_port_def move_settings_def move_extensions_def Let_def split: option.splits)

lemma has_old_update: "has_old_properties (update_from_old_properties raw) \<Longrightarrow>
    has_old_properties raw \<and> map_of (fst (moved raw)) ''devPort'' \<noteq> None \<and>
    \<not> truthy (member_or_nil (update_from_old_properties raw) ''extensions'') \<and>
    \<not> truthy (member_or_nil (update_from_old_properties raw) ''settings'')"
  using moved_parts [where raw = raw]
  by (auto simp: update_moved has_old_properties_def member_or_nil_def split: if_splits)

lemma migration_idem: "update_from_old_properties (update_from_old_properties raw) = update_from_old_properties raw"
proof (cases "has_old_properties (update_from_old_properties raw)")
  case False
  then show ?thesis by (simp add: update_from_old_properties_def)
next
  case True
  define u where "u = update_from_old_properties raw"
  note t = has_old_update [OF True, folded u_def]
  have vs: "vscode_of u = snd (moved raw)" using t by (simp add: u_def vscode_update)
  have p: "map_of (snd (moved raw)) ''devPort'' \<noteq> None"
    using moved_parts(3,6) [where raw = raw] t by (auto split: option.splits if_splits)
  have "move_extensions (u, snd (moved raw)) = (u, snd (moved raw))" using t by (simp add: move_extensions_def Let_def)
  moreover have "move_settings (u, snd (moved raw)) = (u, snd (moved raw))" using t by (simp add: move_settings_def Let_def)
  moreover have "move_dev_port (u, snd (moved raw)) = (u, snd (moved raw))"
    using p by (auto simp: move_dev_port_def split: option.split)
  ultimately have m: "moved u = (u, snd (moved raw))" by (simp add: moved_def [of u] vs)
  have c: "map_of u ''customizations'' = Some (JObj (aput ''vscode'' (JObj (snd (moved raw))) (object_or_new (member_or_nil raw ''customizations''))))"
    using t by (simp add: u_def update_moved)
  then have c': "member_or_nil u ''customizations'' = JObj (aput ''vscode'' (JObj (snd (moved raw))) (object_or_new (member_or_nil raw ''customizations'')))"
    by (simp add: member_or_nil_def)
  have "aput ''vscode'' (JObj (snd (moved raw))) (aput ''vscode'' (JObj (snd (moved raw))) w) =
      aput ''vscode'' (JObj (snd (moved raw))) w" for w by (rule aput_same) simp
  then show ?thesis unfolding u_def [symmetric]
    using True m c c' by (simp add: update_moved [of u] u_def [symmetric] aput_same)
qed

lemma migration_facts:
  fixes raw
  defines "u \<equiv> update_from_old_properties raw" and "vs \<equiv> vscode_of raw"
    and "ext \<equiv> member_or_nil raw ''extensions''" and "st \<equiv> member_or_nil raw ''settings''"
  shows "(if truthy ext
      then member_or_nil (vscode_of u) ''extensions'' =
        JArr (array_or_nil (member_or_nil vs ''extensions'') @ (case ext of JArr es \<Rightarrow> es | _ \<Rightarrow> [ext]))
      else member_or_nil (vscode_of u) ''extensions'' = member_or_nil vs ''extensions'') \<and>
    (if truthy st
      then member_or_nil (vscode_of u) ''settings'' =
        JObj (acopy (acopy [] (object_or_new st)) (object_or_new (member_or_nil vs ''settings'')))
      else member_or_nil (vscode_of u) ''settings'' = member_or_nil vs ''settings'') \<and>
    map_of (vscode_of u) ''devPort'' = (case map_of vs ''devPort'' of None \<Rightarrow> map_of raw ''devPort'' | Some p \<Rightarrow> Some p) \<and>
    list_all (\<lambda>k. member_or_nil u k = JNull \<or> \<not> truthy (member_or_nil u k)) [''extensions'', ''settings''] \<and>
    map_of (vscode_of u) |` (- {''extensions'', ''settings'', ''devPort''}) =
      map_of vs |` (- {''extensions'', ''settings'', ''devPort''}) \<and>
    map_of u |` (- {''extensions'', ''settings'', ''devPort'', ''customizations''}) =
      map_of raw |` (- {''extensions'', ''settings'', ''devPort'', ''customizations''}) \<and>
    map_of (object_or_new (member_or_nil u ''customizations'')) |` (- {''vscode''}) =
      map_of (object_or_new (member_or_nil raw ''customizations'')) |` (- {''vscode''}) \<and>
    map_of u ''extensions'' = (if truthy ext then None else map_of raw ''extensions'') \<and>
    map_of u ''settings'' = (if truthy st then None else map_of raw ''settings'') \<and>
    map_of u ''devPort'' = (if map_of vs ''devPort'' = None then None else map_of raw ''devPort'') \<and>
    (if \<not> truthy ext \<and> \<not> truthy st \<and> map_of raw ''devPort'' = None then u = raw
      else map_of u ''customizations'' = Some (JObj (object_or_new (member_or_nil u ''customizations'')))) \<and>
    update_from_old_properties u = u"
proof (cases "has_old_properties raw")
  case False
  then have "u = raw" by (simp add: u_def update_from_old_properties_def)
  then show ?thesis using False unfolding assms
    by (auto simp: has_old_properties_def update_from_old_properties_def split: option.split)
next
  case True
  have v: "vscode_of u = snd (moved raw)" using True by (simp add: u_def vscode_update)
  have u: "map_of u k = map_of (fst (moved raw)) k" if "k \<noteq> ''customizations''" for k
    using True that by (simp add: u_def update_moved)
  have mem: "member_or_nil u k = member_or_nil (fst (moved raw)) k" if "k \<noteq> ''customizations''" for k
    using u [OF that] by (simp add: member_or_nil_def)
  note p = moved_parts [where raw = raw]
  have "map_of (snd (moved raw)) |` (- {''extensions'', ''settings'', ''devPort''}) =
      map_of vs |` (- {''extensions'', ''settings'', ''devPort''})"
    using p(7) by (auto simp: vs_def restrict_map_def fun_eq_iff)
  moreover have "map_of u |` (- {''extensions'', ''settings'', ''devPort'', ''customizations''}) =
      map_of raw |` (- {''extensions'', ''settings'', ''devPort'', ''customizations''})"
    using p(7) u by (auto simp: restrict_map_def fun_eq_iff)
  moreover have "\<not> truthy (member_or_nil u ''extensions'')" "\<not> truthy (member_or_nil u ''settings'')"
    using p(4,5) mem [of "''extensions''"] mem [of "''settings''"] by (auto simp: member_or_nil_def split: if_splits)
  moreover have "map_of (object_or_new (member_or_nil u ''customizations'')) |` (- {''vscode''}) =
      map_of (object_or_new (member_or_nil raw ''customizations'')) |` (- {''vscode''})"
    using True by (simp add: u_def update_moved restrict_map_def fun_eq_iff)
  moreover have "map_of u k = map_of (fst (moved raw)) k" if "k \<in> {''extensions'', ''settings'', ''devPort''}" for k
    using u [of k] that by auto
  moreover have "map_of u ''customizations'' = Some (JObj (object_or_new (member_or_nil u ''customizations'')))"
    using True by (simp add: u_def update_moved member_or_nil_def object_or_new_def)
  moreover have "(\<not> truthy ext \<and> \<not> truthy st \<and> map_of raw ''devPort'' = None) = False"
    using True unfolding ext_def st_def has_old_properties_def by simp
  ultimately show ?thesis using p(1-6) migration_idem [of raw] unfolding v
    unfolding u_def vs_def ext_def st_def by (simp only: if_False) simp
qed

text \<open>C15. The deprecated properties move and nothing else changes: \<open>extensions\<close> go behind those of
  \<open>customizations.vscode\<close>, \<open>settings\<close> under its own, whose keys win, \<open>devPort\<close> only where it has none.
  What moves leaves the top level. Every other top-level property, every other tool's entry of an
  object \<open>customizations\<close> and every other setting of vscode stays; a configuration without deprecated
  properties is left as it is, and a second migration changes nothing.\<close>

theorem migration_spec:
  "let u = update_from_old_properties raw; vs = vscode_of raw; ext = member_or_nil raw ''extensions'';
    st = member_or_nil raw ''settings''
  in (if truthy ext
      then member_or_nil (vscode_of u) ''extensions'' =
        JArr (array_or_nil (member_or_nil vs ''extensions'') @ (case ext of JArr es \<Rightarrow> es | _ \<Rightarrow> [ext]))
      else member_or_nil (vscode_of u) ''extensions'' = member_or_nil vs ''extensions'') \<and>
    (if truthy st
      then member_or_nil (vscode_of u) ''settings'' =
        JObj (acopy (acopy [] (object_or_new st)) (object_or_new (member_or_nil vs ''settings'')))
      else member_or_nil (vscode_of u) ''settings'' = member_or_nil vs ''settings'') \<and>
    map_of (vscode_of u) ''devPort'' = (case map_of vs ''devPort'' of None \<Rightarrow> map_of raw ''devPort'' | Some p \<Rightarrow> Some p) \<and>
    list_all (\<lambda>k. \<not> truthy (member_or_nil u k)) [''extensions'', ''settings''] \<and>
    map_of (vscode_of u) |` (- {''extensions'', ''settings'', ''devPort''}) =
      map_of vs |` (- {''extensions'', ''settings'', ''devPort''}) \<and>
    map_of u |` (- {''extensions'', ''settings'', ''devPort'', ''customizations''}) =
      map_of raw |` (- {''extensions'', ''settings'', ''devPort'', ''customizations''}) \<and>
    map_of (object_or_new (member_or_nil u ''customizations'')) |` (- {''vscode''}) =
      map_of (object_or_new (member_or_nil raw ''customizations'')) |` (- {''vscode''}) \<and>
    map_of u ''extensions'' = (if truthy ext then None else map_of raw ''extensions'') \<and>
    map_of u ''settings'' = (if truthy st then None else map_of raw ''settings'') \<and>
    map_of u ''devPort'' = (if map_of vs ''devPort'' = None then None else map_of raw ''devPort'') \<and>
    (if \<not> truthy ext \<and> \<not> truthy st \<and> map_of raw ''devPort'' = None then u = raw
      else map_of u ''customizations'' = Some (JObj (object_or_new (member_or_nil u ''customizations'')))) \<and>
    update_from_old_properties u = u"
  unfolding Let_def using migration_facts [of raw] by auto

end
