(* ===== verification/Loader.thy ===== *)
theory Loader
  imports ConfigTypes GoPath Varsub RunArgs "HOL-Library.Sublist"
begin

text \<open>
  \<open>internal/config/loader.go\<close>: finding, reading and merging a configuration, and where its workspace is
  mounted. The host's files are a parameter, as are the JSONC parser (\<open>parse\<close>) and the member names it
  lists (\<open>names\<close>). Paths are POSIX paths.
\<close>

datatype read_error = NotExist | ReadFailed string

datatype file_kind = DirFile | RegularFile | OtherFile

record host_files =
  hf_read :: "string \<Rightarrow> (read_error, string) res"
  hf_kind :: "string \<Rightarrow> file_kind option"

definition is_file :: "host_files \<Rightarrow> string \<Rightarrow> bool" where
  "is_file hf p = (case hf_kind hf p of None \<Rightarrow> False | Some k \<Rightarrow> k \<noteq> DirFile)"

definition pfs_resolve :: "string \<Rightarrow> string \<Rightarrow> string" where
  "pfs_resolve base rel = (if is_abs rel then rel else path_join [base, rel])"

record workspace =
  ws_is_file :: bool
  ws_path :: string
  ws_root :: string
  ws_config_folder :: string

definition workspace_from_path :: "string \<Rightarrow> workspace" where
  "workspace_from_path folder =
     (if path_ext folder = ''.code-workspace''
      then \<lparr>ws_is_file = True, ws_path = folder, ws_root = path_dir folder, ws_config_folder = path_dir folder\<rparr>
      else \<lparr>ws_is_file = False, ws_path = folder, ws_root = folder, ws_config_folder = folder\<rparr>)"

definition find_config_file :: "host_files \<Rightarrow> string \<Rightarrow> string" where
  "find_config_file hf folder =
     (case find (is_file hf) [path_join [folder, ''.devcontainer'', ''devcontainer.json''],
                              path_join [folder, ''.devcontainer.json'']] of
        None \<Rightarrow> [] | Some c \<Rightarrow> c)"

subsection \<open>The git root\<close>

definition has_git :: "host_files \<Rightarrow> string \<Rightarrow> bool" where
  "has_git hf dir = (case hf_kind hf (path_join [dir, ''.git'']) of None \<Rightarrow> False | Some k \<Rightarrow> k = DirFile \<or> k = RegularFile)"

function git_root_from :: "host_files \<Rightarrow> string \<Rightarrow> string \<Rightarrow> string" where
  "git_root_from hf dir stop_at =
     (if has_git hf dir then dir
      else if dir = stop_at then []
      else if path_dir dir = dir then []
      else git_root_from hf (path_dir dir) stop_at)"
  by pat_completeness auto
termination
  by (relation "measure (\<lambda>(hf, dir, s). path_height dir)") (auto intro: path_dir_height)

declare git_root_from.simps [simp del]

definition detect_git_root_until :: "host_files \<Rightarrow> string \<Rightarrow> string \<Rightarrow> string" where
  "detect_git_root_until hf dir stop_at =
     git_root_from hf (path_clean dir) (if stop_at \<noteq> [] then path_clean stop_at else stop_at)"

definition detect_git_root :: "host_files \<Rightarrow> string \<Rightarrow> string" where
  "detect_git_root hf dir = detect_git_root_until hf dir []"

subsection \<open>The workspace mount\<close>

definition bind_mount :: "string \<Rightarrow> string \<Rightarrow> string \<Rightarrow> string" where
  "bind_mount source targ consistency =
     (let sq = (if CHR '','' \<in> set source then dq else []);
          tq = (if CHR '','' \<in> set targ then dq else [])
      in ''type=bind,'' @ sq @ ''source='' @ source @ sq @ '','' @ tq @ ''target='' @ targ @ tq @ consistency)"

fun gitdir_of_lines :: "string list \<Rightarrow> string option" where
  "gitdir_of_lines [] = None"
| "gitdir_of_lines (l # ls) =
     (case cut_prefix (trim_right l [CHR 0x0D]) ''gitdir:'' of
        Some rest \<Rightarrow> Some (trim_space rest)
      | None \<Rightarrow> gitdir_of_lines ls)"

definition parse_gitdir :: "string \<Rightarrow> string option" where
  "parse_gitdir content = gitdir_of_lines (split_byte (CHR 0x0A) content)"

text \<open>The host's path segments from the mount folder up to the directory that also holds the common dir.\<close>

function mount_segments :: "string \<Rightarrow> string \<Rightarrow> string list \<Rightarrow> string list" where
  "mount_segments common cur segs =
     (if \<not> has_prefix common (cur @ ''/'') \<and> cur \<noteq> path_dir cur
      then mount_segments common (path_dir cur) (path_base cur # segs) else segs)"
  by pat_completeness auto
termination
  by (relation "measure (\<lambda>(c, cur, s). path_height cur)") (auto intro: path_dir_height)

declare mount_segments.simps [simp del]

definition worktree_common_dir_mount :: "host_files \<Rightarrow> string \<Rightarrow> string \<Rightarrow> (string \<times> string) option" where
  "worktree_common_dir_mount hf host consistency =
     (if hf_kind hf (path_join [host, ''.git'']) \<noteq> Some RegularFile then None
      else (case hf_read hf (path_join [host, ''.git'']) of
          Inl e \<Rightarrow> None
        | Inr content \<Rightarrow>
            (case parse_gitdir content of
               None \<Rightarrow> None
             | Some gitdir \<Rightarrow>
                 if is_abs gitdir then None
                 else (let common = path_clean (path_join [host, gitdir, ''..'', ''..'']);
                           folder = path_join (''/workspaces'' # mount_segments common host []);
                           container_common = path_clean (path_join [folder, gitdir, ''..'', ''..''])
                       in Some (folder, bind_mount common container_common consistency)))))"

record workspace_config =
  wc_folder :: string
  wc_mount :: string
  wc_additional_mounts :: "string list"
  wc_no_mount :: bool

record mount_options =
  mo_git_root :: bool
  mo_worktree_common_dir :: bool

definition mount_consistency_suffix :: "string \<Rightarrow> string" where
  "mount_consistency_suffix goos = (if goos \<noteq> ''linux'' then '',consistency=consistent'' else [])"

definition mount_source_folder :: "host_files \<Rightarrow> string \<Rightarrow> bool \<Rightarrow> string" where
  "mount_source_folder hf folder git_root =
     (if git_root \<and> detect_git_root hf folder \<noteq> [] then detect_git_root hf folder else folder)"

text \<open>The container's mount folder and the extra mount of a worktree.\<close>

definition mount_folder ::
  "host_files \<Rightarrow> string \<Rightarrow> dev_container \<Rightarrow> mount_options \<Rightarrow> string \<Rightarrow> string \<times> string list" where
  "mount_folder hf goos c opts source =
     (let has_mount = dc_workspace_mount c \<noteq> [] \<or> dc_workspace_mount_set c;
          computed = dc_workspace_folder c = [] \<or> \<not> has_mount;
          worktree = (if computed \<and> mo_git_root opts \<and> mo_worktree_common_dir opts
                      then worktree_common_dir_mount hf source (mount_consistency_suffix goos) else None)
      in case worktree of
           Some (folder, extra) \<Rightarrow> (folder, [extra])
         | None \<Rightarrow> (''/workspaces/'' @ path_base source, []))"

definition workspace_in_mount :: "string \<Rightarrow> string \<Rightarrow> string \<Rightarrow> string" where
  "workspace_in_mount source ws folder =
     (if source \<noteq> ws
      then (case path_rel source ws of None \<Rightarrow> folder | Some rel \<Rightarrow> path_join [folder, rel])
      else folder)"

definition compute_workspace_config ::
  "host_files \<Rightarrow> string \<Rightarrow> workspace \<Rightarrow> dev_container \<Rightarrow> mount_options \<Rightarrow> workspace_config" where
  "compute_workspace_config hf goos w c opts =
     (if is_compose_config c
      then \<lparr>wc_folder = (if dc_workspace_folder c = [] then ''/'' else dc_workspace_folder c), wc_mount = [],
             wc_additional_mounts = [], wc_no_mount = False\<rparr>
      else if ws_root w = []
      then \<lparr>wc_folder = dc_workspace_folder c, wc_mount = dc_workspace_mount c, wc_additional_mounts = [],
             wc_no_mount = False\<rparr>
      else (let source = mount_source_folder hf (ws_root w) (mo_git_root opts) in
            case mount_folder hf goos c opts source of
              (folder, extra) \<Rightarrow>
                \<lparr>wc_folder = (if dc_workspace_folder c \<noteq> [] then dc_workspace_folder c
                    else workspace_in_mount source (ws_root w) folder),
                  wc_mount = (if dc_workspace_mount c \<noteq> [] \<or> dc_workspace_mount_set c then dc_workspace_mount c
                    else bind_mount source folder (mount_consistency_suffix goos)),
                  wc_additional_mounts = extra, wc_no_mount = False\<rparr>))"

subsection \<open>Merging an override\<close>

text \<open>A nil map is \<open>None\<close>.\<close>

function merge_members :: "json gomap \<Rightarrow> json gomap \<Rightarrow> json gomap" where
  "merge_members out [] = out"
| "merge_members out ((k, ov) # m) =
     merge_members
       (case (map_of out k, ov) of
          (Some (JObj bm), JObj om) \<Rightarrow> aput k (JObj (merge_members bm om)) out
        | _ \<Rightarrow> aput k ov out) m"
  by pat_completeness auto
termination
  by (relation "measure (\<lambda>(out, m). size (JObj m))") auto

definition deep_merge_config :: "json gomap option \<Rightarrow> json gomap option \<Rightarrow> json gomap option" where
  "deep_merge_config base over =
     (case (base, over) of
        (None, _) \<Rightarrow> over
      | (_, None) \<Rightarrow> base
      | (Some b, Some ov) \<Rightarrow> Some (merge_members b ov))"

subsection \<open>Loading\<close>

datatype load_error =
    NotFound string
  | NotObject string
  | ParseConfig string string
  | ParseOverride string string
  | ReadConfig string read_error
  | ReadOverride string read_error
  | BadConfig
  | BadSubstitution
  | Unresolved sub_error

record host =
  h_files :: host_files
  h_environ :: "string list"
  h_goos :: string

record load_result =
  lr_config :: dev_container
  lr_raw :: "json gomap"
  lr_raw_config :: "json gomap"
  lr_workspace :: workspace_config
  lr_host_sub :: host_ctx
  lr_key_order :: "string list"

definition env_map :: "string list \<Rightarrow> string gomap" where
  "env_map entries =
     foldl (\<lambda>m e. case cut_byte (CHR ''='') e of (k, v, found) \<Rightarrow> if found then aput k v m else m) [] entries"

definition current_platform :: "host \<Rightarrow> string" where
  "current_platform h =
     (if h_goos h = ''windows'' then ''win32''
      else (case map_of (env_map (h_environ h)) ''GOOS_OVERRIDE'' of None \<Rightarrow> [] | Some v \<Rightarrow> v))"

definition env_host_sub_context :: "host \<Rightarrow> host_ctx" where
  "env_host_sub_context h =
     \<lparr>platform = current_platform h, local_workspace_folder = [], container_workspace_folder = [],
       host_env = env_map (h_environ h), config_file_path = []\<rparr>"

definition parse_config_object ::
  "(string \<Rightarrow> (string, json) res) \<Rightarrow> string \<Rightarrow> (string \<Rightarrow> load_error) \<Rightarrow> string \<Rightarrow> (load_error, json gomap) res" where
  "parse_config_object parse path wrap s =
     (case parse s of Inl e \<Rightarrow> Inl (wrap e) | Inr (JObj m) \<Rightarrow> Inr m | Inr v \<Rightarrow> Inl (NotObject path))"

text \<open>The configuration's path, found in the workspace or named for an override.\<close>

definition config_path_for :: "host_files \<Rightarrow> string \<Rightarrow> string \<Rightarrow> string \<Rightarrow> string" where
  "config_path_for hf folder config_path override_path =
     (if config_path = [] \<and> (folder \<noteq> [] \<or> override_path = [])
      then (let dir = ws_config_folder (workspace_from_path folder);
                found = find_config_file hf dir
            in if found = [] \<and> override_path \<noteq> []
               then path_join [dir, ''.devcontainer'', ''devcontainer.json''] else found)
      else config_path)"

definition read_base ::
  "(string \<Rightarrow> (string, json) res) \<Rightarrow> (string \<Rightarrow> string list) \<Rightarrow> host_files \<Rightarrow> string \<Rightarrow> string \<Rightarrow> string
   \<Rightarrow> (load_error, json gomap option \<times> string list) res" where
  "read_base parse names hf path override_path object_path =
     (if path = [] then Inr (None, [])
      else (case hf_read hf path of
          Inr s \<Rightarrow> bind_res (parse_config_object parse object_path (ParseConfig path) s) (\<lambda>m. Inr (Some m, names s))
        | Inl e \<Rightarrow> if override_path = [] then Inl (ReadConfig path e) else Inr (None, [])))"

definition read_override ::
  "(string \<Rightarrow> (string, json) res) \<Rightarrow> (string \<Rightarrow> string list) \<Rightarrow> host_files \<Rightarrow> string \<Rightarrow> string
   \<Rightarrow> json gomap option \<times> string list \<Rightarrow> (load_error, json gomap option \<times> string list) res" where
  "read_override parse names hf path object_path base =
     (if path = [] then Inr base
      else (case hf_read hf path of
          Inl NotExist \<Rightarrow> Inl (NotFound object_path)
        | Inl e \<Rightarrow> Inl (ReadOverride path e)
        | Inr s \<Rightarrow> bind_res (parse_config_object parse object_path (ParseOverride path) s)
            (\<lambda>m. Inr (deep_merge_config (fst base) (Some m), snd base @ names s))))"

text \<open>\<open>remarshal\<close>: the raw configuration decoded over what the struct holds.\<close>

definition remarshal :: "json gomap \<Rightarrow> dev_container \<Rightarrow> dev_container option" where
  "remarshal raw c = struct_dec dev_container_fields (JObj raw) c"

definition host_sub_context :: "host \<Rightarrow> workspace \<Rightarrow> workspace_config \<Rightarrow> string \<Rightarrow> host_ctx" where
  "host_sub_context h w wc path =
     \<lparr>platform = current_platform h, local_workspace_folder = trim_right (ws_root w) [CHR ''/'', CHR 0x5C],
       container_workspace_folder = wc_folder wc, host_env = env_map (h_environ h), config_file_path = path\<rparr>"

definition set_workspace :: "dev_container \<Rightarrow> workspace_config \<Rightarrow> workspace_config" where
  "set_workspace c wc =
     (let wc1 = (if dc_workspace_folder c \<noteq> [] then wc\<lparr>wc_folder := dc_workspace_folder c\<rparr> else wc)
      in if dc_workspace_mount_set c
         then wc1\<lparr>wc_mount := dc_workspace_mount c, wc_no_mount := (dc_workspace_mount c = [])\<rparr> else wc1)"

definition sub_context :: "host_ctx \<Rightarrow> sub_ctx" where
  "sub_context h = \<lparr>host_sub = h, id_labels = None, dev_container_id = [], container_env = []\<rparr>"

text \<open>What follows reading: the typed configuration, the workspace, the host's variables.\<close>

definition finish_load ::
  "(string \<Rightarrow> string) \<Rightarrow> host \<Rightarrow> workspace \<Rightarrow> mount_options \<Rightarrow> string \<Rightarrow> json gomap \<Rightarrow> string list
   \<Rightarrow> (load_error, load_result) res" where
  "finish_load ulow h w opts path raw0 key_order =
     (let raw = update_from_old_properties raw0 in
      case remarshal raw empty_dev_container of
        None \<Rightarrow> Inl BadConfig
      | Some c0 \<Rightarrow>
          (let c = c0\<lparr>dc_workspace_mount_set := (map_of raw ''workspaceMount'' \<noteq> None)\<rparr>;
               wc = compute_workspace_config (h_files h) (h_goos h) w c opts;
               ctx = host_sub_context h w wc path
           in case resolve_value ulow (sub_context ctx) PhaseHost (JObj raw) of
                Inl e \<Rightarrow> Inl (Unresolved e)
              | Inr v \<Rightarrow>
                  (let raw' = (case v of JObj m \<Rightarrow> m | _ \<Rightarrow> raw) in
                   case remarshal raw' c of
                     None \<Rightarrow> Inl BadSubstitution
                   | Some c' \<Rightarrow>
                       Inr \<lparr>lr_config = c'\<lparr>dc_config_file_path := path\<rparr>, lr_raw = raw', lr_raw_config = raw,
                             lr_workspace = set_workspace c' wc, lr_host_sub = ctx, lr_key_order = key_order\<rparr>)))"

definition load_config ::
  "(string \<Rightarrow> string) \<Rightarrow> (string \<Rightarrow> (string, json) res) \<Rightarrow> (string \<Rightarrow> string list) \<Rightarrow> host \<Rightarrow> string \<Rightarrow> string \<Rightarrow> string
   \<Rightarrow> mount_options \<Rightarrow> (load_error, load_result) res" where
  "load_config ulow parse names h folder config_path0 override_path opts =
     (let hf = h_files h;
          config_path = config_path_for hf folder config_path0 override_path;
          object_path = (if config_path \<noteq> [] then config_path else override_path)
      in if config_path = [] \<and> override_path = []
         then Inl (NotFound (path_join [folder, ''.devcontainer'', ''devcontainer.json'']))
         else bind_res (read_base parse names hf config_path override_path object_path) (\<lambda>base.
              bind_res (read_override parse names hf override_path object_path base) (\<lambda>(raw, key_order).
                finish_load ulow h (workspace_from_path folder) opts object_path
                  (case raw of None \<Rightarrow> [] | Some m \<Rightarrow> m) key_order)))"

definition default_mount_options :: mount_options where
  "default_mount_options = \<lparr>mo_git_root = True, mo_worktree_common_dir = False\<rparr>"

definition load_dev_container_config ::
  "(string \<Rightarrow> string) \<Rightarrow> (string \<Rightarrow> (string, json) res) \<Rightarrow> (string \<Rightarrow> string list) \<Rightarrow> host \<Rightarrow> string \<Rightarrow> string \<Rightarrow> string
   \<Rightarrow> (load_error, load_result) res" where
  "load_dev_container_config ulow parse names h folder config_path override_path =
     load_config ulow parse names h folder config_path override_path default_mount_options"

subsection \<open>Compose files\<close>

text \<open>The lines of \<open>.env\<close>: the first with a value that is not empty counts.\<close>

fun dotenv_compose_file :: "string list \<Rightarrow> string option" where
  "dotenv_compose_file [] = None"
| "dotenv_compose_file (l # ls) =
     (case cut_prefix (trim_space l) ''COMPOSE_FILE='' of
        Some v \<Rightarrow> if trim_space v \<noteq> [] then Some (trim_space v) else dotenv_compose_file ls
      | None \<Rightarrow> dotenv_compose_file ls)"

definition docker_compose_file_paths :: "host_files \<Rightarrow> dev_container \<Rightarrow> string gomap \<Rightarrow> string \<Rightarrow> string list" where
  "docker_compose_file_paths hf c env cwd =
     (let split = (\<lambda>s. map (pfs_resolve cwd) (split_byte (CHR '':'') s));
          from_env = (case map_of env ''COMPOSE_FILE'' of None \<Rightarrow> [] | Some v \<Rightarrow> v);
          env_file = path_join [cwd, ''.env''];
          from_file = (if is_file hf env_file
                       then (case hf_read hf env_file of Inl e \<Rightarrow> None
                             | Inr s \<Rightarrow> dotenv_compose_file (split_byte (CHR 0x0A) s))
                       else None);
          over = pfs_resolve cwd ''docker-compose.override.yml''
      in if dc_docker_compose_file c \<noteq> []
         then map (pfs_resolve (path_dir (dc_config_file_path c))) (dc_docker_compose_file c)
         else if from_env \<noteq> [] then split from_env
         else (case from_file of
             Some v \<Rightarrow> split v
           | None \<Rightarrow> pfs_resolve cwd ''docker-compose.yml'' # (if is_file hf over then [over] else [])))"

subsection \<open>The nearest repository\<close>

lemma git_root_from_render:
  "clean_form r es \<Longrightarrow> git_root_from hf (render_path r es) [] =
   (case find (\<lambda>ps. has_git hf (render_path r ps)) (rev (prefixes es)) of None \<Rightarrow> [] | Some ps \<Rightarrow> render_path r ps)"
proof (induction es rule: rev_induct)
  case Nil
  have "render_path r [] \<noteq> []" by (simp add: render_path_def)
  then show ?case using path_dir_top [of r] by (subst git_root_from.simps) simp
next
  case (snoc e es)
  have f: "clean_form r es" by (rule clean_form_butlast [OF snoc.prems])
  have ne: "render_path r (es @ [e]) \<noteq> []"
  proof -
    have "path_elems (render_path r (es @ [e])) = es @ [e]"
      using snoc.prems by (intro path_elems_render) (simp add: clean_form_def)
    then show ?thesis by (auto simp: path_elems_def)
  qed
  have d: "path_dir (render_path r (es @ [e])) = render_path r es" by (rule path_dir_render [OF snoc.prems])
  have "render_path r es \<noteq> render_path r (es @ [e])"
    using clean_elems_render [OF f] clean_elems_render [OF snoc.prems] by (metis append_self_conv list.discI)
  then show ?case using snoc.IH [OF f] ne d
    by (subst git_root_from.simps) (simp add: prefixes_snoc)
qed

text \<open>C16. The git root of a directory is its nearest ancestor-or-self with a \<open>.git\<close> entry, read off the elements
  of its clean path, and empty when there is none; the walk always ends.\<close>

theorem detect_git_root_nearest:
  "detect_git_root hf dir =
   (case find (\<lambda>ps. has_git hf (render_path (is_abs dir) ps)) (rev (prefixes (clean_elems dir))) of
      None \<Rightarrow> [] | Some ps \<Rightarrow> render_path (is_abs dir) ps)"
  using git_root_from_render [OF clean_elems_form [of dir], of hf]
  by (simp add: detect_git_root_def detect_git_root_until_def path_clean_def)

subsection \<open>What a merged configuration holds\<close>

fun json_at :: "string list \<Rightarrow> json \<Rightarrow> json option" where
  "json_at [] v = Some v"
| "json_at (k # p) (JObj m) = (case map_of m k of None \<Rightarrow> None | Some v \<Rightarrow> json_at p v)"
| "json_at (k # p) v = None"

definition is_leaf :: "json \<Rightarrow> bool" where
  "is_leaf v \<longleftrightarrow> (case v of JObj m \<Rightarrow> False | _ \<Rightarrow> True)"

fun leaves_open :: "json \<Rightarrow> string list \<Rightarrow> bool" where
  "leaves_open (JObj m) (k # p) = (case map_of m k of None \<Rightarrow> True | Some v \<Rightarrow> leaves_open v p)"
| "leaves_open v p = False"

definition merge_value :: "json option \<Rightarrow> json \<Rightarrow> json" where
  "merge_value bv ov = (case (bv, ov) of (Some (JObj bm), JObj om) \<Rightarrow> JObj (merge_members bm om) | _ \<Rightarrow> ov)"

lemma merge_members_Cons:
  "merge_members out ((k, ov) # m) = merge_members (aput k (merge_value (map_of out k) ov) out) m"
  by (auto simp: merge_value_def split: option.split json.split)

lemma merge_lookup:
  "distinct (map fst m) \<Longrightarrow> map_of (merge_members out m) k =
   (case map_of m k of None \<Rightarrow> map_of out k | Some ov \<Rightarrow> Some (merge_value (map_of out k) ov))"
proof (induction m arbitrary: out)
  case (Cons p m)
  obtain k' ov where p: "p = (k', ov)" by force
  have "map_of m k' = None" using Cons.prems p by (simp add: map_of_eq_None_iff)
  then show ?case using Cons p by (simp add: merge_members_Cons del: merge_members.simps(2) split: option.split)
qed simp

lemma json_at_leaf: "json_at p v = Some w \<Longrightarrow> p \<noteq> [] \<Longrightarrow> \<exists>m. v = JObj m"
  by (cases p; cases v) auto

text \<open>A value other than an object is in the merged configuration at a path exactly when the override has it
  there, or the base has it and the override says nothing at that path or above it.\<close>

theorem merged_values:
  assumes "json_wf (JObj ov)" and "is_leaf v"
  shows "json_at p (JObj (merge_members b ov)) = Some v \<longleftrightarrow>
    json_at p (JObj ov) = Some v \<or> json_at p (JObj b) = Some v \<and> leaves_open (JObj ov) p"
  using assms(1)
proof (induction p arbitrary: b ov)
  case Nil
  then show ?case using assms(2) by (auto simp: is_leaf_def)
next
  case (Cons k p)
  have d: "distinct (map fst ov)" using Cons.prems by simp
  show ?case
  proof (cases "map_of ov k")
    case None
    then show ?thesis by (simp add: merge_lookup [OF d])
  next
    case (Some w)
    then have w: "json_wf w" using Cons.prems by (auto dest!: map_of_SomeD)
    have l: "json_at p (merge_value (map_of b k) w) = Some v \<longleftrightarrow>
      json_at p w = Some v \<or> (case map_of b k of None \<Rightarrow> False | Some u \<Rightarrow> json_at p u = Some v) \<and> leaves_open w p"
    proof (cases "\<exists>bm om. map_of b k = Some (JObj bm) \<and> w = JObj om")
      case True
      then show ?thesis using Cons.IH w by (auto simp: merge_value_def)
    next
      case False
      have "merge_value (map_of b k) w = w"
        using False by (auto simp: merge_value_def split: option.split json.split)
      moreover have "\<not> (json_at p u = Some v \<and> leaves_open w p)" if "map_of b k = Some u" for u
      proof
        assume a: "json_at p u = Some v \<and> leaves_open w p"
        then have "p \<noteq> []" by (cases w) auto
        then obtain um where "u = JObj um" using a json_at_leaf by blast
        moreover obtain om where "w = JObj om" using a by (cases w; cases p) auto
        ultimately show False using False that by blast
      qed
      ultimately show ?thesis by (auto split: option.split)
    qed
    then show ?thesis using Some by (auto simp: merge_lookup [OF d] split: option.split)
  qed
qed

lemma merged_values_witness:
  "json_at [''a'', ''y''] (JObj (merge_members [(''a'', JObj [(''x'', JNum 1), (''y'', JNum 2)])] [(''a'', JObj [(''x'', JNum 3)])])) =
   Some (JNum 2)"
  by (subst merged_values) (simp_all add: is_leaf_def)

subsection \<open>The workspace mount is read back\<close>

lemma mount_part_key: "CHR ''='' \<notin> set k \<Longrightarrow> mount_part m (k @ CHR ''='' # v) = set_mount_key m k v"
  using cut_byte_found [of "CHR ''=''" "k @ CHR ''='' # v" k v] by (simp add: mount_part_def)

lemma consistency_parts:
  "split_byte (CHR '','') (x @ mount_consistency_suffix goos) =
   split_byte (CHR '','') x @ (if goos = ''linux'' then [] else [''consistency=consistent''])"
  using split_byte_at [of "CHR '',''" x "''consistency=consistent''"]
  by (simp add: mount_consistency_suffix_def)

text \<open>The computed workspace mount is the bind mount of its folder: what \<open>bindMount\<close> writes for a source and
  a target without a comma is read back as that mount.\<close>

theorem bind_mount_parsed:
  assumes "CHR '','' \<notin> set source" and "CHR '','' \<notin> set targ" and "targ \<noteq> []"
  shows "parse_mount_spec (bind_mount source targ (mount_consistency_suffix goos)) =
    Inr \<lparr>mount_type = ''bind'', mount_source = source, mount_target = targ, mount_read_only = False,
      mount_consistency = (if goos = ''linux'' then [] else ''consistent'')\<rparr>"
proof -
  have b: "bind_mount source targ (mount_consistency_suffix goos) =
    (''type=bind'' @ CHR '','' # (''source='' @ source) @ CHR '','' # ''target='' @ targ) @ mount_consistency_suffix goos"
    using assms by (simp add: bind_mount_def)
  have s: "split_byte (CHR '','') (''type=bind'' @ CHR '','' # (''source='' @ source) @ CHR '','' # ''target='' @ targ) =
      [''type=bind'', ''source='' @ source, ''target='' @ targ]"
    using assms split_byte_no_sep [of "CHR '',''" "''source='' @ source"] split_byte_no_sep [of "CHR '',''" "''target='' @ targ"]
    by (simp only: split_byte_at) simp
  have p: "mount_part m ''type=bind'' = m\<lparr>mount_type := ''bind''\<rparr>"
    "mount_part m (''source='' @ source) = m\<lparr>mount_source := source\<rparr>"
    "mount_part m (''target='' @ targ) = m\<lparr>mount_target := targ\<rparr>"
    "mount_part m ''consistency=consistent'' = m\<lparr>mount_consistency := ''consistent''\<rparr>" for m
    using mount_part_key [of "''type''" m "''bind''"] mount_part_key [of "''source''" m source]
      mount_part_key [of "''target''" m targ] mount_part_key [of "''consistency''" m "''consistent''"]
    by (simp_all add: set_mount_key_def)
  show ?thesis using assms(3) p
    by (simp add: parse_mount_spec_def b consistency_parts s empty_mount_def del: append_Cons append_assoc)
qed

lemma bind_mount_parsed_witness:
  "parse_mount_spec (bind_mount ''/home/me/app'' ''/workspaces/app'' (mount_consistency_suffix ''darwin'')) =
    Inr \<lparr>mount_type = ''bind'', mount_source = ''/home/me/app'', mount_target = ''/workspaces/app'',
      mount_read_only = False, mount_consistency = ''consistent''\<rparr>"
  by (subst bind_mount_parsed) simp_all

lemma mount_part_plain: "CHR ''='' \<notin> set p \<Longrightarrow> mount_target (mount_part m p) = mount_target m"
  using cut_byte_missing [of "CHR ''=''" p p "[]"] by (simp add: mount_part_def)

lemma mount_part_quoted:
  "CHR ''='' \<notin> set k \<Longrightarrow> mount_part m (CHR 0x22 # k @ CHR ''='' # v) = m"
  using mount_part_key [of "CHR 0x22 # k" m v] by (simp add: set_mount_key_def)

definition keeps_target :: "string \<Rightarrow> bool" where
  "keeps_target p \<longleftrightarrow> (\<forall>m. mount_target (mount_part m p) = mount_target m)"

lemma fold_keeps_target: "\<forall>p\<in>set ps. keeps_target p \<Longrightarrow> mount_target (foldl mount_part m ps) = mount_target m"
  by (induction ps arbitrary: m) (auto simp: keeps_target_def)

lemma split_byte_subset: "p \<in> set (split_byte c s) \<Longrightarrow> set p \<subseteq> set s"
  by (induction s arbitrary: p) (force split: if_splits list.splits)+

lemma quoted_part:
  assumes "CHR '','' \<in> set x" and "CHR ''='' \<notin> set x" and "CHR ''='' \<notin> set k" "CHR '','' \<notin> set k" "CHR ''='' \<notin> set z"
  shows "\<forall>p\<in>set (split_byte (CHR '','') (CHR 0x22 # k @ CHR ''='' # x @ z)). keeps_target p"
proof -
  obtain a b where x: "x = a @ CHR '','' # b" "CHR '','' \<notin> set a" using assms(1) by (metis split_list_first)
  have "split_byte (CHR '','') (CHR 0x22 # k @ CHR ''='' # x @ z) =
      (CHR 0x22 # k @ CHR ''='' # a) # split_byte (CHR '','') (b @ z)"
    using split_byte_append [of "CHR '',''" "CHR 0x22 # k @ CHR ''='' # a" "b @ z"] x assms(4) by simp
  moreover have "CHR ''='' \<notin> set p" if "p \<in> set (split_byte (CHR '','') (b @ z))" for p
    using split_byte_subset [OF that] x assms(2,5) by auto
  ultimately show ?thesis using mount_part_plain mount_part_quoted [OF assms(3)] by (auto simp: keeps_target_def)
qed

text \<open>A folder with a comma has no workspace mount: the quotes \<open>bindMount\<close> puts around a field with a comma,
  which Docker's own parser takes off, are part of the key for \<open>parseMountSpec\<close>, so the target is lost
  and the mount refused.\<close>

theorem comma_folder_refused:
  assumes "CHR '','' \<in> set source" and "CHR '','' \<in> set targ" and "CHR ''='' \<notin> set source \<union> set targ"
  shows "parse_mount_spec (bind_mount source targ (mount_consistency_suffix goos)) =
    Inl ''mount requires a target/destination''"
proof -
  let ?s = "CHR 0x22 # ''source'' @ CHR ''='' # source @ dq" and ?t = "CHR 0x22 # ''target'' @ CHR ''='' # targ @ dq"
  have b: "bind_mount source targ (mount_consistency_suffix goos) =
    (''type=bind'' @ CHR '','' # ?s @ CHR '','' # ?t) @ mount_consistency_suffix goos"
    using assms by (simp add: bind_mount_def dq_def)
  have q: "\<forall>p\<in>set (split_byte (CHR '','') ?s). keeps_target p" "\<forall>p\<in>set (split_byte (CHR '','') ?t). keeps_target p"
    by (rule quoted_part; use assms in \<open>simp add: dq_def\<close>)+
  have k: "keeps_target ''type=bind''" "keeps_target ''consistency=consistent''"
    using mount_part_key [of "''type''" _ "''bind''"] mount_part_key [of "''consistency''" _ "''consistent''"]
    by (simp_all add: keeps_target_def set_mount_key_def)
  have "split_byte (CHR '','') (bind_mount source targ (mount_consistency_suffix goos)) =
    [''type=bind''] @ split_byte (CHR '','') ?s @ split_byte (CHR '','') ?t
      @ (if goos = ''linux'' then [] else [''consistency=consistent''])"
    unfolding b consistency_parts split_byte_at by simp
  then have "\<forall>p\<in>set (split_byte (CHR '','') (bind_mount source targ (mount_consistency_suffix goos))). keeps_target p"
    using q k by auto
  then show ?thesis using fold_keeps_target [of _ empty_mount] by (simp add: parse_mount_spec_def empty_mount_def)
qed

lemma comma_folder_refused_witness:
  "parse_mount_spec (bind_mount ''/w/a,b'' ''/workspaces/a,b'' (mount_consistency_suffix ''linux'')) =
    Inl ''mount requires a target/destination''"
  by (rule comma_folder_refused) simp_all

subsection \<open>The workspace folder in the container\<close>

lemma split_join_elems:
  "\<forall>e\<in>set es. plain_elem e \<Longrightarrow> es \<noteq> [] \<Longrightarrow> split_byte (CHR ''/'') (join ''/'' es) = es"
  by (rule split_byte_join) (auto simp: plain_elem_def)

lemma path_base_render:
  assumes "\<forall>e\<in>set rs. plain_elem e" and "rs \<noteq> []"
  shows "path_base (render_path True rs) = last rs"
proof -
  have nl: "join ''/'' rs \<noteq> []" "last (join ''/'' rs) \<noteq> CHR ''/''"
  proof -
    obtain rs' e where e: "rs = rs' @ [e]" using assms(2) by (metis rev_exhaust)
    then have pe: "e \<noteq> []" "CHR ''/'' \<notin> set e" using assms(1) by (auto simp: plain_elem_def)
    have "\<exists>x. join ''/'' rs = x @ e" using e by (cases "rs' = []") (auto simp: join_append)
    then obtain x where x: "join ''/'' rs = x @ e" by blast
    show "join ''/'' rs \<noteq> []" using x pe by simp
    show "last (join ''/'' rs) \<noteq> CHR ''/''" unfolding x using pe by (metis last_appendR last_in_set)
  qed
  then have "trim_right (CHR ''/'' # join ''/'' rs) ''/'' = CHR ''/'' # join ''/'' rs"
    by (intro trim_right_id) simp
  then show ?thesis using nl split_join_elems [OF assms] assms(2) by (simp add: path_base_def render_path_def Let_def)
qed

lemma path_join_two:
  "a \<noteq> [] \<Longrightarrow> path_join [a, b] = path_clean (a @ ''/'' @ b)"
  by (simp add: path_join_def)

lemma path_elems_two: "path_elems (a @ CHR ''/'' # b) = path_elems a @ path_elems b"
  by (simp add: path_elems_def split_byte_at)

lemma strip_common_prefix_append: "strip_common rs (rs @ ts) = ([], ts)"
  by (induction rs) (cases ts; simp)+

lemma render_rel_elems: "\<forall>e\<in>set ts. plain_elem e \<Longrightarrow> path_elems (render_path False ts) = ts"
  by (rule path_elems_render)

lemma clean_form_prefix: "clean_form r (a @ b) \<Longrightarrow> clean_form r a"
  by (induction b rule: rev_induct) (auto dest: clean_form_butlast simp flip: append_assoc)

lemma detect_git_root_prefix:
  assumes "detect_git_root hf ws = render_path True rs" and "is_abs ws" "clean_form True rs"
  shows "\<exists>ts. clean_elems ws = rs @ ts"
proof -
  have "render_path True rs \<noteq> []" by (simp add: render_path_def)
  then obtain ps where f: "find (\<lambda>ps. has_git hf (render_path True ps)) (rev (prefixes (clean_elems ws))) = Some ps"
    and eq: "render_path True ps = render_path True rs"
    using assms(1,2) git_root_from_render [OF clean_elems_form [of ws], of hf]
    by (cases "find (\<lambda>ps. has_git hf (render_path True ps)) (rev (prefixes (clean_elems ws)))")
      (simp_all add: detect_git_root_def detect_git_root_until_def path_clean_def)
  have "ps \<in> set (rev (prefixes (clean_elems ws)))"
    using f unfolding find_Some_iff by (metis nth_mem)
  then have p: "prefix ps (clean_elems ws)" unfolding set_rev by (rule iffD1 [OF in_set_prefixes])
  then obtain zs where zs: "clean_elems ws = ps @ zs" by (auto simp: prefix_def)
  have "clean_form True ps" using clean_form_prefix [of True ps zs] clean_elems_form [of ws] assms(2) zs by simp
  then have "ps = rs" using eq clean_elems_render [OF assms(3)] clean_elems_render by metis
  then show ?thesis using zs by blast
qed

text \<open>A workspace in a repository is mounted with it: the mount is the repository's folder under
  \<open>/workspaces\<close>, and the workspace folder in the container lies in it as the workspace lies in the
  repository.\<close>

theorem workspace_in_repository:
  assumes "is_abs ws" and "detect_git_root hf ws = render_path True rs" and "clean_form True rs" and "rs \<noteq> []"
    and "dc_workspace_folder c = []" and "dc_workspace_mount c = []" and "\<not> dc_workspace_mount_set c"
    and "\<not> is_compose_config c" and "path_ext ws \<noteq> ''.code-workspace''"
  shows "compute_workspace_config hf goos (workspace_from_path ws) c default_mount_options =
    \<lparr>wc_folder = render_path True ([''workspaces'', last rs] @ drop (length rs) (clean_elems ws)),
      wc_mount = bind_mount (render_path True rs) (''/workspaces/'' @ last rs) (mount_consistency_suffix goos),
      wc_additional_mounts = [], wc_no_mount = False\<rparr>"
proof -
  obtain ts where ts: "clean_elems ws = rs @ ts" using detect_git_root_prefix [OF assms(2,1,3)] by blast
  have ws: "ws \<noteq> []" using assms(1) by (auto simp: is_abs_def)
  have r0: "render_path True rs \<noteq> []" by (simp add: render_path_def)
  have f: "clean_form True (rs @ ts)" using clean_elems_form [of ws] assms(1) ts by simp
  then have pl: "\<forall>e\<in>set (rs @ ts). plain_elem e" and nd: "''..'' \<notin> set (rs @ ts)" by (auto simp: clean_form_def)
  have b: "path_base (render_path True rs) = last rs" using pl assms(4) by (intro path_base_render) auto
  have lr: "plain_elem (last rs)" "last rs \<noteq> ''..''" using pl nd last_in_set [OF assms(4)] by (auto simp del: last_in_set)
  have w: "plain_elem ''workspaces''" by (simp add: plain_elem_def)
  have fc: "clean_form True ([''workspaces'', last rs] @ ts)" using pl nd lr w by (auto simp: clean_form_def)
  have rel: "path_rel (render_path True rs) ws = Some (render_path False ts)"
    using assms(1) clean_elems_render [OF assms(3)] is_abs_render [of rs True] pl
    by (simp add: path_rel_def ts strip_common_prefix_append)
  have j: "path_join [''/workspaces/'' @ last rs, render_path False ts] = render_path True ([''workspaces'', last rs] @ ts)"
  proof -
    have "path_elems (''/workspaces/'' @ last rs @ CHR ''/'' # render_path False ts) = [''workspaces'', last rs] @ ts"
      using path_elems_two [of "''/workspaces''" "last rs @ CHR ''/'' # render_path False ts"] path_elems_two [of "last rs"]
        render_rel_elems [of ts] pl lr split_byte_no_sep [of "CHR ''/''" "last rs"]
      by (simp add: path_elems_def plain_elem_def)
    then show ?thesis using fc
      by (subst path_join_two) (auto intro!: path_clean_elems simp: is_abs_def)
  qed
  have same: "render_path True ([''workspaces'', last rs] @ ts) = ''/workspaces/'' @ last rs" if "render_path True rs = ws"
  proof -
    have "ts = []" using ts clean_elems_render [OF assms(3)] that by simp
    then show ?thesis by (simp add: render_path_def)
  qed
  show ?thesis using assms r0 ws b rel j same
    by (cases "render_path True rs = ws") (simp_all add: Let_def compute_workspace_config_def workspace_from_path_def mount_source_folder_def default_mount_options_def
        mount_folder_def workspace_in_mount_def ts)
qed


lemma workspace_in_repository_witness:
  "wc_folder (compute_workspace_config
     \<lparr>hf_read = (\<lambda>p. Inl NotExist), hf_kind = (\<lambda>p. if p = ''/r/.git'' then Some DirFile else None)\<rparr> ''linux''
     (workspace_from_path ''/r/a'') empty_dev_container default_mount_options) = ''/workspaces/r/a''"
proof -
  have d: "detect_git_root \<lparr>hf_read = (\<lambda>p. Inl NotExist), hf_kind = (\<lambda>p. if p = ''/r/.git'' then Some DirFile else None)\<rparr> ''/r/a''
    = render_path True [''r'']" by code_simp
  have c: "clean_form True [''r'']" by (simp add: clean_form_def plain_elem_def)
  show ?thesis
    by (subst workspace_in_repository [OF _ d c])
      (simp_all add: is_abs_def empty_dev_container_def is_compose_config_def path_ext_def clean_elems_def path_elems_def render_path_def)
qed

end
