(* ===== verification/Archive.thy ===== *)
theory Archive
  imports GoPath
begin

text \<open>
  \<open>internal/pfs/pfs.go\<close>: extracting a tar archive. The entries the reader gives, in their order up to an
  error, and the operations on the destination are parameters; what is asked of the destination is kept
  as a trace.
\<close>

datatype entry_kind = TarDir | TarReg | TarOther

record tar_entry =
  te_name :: string
  te_kind :: entry_kind
  te_content :: string
  te_copy_error :: "string option"
  te_mode :: nat

datatype dest_op =
    MkdirAll string
  | CreateFile string string
  | Chmod string nat

text \<open>An operation on the \<open>os.Root\<close> of the destination; \<open>None\<close> is success.\<close>

type_synonym 'w dest_ops = "dest_op \<Rightarrow> 'w \<Rightarrow> string option \<times> 'w"

definition is_letter :: "char \<Rightarrow> bool" where
  "is_letter c \<longleftrightarrow> is_lower c \<or> is_upper c"

subsection \<open>Where an entry goes\<close>

definition strip_root :: "string \<Rightarrow> string" where
  "strip_root name =
     (let stripped = trim_left name [CHR ''/'', CHR 0x5C]
      in case stripped of a # b # rest \<Rightarrow> if b = CHR '':'' \<and> is_letter a then rest else stripped
         | _ \<Rightarrow> stripped)"

lemma dropWhile_shorter: "dropWhile P s \<noteq> s \<Longrightarrow> length (dropWhile P s) < length s"
  by (cases s) (auto simp: length_dropWhile_le le_imp_less_Suc split: if_splits)

lemma strip_root_less:
  assumes "strip_root name \<noteq> name"
  shows "length (strip_root name) < length name"
proof -
  define t where "t = trim_left name [CHR ''/'', CHR 0x5C]"
  have t: "length t \<le> length name" "t \<noteq> name \<Longrightarrow> length t < length name"
    using length_dropWhile_le dropWhile_shorter by (simp_all add: t_def trim_left_def)
  have "strip_root name = t \<or> length (strip_root name) < length t"
    by (auto simp: strip_root_def t_def [symmetric] Let_def split: list.split)
  then show ?thesis using t assms by auto
qed

function strip_roots :: "string \<Rightarrow> string" where
  "strip_roots name = (if strip_root name = name then name else strip_roots (strip_root name))"
  by pat_completeness auto
termination
  by (relation "measure length") (auto intro: strip_root_less)

declare strip_roots.simps [simp del]

text \<open>\<open>strings.FieldsFuncSeq\<close>: the non-empty runs between separators.\<close>

fun split_where :: "(char \<Rightarrow> bool) \<Rightarrow> string \<Rightarrow> string list" where
  "split_where P [] = [[]]"
| "split_where P (d # s) = (if P d then [] # split_where P s
     else (case split_where P s of [] \<Rightarrow> [[d]] | x # xs \<Rightarrow> (d # x) # xs))"

definition fields_func :: "(char \<Rightarrow> bool) \<Rightarrow> string \<Rightarrow> string list" where
  "fields_func P s = filter (\<lambda>x. x \<noteq> []) (split_where P s)"

definition entry_path :: "string \<Rightarrow> string option" where
  "entry_path name =
     (let name' = strip_roots name
      in if ''..'' \<in> set (fields_func (\<lambda>c. c = CHR ''/'' \<or> c = CHR 0x5C) name') then None
         else Some (path_clean name'))"

subsection \<open>The extraction\<close>

definition extract_entry :: "'w dest_ops \<Rightarrow> tar_entry \<Rightarrow> 'w \<Rightarrow> (string, unit) res \<times> 'w" where
  "extract_entry ops e w =
     (case entry_path (te_name e) of
        None \<Rightarrow> (Inr (), w)
      | Some name \<Rightarrow>
          (case te_kind e of
             TarDir \<Rightarrow> (case ops (MkdirAll name) w of (Some er, w1) \<Rightarrow> (Inl er, w1) | (None, w1) \<Rightarrow> (Inr (), w1))
           | TarOther \<Rightarrow> (Inr (), w)
           | TarReg \<Rightarrow>
               (case ops (MkdirAll (path_dir name)) w of
                  (Some er, w1) \<Rightarrow> (Inl er, w1)
                | (None, w1) \<Rightarrow>
                    (case ops (CreateFile name (te_content e)) w1 of
                       (Some er, w2) \<Rightarrow> (Inl er, w2)
                     | (None, w2) \<Rightarrow>
                         (case te_copy_error e of
                            Some er \<Rightarrow> (Inl er, w2)
                          | None \<Rightarrow>
                              if te_mode e = 0 then (Inr (), w2)
                              else (case ops (Chmod name (te_mode e)) w2 of
                                  (Some er, w3) \<Rightarrow> (Inl er, w3) | (None, w3) \<Rightarrow> (Inr (), w3)))))))"

text \<open>The stream ends at an error of the reader (\<open>Inl\<close>) or its end; the archive file is removed on success.\<close>

fun extract_entries :: "'w dest_ops \<Rightarrow> (string, tar_entry) res list \<Rightarrow> 'w \<Rightarrow> (string, unit) res \<times> 'w" where
  "extract_entries ops [] w = (Inr (), w)"
| "extract_entries ops (Inl er # es) w = (Inl (''tar read: '' @ er), w)"
| "extract_entries ops (Inr e # es) w =
     (case extract_entry ops e w of (Inl er, w1) \<Rightarrow> (Inl er, w1) | (Inr u, w1) \<Rightarrow> extract_entries ops es w1)"

text \<open>\<open>opened\<close> is the archive opened and its stream, \<open>dest\<close> the error of opening the destination.\<close>

definition extract_tar_gz ::
  "'w dest_ops \<Rightarrow> (string, (string, tar_entry) res list) res \<Rightarrow> string option \<Rightarrow> ('w \<Rightarrow> 'w) \<Rightarrow> 'w
   \<Rightarrow> (string, unit) res \<times> 'w" where
  "extract_tar_gz ops opened dest remove_archive w =
     (case opened of
        Inl er \<Rightarrow> (Inl er, w)
      | Inr stream \<Rightarrow>
          (case dest of
             Some er \<Rightarrow> (Inl er, w)
           | None \<Rightarrow>
               (case extract_entries ops stream w of
                  (Inl er, w1) \<Rightarrow> (Inl er, w1)
                | (Inr u, w1) \<Rightarrow> (Inr (), remove_archive w1))))"

subsection \<open>Nothing is written outside the destination\<close>

definition contained :: "string \<Rightarrow> bool" where
  "contained p \<longleftrightarrow> \<not> is_abs p \<and> ''..'' \<notin> set (path_elems p)"

fun op_path :: "dest_op \<Rightarrow> string" where
  "op_path (MkdirAll p) = p"
| "op_path (CreateFile p s) = p"
| "op_path (Chmod p m) = p"

text \<open>A destination that keeps what it is asked.\<close>

definition logged :: "'w dest_ops \<Rightarrow> (dest_op list \<times> 'w) dest_ops" where
  "logged ops op w = (case ops op (snd w) of (r, w') \<Rightarrow> (r, fst w @ [op], w'))"

lemma split_where_split_byte:
  assumes "P c"
  shows "x \<in> set (split_byte c s) \<Longrightarrow> \<forall>d\<in>set x. \<not> P d \<Longrightarrow> x \<in> set (split_where P s)"
proof -
  have "(\<forall>x\<in>set (tl (split_byte c s)). (\<forall>d\<in>set x. \<not> P d) \<longrightarrow> x \<in> set (tl (split_where P s))) \<and>
      ((\<forall>d\<in>set (hd (split_byte c s)). \<not> P d) \<longrightarrow> hd (split_byte c s) = hd (split_where P s)) \<and> split_where P s \<noteq> []"
  proof (induction s)
    case (Cons d s)
    obtain y ys where y: "split_byte c s = y # ys" by (cases "split_byte c s") auto
    obtain z zs where z: "split_where P s = z # zs" using Cons by (cases "split_where P s") auto
    show ?case using Cons y z assms by auto
  qed simp
  moreover obtain y ys where "split_byte c s = y # ys" by (cases "split_byte c s") auto
  moreover obtain z zs where "split_where P s = z # zs" using calculation(1) by (cases "split_where P s") auto
  ultimately show "x \<in> set (split_byte c s) \<Longrightarrow> \<forall>d\<in>set x. \<not> P d \<Longrightarrow> x \<in> set (split_where P s)" by auto
qed

lemma strip_root_fix: "strip_root name = name \<Longrightarrow> \<not> is_abs name"
proof
  assume a: "strip_root name = name" "is_abs name"
  then obtain r where r: "name = CHR ''/'' # r" by (cases name) (auto simp: is_abs_def)
  have "length (trim_left name [CHR ''/'', CHR 0x5C]) < length name"
    using r by (simp add: trim_left_def length_dropWhile_le le_imp_less_Suc)
  moreover have "length (strip_root name) \<le> length (trim_left name [CHR ''/'', CHR 0x5C])"
    by (auto simp: strip_root_def Let_def split: list.split)
  ultimately show False using a by simp
qed

lemma strip_roots_rel: "\<not> is_abs (strip_roots name)"
proof (induction name rule: strip_roots.induct)
  case (1 name)
  then show ?case using strip_root_fix by (subst strip_roots.simps) auto
qed

lemma clean_step_plain: "''..'' \<notin> set es \<Longrightarrow> foldl (clean_step r) out es = rev es @ out"
  by (induction es arbitrary: out) auto

lemma contained_clean: "\<not> is_abs p \<Longrightarrow> ''..'' \<notin> set (path_elems p) \<Longrightarrow> contained (path_clean p)"
  by (simp add: contained_def path_elems_clean clean_elems_def clean_step_plain)

lemma entry_path_contained: "entry_path name = Some p \<Longrightarrow> contained p \<and> path_clean p = p"
proof -
  assume "entry_path name = Some p"
  then have p: "p = path_clean (strip_roots name)"
    and s: "''..'' \<notin> set (fields_func (\<lambda>c. c = CHR ''/'' \<or> c = CHR 0x5C) (strip_roots name))"
    by (auto simp: entry_path_def Let_def split: if_splits)
  have "''..'' \<notin> set (split_byte (CHR ''/'') (strip_roots name))"
    using s split_where_split_byte [of "\<lambda>c. c = CHR ''/'' \<or> c = CHR 0x5C" "CHR ''/''" "''..''" "strip_roots name"]
    by (auto simp: fields_func_def)
  then have "''..'' \<notin> set (path_elems (strip_roots name))" by (simp add: path_elems_def)
  then show ?thesis using contained_clean [OF strip_roots_rel] p by simp
qed

lemma contained_dir:
  assumes "contained p" and "path_clean p = p"
  shows "contained (path_dir p)"
proof -
  have c: "clean_elems p = path_elems p" using assms(2) path_elems_clean [of p] by simp
  show ?thesis using assms(2)
  proof (cases rule: path_dir_cases)
    case 1
    then show ?thesis using assms by simp
  next
    case (2 es e)
    then have "\<forall>x\<in>set es. plain_elem x" by (simp add: clean_form_def)
    then show ?thesis using 2 assms(1) c by (simp add: contained_def is_abs_render path_elems_render)
  qed
qed

lemma extract_entry_log:
  "\<exists>ops'. fst (snd (extract_entry (logged ops) e w)) = fst w @ ops' \<and> list_all (\<lambda>op. contained (op_path op)) ops'"
proof (cases "entry_path (te_name e)")
  case None
  then show ?thesis by (intro exI [of _ "[]"]) (simp add: extract_entry_def)
next
  case (Some p)
  note c = entry_path_contained [OF Some]
  have d: "contained (path_dir p)" using c contained_dir by blast
  have l: "fst (snd (logged ops op w)) = fst w @ [op]" for op and w :: "dest_op list \<times> 'a"
    by (simp add: logged_def split: prod.split)
  show ?thesis
  proof (cases "te_kind e")
    case TarDir
    then show ?thesis using Some c l [of "MkdirAll p" w]
      by (intro exI [of _ "[MkdirAll p]"]) (auto simp: extract_entry_def split: prod.split option.split)
  next
    case TarOther
    then show ?thesis using Some by (intro exI [of _ "[]"]) (simp add: extract_entry_def)
  next
    case TarReg
    obtain r1 w1 where 1: "logged ops (MkdirAll (path_dir p)) w = (r1, w1)" by (rule prod.exhaust)
    obtain r2 w2 where 2: "logged ops (CreateFile p (te_content e)) w1 = (r2, w2)" by (rule prod.exhaust)
    obtain r3 w3 where 3: "logged ops (Chmod p (te_mode e)) w2 = (r3, w3)" by (rule prod.exhaust)
    have t: "fst w1 = fst w @ [MkdirAll (path_dir p)]" "fst w2 = fst w1 @ [CreateFile p (te_content e)]"
      "fst w3 = fst w2 @ [Chmod p (te_mode e)]"
      using l [of "MkdirAll (path_dir p)" w] l [of "CreateFile p (te_content e)" w1] l [of "Chmod p (te_mode e)" w2] 1 2 3
      by simp_all
    have "fst (snd (extract_entry (logged ops) e w)) \<in> {fst w1, fst w2, fst w3}"
      using Some TarReg 1 2 3 by (auto simp: extract_entry_def split: option.split)
    then show ?thesis using t c d by auto
  qed
qed

lemma extract_entries_log:
  "\<exists>ops'. fst (snd (extract_entries (logged ops) es w)) = fst w @ ops' \<and> list_all (\<lambda>op. contained (op_path op)) ops'"
proof (induction "logged ops" es w rule: extract_entries.induct)
  case (3 e es w)
  obtain r w1 where r: "extract_entry (logged ops) e w = (r, w1)" by (rule prod.exhaust)
  obtain o1 where o1: "fst w1 = fst w @ o1" "list_all (\<lambda>op. contained (op_path op)) o1"
    using extract_entry_log [of ops e w] r by auto
  show ?case
  proof (cases r)
    case (Inl er)
    then show ?thesis using r o1 by auto
  next
    case (Inr u)
    obtain o2 where "fst (snd (extract_entries (logged ops) es w1)) = fst w1 @ o2"
      "list_all (\<lambda>op. contained (op_path op)) o2"
      using 3 [OF r [symmetric] Inr] by blast
    then show ?thesis using r Inr o1 by (intro exI [of _ "o1 @ o2"]) auto
  qed
qed auto

text \<open>C18. An archive is extracted below its destination, whatever its entries are called: every directory made,
  file created and mode set has a relative path without \<open>..\<close>.\<close>

theorem extraction_contained:
  "list_all (\<lambda>op. contained (op_path op)) (fst (snd (extract_tar_gz (logged ops) opened dest (\<lambda>w. w) ([], w))))"
proof (cases opened)
  case (Inr stream)
  obtain r w' where e: "extract_entries (logged ops) stream ([], w) = (r, w')" by (rule prod.exhaust)
  have "list_all (\<lambda>op. contained (op_path op)) (fst w')" using extract_entries_log [of ops stream "([], w)"] e by auto
  then show ?thesis using Inr e by (cases dest; cases r) (simp_all add: extract_tar_gz_def)
qed (simp add: extract_tar_gz_def)

end
