(* ===== verification/ComposeOverride.thy ===== *)
theory ComposeOverride
  imports ImageMerge RunArgs
begin

text \<open>
  \<open>internal/cli/compose_override.go\<close>: the compose override files, rendered as text, and the mounts they
  write. \<open>ft\<close> is the text of a float64.
\<close>

definition compose_build_override_prefix :: string where
  "compose_build_override_prefix = ''docker-compose.devcontainer.build''"

definition compose_features_override_prefix :: string where
  "compose_features_override_prefix = ''docker-compose.devcontainer.containerFeatures''"

definition lf :: string where "lf = [CHR 0x0A]"

subsection \<open>The version line\<close>

text \<open>The class \<open>\s\<close> of JavaScript and its line terminators, as byte sequences.\<close>

definition version_spaces :: "string list" where
  "version_spaces = [[CHR 0x09], [CHR 0x0A], [CHR 0x0B], [CHR 0x0C], [CHR 0x0D], [CHR 0x20], [CHR 0xC2, CHR 0xA0],
     [CHR 0xE1, CHR 0x9A, CHR 0x80]]
     @ map (\<lambda>n. [CHR 0xE2, CHR 0x80, char_of (n + 0x80 :: nat)]) [0, 1, 2, 3, 4, 5, 6, 7, 8, 9, 10]
     @ [[CHR 0xE2, CHR 0x80, CHR 0xA8], [CHR 0xE2, CHR 0x80, CHR 0xA9], [CHR 0xE2, CHR 0x80, CHR 0xAF],
        [CHR 0xE2, CHR 0x81, CHR 0x9F], [CHR 0xE3, CHR 0x80, CHR 0x80], [CHR 0xEF, CHR 0xBB, CHR 0xBF]]"

definition line_breaks :: "string list" where
  "line_breaks = [[CHR 0x0D], [CHR 0xE2, CHR 0x80, CHR 0xA8], [CHR 0xE2, CHR 0x80, CHR 0xA9]]"

fun until_line_end :: "string \<Rightarrow> string" where
  "until_line_end [] = []"
| "until_line_end (c # s) =
     (if c = CHR 0x0A \<or> find (\<lambda>p. has_prefix (c # s) p) line_breaks \<noteq> None then [] else c # until_line_end s)"

definition version_at :: "string \<Rightarrow> string option" where
  "version_at s =
     (let t = strip_seqs (length s) version_spaces s
      in if has_prefix t ''version:'' then Some (until_line_end t) else None)"

text \<open>The leftmost match: at the start of a line, or behind one of the other line breaks.\<close>

fun find_version :: "bool \<Rightarrow> string \<Rightarrow> string option" where
  "find_version start [] = (if start then version_at [] else None)"
| "find_version start (c # s) =
     (case (if start then version_at (c # s) else None) of
        Some v \<Rightarrow> Some v
      | None \<Rightarrow>
          (case (case find (\<lambda>p. has_prefix (c # s) p) line_breaks of
                   Some p \<Rightarrow> version_at (drop (length p) (c # s)) | None \<Rightarrow> None) of
             Some v \<Rightarrow> Some v
           | None \<Rightarrow> find_version (c = CHR 0x0A) s))"

definition read_compose_version_prefix :: "(string \<Rightarrow> (string, string) res) \<Rightarrow> string list \<Rightarrow> (string, string) res" where
  "read_compose_version_prefix read files =
     (case files of
        [] \<Rightarrow> Inr []
      | f # fs \<Rightarrow>
          (case read f of
             Inl e \<Rightarrow> Inl (''read compose file: '' @ e)
           | Inr s \<Rightarrow> Inr (case find_version True s of None \<Rightarrow> [] | Some v \<Rightarrow> v @ lf @ lf)))"

subsection \<open>Mounts\<close>

record compose_mount =
  cmp_type :: string
  cmp_source :: string
  cmp_target :: string
  cmp_external :: bool
  cmp_read_only :: bool

definition empty_compose_mount :: compose_mount where
  "empty_compose_mount = \<lparr>cmp_type = [], cmp_source = [], cmp_target = [], cmp_external = False, cmp_read_only = False\<rparr>"

definition compose_volume_spec :: "compose_mount \<Rightarrow> string" where
  "compose_volume_spec m =
     (if cmp_source m \<noteq> [] then cmp_source m @ '':'' @ cmp_target m else cmp_target m)
     @ (if cmp_read_only m then '':ro'' else [])"

definition compose_top_level_volume :: "compose_mount \<Rightarrow> string" where
  "compose_top_level_volume m =
     lf @ ''  '' @ cmp_source m @ '':'' @ (if cmp_external m then lf @ ''    external: true'' else [])"

definition set_compose_key :: "compose_mount \<Rightarrow> string \<Rightarrow> string \<Rightarrow> compose_mount" where
  "set_compose_key m k v =
     (if k = ''type'' then m\<lparr>cmp_type := v\<rparr>
      else if k = ''source'' \<or> k = ''src'' then m\<lparr>cmp_source := v\<rparr>
      else if k = ''target'' \<or> k = ''dst'' \<or> k = ''destination'' then m\<lparr>cmp_target := v\<rparr>
      else if k = ''external'' then m\<lparr>cmp_external := (v \<noteq> [])\<rparr>
      else if k = ''readonly'' \<or> k = ''ro'' then m\<lparr>cmp_read_only := (v = [] \<or> v = ''true'' \<or> v = ''1'')\<rparr>
      else m)"

definition compose_mount_part :: "compose_mount \<Rightarrow> string \<Rightarrow> compose_mount" where
  "compose_mount_part m part =
     (case cut_byte (CHR ''='') part of (k, rest, found) \<Rightarrow>
        (case cut_byte (CHR ''='') rest of (v, rest', found') \<Rightarrow> set_compose_key m k v))"

definition parse_compose_mount_string :: "string \<Rightarrow> compose_mount" where
  "parse_compose_mount_string spec = foldl compose_mount_part empty_compose_mount (split_byte (CHR '','') spec)"

text \<open>A member that is not a string reads as the empty string.\<close>

definition string_member :: "json gomap \<Rightarrow> string \<Rightarrow> string" where
  "string_member m k = (case map_of m k of Some (JStr s) \<Rightarrow> s | _ \<Rightarrow> [])"

definition bool_member :: "json gomap \<Rightarrow> string \<Rightarrow> bool" where
  "bool_member m k = (case map_of m k of Some (JBool b) \<Rightarrow> b | _ \<Rightarrow> False)"

datatype 'e mount_error = ResolveError 'e | Unsupported json

definition compose_mount_from :: "(string \<Rightarrow> ('e, string) res) \<Rightarrow> json \<Rightarrow> ('e mount_error, compose_mount) res" where
  "compose_mount_from resolve entry =
     (case entry of
        JStr s \<Rightarrow>
          (case resolve s of Inl e \<Rightarrow> Inl (ResolveError e) | Inr spec \<Rightarrow> Inr (parse_compose_mount_string spec))
      | JObj raw \<Rightarrow>
          (case resolve (string_member raw ''source'') of
             Inl e \<Rightarrow> Inl (ResolveError e)
           | Inr source \<Rightarrow>
               (case resolve (string_member raw ''target'') of
                  Inl e \<Rightarrow> Inl (ResolveError e)
                | Inr targ \<Rightarrow>
                    Inr \<lparr>cmp_type = string_member raw ''type'', cmp_source = source, cmp_target = targ,
                      cmp_external = bool_member raw ''external'', cmp_read_only = bool_member raw ''readonly''\<rparr>))
      | v \<Rightarrow> Inl (Unsupported v))"

definition compose_mounts_from_metadata ::
  "(string \<Rightarrow> ('e, string) res) \<Rightarrow> json list \<Rightarrow> ('e mount_error, compose_mount list) res" where
  "compose_mounts_from_metadata resolve entries = traverse (compose_mount_from resolve) entries"

subsection \<open>The features override\<close>

record features_override =
  fo_version_prefix :: string
  fo_service :: string
  fo_updated_image :: string
  fo_original_image :: string
  fo_merged :: "merged_config option"
  fo_service_entrypoint :: "string list option"
  fo_service_command :: "string list option"
  fo_image_entrypoint :: "string list"
  fo_image_cmd :: "string list"
  fo_labels :: "string list"
  fo_mounts :: "compose_mount list"
  fo_gpu :: bool

definition escape_compose_dollar :: "string \<Rightarrow> string" where
  "escape_compose_dollar s = replace_all s ''$'' ''$$''"

definition json_string_list :: "string list \<Rightarrow> string" where
  "json_string_list ss = ''['' @ join '','' (map (go_quote False) ss) @ '']''"

text \<open>Doubled quotes inside YAML's single quotes.\<close>

definition double_quotes :: "string \<Rightarrow> string" where
  "double_quotes s = replace_all s sq (sq @ sq)"

definition env_line :: "string \<Rightarrow> string \<Rightarrow> string" where
  "env_line k v =
     (let v1 = replace_all v lf [CHR 0x5C, CHR ''n''];
          v2 = escape_compose_dollar v1
      in lf @ ''      - '' @ sq @ k @ ''='' @ double_quotes v2 @ sq)"

definition label_line :: "string \<Rightarrow> string" where
  "label_line l = lf @ ''      - '' @ sq @ double_quotes (escape_compose_dollar l) @ sq"

definition user_entrypoint :: "features_override \<Rightarrow> bool \<Rightarrow> string list" where
  "user_entrypoint i over =
     (if over then []
      else (case fo_service_entrypoint i of
          Some e \<Rightarrow> e | None \<Rightarrow> map escape_compose_dollar (fo_image_entrypoint i)))"

definition user_command :: "features_override \<Rightarrow> bool \<Rightarrow> string list" where
  "user_command i over =
     (if over then []
      else (case fo_service_command i of
          Some c \<Rightarrow> c
        | None \<Rightarrow> if fo_service_entrypoint i \<noteq> None then [] else map escape_compose_dollar (fo_image_cmd i)))"

definition escaped_lf :: string where
  "escaped_lf = [CHR 0x5C, CHR ''n''] @ lf"

definition escaped_dq :: string where
  "escaped_dq = [CHR 0x5C] @ dq"

definition entrypoint_text :: "merged_config \<Rightarrow> string list \<Rightarrow> string" where
  "entrypoint_text m user =
     lf @ ''    entrypoint: ['' @ dq @ ''/bin/sh'' @ dq @ '', '' @ dq @ ''-c'' @ dq @ '', '' @ dq
     @ ''echo Container started'' @ escaped_lf
     @ ''trap '' @ escaped_dq @ ''exit 0'' @ escaped_dq @ '' 15'' @ escaped_lf
     @ join escaped_lf (m_entrypoints m) @ escaped_lf
     @ ''exec '' @ escaped_dq @ ''$$@'' @ escaped_dq @ escaped_lf
     @ ''while sleep 1 & wait $$!; do :; done'' @ dq @ '', '' @ dq @ ''-'' @ dq
     @ concat (map (\<lambda>a. '', '' @ go_quote False a) user) @ '']''"

definition items :: "string \<Rightarrow> ('a \<Rightarrow> string) \<Rightarrow> 'a list \<Rightarrow> string" where
  "items header line xs = (if xs = [] then [] else lf @ header @ concat (map line xs))"

definition gpu_text :: string where
  "gpu_text = lf @ ''    deploy:'' @ lf @ ''      resources:'' @ lf @ ''        reservations:'' @ lf
     @ ''          devices:'' @ lf @ ''            - capabilities: [gpu]''"

definition set_flag :: "bool option \<Rightarrow> bool" where
  "set_flag b \<longleftrightarrow> b = Some True"

definition service_text :: "features_override \<Rightarrow> merged_config \<Rightarrow> string" where
  "service_text i m =
     (let over = set_flag (m_override_command m) in
      (if fo_updated_image i \<noteq> fo_original_image i then lf @ ''    image: '' @ fo_updated_image i else [])
      @ entrypoint_text m (user_entrypoint i over)
      @ (if over \<or> fo_service_command i = None then lf @ ''    command: '' @ json_string_list (user_command i over) else [])
      @ (if set_flag (m_init m) then lf @ ''    init: true'' else [])
      @ (if m_container_user m \<noteq> [] then lf @ ''    user: '' @ m_container_user m else [])
      @ items ''    environment:'' (\<lambda>k. env_line k (the (map_of (m_container_env m) k))) (sorted_keys (m_container_env m))
      @ (if set_flag (m_privileged m) then lf @ ''    privileged: true'' else [])
      @ items ''    cap_add:'' (\<lambda>c. lf @ ''      - '' @ c) (m_cap_add m)
      @ items ''    security_opt:'' (\<lambda>s. lf @ ''      - '' @ s) (m_security_opt m)
      @ items ''    labels:'' label_line (fo_labels i)
      @ items ''    volumes:'' (\<lambda>v. lf @ ''      - '' @ compose_volume_spec v) (fo_mounts i)
      @ (if fo_gpu i then gpu_text else []))"

definition generate_compose_features_override :: "features_override \<Rightarrow> string" where
  "generate_compose_features_override i =
     (let m = (case fo_merged i of None \<Rightarrow> empty_merged | Some m \<Rightarrow> m);
          named = filter (\<lambda>v. cmp_type v = ''volume'' \<and> cmp_source v \<noteq> []) (fo_mounts i)
      in fo_version_prefix i @ ''services:'' @ lf @ ''  '' @ sq @ fo_service i @ sq @ '':''
         @ service_text i m
         @ items ''volumes:'' (\<lambda>v. lf @ ''  '' @ compose_top_level_volume v) named
         @ lf)"

subsection \<open>The build override\<close>

record build_override =
  bo_version_prefix :: string
  bo_service :: string
  bo_image :: string
  bo_dockerfile :: string
  bo_target :: string
  bo_context :: string
  bo_buildkit_inline_cache :: bool
  bo_build_args :: "(string \<times> string) list"
  bo_additional_contexts :: "(string \<times> string) list"
  bo_cache_from :: "string list"

definition pair_line :: "string \<times> string \<Rightarrow> string" where
  "pair_line p = ''        - '' @ fst p @ ''='' @ snd p @ lf"

definition build_content :: "build_override \<Rightarrow> string" where
  "build_content i =
     (if bo_dockerfile i = [] then []
      else (if bo_image i \<noteq> [] then ''    image: '' @ bo_image i @ lf else [])
        @ ''    build:'' @ lf
        @ ''      dockerfile: '' @ bo_dockerfile i @ lf
        @ (if bo_target i \<noteq> [] then ''      target: '' @ bo_target i @ lf else [])
        @ (if bo_context i \<noteq> [] then ''      context: '' @ bo_context i @ lf else [])
        @ (if bo_build_args i \<noteq> [] \<or> bo_buildkit_inline_cache i
           then ''      args:'' @ lf
             @ (if bo_buildkit_inline_cache i then ''        - BUILDKIT_INLINE_CACHE=1'' @ lf else [])
             @ concat (map pair_line (bo_build_args i))
           else [])
        @ (if bo_additional_contexts i \<noteq> []
           then ''      additional_contexts:'' @ lf @ concat (map pair_line (bo_additional_contexts i)) else []))"

definition generate_compose_build_override :: "build_override \<Rightarrow> string" where
  "generate_compose_build_override i =
     (let content = build_content i;
          cache_from = (if bo_cache_from i \<noteq> []
            then ''      cache_from:'' @ lf @ join lf (map (\<lambda>c. ''        - '' @ c @ lf) (bo_cache_from i)) else [])
      in if content = [] \<and> bo_cache_from i = [] then []
         else bo_version_prefix i @ ''services:'' @ lf @ ''  '' @ bo_service i @ '':'' @ lf
           @ trim_right content [CHR '' '', CHR 0x09, CHR 0x0D, CHR 0x0A] @ lf @ cache_from @ lf)"

subsection \<open>What compose reads\<close>

text \<open>A single-quoted YAML scalar on one line, after its opening quote: its text and what follows it.\<close>

fun yaml_single :: "string \<Rightarrow> (string \<times> string) option" where
  "yaml_single [] = None"
| "yaml_single (c # s) =
     (if c = CHR 0x0A then None
      else if c = CHR 0x27 then
        (case s of
           d # t \<Rightarrow> if d = CHR 0x27 then map_option (\<lambda>(x, r). (CHR 0x27 # x, r)) (yaml_single t) else Some ([], s)
         | [] \<Rightarrow> Some ([], []))
      else map_option (\<lambda>(x, r). (c # x, r)) (yaml_single s))"

text \<open>Compose's interpolation of a text without variables: a doubled dollar is one.\<close>

fun interpolate :: "string \<Rightarrow> string option" where
  "interpolate [] = Some []"
| "interpolate (c # s) =
     (if c = CHR ''$''
      then (case s of d # t \<Rightarrow> if d = CHR ''$'' then map_option ((#) (CHR ''$'')) (interpolate t) else None | [] \<Rightarrow> None)
      else map_option ((#) c) (interpolate s))"

lemma double_quotes_concat: "double_quotes s = concat (map (\<lambda>c. if c = CHR 0x27 then [CHR 0x27, CHR 0x27] else [c]) s)"
  by (simp add: double_quotes_def sq_def replace_all_byte)

lemma escape_dollar_concat:
  "escape_compose_dollar s = concat (map (\<lambda>c. if c = CHR ''$'' then ''$$'' else [c]) s)"
  by (simp add: escape_compose_dollar_def replace_all_byte)

lemma yaml_double_quotes:
  "CHR 0x0A \<notin> set s \<Longrightarrow> yaml_single (double_quotes s @ [CHR 0x27]) = Some (s, [])"
  unfolding double_quotes_concat by (induction s) auto

lemma interpolate_escaped: "interpolate (escape_compose_dollar s) = Some s"
  unfolding escape_dollar_concat by (induction s) auto

lemma interpolate_plain: "CHR ''$'' \<notin> set k \<Longrightarrow> interpolate (k @ s) = map_option ((@) k) (interpolate s)"
proof (induction k)
  case (Cons c k)
  then show ?case by (cases "interpolate s") auto
qed (cases "interpolate s"; simp)

lemma double_quotes_plain: "CHR 0x27 \<notin> set k \<Longrightarrow> double_quotes k = k"
  unfolding double_quotes_concat by (induction k) auto

lemma double_quotes_append: "double_quotes (a @ b) = double_quotes a @ double_quotes b"
  by (simp add: double_quotes_concat)

lemma set_escape_dollar: "set (escape_compose_dollar s) = set s"
  by (auto simp: escape_dollar_concat split: if_splits)

lemma no_lf: "CHR 0x0A \<notin> set (replace_all v lf [CHR 0x5C, CHR ''n''])"
  by (auto simp: lf_def replace_all_byte split: if_splits)

text \<open>Compose gives the container each environment variable as it is, its line breaks written \<open>\n\<close>: YAML
  and the interpolation undo the quoting of any value.\<close>

theorem compose_env_read_back:
  assumes "set k \<inter> {CHR 0x27, CHR ''$'', CHR 0x0A} = {}"
  shows "\<exists>t raw. env_line k v = lf @ ''      - '' @ sq @ t \<and> yaml_single t = Some (raw, []) \<and>
    interpolate raw = Some (k @ ''='' @ replace_all v lf [CHR 0x5C, CHR ''n''])"
proof (intro exI conjI)
  let ?w = "escape_compose_dollar (replace_all v lf [CHR 0x5C, CHR ''n''])"
  show "env_line k v = lf @ ''      - '' @ sq @ (k @ ''='' @ double_quotes ?w @ sq)"
    by (simp add: env_line_def Let_def)
  have "k @ ''='' @ double_quotes ?w @ sq = double_quotes (k @ ''='' @ ?w) @ [CHR 0x27]"
    using assms double_quotes_append [of "k @ ''=''" ?w] double_quotes_plain [of "k @ ''=''"] by (simp add: sq_def)
  moreover have "CHR 0x0A \<notin> set (k @ ''='' @ ?w)" using assms no_lf by (auto simp: set_escape_dollar)
  ultimately show "yaml_single (k @ ''='' @ double_quotes ?w @ sq) = Some (k @ ''='' @ ?w, [])"
    using yaml_double_quotes [of "k @ ''='' @ ?w"] by metis
  show "interpolate (k @ ''='' @ ?w) = Some (k @ ''='' @ replace_all v lf [CHR 0x5C, CHR ''n''])"
    using assms interpolate_plain [of k "''='' @ ?w"] interpolate_escaped by auto
qed

lemma compose_env_read_back_witness:
  "\<exists>t raw. env_line ''A'' [CHR ''$'', CHR 0x27] = lf @ ''      - '' @ sq @ t \<and> yaml_single t = Some (raw, []) \<and>
    interpolate raw = Some (''A='' @ [CHR ''$'', CHR 0x27])"
  using compose_env_read_back [of "''A''" "[CHR ''$'', CHR 0x27]"] by (simp add: lf_def)

lemma compose_label_read_back:
  assumes "CHR 0x0A \<notin> set l"
  shows "\<exists>t raw. label_line l = lf @ ''      - '' @ sq @ t \<and> yaml_single t = Some (raw, []) \<and> interpolate raw = Some l"
  using yaml_double_quotes [of "escape_compose_dollar l"] interpolate_escaped [of l] assms
  by (intro exI [of _ "double_quotes (escape_compose_dollar l) @ sq"] exI [of _ "escape_compose_dollar l"])
    (simp add: label_line_def set_escape_dollar sq_def)

subsection \<open>A mount is the same in both modes\<close>

text \<open>A part of a mount's text with one equals sign, or none after a key that takes no value.\<close>

definition plain_part :: "string \<Rightarrow> bool" where
  "plain_part p \<longleftrightarrow> (case cut_byte (CHR ''='') p of (k, v, found) \<Rightarrow>
     if found then CHR ''='' \<notin> set v else k \<notin> {''type'', ''source'', ''src'', ''target'', ''dst'', ''destination'', ''external''})"

definition same_mount :: "compose_mount \<Rightarrow> mount \<Rightarrow> bool" where
  "same_mount c m \<longleftrightarrow> cmp_type c = mount_type m \<and> cmp_source c = mount_source m \<and> cmp_target c = mount_target m \<and>
     cmp_read_only c = mount_read_only m"

lemma same_mount_part:
  assumes "same_mount c m" and "plain_part p"
  shows "same_mount (compose_mount_part c p) (mount_part m p)"
proof -
  obtain k v f where p: "cut_byte (CHR ''='') p = (k, v, f)" by (cases "cut_byte (CHR ''='') p") auto
  show ?thesis
  proof (cases f)
    case True
    then have "cut_byte (CHR ''='') v = (v, [], False)"
      using assms(2) p cut_byte_missing [of "CHR ''=''" v v "[]"] by (simp add: plain_part_def)
    then show ?thesis using assms(1) p True
      by (simp add: compose_mount_part_def mount_part_def set_compose_key_def set_mount_key_def same_mount_def)
  next
    case False
    then have "v = []" using p cut_byte_missing [of "CHR ''=''" p k v] by simp
    moreover have "cut_byte (CHR ''='') [] = ([], [], False)" using cut_byte_missing [of "CHR ''=''" "[]" "[]" "[]"] by simp
    ultimately show ?thesis using assms p False
      by (simp add: compose_mount_part_def mount_part_def set_compose_key_def same_mount_def plain_part_def)
  qed
qed

text \<open>A mount given as a text is the same mount with docker and with compose, when its parts have at most one
  equals sign.\<close>

theorem mount_modes_agree:
  assumes "list_all plain_part (split_byte (CHR '','') spec)" and "parse_mount_spec spec = Inr m"
    and "c = parse_compose_mount_string spec"
  shows "(cmp_source c, cmp_target c, cmp_read_only c) = (mount_source m, mount_target m, mount_read_only m) \<and>
    mount_type m = (if cmp_type c = [] then ''bind'' else cmp_type c)"
proof -
  have "list_all plain_part ps \<Longrightarrow> same_mount c m' \<Longrightarrow> same_mount (foldl compose_mount_part c ps) (foldl mount_part m' ps)"
    for ps c m' by (induction ps arbitrary: c m') (auto intro: same_mount_part)
  from this [OF assms(1), of empty_compose_mount empty_mount]
  have "same_mount (parse_compose_mount_string spec) (foldl mount_part empty_mount (split_byte (CHR '','') spec))"
    by (simp add: parse_compose_mount_string_def same_mount_def empty_compose_mount_def empty_mount_def)
  then show ?thesis using assms(2)
    by (auto simp: parse_mount_spec_def Let_def same_mount_def assms(3) split: if_splits)
qed

lemma mount_modes_agree_witness:
  "cmp_read_only (parse_compose_mount_string ''src=/a,dst=/b,readonly'') = True"
  using mount_modes_agree [of "''src=/a,dst=/b,readonly''" "\<lparr>mount_type = ''bind'', mount_source = ''/a'', mount_target = ''/b'',
      mount_read_only = True, mount_consistency = []\<rparr>" "parse_compose_mount_string ''src=/a,dst=/b,readonly''"]
  by (simp add: plain_part_def cut_byte_def index_byte_def parse_mount_spec_def mount_part_def set_mount_key_def empty_mount_def)

end
