(* ===== verification/DockerEngine.thy ===== *)
theory DockerEngine
  imports GoPath Sha256 Hooks ConfigTypes
begin

text \<open>
  \<open>internal/docker/engine.go\<close>, \<open>exec.go\<close> and \<open>context.go\<close>, and \<open>folderImageName\<close> of \<open>internal/cli/mounts.go\<close>:
  what the CLI does with the Engine API and the Docker contexts. The daemon is a parameter on a world of its own; what is asked of it
  are the calls below.
\<close>

subsection \<open>Image names\<close>

definition is_sep :: "char \<Rightarrow> bool" where
  "is_sep c \<longleftrightarrow> c = CHR ''.'' \<or> c = CHR ''_'' \<or> c = CHR ''-''"

definition is_alnum :: "char \<Rightarrow> bool" where
  "is_alnum c \<longleftrightarrow> is_lower c \<or> is_digit c"

text \<open>\<open>collapsiblePattern\<close> at the start of a text: what is kept of the match, and what follows it.\<close>

fun collapsible :: "string \<Rightarrow> (string \<times> string) option" where
  "collapsible [] = None"
| "collapsible (c # s) =
     (if c = CHR ''.'' then
        (case s of d # t \<Rightarrow> if is_sep d then Some (''.'', dropWhile is_sep t) else None | [] \<Rightarrow> None)
      else if c = CHR ''_'' then
        (case s of
           d # t \<Rightarrow>
             if d = CHR ''.'' \<or> d = CHR ''-'' then Some (''_'', dropWhile is_sep t)
             else if d = CHR ''_''
             then (case t of e # u \<Rightarrow> if is_sep e then Some (''__'', dropWhile is_sep u) else None | [] \<Rightarrow> None)
             else None
         | [] \<Rightarrow> None)
      else if c = CHR ''-'' then
        (case dropWhile (\<lambda>d. d = CHR ''-'') s of
           d # t \<Rightarrow> if d = CHR ''.'' \<or> d = CHR ''_''
                   then Some (takeWhile (\<lambda>d. d = CHR ''-'') (c # s), dropWhile is_sep t) else None
         | [] \<Rightarrow> None)
      else None)"

lemma collapsible_shorter: "collapsible s = Some (kept, rest) \<Longrightarrow> length rest < length s"
proof (cases s)
  case (Cons c t)
  have d: "length (dropWhile P u) \<le> length u" for P :: "char \<Rightarrow> bool" and u by (rule length_dropWhile_le)
  assume "collapsible s = Some (kept, rest)"
  then show ?thesis using d [of is_sep "tl t"] d [of is_sep "tl (tl t)"] d [of "\<lambda>d. d = CHR ''-''" t]
      d [of is_sep "tl (dropWhile (\<lambda>d. d = CHR ''-'') t)"]
    unfolding Cons by (auto split: if_splits list.splits)
qed simp

function collapse_separators :: "string \<Rightarrow> string" where
  "collapse_separators [] = []"
| "collapse_separators (c # s) =
     (case collapsible (c # s) of
        Some (kept, rest) \<Rightarrow> kept @ collapse_separators rest
      | None \<Rightarrow> c # collapse_separators s)"
  by pat_completeness auto
termination
  by (relation "measure length") (auto simp del: collapsible.simps dest!: collapsible_shorter)

definition to_image_name :: "(string \<Rightarrow> string) \<Rightarrow> string \<Rightarrow> string" where
  "to_image_name ulow name = collapse_separators (filter (\<lambda>c. is_alnum c \<or> is_sep c) (to_lower ulow name))"

definition hex_bytes :: "int list \<Rightarrow> string" where
  "hex_bytes bs = concat (map (\<lambda>b. [hex_digit (nat b div 16), hex_digit (nat b mod 16)]) bs)"

definition folder_image_name :: "(string \<Rightarrow> string) \<Rightarrow> string \<Rightarrow> string" where
  "folder_image_name ulow folder =
     to_image_name ulow (''vsc-'' @ path_base folder @ ''-'' @ hex_bytes (sha256 folder))"

subsection \<open>An image name is one Docker accepts\<close>

text \<open>A path component of a Docker reference: runs of lower case letters and digits between separators, each a
  dot, one or two underscores, or dashes.\<close>

definition valid_sep :: "string \<Rightarrow> bool" where
  "valid_sep r \<longleftrightarrow> r = ''.'' \<or> r = ''_'' \<or> r = ''__'' \<or> r \<noteq> [] \<and> list_all (\<lambda>c. c = CHR ''-'') r"

function seps_ok :: "string \<Rightarrow> bool" where
  "seps_ok [] = True"
| "seps_ok (c # s) =
     (if is_sep c then valid_sep (takeWhile is_sep (c # s)) \<and> seps_ok (dropWhile is_sep s) else seps_ok s)"
  by pat_completeness auto
termination
  by (relation "measure length") (auto simp: length_dropWhile_le le_imp_less_Suc)

definition image_component :: "string \<Rightarrow> bool" where
  "image_component s \<longleftrightarrow> s \<noteq> [] \<and> is_alnum (hd s) \<and> is_alnum (last s) \<and>
     list_all (\<lambda>c. is_alnum c \<or> is_sep c) s \<and> seps_ok s"

definition begins_word :: "string \<Rightarrow> bool" where
  "begins_word t \<longleftrightarrow> t = [] \<or> \<not> is_sep (hd t)"

lemma alnum_not_sep: "is_alnum c \<Longrightarrow> \<not> is_sep c"
  by (auto simp: is_alnum_def is_sep_def is_lower_def is_digit_def bval_def)

lemma drop_seps: "list_all is_sep r \<Longrightarrow> begins_word t \<Longrightarrow> dropWhile is_sep (r @ t) = t"
  by (cases t) (auto simp: begins_word_def list_all_iff dropWhile_append2)

lemma take_seps: "list_all is_sep r \<Longrightarrow> begins_word t \<Longrightarrow> takeWhile is_sep (r @ t) = r"
  by (cases t) (auto simp: begins_word_def list_all_iff takeWhile_append2)

lemma collapse_word: "\<not> is_sep c \<Longrightarrow> collapse_separators (c # s) = c # collapse_separators s"
  by (simp add: is_sep_def)

lemma dashes_then:
  assumes "list_all (\<lambda>d. d = CHR ''-'') ds" and "t = [] \<or> hd t \<noteq> CHR ''-''"
  shows "dropWhile (\<lambda>d. d = CHR ''-'') (ds @ t) = t" "takeWhile (\<lambda>d. d = CHR ''-'') (ds @ t) = ds"
  using assms by (cases t; auto simp: list_all_iff dropWhile_append2 takeWhile_append2)+

lemma collapse_dashes:
  "list_all (\<lambda>d. d = CHR ''-'') ds \<Longrightarrow> begins_word t \<Longrightarrow> collapse_separators (ds @ t) = ds @ collapse_separators t"
proof (induction ds)
  case (Cons d ds)
  have "t = [] \<or> hd t \<noteq> CHR ''-''" using Cons.prems(2) by (auto simp: begins_word_def is_sep_def)
  then have "dropWhile (\<lambda>d. d = CHR ''-'') (ds @ t) = t" using Cons.prems(1) by (intro dashes_then) simp_all
  moreover have "case t of [] \<Rightarrow> True | e # u \<Rightarrow> e \<noteq> CHR ''.'' \<and> e \<noteq> CHR ''_''"
    using Cons.prems(2) by (auto simp: begins_word_def is_sep_def split: list.split)
  ultimately have "collapsible (d # ds @ t) = None" using Cons.prems(1) by (auto split: list.splits)
  then show ?case using Cons by (simp del: collapsible.simps)
qed simp

lemma collapse_run:
  assumes "r \<noteq> []" and "list_all is_sep r" and "begins_word t"
  shows "\<exists>k. valid_sep k \<and> set k \<subseteq> set r \<and> collapse_separators (r @ t) = k @ collapse_separators t"
proof -
  obtain c r' where r: "r = c # r'" using assms(1) by (cases r) auto
  have s': "list_all is_sep r'" using assms(2) r by simp
  have w: "t = [] \<or> (\<exists>e u. t = e # u \<and> \<not> is_sep e)" using assms(3) by (cases t) (auto simp: begins_word_def)
  have ns: "\<not> is_sep e \<Longrightarrow> e \<noteq> CHR ''.'' \<and> e \<noteq> CHR ''_'' \<and> e \<noteq> CHR ''-''" for e by (auto simp: is_sep_def)
  consider "c = CHR ''.''" | "c = CHR ''_''" | "c = CHR ''-''" using assms(2) r by (auto simp: is_sep_def)
  then show ?thesis
  proof cases
    case 1
    have "collapse_separators (r @ t) = ''.'' @ collapse_separators t"
    proof (cases r')
      case Nil
      then show ?thesis using 1 r w by auto
    next
      case (Cons d r'')
      then show ?thesis using 1 r s' drop_seps [of r'' t] assms(3) by simp
    qed
    then show ?thesis using 1 r by (intro exI [of _ "''.''"]) (simp add: valid_sep_def)
  next
    case 2
    consider "r' = []" | d r'' where "r' = d # r''" "d \<noteq> CHR ''_''" | "r' = ''_''" | e u where "r' = CHR ''_'' # e # u"
      by (metis neq_Nil_conv)
    then show ?thesis
    proof cases
      case a: 1
      have "collapse_separators (r @ t) = ''_'' @ collapse_separators t" using a 2 r w ns by auto
      then show ?thesis using 2 r by (intro exI [of _ "''_''"]) (simp add: valid_sep_def)
    next
      case (2 d r'')
      then have "collapse_separators (r @ t) = ''_'' @ collapse_separators t"
        using \<open>c = _\<close> r s' drop_seps [of r'' t] assms(3) by (auto simp: is_sep_def)
      then show ?thesis using \<open>c = _\<close> r by (intro exI [of _ "''_''"]) (simp add: valid_sep_def)
    next
      case 3
      have "collapse_separators (CHR ''_'' # t) = CHR ''_'' # collapse_separators t" using w ns by auto
      moreover have "collapsible (CHR ''_'' # CHR ''_'' # t) = None" using w by auto
      ultimately have "collapse_separators (r @ t) = ''__'' @ collapse_separators t"
        using 3 2 r by (simp del: collapsible.simps)
      then show ?thesis using 2 r by (intro exI [of _ "''__''"]) (simp add: valid_sep_def)
    next
      case (4 e u)
      then have "collapse_separators (r @ t) = ''__'' @ collapse_separators t"
        using 2 r s' drop_seps [of u t] assms(3) by simp
      then show ?thesis using 2 r by (intro exI [of _ "''__''"]) (simp add: valid_sep_def)
    qed
  next
    case 3
    define ds where "ds = takeWhile (\<lambda>d. d = CHR ''-'') r"
    define q where "q = dropWhile (\<lambda>d. d = CHR ''-'') r"
    have rq: "r = ds @ q" by (simp add: ds_def q_def)
    have ds: "list_all (\<lambda>d. d = CHR ''-'') ds" "ds \<noteq> []" using 3 r by (auto simp: ds_def list_all_iff dest: set_takeWhileD)
    have v: "valid_sep ds" "set ds \<subseteq> set r" using ds rq by (auto simp: valid_sep_def)
    show ?thesis
    proof (cases q)
      case Nil
      then show ?thesis using collapse_dashes [OF ds(1) assms(3)] rq v by auto
    next
      case (Cons e u)
      have e: "e \<noteq> CHR ''-''" using Cons unfolding q_def dropWhile_eq_Cons_conv by blast
      obtain ds' where ds': "ds = CHR ''-'' # ds'" using ds by (cases ds) auto
      have "dropWhile (\<lambda>d. d = CHR ''-'') (ds' @ q @ t) = q @ t" "takeWhile (\<lambda>d. d = CHR ''-'') (ds' @ q @ t) = ds'"
        using ds(1) ds' Cons e by (intro dashes_then; simp)+
      moreover have "is_sep e" "list_all is_sep u" using assms(2) rq Cons by auto
      ultimately have "collapsible (CHR ''-'' # ds' @ q @ t) = Some (ds, t)"
        using Cons e drop_seps [of u t] assms(3) ds' by (auto simp: is_sep_def)
      then show ?thesis using rq ds' v by (intro exI [of _ ds]) (simp del: collapsible.simps)
    qed
  qed
qed

lemma run_split:
  assumes "s = c # s'" and "is_sep c"
  obtains r t where "s = r @ t" "r \<noteq> []" "list_all is_sep r" "begins_word t" "length t < length s"
proof (rule that)
  show "s = takeWhile is_sep s @ dropWhile is_sep s" by simp
  show "takeWhile is_sep s \<noteq> []" using assms by simp
  show "list_all is_sep (takeWhile is_sep s)" by (auto simp: list_all_iff dest: set_takeWhileD)
  show "begins_word (dropWhile is_sep s)" using hd_dropWhile [of is_sep s] unfolding begins_word_def by blast
  show "length (dropWhile is_sep s) < length s" using assms by (simp add: length_dropWhile_le le_imp_less_Suc)
qed

lemma collapse_begins: "begins_word t \<Longrightarrow> begins_word (collapse_separators t)"
  by (cases t) (auto simp: begins_word_def collapse_word simp del: collapse_separators.simps(2))

lemma collapse_props:
  "seps_ok (collapse_separators s) \<and> set (collapse_separators s) \<subseteq> set s \<and>
   (s \<noteq> [] \<and> is_alnum (last s) \<longrightarrow> collapse_separators s \<noteq> [] \<and> last (collapse_separators s) = last s)"
proof (induction "length s" arbitrary: s rule: less_induct)
  case less
  show ?case
  proof (cases s)
    case Nil
    then show ?thesis by simp
  next
    case (Cons c s')
    show ?thesis
    proof (cases "is_sep c")
      case False
      then show ?thesis using less [of s'] Cons
        by (cases "s' = []") (auto simp: collapse_word simp del: collapse_separators.simps(2))
    next
      case True
      obtain r t where rt: "s = r @ t" "r \<noteq> []" "list_all is_sep r" "begins_word t" "length t < length s"
        using run_split [OF Cons True] by blast
      obtain k where k: "valid_sep k" "set k \<subseteq> set r" "collapse_separators s = k @ collapse_separators t"
        using collapse_run [OF rt(2-4)] rt(1) by auto
      have ks: "list_all is_sep k" "k \<noteq> []" using k(1) by (auto simp: valid_sep_def is_sep_def list_all_iff)
      obtain d k' where d: "k = d # k'" using ks(2) by (cases k) auto
      note IH = less [OF rt(5)]
      have "seps_ok (k @ collapse_separators t)"
        using IH k(1) take_seps [OF ks(1) collapse_begins [OF rt(4)]] drop_seps [of k' "collapse_separators t"]
          collapse_begins [OF rt(4)] ks d by simp
      moreover have ne: "t \<noteq> []" if "is_alnum (last s)"
      proof
        assume "t = []"
        then have "last s \<in> set r" using rt(1) last_in_set [OF rt(2)] by simp
        then show False using rt(3) that alnum_not_sep by (auto simp: list_all_iff)
      qed
      moreover have "last (k @ collapse_separators t) = last s" if "is_alnum (last s)"
      proof -
        have tn: "t \<noteq> []" by (rule ne [OF that])
        then have ls: "last s = last t" unfolding rt(1) by simp
        then have "collapse_separators t \<noteq> [] \<and> last (collapse_separators t) = last t"
          using IH tn that by metis
        then show ?thesis using ls by simp
      qed
      moreover have "set (k @ collapse_separators t) \<subseteq> set s" 
      proof -
        have "set (collapse_separators t) \<subseteq> set t" using IH by blast
        then show ?thesis using k(2) unfolding rt(1) by fastforce
      qed
      ultimately show ?thesis using ks(2) unfolding k(3) by simp
    qed
  qed
qed

lemma to_image_name_component:
  assumes "to_lower ulow name = a # m @ [b]" and "is_alnum a" and "is_alnum b"
  shows "image_component (to_image_name ulow name)"
proof -
  define s where "s = filter (\<lambda>c. is_alnum c \<or> is_sep c) (to_lower ulow name)"
  have s: "s = a # filter (\<lambda>c. is_alnum c \<or> is_sep c) m @ [b]" using assms by (simp add: s_def)
  have h: "collapse_separators s = a # collapse_separators (tl s)"
    using s alnum_not_sep [OF assms(2)] by (simp add: collapse_word del: collapse_separators.simps(2))
  have "set s \<subseteq> {c. is_alnum c \<or> is_sep c}" using assms(2,3) s by auto
  then show ?thesis using collapse_props [of s] h assms(2,3) s
    by (auto simp: image_component_def to_image_name_def s_def [symmetric] list_all_iff)
qed

lemma hex_digit_alnum: "d < 16 \<Longrightarrow> is_alnum (hex_digit d)"
  by (simp add: is_alnum_def is_lower_def is_digit_def hex_digit_def)

lemma hex_digit_lower: "d < 16 \<Longrightarrow> lower_char (hex_digit d) = hex_digit d \<and> is_ascii (hex_digit d)"
  by (simp add: lower_char_def is_upper_def is_ascii_def hex_digit_def)

lemma hex_bytes_last:
  assumes "bs \<noteq> []" and "\<forall>b\<in>set bs. 0 \<le> b \<and> b < 256"
  shows "\<exists>h d. hex_bytes bs = h @ [d] \<and> is_alnum d \<and> map lower_char (h @ [d]) = h @ [d] \<and> list_all is_ascii (h @ [d])"
proof -
  have d: "nat b div 16 < 16 \<and> nat b mod 16 < 16" if "b \<in> set bs" for b using assms(2) that by auto
  obtain bs' b where b: "bs = bs' @ [b]" using assms(1) by (metis rev_exhaust)
  have "list_all is_ascii (hex_bytes bs)" "map lower_char (hex_bytes bs) = hex_bytes bs"
    using d hex_digit_lower by (auto simp: hex_bytes_def list_all_iff map_concat comp_def intro!: arg_cong [of _ _ concat])
  moreover have "hex_bytes bs = (hex_bytes bs' @ [hex_digit (nat b div 16)]) @ [hex_digit (nat b mod 16)]"
    by (simp add: hex_bytes_def b)
  ultimately show ?thesis using d [of b] b hex_digit_alnum by (metis in_set_conv_decomp)
qed

text \<open>C40. The image name of any workspace folder is one Docker accepts: lower case letters and digits with single
  separators between them, beginning with \<open>vsc\<close> and ending in the folder's hash. The hypothesis is the
  lower-casing of Unicode: it leaves the ASCII ends of a text apart.\<close>

theorem folder_image_name_component:
  assumes "\<And>a s b. list_all is_ascii a \<Longrightarrow> list_all is_ascii b \<Longrightarrow>
    \<exists>x. ulow (a @ s @ b) = map lower_char a @ x @ map lower_char b"
  shows "image_component (folder_image_name ulow folder)"
proof -
  obtain h d where h: "hex_bytes (sha256 folder) = h @ [d]" "is_alnum d" "map lower_char (h @ [d]) = h @ [d]" "list_all is_ascii (h @ [d])"
    using hex_bytes_last [of "sha256 folder"] sha256_bytes [of _ folder] length_sha256 [of folder]
    by (metis length_0_conv zero_neq_numeral)
  let ?n = "''vsc-'' @ path_base folder @ ''-'' @ hex_bytes (sha256 folder)"
  have p: "map lower_char ''vsc-'' = ''vsc-''" and q: "list_all is_ascii ''vsc-''" by code_simp+
  have "\<exists>x. to_lower ulow ?n = ''vsc-'' @ x @ (h @ [d])"
  proof (cases "list_all is_ascii ?n")
    case True
    then have "to_lower ulow ?n = map lower_char ''vsc-'' @ map lower_char (path_base folder @ ''-'') @ map lower_char (h @ [d])"
      by (simp add: to_lower_def h(1))
    then show ?thesis unfolding p h(3) by blast
  next
    case False
    obtain x where "ulow (''vsc-'' @ (path_base folder @ ''-'') @ (h @ [d])) = map lower_char ''vsc-'' @ x @ map lower_char (h @ [d])"
      using assms [OF q h(4)] by blast
    moreover have "to_lower ulow ?n = ulow ?n" using False unfolding to_lower_def by (rule if_not_P)
    ultimately have "to_lower ulow ?n = map lower_char ''vsc-'' @ x @ map lower_char (h @ [d])"
      by (simp only: h(1) append_assoc)
    then show ?thesis unfolding p h(3) by blast
  qed
  then obtain x where "to_lower ulow ?n = CHR ''v'' # (''sc-'' @ x @ h) @ [d]" by auto
  then show ?thesis unfolding folder_image_name_def
    by (rule to_image_name_component) (use h(2) in \<open>simp_all add: is_alnum_def is_lower_def bval_def\<close>)
qed

lemma folder_image_name_component_witness:
  "image_component (folder_image_name (map lower_char) ''/home/me/My App!'')"
  by (rule folder_image_name_component) auto

subsection \<open>The Engine API\<close>

datatype wait_result = Destroyed | StreamError string | TimedOut | Cancelled string

record platform_spec =
  pf_os :: string
  pf_arch :: string
  pf_variant :: string

text \<open>What inspecting gives, of the fields that are read.\<close>

record image_cfg =
  ic_labels :: "string gomap"
  ic_user :: string
  ic_env :: "string list"
  ic_entrypoint :: "string list"
  ic_cmd :: "string list"

record image_info =
  ii_config :: "image_cfg option"
  ii_os :: string
  ii_arch :: string
  ii_variant :: string

record container_cfg =
  ct_labels :: "string gomap"
  ct_env :: "string list"
  ct_user :: string

record container_state =
  st_running :: bool
  st_started_at :: string

record container_info =
  ci_id :: string
  ci_config :: "container_cfg option"
  ci_state :: "container_state option"
  ci_created :: string
  ci_image :: string

text \<open>The calls made, each with what the daemon answers: an attached exec gives its two outputs and the error that
  ended them.\<close>

record 'w engine_api =
  api_inspect_container :: "string \<Rightarrow> 'w \<Rightarrow> (string, container_info) res \<times> 'w"
  api_inspect_image :: "string \<Rightarrow> 'w \<Rightarrow> (string, image_info) res \<times> 'w"
  api_remove :: "string \<Rightarrow> 'w \<Rightarrow> string option \<times> 'w"
  api_watch_destroy :: "string \<Rightarrow> 'w \<Rightarrow> 'w"
  api_wait :: "'w \<Rightarrow> wait_result \<times> 'w"
  api_list :: "bool \<Rightarrow> string list \<Rightarrow> 'w \<Rightarrow> (string, string list) res \<times> 'w"
  api_pull :: "string \<Rightarrow> platform_spec option \<Rightarrow> 'w \<Rightarrow> string option \<times> 'w"
  api_start :: "string \<Rightarrow> 'w \<Rightarrow> string option \<times> 'w"
  api_stop :: "string \<Rightarrow> int option \<Rightarrow> 'w \<Rightarrow> string option \<times> 'w"
  api_exec_create :: "string \<Rightarrow> string \<Rightarrow> string list \<Rightarrow> string list \<Rightarrow> 'w \<Rightarrow> (string, string) res \<times> 'w"
  api_exec_attach :: "string \<Rightarrow> 'w \<Rightarrow> (string, string \<times> string \<times> string option) res \<times> 'w"
  api_exec_inspect :: "string \<Rightarrow> 'w \<Rightarrow> (string, int) res \<times> 'w"

definition inspect_container :: "'w engine_api \<Rightarrow> string \<Rightarrow> 'w \<Rightarrow> (string, container_info) res \<times> 'w" where
  "inspect_container api cid w = api_inspect_container api cid w"

definition inspect_image :: "'w engine_api \<Rightarrow> string \<Rightarrow> 'w \<Rightarrow> (string, image_info) res \<times> 'w" where
  "inspect_image api ref w = api_inspect_image api ref w"

definition start_container :: "'w engine_api \<Rightarrow> string \<Rightarrow> 'w \<Rightarrow> string option \<times> 'w" where
  "start_container api cid w = api_start api cid w"

definition in_progress :: "(string \<Rightarrow> string) \<Rightarrow> string \<Rightarrow> bool" where
  "in_progress ulow e \<longleftrightarrow> contains_sub (to_lower ulow e) ''already in progress''"

text \<open>The loop of \<open>RemoveContainer\<close>: the attempts left, and whether the destroy event is watched.\<close>

fun remove_attempts ::
  "(string \<Rightarrow> string) \<Rightarrow> 'w engine_api \<Rightarrow> string \<Rightarrow> nat \<Rightarrow> bool \<Rightarrow> 'w \<Rightarrow> string option \<times> 'w" where
  "remove_attempts ulow api cid 0 watching w = (None, w)"
| "remove_attempts ulow api cid (Suc n) watching w =
     (case api_remove api cid w of
        (None, w1) \<Rightarrow> (None, w1)
      | (Some e, w1) \<Rightarrow>
          if n = 0 \<or> \<not> in_progress ulow e then (Some e, w1)
          else (case api_wait api (if watching then w1 else api_watch_destroy api cid w1) of
              (Destroyed, w2) \<Rightarrow> (None, w2)
            | (StreamError er, w2) \<Rightarrow> (Some (''events stream: '' @ er), w2)
            | (Cancelled er, w2) \<Rightarrow> (Some er, w2)
            | (TimedOut, w2) \<Rightarrow> remove_attempts ulow api cid n True w2))"

definition remove_container :: "(string \<Rightarrow> string) \<Rightarrow> 'w engine_api \<Rightarrow> string \<Rightarrow> 'w \<Rightarrow> string option \<times> 'w" where
  "remove_container ulow api cid w = remove_attempts ulow api cid 7 False w"

definition parse_platform :: "string \<Rightarrow> platform_spec" where
  "parse_platform s =
     (case cut_byte (CHR ''/'') s of (a, rest, f1) \<Rightarrow>
        (case cut_byte (CHR ''/'') rest of (b, c, f2) \<Rightarrow>
           \<lparr>pf_os = a, pf_arch = (if f1 then b else []), pf_variant = (if f1 \<and> f2 then c else [])\<rparr>))"

definition pull_image_platform :: "'w engine_api \<Rightarrow> string \<Rightarrow> string \<Rightarrow> 'w \<Rightarrow> string option \<times> 'w" where
  "pull_image_platform api ref plat w = api_pull api ref (if plat \<noteq> [] then Some (parse_platform plat) else None) w"

definition pull_image :: "'w engine_api \<Rightarrow> string \<Rightarrow> 'w \<Rightarrow> string option \<times> 'w" where
  "pull_image api ref w = pull_image_platform api ref [] w"

definition inspected_labels :: "(string, image_info) res \<Rightarrow> string gomap option" where
  "inspected_labels r =
     (case r of Inr i \<Rightarrow> (case ii_config i of Some c \<Rightarrow> Some (ic_labels c) | None \<Rightarrow> None) | Inl e \<Rightarrow> None)"

definition image_labels_ensuring_present :: "'w engine_api \<Rightarrow> string \<Rightarrow> 'w \<Rightarrow> string gomap option \<times> 'w" where
  "image_labels_ensuring_present api ref w =
     (case inspect_image api ref w of
        (r, w1) \<Rightarrow>
          (case inspected_labels r of
             Some l \<Rightarrow> (Some l, w1)
           | None \<Rightarrow>
               (case pull_image api ref w1 of
                  (Some e, w2) \<Rightarrow> (None, w2)
                | (None, w2) \<Rightarrow> (case inspect_image api ref w2 of (r2, w3) \<Rightarrow> (inspected_labels r2, w3)))))"

definition stop_container :: "'w engine_api \<Rightarrow> string \<Rightarrow> 'w \<Rightarrow> string option \<times> 'w" where
  "stop_container api cid w = api_stop api cid None w"

definition stop_container_now :: "'w engine_api \<Rightarrow> string \<Rightarrow> 'w \<Rightarrow> string option \<times> 'w" where
  "stop_container_now api cid w = api_stop api cid (Some 0) w"

definition list_containers :: "'w engine_api \<Rightarrow> bool \<Rightarrow> string list \<Rightarrow> 'w \<Rightarrow> (string, string list) res \<times> 'w" where
  "list_containers api all filters w = api_list api all filters w"

text \<open>\<open>ExecInContainer\<close>; the outputs an error comes with are read by no caller.\<close>

definition exec_in_container :: "'w engine_api \<Rightarrow> 'w container_exec" where
  "exec_in_container api container user env command w =
     (case api_exec_create api container user env [''/bin/sh'', ''-c'', command] w of
        (Inl e, w1) \<Rightarrow> (Inl e, w1)
      | (Inr cid, w1) \<Rightarrow>
          (case api_exec_attach api cid w1 of
             (Inl e, w2) \<Rightarrow> (Inl e, w2)
           | (Inr (o1, o2, Some e), w2) \<Rightarrow> (Inl e, w2)
           | (Inr (o1, o2, None), w2) \<Rightarrow>
               (case api_exec_inspect api cid w2 of
                  (Inl e, w3) \<Rightarrow> (Inl e, w3)
                | (Inr code, w3) \<Rightarrow> (Inr (o1, o2, code), w3))))"

subsection \<open>The Docker context\<close>

text \<open>The host's environment, home, files and JSON decoder are parameters.\<close>

definition docker_config_dir :: "string gomap \<Rightarrow> string option \<Rightarrow> string" where
  "docker_config_dir env home =
     (case map_of env ''DOCKER_CONFIG'' of
        Some (x # xs) \<Rightarrow> x # xs
      | _ \<Rightarrow> (case home of None \<Rightarrow> [] | Some h \<Rightarrow> path_join [h, ''.docker'']))"

text \<open>A struct decoded from a document, its members in the document's order; \<open>only\<close> is a struct of one field.\<close>

fun object_dec :: "'c field list \<Rightarrow> 'c decoder" where
  "object_dec fs (JObj m) c = fields_dec fs m c"
| "object_dec fs JNull c = Some c"
| "object_dec fs v c = None"

definition only :: "string \<Rightarrow> 'v decoder \<Rightarrow> 'v decoder" where
  "only name dec = object_dec [fld name (\<lambda>x. x) (\<lambda>f. f) dec]"

definition configured_context :: "(string \<Rightarrow> json option) \<Rightarrow> (string \<Rightarrow> string option) \<Rightarrow> string \<Rightarrow> string option" where
  "configured_context dec read dir =
     (if dir = [] then None
      else Option.bind (read (path_join [dir, ''config.json''])) (\<lambda>s. Option.bind (dec s) (\<lambda>v.
        (case only ''currentContext'' string_dec v [] of Some c \<Rightarrow> if c \<noteq> [] then Some c else None | None \<Rightarrow> None))))"

definition active_context_name ::
  "(string \<Rightarrow> json option) \<Rightarrow> (string \<Rightarrow> string option) \<Rightarrow> string gomap \<Rightarrow> string \<Rightarrow> string" where
  "active_context_name dec read env dir =
     (case map_of env ''DOCKER_CONTEXT'' of
        Some (x # xs) \<Rightarrow> x # xs
      | _ \<Rightarrow> (case configured_context dec read dir of Some c \<Rightarrow> c | None \<Rightarrow> ''default''))"

definition resolve_docker_context_host ::
  "(string \<Rightarrow> json option) \<Rightarrow> (string \<Rightarrow> string option) \<Rightarrow> string gomap \<Rightarrow> string option \<Rightarrow> string" where
  "resolve_docker_context_host dec read env home =
     (let dir = docker_config_dir env home;
          name = active_context_name dec read env dir
      in if name = [] \<or> name = ''default'' then []
         else (case read (path_join [dir, ''contexts'', ''meta'', hex_bytes (sha256 name), ''meta.json'']) of
             None \<Rightarrow> []
           | Some s \<Rightarrow>
               (case dec s of
                  None \<Rightarrow> []
                | Some v \<Rightarrow>
                    (case only ''Endpoints'' (only ''docker'' (only ''Host'' string_dec)) v [] of
                       None \<Rightarrow> [] | Some h \<Rightarrow> h))))"

subsection \<open>Removing a container\<close>

lemma remove_attempts_sound:
  assumes "\<And>w w'. api_remove api cid w = (None, w') \<Longrightarrow> gone w'"
    and "\<And>w w'. api_wait api w = (Destroyed, w') \<Longrightarrow> gone w'"
    and "\<And>w. asked (snd (api_remove api cid w)) = Suc (asked w)"
    and "\<And>w. asked (snd (api_wait api w)) = asked w" and "\<And>w. asked (api_watch_destroy api cid w) = asked w"
    and "remove_attempts ulow api cid n watching w = (r, w')" and "0 < n"
  shows "(r = None \<longrightarrow> gone w') \<and> asked w' \<le> asked w + n"
  using assms(6,7)
proof (induction n arbitrary: watching w)
  case (Suc n)
  obtain e w1 where 1: "api_remove api cid w = (e, w1)" by force
  have a1: "asked w1 = Suc (asked w)" using assms(3) [of w] 1 by simp
  show ?case
  proof (cases e)
    case None
    then show ?thesis using Suc.prems 1 a1 assms(1) by auto
  next
    case (Some er)
    show ?thesis
    proof (cases "n = 0 \<or> \<not> in_progress ulow er")
      case True
      then show ?thesis using Suc.prems 1 a1 Some by auto
    next
      case False
      define w2 where "w2 = (if watching then w1 else api_watch_destroy api cid w1)"
      obtain q w3 where 3: "api_wait api w2 = (q, w3)" by force
      have a3: "asked w3 = Suc (asked w)" using assms(4) [of w2] assms(5) [of w1] a1 3 by (simp add: w2_def)
      show ?thesis
      proof (cases q)
        case TimedOut
        then have "remove_attempts ulow api cid n True w3 = (r, w')"
          using Suc.prems 1 3 Some False by (simp add: w2_def)
        then show ?thesis using Suc.IH [of True w3] False a3 by simp
      qed (use Suc.prems 1 3 Some False a3 assms(2) in \<open>auto simp: w2_def [symmetric]\<close>)
    qed
  qed
qed simp

text \<open>C39. \<open>RemoveContainer\<close> reports success only for a container that is gone, and asks for its removal seven times
  at most: \<open>gone\<close> is what the daemon means by a removal it accepts and by a destroy event, \<open>asked\<close> counts
  the removals.\<close>

theorem remove_container_sound:
  assumes "\<And>w w'. api_remove api cid w = (None, w') \<Longrightarrow> gone w'"
    and "\<And>w w'. api_wait api w = (Destroyed, w') \<Longrightarrow> gone w'"
    and "\<And>w. asked (snd (api_remove api cid w)) = Suc (asked w)"
    and "\<And>w. asked (snd (api_wait api w)) = asked w" and "\<And>w. asked (api_watch_destroy api cid w) = asked w"
    and "remove_container ulow api cid w = (r, w')"
  shows "(r = None \<longrightarrow> gone w') \<and> asked w' \<le> asked w + 7"
proof -
  have "remove_attempts ulow api cid 7 False w = (r, w')" using assms(6) by (simp add: remove_container_def)
  from remove_attempts_sound [where gone = gone and asked = asked and api = api and cid = cid and n = 7
      and watching = False and w = w and r = r and w' = w' and ulow = ulow,
      OF assms(1) assms(2) assms(3) assms(4) assms(5) this]
  show ?thesis by simp
qed

definition busy_api :: "(nat \<times> bool) engine_api" where
  "busy_api = \<lparr>api_inspect_container = (\<lambda>c w. (Inl [], w)), api_inspect_image = (\<lambda>r w. (Inl [], w)),
     api_remove = (\<lambda>c w. (if snd w then None else Some ''removal already in progress'', (Suc (fst w), snd w))),
     api_watch_destroy = (\<lambda>c w. w), api_wait = (\<lambda>w. if 2 \<le> fst w then (Destroyed, (fst w, True)) else (TimedOut, w)),
     api_list = (\<lambda>a f w. (Inr [], w)), api_pull = (\<lambda>r p w. (None, w)), api_start = (\<lambda>c w. (None, w)),
     api_stop = (\<lambda>c t w. (None, w)), api_exec_create = (\<lambda>c u e a w. (Inr [], w)),
     api_exec_attach = (\<lambda>c w. (Inr ([], [], None), w)), api_exec_inspect = (\<lambda>c w. (Inr 0, w))\<rparr>"

lemma remove_container_sound_witness:
  "fst (remove_container (\<lambda>s. s) busy_api ''c'' (0, False)) = None \<and>
   snd (snd (remove_container (\<lambda>s. s) busy_api ''c'' (0, False)))"
proof -
  have r: "remove_container (\<lambda>s. s) busy_api ''c'' (0, False) = (None, (2, True))" by code_simp
  have "((None :: string option) = None \<longrightarrow> snd (2 :: nat, True)) \<and> fst (2 :: nat, True) \<le> fst (0 :: nat, False) + 7"
    by (rule remove_container_sound [where gone = snd and asked = fst and api = busy_api and cid = "''c''"
        and w = "(0, False)" and r = None and w' = "(2, True)" and ulow = "\<lambda>s. s"])
      (use r in \<open>auto simp: busy_api_def split: if_splits\<close>)
  then show ?thesis using r by simp
qed

end
