(* ===== verification/DockerCli.thy ===== *)
theory DockerCli
  imports DockerEngine Advisory
begin

text \<open>
  The docker and compose command lines (\<open>internal/docker\<close>: \<open>client.go\<close>, \<open>compose.go\<close>, \<open>updateuid.go\<close>,
  \<open>composeoverride.go\<close>, and \<open>internal/exec/exec.go\<close>). A program is run through a \<open>runner\<close> over a world;
  log lines are left out. The order in which Go walks a map is the order of the list that stands for it.
\<close>

subsection \<open>Running a program\<close>

type_synonym cmd_output = "string \<times> string \<times> int"

type_synonym 'w runner =
  "string list \<Rightarrow> bool \<Rightarrow> string \<Rightarrow> string list \<Rightarrow> 'w \<Rightarrow> (string, cmd_output) res \<times> 'w"

text \<open>How a process that was started ends, and the cause of the context's end, if it has one.\<close>

datatype process_end = Finished | ExitedWith int | NotRun string

type_synonym 'w spawn =
  "string list option \<Rightarrow> bool \<Rightarrow> string \<Rightarrow> string list \<Rightarrow> 'w \<Rightarrow> (string \<times> string \<times> process_end \<times> string option) \<times> 'w"

text \<open>\<open>OSRunner.Run\<close>: without an environment of its own the child inherits.\<close>

definition os_runner :: "'w spawn \<Rightarrow> string list \<Rightarrow> 'w runner" where
  "os_runner spawn environ env stream name args w =
     (case spawn (if env \<noteq> [] then Some (environ @ env) else None) stream name args w of
        ((sout, serr, e, ctx), w') \<Rightarrow>
          (case e of
             Finished \<Rightarrow> (Inr (sout, serr, 0), w')
           | _ \<Rightarrow>
               (case ctx of
                  Some ce \<Rightarrow> (Inl ce, w')
                | None \<Rightarrow>
                    (case e of
                       ExitedWith code \<Rightarrow> (Inr (sout, serr, code), w')
                     | NotRun x \<Rightarrow> (Inl x, w')
                     | Finished \<Rightarrow> (Inr (sout, serr, 0), w')))))"

subsection \<open>The docker client\<close>

record docker_client =
  dc_path :: string
  dc_env :: "string list"
  dc_progress :: bool

definition new_client :: "string \<Rightarrow> string list \<Rightarrow> docker_client" where
  "new_client path env = \<lparr>dc_path = (if path = [] then ''docker'' else path), dc_env = env, dc_progress = False\<rparr>"

definition client_run ::
  "'w runner \<Rightarrow> docker_client \<Rightarrow> bool \<Rightarrow> string list \<Rightarrow> string list \<Rightarrow> 'w \<Rightarrow> (string, cmd_output) res \<times> 'w" where
  "client_run run c stream extra args w =
     (case run (dc_env c @ extra) (stream \<and> dc_progress c) (dc_path c) args w of
        (Inl e, w') \<Rightarrow> (Inl (''exec docker: '' @ e), w')
      | (Inr r, w') \<Rightarrow> (Inr r, w'))"

abbreviation docker_run :: "'w runner \<Rightarrow> docker_client \<Rightarrow> string list \<Rightarrow> 'w \<Rightarrow> (string, cmd_output) res \<times> 'w" where
  "docker_run run c args \<equiv> client_run run c False [] args"

record build_options =
  bo_dockerfile :: string
  bo_context_path :: string
  bo_tags :: "string list"
  bo_target :: string
  bo_build_args :: "(string \<times> string) list"
  bo_cache_from :: "string list"
  bo_labels :: "string list"
  bo_no_cache :: bool
  bo_extra_args :: "string list"
  bo_env :: "string list"
  bo_secrets :: "string list"
  bo_use_buildx :: bool
  bo_platform :: string
  bo_push :: bool
  bo_output :: string
  bo_cache_to :: string

definition re_space :: "char \<Rightarrow> bool" where
  "re_space c \<longleftrightarrow> bval c \<in> {9, 10, 12, 13, 32}"

text \<open>\<open>(?i)type\s*=\s*inline\<close> at the front of a text: no character the spaces match begins what follows.\<close>

definition inline_at :: "string \<Rightarrow> bool" where
  "inline_at s =
     (let l = map lower_char s in
      has_prefix l ''type'' \<and>
      (case dropWhile re_space (drop 4 l) of
         c # r \<Rightarrow> c = CHR ''='' \<and> has_prefix (dropWhile re_space r) ''inline''
       | [] \<Rightarrow> False))"

fun inline_somewhere :: "string \<Rightarrow> bool" where
  "inline_somewhere [] = inline_at []"
| "inline_somewhere (c # s) = (inline_at (c # s) \<or> inline_somewhere s)"

definition is_buildx_cache_to_inline :: "string \<Rightarrow> bool" where
  "is_buildx_cache_to_inline s \<longleftrightarrow> s \<noteq> [] \<and> inline_somewhere s"

text \<open>A secret's key: what is before its first \<open>=\<close>, when that is not the first byte.\<close>

definition secret_key :: "string \<Rightarrow> string option" where
  "secret_key s = (case index_byte (CHR ''='') s of Some i \<Rightarrow> if 0 < i then Some (take i s) else None | None \<Rightarrow> None)"

definition secret_args :: "string \<Rightarrow> string list" where
  "secret_args s = (case secret_key s of Some k \<Rightarrow> [''--secret'', ''id='' @ k @ '',env='' @ k] | None \<Rightarrow> [])"

definition flagged :: "string \<Rightarrow> string list \<Rightarrow> string list" where
  "flagged flag vs = concat (map (\<lambda>v. [flag, v]) vs)"

definition opt_flag :: "string \<Rightarrow> string \<Rightarrow> string list" where
  "opt_flag flag v = (if v \<noteq> [] then [flag, v] else [])"

definition buildx_args :: "build_options \<Rightarrow> string list" where
  "buildx_args b =
     [''buildx'', ''build''] @ opt_flag ''--platform'' (bo_platform b) @
     (if bo_push b then [''--push'']
      else if bo_output b \<noteq> [] then [''--output'', bo_output b]
      else [''--load'']) @
     opt_flag ''--cache-to'' (bo_cache_to b) @
     (if \<not> is_buildx_cache_to_inline (bo_cache_to b) then [''--build-arg'', ''BUILDKIT_INLINE_CACHE=1''] else []) @
     concat (map secret_args (bo_secrets b))"

definition build_args :: "build_options \<Rightarrow> string list" where
  "build_args b =
     (if bo_use_buildx b then buildx_args b else [''build'']) @
     opt_flag ''-f'' (bo_dockerfile b) @ flagged ''-t'' (bo_tags b) @ opt_flag ''--target'' (bo_target b) @
     (if bo_no_cache b then ''--no-cache'' # (if bo_use_buildx b then [''--pull''] else []) else []) @
     flagged ''--cache-from'' (bo_cache_from b) @
     flagged ''--build-arg'' (map (\<lambda>(k, v). k @ ''='' @ v) (bo_build_args b)) @
     flagged ''--label'' (bo_labels b) @ bo_extra_args b @
     [if bo_context_path b \<noteq> [] then bo_context_path b else ''.'']"

definition client_build ::
  "'w runner \<Rightarrow> docker_client \<Rightarrow> build_options \<Rightarrow> 'w \<Rightarrow> (string, cmd_output) res \<times> 'w" where
  "client_build run c b w = client_run run c True (bo_env b @ bo_secrets b) (build_args b) w"

definition exit_failure :: "string \<Rightarrow> cmd_output \<Rightarrow> string option" where
  "exit_failure what r =
     (case r of (sout, serr, code) \<Rightarrow>
        if code \<noteq> 0 then Some (what @ '' failed (exit '' @ int_text code @ ''): '' @ serr) else None)"

definition client_tag :: "'w runner \<Rightarrow> docker_client \<Rightarrow> string \<Rightarrow> string \<Rightarrow> 'w \<Rightarrow> string option \<times> 'w" where
  "client_tag run c source target w =
     (case docker_run run c [''tag'', source, target] w of
        (Inl e, w') \<Rightarrow> (Some e, w')
      | (Inr r, w') \<Rightarrow> (exit_failure ''docker tag'' r, w'))"

text \<open>\<open>BuildKitInfo\<close>: the version when it is available.\<close>

definition detect_build_kit :: "'w runner \<Rightarrow> docker_client \<Rightarrow> 'w \<Rightarrow> string option \<times> 'w" where
  "detect_build_kit run c w =
     (case docker_run run c [''buildx'', ''version''] w of
        (Inr (sout, serr, code), w') \<Rightarrow> (if code \<noteq> 0 then None else Some (trim_space sout), w')
      | (Inl e, w') \<Rightarrow> (None, w'))"

record builder_info =
  bi_name :: string
  bi_driver :: string

definition builder_line :: "builder_info \<Rightarrow> string \<Rightarrow> builder_info" where
  "builder_line i line0 =
     (let line = trim_space line0;
          i1 = (if has_prefix line ''Name:'' \<and> bi_name i = []
                then i\<lparr>bi_name := trim_space (trim_prefix line ''Name:'')\<rparr> else i)
      in if has_prefix line ''Driver:'' \<and> bi_driver i1 = []
         then i1\<lparr>bi_driver := trim_space (trim_prefix line ''Driver:'')\<rparr> else i1)"

definition no_builder :: builder_info where
  "no_builder = \<lparr>bi_name = [], bi_driver = []\<rparr>"

definition detect_active_builder :: "'w runner \<Rightarrow> docker_client \<Rightarrow> 'w \<Rightarrow> builder_info \<times> 'w" where
  "detect_active_builder run c w =
     (case docker_run run c [''buildx'', ''inspect''] w of
        (Inr (sout, serr, code), w') \<Rightarrow>
          (if code \<noteq> 0 then no_builder else foldl builder_line no_builder (split_byte (CHR 10) sout), w')
      | (Inl e, w') \<Rightarrow> (no_builder, w'))"

text \<open>The loop over the lines of \<open>docker buildx ls\<close>, with the fallback found so far.\<close>

definition docker_builder :: "string \<Rightarrow> string option" where
  "docker_builder line =
     (if has_prefix line ''NAME'' then None
      else (case split_fields line of
          n # d # r \<Rightarrow> if d = ''docker'' then Some (trim_suffix n ''*'') else None
        | _ \<Rightarrow> None))"

fun pick_builder :: "string \<Rightarrow> string \<Rightarrow> string list \<Rightarrow> string" where
  "pick_builder current fallback [] = fallback"
| "pick_builder current fallback (l # ls) =
     (case docker_builder l of
        None \<Rightarrow> pick_builder current fallback ls
      | Some name \<Rightarrow>
          if name = current then name
          else pick_builder current (if fallback = [] then name else fallback) ls)"

text \<open>\<open>Inl\<close> is the nil dereference of the first command's result.\<close>

definition find_docker_driver_builder :: "'w runner \<Rightarrow> docker_client \<Rightarrow> 'w \<Rightarrow> (unit, string) res \<times> 'w" where
  "find_docker_driver_builder run c w =
     (case docker_run run c [''context'', ''inspect'', ''--format'', ''{{.Name}}''] w of
        (Inl e, w1) \<Rightarrow> (Inl (), w1)
      | (Inr (name, serr, code), w1) \<Rightarrow>
          (case docker_run run c [''buildx'', ''ls''] w1 of
             (Inr (sout, err2, code2), w2) \<Rightarrow>
               (Inr (if code2 \<noteq> 0 then [] else pick_builder (trim_space name) [] (split_byte (CHR 10) sout)), w2)
           | (Inl e, w2) \<Rightarrow> (Inr [], w2)))"

subsection \<open>Remapping the remote user\<close>

record uid_update =
  uu_base_image :: string
  uu_fixed_image :: string
  uu_remote_user :: string
  uu_image_user :: string
  uu_platform :: string
  uu_uid :: int
  uu_gid :: int
  uu_context_dir :: string

definition uid_build_options :: "string \<Rightarrow> uid_update \<Rightarrow> build_options" where
  "uid_build_options dir u =
     \<lparr>bo_dockerfile = path_join [dir, ''updateUID.Dockerfile''],
      bo_context_path = (if uu_context_dir u = [] then dir else uu_context_dir u),
      bo_tags = [uu_fixed_image u], bo_target = [],
      bo_build_args = [(''BASE_IMAGE'', uu_base_image u), (''REMOTE_USER'', uu_remote_user u),
        (''NEW_UID'', int_text (uu_uid u)), (''NEW_GID'', int_text (uu_gid u)), (''IMAGE_USER'', uu_image_user u)],
      bo_cache_from = [], bo_labels = [], bo_no_cache = False,
      bo_extra_args = opt_flag ''--platform'' (uu_platform u),
      bo_env = [], bo_secrets = [], bo_use_buildx = False, bo_platform = [], bo_push = False, bo_output = [],
      bo_cache_to = []\<rparr>"

text \<open>The temporary directory and the Dockerfile written into it are the host's; both may fail, and the directory
  is removed at the end.\<close>

definition build_uid_image ::
  "('w \<Rightarrow> (string, string) res \<times> 'w) \<Rightarrow> (string \<Rightarrow> 'w \<Rightarrow> string option \<times> 'w) \<Rightarrow> (string \<Rightarrow> 'w \<Rightarrow> 'w) \<Rightarrow>
   'w runner \<Rightarrow> docker_client \<Rightarrow> uid_update \<Rightarrow> 'w \<Rightarrow> string option \<times> 'w" where
  "build_uid_image mkdir_temp write_dockerfile remove_all run c u w =
     (case mkdir_temp w of
        (Inl e, w1) \<Rightarrow> (Some (''updateUID temp dir: '' @ e), w1)
      | (Inr dir, w1) \<Rightarrow>
          (case (case write_dockerfile (path_join [dir, ''updateUID.Dockerfile'']) w1 of
               (Some e, w2) \<Rightarrow> (Some (''write updateUID Dockerfile: '' @ e), w2)
             | (None, w2) \<Rightarrow>
                 (case client_build run c (uid_build_options dir u) w2 of
                    (Inl e, w3) \<Rightarrow> (Some (''updateUID build: '' @ e), w3)
                  | (Inr r, w3) \<Rightarrow> (exit_failure ''updateUID build'' r, w3)))
           of (r, w') \<Rightarrow> (r, remove_all dir w')))"

definition build_entrypoint_script :: "string list \<Rightarrow> string" where
  "build_entrypoint_script entrypoints =
     ''echo Container started'' @ [CHR 10] @ ''trap '' @ dq @ ''exit 0'' @ dq @ '' 15'' @ [CHR 10] @
     join [CHR 10] entrypoints @ [CHR 10] @ ''exec '' @ dq @ ''$@'' @ dq @ [CHR 10] @
     ''while sleep 1 & wait $!; do :; done''"

subsection \<open>The command line and the secrets\<close>

definition redact :: "string \<Rightarrow> string" where
  "redact s = (case secret_key s of Some k \<Rightarrow> k @ ''='' | None \<Rightarrow> [])"

lemma index_byte_prefix: "index_byte c s = Some i \<Longrightarrow> index_byte c (take i s @ [c]) = Some i"
  unfolding index_byte_def
proof (induction s arbitrary: i)
  case (Cons a s)
  then show ?case by (cases i) (auto split: if_splits)
qed simp

lemma secret_key_redact: "secret_key (redact s) = secret_key s"
proof (cases "secret_key s")
  case (Some k)
  then obtain i where i: "index_byte (CHR ''='') s = Some i" "0 < i" "k = take i s"
    by (auto simp: secret_key_def split: option.splits if_splits)
  have "i \<le> length s" using i(1) unfolding index_byte_def by (induction s arbitrary: i) (auto split: if_splits)
  then show ?thesis using Some i index_byte_prefix [OF i(1)] by (simp add: redact_def secret_key_def min_def)
next
  case None
  then show ?thesis by (simp add: redact_def secret_key_def index_byte_def)
qed

lemma secret_args_redact: "secret_args (redact s) = secret_args s"
  by (simp add: secret_args_def secret_key_redact)

text \<open>The values of the build secrets are not on the command line of \<open>docker build\<close>: it is the one for the keys
  alone, and the values are in the environment of the child only.\<close>

theorem build_secrets_in_environment:
  "build_args b = build_args (b\<lparr>bo_secrets := map redact (bo_secrets b)\<rparr>) \<and>
   client_build run c b w = client_run run c True (bo_env b @ bo_secrets b)
     (build_args (b\<lparr>bo_secrets := map redact (bo_secrets b)\<rparr>)) w"
proof -
  have "buildx_args b = buildx_args (b\<lparr>bo_secrets := map redact (bo_secrets b)\<rparr>)"
    by (simp add: buildx_args_def secret_args_redact comp_def)
  then have "build_args b = build_args (b\<lparr>bo_secrets := map redact (bo_secrets b)\<rparr>)" by (simp add: build_args_def)
  then show ?thesis by (simp add: client_build_def)
qed

subsection \<open>The builder chosen\<close>

definition docker_builders :: "string list \<Rightarrow> string list" where
  "docker_builders ls = concat (map (\<lambda>l. case docker_builder l of Some n \<Rightarrow> [n] | None \<Rightarrow> []) ls)"

lemma pick_builder_spec:
  "pick_builder current fallback ls =
     (if current \<in> set (docker_builders ls) then current
      else (case filter (\<lambda>n. n \<noteq> []) (fallback # docker_builders ls) of n # ns \<Rightarrow> n | [] \<Rightarrow> []))"
  by (induction current fallback ls rule: pick_builder.induct)
    (auto simp: docker_builders_def split: option.splits)

end
