(* ===== verification/DockerCompose.thy ===== *)
theory DockerCompose
  imports DockerCli
begin

text \<open>
  The compose client (\<open>internal/docker/compose.go\<close>): its version, its command lines, the project and image names,
  and the configuration it reads back. The YAML decoder is a parameter; a scalar is what \<open>encoding/json\<close> makes of
  it, \<open>None\<close> where it refuses (an infinity). Log lines are left out.
\<close>

subsection \<open>Versions\<close>

text \<open>\<open>strconv.Atoi\<close> with its error dropped: nothing is 0, too much is the largest number.\<close>

definition atoi_clamped :: "string \<Rightarrow> nat" where
  "atoi_clamped s = (case atoi s of Some n \<Rightarrow> n | None \<Rightarrow> 2 ^ 63 - 1)"

function version_numbers :: "string \<Rightarrow> nat list" where
  "version_numbers s =
     (let n = atoi_clamped (takeWhile is_digit s) in
      case dropWhile is_digit s of
        c # r \<Rightarrow> if c = CHR ''.'' then n # version_numbers r else [n]
      | [] \<Rightarrow> [n])"
  by pat_completeness auto
termination
proof (relation "measure length")
  fix s r c assume "dropWhile is_digit s = c # r"
  then have "Suc (length r) = length (dropWhile is_digit s)" by simp
  then show "(r, s) \<in> measure length" using length_dropWhile_le [of is_digit s] by simp
qed simp

declare version_numbers.simps [simp del]

definition parse_compose_version :: "string \<Rightarrow> nat list" where
  "parse_compose_version s =
     (case dropWhile (\<lambda>c. \<not> is_digit c) s of [] \<Rightarrow> [] | t \<Rightarrow> version_numbers t)"

record compose_client =
  cc_command :: "string list"
  cc_version :: "nat list"
  cc_env :: "string list"
  cc_progress :: bool

definition bake_fs_entitlement :: string where
  "bake_fs_entitlement = ''BUILDX_BAKE_ENTITLEMENTS_FS''"

definition with_bake_fs_entitlement :: "(string \<Rightarrow> bool) \<Rightarrow> string list \<Rightarrow> string list" where
  "with_bake_fs_entitlement is_set env =
     (if is_set bake_fs_entitlement \<or> list_ex (\<lambda>kv. has_prefix kv (bake_fs_entitlement @ ''='')) env then env
      else env @ [bake_fs_entitlement @ ''=0''])"

text \<open>\<open>NewComposeClient\<close>: \<open>version_out\<close> is what the version command printed, \<open>None\<close> when it failed; \<open>quote\<close> is
  the \<open>%q\<close> of the message.\<close>

definition new_compose_client ::
  "(string \<Rightarrow> string) \<Rightarrow> (string \<Rightarrow> string option) \<Rightarrow> (string \<Rightarrow> bool) \<Rightarrow> string \<Rightarrow> string \<Rightarrow> string list \<Rightarrow>
   (string, compose_client) res" where
  "new_compose_client quote version_out is_set docker_path compose_path env =
     (let d = (if docker_path = [] then ''docker'' else docker_path) in
      case version_out d of
        Some v \<Rightarrow> Inr \<lparr>cc_command = [d, ''compose''], cc_version = parse_compose_version (trim_space v),
            cc_env = with_bake_fs_entitlement is_set env, cc_progress = False\<rparr>
      | None \<Rightarrow>
          Inl (if compose_path \<noteq> []
            then sq @ ''docker compose'' @ sq @ '' (v2) not found; --docker-compose-path '' @ quote compose_path
              @ '' is Compose v1, which is unsupported''
            else sq @ ''docker compose'' @ sq @ '' (v2) not found''))"

definition supports_additional_contexts :: "compose_client \<Rightarrow> bool" where
  "supports_additional_contexts c = (\<not> is_earlier_version (cc_version c) [2, 17, 0])"

definition uses_new_project_names :: "compose_client \<Rightarrow> bool" where
  "uses_new_project_names c = (cc_version c = [] \<or> \<not> is_earlier_version (cc_version c) [1, 21, 0])"

subsection \<open>Names\<close>

text \<open>\<open>strings.Map\<close> drops the runes outside the set; no byte of a rune beyond ASCII is in it.\<close>

definition project_char :: "bool \<Rightarrow> char \<Rightarrow> bool" where
  "project_char new_names c \<longleftrightarrow> is_lower c \<or> is_digit c \<or> new_names \<and> (c = CHR ''_'' \<or> c = CHR ''-'')"

definition to_project_name :: "(string \<Rightarrow> string) \<Rightarrow> string \<Rightarrow> bool \<Rightarrow> string" where
  "to_project_name ulow basename new_names = filter (project_char new_names) (to_lower ulow basename)"

definition default_image_name :: "compose_client \<Rightarrow> string \<Rightarrow> string \<Rightarrow> string" where
  "default_image_name c project service =
     project @ (if cc_version c \<noteq> [] \<and> is_earlier_version (cc_version c) [2, 8, 0] then ''_'' else ''-'') @ service"

subsection \<open>Commands\<close>

definition build_global_args :: "string list \<Rightarrow> string \<Rightarrow> string list" where
  "build_global_args files env_file = flagged ''-f'' files @ opt_flag ''--env-file'' env_file"

definition compose_run ::
  "'w runner \<Rightarrow> compose_client \<Rightarrow> bool \<Rightarrow> string list \<Rightarrow> 'w \<Rightarrow> (string, cmd_output) res \<times> 'w" where
  "compose_run run c stream args w =
     (case run (cc_env c) (stream \<and> cc_progress c) (hd (cc_command c)) (tl (cc_command c) @ args) w of
        (Inl e, w') \<Rightarrow> (Inl (''exec compose: '' @ e), w')
      | (Inr r, w') \<Rightarrow> (Inr r, w'))"

definition compose_command ::
  "'w runner \<Rightarrow> compose_client \<Rightarrow> string \<Rightarrow> bool \<Rightarrow> string list \<Rightarrow> 'w \<Rightarrow> string option \<times> 'w" where
  "compose_command run c what stream args w =
     (case compose_run run c stream args w of
        (Inl e, w') \<Rightarrow> (Some e, w')
      | (Inr r, w') \<Rightarrow> (exit_failure what r, w'))"

definition compose_build ::
  "'w runner \<Rightarrow> compose_client \<Rightarrow> string list \<Rightarrow> string \<Rightarrow> string list \<Rightarrow> string list \<Rightarrow> bool \<Rightarrow> 'w \<Rightarrow> string option \<times> 'w" where
  "compose_build run c files env_file global_args services no_cache w =
     compose_command run c ''compose build'' True
       (build_global_args files env_file @ global_args @ [''build''] @ (if no_cache then [''--no-cache''] else []) @
        services) w"

definition compose_up ::
  "'w runner \<Rightarrow> compose_client \<Rightarrow> string list \<Rightarrow> string \<Rightarrow> string list \<Rightarrow> string \<Rightarrow> string list \<Rightarrow> bool \<Rightarrow> 'w \<Rightarrow>
   string option \<times> 'w" where
  "compose_up run c files env_file global_args project services no_recreate w =
     compose_command run c ''compose up'' True
       (build_global_args files env_file @ opt_flag ''--project-name'' project @ global_args @ [''up'', ''-d''] @
        (if no_recreate then [''--no-recreate''] else []) @ services) w"

definition compose_stop :: "'w runner \<Rightarrow> compose_client \<Rightarrow> string list \<Rightarrow> string \<Rightarrow> 'w \<Rightarrow> string option \<times> 'w" where
  "compose_stop run c files project w =
     compose_command run c ''compose stop'' False
       (build_global_args files [] @ opt_flag ''--project-name'' project @ [''stop'']) w"

definition compose_down ::
  "'w runner \<Rightarrow> compose_client \<Rightarrow> string list \<Rightarrow> string \<Rightarrow> bool \<Rightarrow> 'w \<Rightarrow> string option \<times> 'w" where
  "compose_down run c files project remove_volumes w =
     compose_command run c ''compose down'' False
       (build_global_args files [] @ opt_flag ''--project-name'' project @ [''down''] @
        (if remove_volumes then [''--volumes''] else [])) w"

subsection \<open>The configuration\<close>

datatype yaml =
    YScalar "json option"
  | YStrMap "(string \<times> yaml) list"
  | YAnyMap "(yaml \<times> yaml) list"
  | YSeq "yaml list"

fun string_keys :: "(yaml \<Rightarrow> string) \<Rightarrow> yaml \<Rightarrow> yaml" where
  "string_keys sprint (YScalar v) = YScalar v"
| "string_keys sprint (YStrMap m) = YStrMap (map (\<lambda>(k, e). (k, string_keys sprint e)) m)"
| "string_keys sprint (YAnyMap m) = YStrMap (acopy [] (map (\<lambda>(k, e). (sprint k, string_keys sprint e)) m))"
| "string_keys sprint (YSeq vs) = YSeq (map (string_keys sprint) vs)"

text \<open>\<open>json.Marshal\<close> and back: a map whose keys are not strings, or a number that is not finite, is refused.\<close>

fun marshalled :: "yaml \<Rightarrow> json option" where
  "marshalled (YScalar v) = v"
| "marshalled (YStrMap m) =
     (if list_all (\<lambda>(k, e). marshalled e \<noteq> None) m then Some (JObj (map (\<lambda>(k, e). (k, the (marshalled e))) m)) else None)"
| "marshalled (YAnyMap m) = None"
| "marshalled (YSeq vs) =
     (if list_all (\<lambda>e. marshalled e \<noteq> None) vs then Some (JArr (map (\<lambda>e. the (marshalled e)) vs)) else None)"

definition nil_doc :: "yaml \<Rightarrow> bool" where
  "nil_doc d \<longleftrightarrow> d = YScalar (Some JNull)"

text \<open>\<open>Inl\<close> carries the cause: the decoder's, the encoder's, or a document that is no mapping.\<close>

datatype parse_failure = BadYaml string | NotEncodable | NotMapping

definition parse_compose_config ::
  "(string \<Rightarrow> (string, yaml) res) \<Rightarrow> (yaml \<Rightarrow> string) \<Rightarrow> string \<Rightarrow> (parse_failure, json gomap) res" where
  "parse_compose_config decode sprint text =
     (case decode text of
        Inl e \<Rightarrow> Inl (BadYaml e)
      | Inr doc \<Rightarrow>
          (case marshalled (string_keys sprint doc) of
             None \<Rightarrow> Inl NotEncodable
           | Some v \<Rightarrow>
               if nil_doc doc then Inr []
               else (case v of JObj m \<Rightarrow> Inr m | _ \<Rightarrow> Inl NotMapping)))"

datatype config_failure = RunFailed string | CommandFailed string int | ParseFailed parse_failure

text \<open>\<open>Config\<close>: its failure is the cause of the container error it returns.\<close>

definition compose_config ::
  "'w runner \<Rightarrow> (string \<Rightarrow> (string, yaml) res) \<Rightarrow> (yaml \<Rightarrow> string) \<Rightarrow> compose_client \<Rightarrow> string list \<Rightarrow> string \<Rightarrow> 'w \<Rightarrow>
   (config_failure, json gomap) res \<times> 'w" where
  "compose_config run decode sprint c files env_file w =
     (let args = build_global_args files env_file @ [''--profile'', ''*'', ''config''] in
      case compose_run run c False args w of
        (Inl e, w') \<Rightarrow> (Inl (RunFailed e), w')
      | (Inr (sout, serr, code), w') \<Rightarrow>
          (if code \<noteq> 0 then Inl (CommandFailed (join '' '' (cc_command c @ args)) code)
           else (case parse_compose_config decode sprint sout of Inl e \<Rightarrow> Inl (ParseFailed e) | Inr m \<Rightarrow> Inr m), w'))"



subsection \<open>The version read\<close>

lemma digits_value_text: "digits_value (nat_text n) = n"
proof -
  have "int (foldl (\<lambda>n c. 10 * n + (bval c - 48)) a s) = foldl (\<lambda>a c. a * 10 + digit_val c) (int a) s"
    if "list_all is_digit s" for s a
    using that
  proof (induction s arbitrary: a)
    case (Cons c s)
    have "digit_val c = int (bval c - 48)" using Cons.prems by (simp add: digit_val_def is_digit_def)
    then show ?case using Cons.IH [of "10 * a + (bval c - 48)"] Cons.prems by (simp add: mult.commute)
  qed simp
  moreover have "list_all is_digit (nat_text n)" using nat_text_digit by (simp add: list_all_iff)
  ultimately have "int (digits_value (nat_text n)) = base_value 10 (nat_text n)"
    unfolding digits_value_def base_value_def by simp
  then show ?thesis by simp
qed

lemma atoi_clamped_text: "n < 2 ^ 63 \<Longrightarrow> atoi_clamped (nat_text n) = n"
proof -
  assume "n < 2 ^ 63"
  then have "int n < 2 ^ 63" by simp
  then show ?thesis by (simp add: atoi_clamped_def atoi_def digits_value_text)
qed

lemma take_number: "t = [] \<or> \<not> is_digit (hd t) \<Longrightarrow> takeWhile is_digit (nat_text n @ t) = nat_text n"
  using nat_text_digit [of _ n] by (cases t) (simp_all add: takeWhile_append)

lemma drop_number: "t = [] \<or> \<not> is_digit (hd t) \<Longrightarrow> dropWhile is_digit (nat_text n @ t) = t"
  using nat_text_digit [of _ n] by (cases t) (simp_all add: dropWhile_append)

lemma version_numbers_join:
  "ns \<noteq> [] \<Longrightarrow> list_all (\<lambda>n. n < 2 ^ 63) ns \<Longrightarrow> t = [] \<or> \<not> is_digit (hd t) \<and> hd t \<noteq> CHR ''.'' \<Longrightarrow>
   version_numbers (join ''.'' (map nat_text ns) @ t) = ns"
proof (induction ns)
  case (Cons n ns)
  show ?case
  proof (cases "ns = []")
    case True
    have t: "t = [] \<or> \<not> is_digit (hd t)" using Cons.prems(3) by blast
    have e: "join ''.'' (map nat_text (n # ns)) @ t = nat_text n @ t" using True by simp
    show ?thesis unfolding e True using Cons.prems
      by (subst version_numbers.simps)
        (auto simp: Let_def take_number [OF t] drop_number [OF t] atoi_clamped_text split: list.split)
  next
    case False
    have d: "\<not> is_digit CHR ''.''" by (simp add: is_digit_def bval_def)
    have j: "join ''.'' (map nat_text (n # ns)) @ t = nat_text n @ CHR ''.'' # join ''.'' (map nat_text ns) @ t"
      using False join_Cons [of "map nat_text ns" "''.''" "nat_text n"] by simp
    show ?thesis unfolding j using Cons False d
      by (subst version_numbers.simps) (simp add: Let_def take_number drop_number atoi_clamped_text)
  qed
qed simp

text \<open>The version compose prints is read back number by number, whatever words come before it and whatever
  suffix after it.\<close>

theorem compose_version_round_trip:
  assumes "ns \<noteq> []" and "list_all (\<lambda>n. n < 2 ^ 63) ns" and "list_all (\<lambda>c. \<not> is_digit c) before"
    and "t = [] \<or> \<not> is_digit (hd t) \<and> hd t \<noteq> CHR ''.''"
  shows "parse_compose_version (before @ join ''.'' (map nat_text ns) @ t) = ns"
proof -
  obtain n ns' where n: "ns = n # ns'" using assms(1) by (cases ns) auto
  obtain c r where c: "nat_text n = c # r" using nat_text_nonempty [of n] by (cases "nat_text n") simp_all
  have "is_digit c" using nat_text_digit [of c n] c by simp
  obtain r' where j: "join ''.'' (map nat_text ns) @ t = c # r'"
    unfolding n by (cases ns') (simp_all add: c)
  have "dropWhile (\<lambda>c. \<not> is_digit c) (before @ join ''.'' (map nat_text ns) @ t) = join ''.'' (map nat_text ns) @ t"
    using assms(3) \<open>is_digit c\<close> unfolding j by (induction before) simp_all
  then show ?thesis using version_numbers_join [OF assms(1,2,4)] j by (simp add: parse_compose_version_def)
qed

lemma compose_version_round_trip_witness:
  "parse_compose_version (''Docker Compose version v'' @ join ''.'' (map nat_text [2, 24, 0]) @ ''-desktop.1'') = [2, 24, 0]"
  by (rule compose_version_round_trip) (simp_all add: is_digit_def bval_def)

subsection \<open>Project names\<close>

text \<open>A project name has the characters compose allows only, and is its own project name.\<close>

theorem project_name_allowed:
  "list_all (project_char new_names) (to_project_name ulow s new_names) \<and>
   to_project_name ulow (to_project_name ulow s new_names) new_names = to_project_name ulow s new_names"
proof -
  have "is_ascii c \<and> lower_char c = c" if "project_char new_names c" for c
    using that by (auto simp: project_char_def is_lower_def is_digit_def is_ascii_def lower_char_def is_upper_def bval_def)
  then have "to_lower ulow (filter (project_char new_names) x) = filter (project_char new_names) x" for x
    by (auto simp: to_lower_def list_all_iff intro: map_idI)
  then show ?thesis by (simp add: to_project_name_def list_all_iff)
qed

end
