(* ===== verification/CliInputs.thy ===== *)
theory CliInputs
  imports DockerCli Loader RunArgs
begin

text \<open>
  What a command makes of its flags and files before it acts (\<open>internal/cli\<close>: \<open>validate.go\<close>, \<open>secrets.go\<close>,
  \<open>gpu.go\<close>, \<open>helpers.go\<close>, \<open>mounts.go\<close>, \<open>env.go\<close>, \<open>build_auth.go\<close>). The quoting \<open>%q\<close>, the decoders of JSON and of
  JSON with comments, and the host's probes are parameters.
\<close>

subsection \<open>Checking flags\<close>

definition assignment :: "string \<Rightarrow> bool" where
  "assignment s \<longleftrightarrow> contains_sub s ''='' \<and> \<not> has_prefix s ''=''"

text \<open>\<open>validateIDLabels\<close>, \<open>validateRemoteEnvs\<close> and \<open>validateMounts\<close>: \<open>None\<close> is no error.\<close>

definition validate_id_labels :: "string list \<Rightarrow> string option" where
  "validate_id_labels ls =
     (if list_ex (\<lambda>l. \<not> assignment l \<or> has_suffix l ''='') ls
      then Some ''Unmatched argument format: id-label must match <name>=<value>'' else None)"

definition validate_remote_envs :: "string list \<Rightarrow> string option" where
  "validate_remote_envs es =
     (if list_ex (\<lambda>e. \<not> assignment e) es
      then Some ''Unmatched argument format: remote-env must match <name>=<value>'' else None)"

text \<open>The pattern \<open>type=(bind|volume),source=([^,]+),target=([^,]+)(?:,external=(true|false))?\<close> of a whole text:
  its groups hold no comma.\<close>

definition valued :: "string \<Rightarrow> string \<Rightarrow> bool" where
  "valued key s \<longleftrightarrow> has_prefix s key \<and> drop (length key) s \<noteq> []"

definition mount_spec_matches :: "string \<Rightarrow> bool" where
  "mount_spec_matches m =
     (case split_byte (CHR '','') m of
        t # s # d # r \<Rightarrow>
          (t = ''type=bind'' \<or> t = ''type=volume'') \<and> valued ''source='' s \<and> valued ''target='' d \<and>
          (r = [] \<or> r = [''external=true''] \<or> r = [''external=false''])
      | _ \<Rightarrow> False)"

definition validate_mounts :: "string list \<Rightarrow> string option" where
  "validate_mounts ms =
     (if list_ex (\<lambda>m. \<not> mount_spec_matches m) ms
      then Some ''Unmatched argument format: mount must match type=<bind|volume>,source=<source>,target=<target>[,external=<true|false>]''
      else None)"

subsection \<open>A number flag\<close>

text \<open>\<open>strconv.ParseInt\<close> with base 0, for a 64-bit int: the prefix of a base, the underscores Go allows in a
  literal, and the range.\<close>

definition is_letter :: "char \<Rightarrow> char \<Rightarrow> bool" where
  "is_letter l c \<longleftrightarrow> lower_char c = l"

definition digit_of :: "char \<Rightarrow> nat option" where
  "digit_of c =
     (if is_digit c then Some (bval c - 48)
      else if is_lower (lower_char c) then Some (bval (lower_char c) - 87) else None)"

definition literal_base :: "string \<Rightarrow> nat \<times> string" where
  "literal_base s =
     (case s of
        z # x # d # r \<Rightarrow>
          if z \<noteq> CHR ''0'' then (10, s)
          else if is_letter (CHR ''b'') x then (2, d # r)
          else if is_letter (CHR ''o'') x then (8, d # r)
          else if is_letter (CHR ''x'') x then (16, d # r)
          else (8, x # d # r)
      | z # r \<Rightarrow> if z = CHR ''0'' then (8, r) else (10, s)
      | [] \<Rightarrow> (10, s))"

fun literal_digits :: "nat \<Rightarrow> string \<Rightarrow> nat list option" where
  "literal_digits b [] = Some []"
| "literal_digits b (c # s) =
     (if c = CHR ''_'' then literal_digits b s
      else (case digit_of c of
          Some d \<Rightarrow> if d < b then map_option (\<lambda>ds. d # ds) (literal_digits b s) else None
        | None \<Rightarrow> None))"

text \<open>\<open>underscoreOK\<close>: the last thing seen is the start, a digit or base prefix, an underscore, or something else.\<close>

datatype seen = SawStart | SawDigit | SawUnderscore | SawOther

fun underscores_from :: "bool \<Rightarrow> seen \<Rightarrow> string \<Rightarrow> bool" where
  "underscores_from hex saw [] = (saw \<noteq> SawUnderscore)"
| "underscores_from hex saw (c # s) =
     (if is_digit c \<or> hex \<and> is_hex c then underscores_from hex SawDigit s
      else if c = CHR ''_'' then saw = SawDigit \<and> underscores_from hex SawUnderscore s
      else saw \<noteq> SawUnderscore \<and> underscores_from hex SawOther s)"

definition underscore_ok :: "string \<Rightarrow> bool" where
  "underscore_ok s =
     (case s of
        z # x # r \<Rightarrow>
          if z = CHR ''0'' \<and> (is_letter (CHR ''b'') x \<or> is_letter (CHR ''o'') x \<or> is_letter (CHR ''x'') x)
          then underscores_from (is_letter (CHR ''x'') x) SawDigit r
          else underscores_from False SawStart s
      | _ \<Rightarrow> underscores_from False SawStart s)"

definition parse_magnitude :: "string \<Rightarrow> int option" where
  "parse_magnitude s =
     (if s = [] then None
      else (case literal_base s of (b, ds) \<Rightarrow>
        (case literal_digits b ds of
           None \<Rightarrow> None
         | Some vs \<Rightarrow>
             if CHR ''_'' \<in> set ds \<and> \<not> underscore_ok s then None
             else (let n = foldl (\<lambda>a d. a * int b + int d) 0 vs in if n < 2 ^ 64 then Some n else None))))"

definition parse_int_flag :: "string \<Rightarrow> int option" where
  "parse_int_flag s =
     (let (neg, m) = (case s of c # r \<Rightarrow> if c = CHR ''-'' then (True, r) else if c = CHR ''+'' then (False, r) else (False, s)
            | [] \<Rightarrow> (False, s))
      in case parse_magnitude m of
           None \<Rightarrow> None
         | Some n \<Rightarrow> if \<not> neg \<and> n < 2 ^ 63 then Some n else if neg \<and> n \<le> 2 ^ 63 then Some (- n) else None)"

record given_int =
  gi_value :: int
  gi_given :: bool

definition given_set :: "string \<Rightarrow> given_int \<Rightarrow> given_int option" where
  "given_set s g = map_option (\<lambda>v. g\<lparr>gi_value := v, gi_given := True\<rparr>) (parse_int_flag s)"

definition validate_terminal_implications :: "given_int \<Rightarrow> given_int \<Rightarrow> string option" where
  "validate_terminal_implications cols rows =
     (if gi_given cols \<and> \<not> gi_given rows
      then Some (''Implications failed:'' @ [CHR 10] @ '' terminal-columns -> terminal-rows'')
      else if gi_given rows \<and> \<not> gi_given cols
      then Some (''Implications failed:'' @ [CHR 10] @ '' terminal-rows -> terminal-columns'')
      else None)"

record enum_flag =
  ef_flag :: string
  ef_value :: string
  ef_choices :: "string list"

definition validate_enum :: "(string \<Rightarrow> string) \<Rightarrow> string \<Rightarrow> string \<Rightarrow> string list \<Rightarrow> string option" where
  "validate_enum quote flag v choices =
     (if v \<in> set choices then None
      else Some (''Invalid value '' @ quote v @ '' for --'' @ flag @ ''. Choose from: '' @ join '', '' choices))"

fun validate_enums :: "(string \<Rightarrow> string) \<Rightarrow> enum_flag list \<Rightarrow> string option" where
  "validate_enums quote [] = None"
| "validate_enums quote (f # fs) =
     (case validate_enum quote (ef_flag f) (ef_value f) (ef_choices f) of
        Some e \<Rightarrow> Some e
      | None \<Rightarrow> validate_enums quote fs)"

subsection \<open>Secrets\<close>

text \<open>\<open>data\<close> is the file's text, \<open>None\<close> when it cannot be read.\<close>

definition read_secrets_file :: "(string \<Rightarrow> json option) \<Rightarrow> string option \<Rightarrow> string list option" where
  "read_secrets_file dec data =
     Option.bind data (\<lambda>s. Option.bind (dec s) (\<lambda>v.
       map_option (map (\<lambda>(k, x). k @ ''='' @ x)) (map_dec [] string_dec v [])))"

definition secret_values :: "string list \<Rightarrow> string list" where
  "secret_values envs = concat (map (\<lambda>e. case cut_byte (CHR ''='') e of (k, v, found) \<Rightarrow> if found then [v] else []) envs)"

definition secret_values_from_file :: "(string \<Rightarrow> json option) \<Rightarrow> (string \<Rightarrow> string option) \<Rightarrow> string \<Rightarrow> string list" where
  "secret_values_from_file dec read path =
     (if path = [] then []
      else (case read_secrets_file dec (read path) of Some envs \<Rightarrow> secret_values envs | None \<Rightarrow> []))"

definition build_secrets_from_file :: "(string \<Rightarrow> json option) \<Rightarrow> (string \<Rightarrow> string option) \<Rightarrow> string \<Rightarrow> string list" where
  "build_secrets_from_file dec read path =
     (if path = [] then [] else (case read_secrets_file dec (read path) of Some envs \<Rightarrow> envs | None \<Rightarrow> []))"

definition build_secret_ids :: "string list \<Rightarrow> string list" where
  "build_secret_ids secrets = concat (map (\<lambda>s. case secret_key s of Some k \<Rightarrow> [k] | None \<Rightarrow> []) secrets)"

subsection \<open>The GPU\<close>

text \<open>\<open>nvidia_cli\<close> is what the probe of \<open>nvidia-container-cli\<close> says, \<open>None\<close> when it is not installed.\<close>

definition detect_gpu :: "bool option \<Rightarrow> bool \<Rightarrow> bool" where
  "detect_gpu nvidia_cli runtime_present =
     (if \<not> runtime_present then False else (case nvidia_cli of Some p \<Rightarrow> p | None \<Rightarrow> True))"

definition check_gpu_availability ::
  "bool option \<Rightarrow> 'w runner \<Rightarrow> docker_client \<Rightarrow> string \<Rightarrow> 'w \<Rightarrow> bool \<times> 'w" where
  "check_gpu_availability nvidia_cli run c flag w =
     (if flag = ''all'' then (True, w)
      else if flag = ''none'' then (False, w)
      else (case docker_run run c [''info'', ''-f'', ''{{.Runtimes.nvidia}}''] w of
          (Inl e, w') \<Rightarrow> (detect_gpu nvidia_cli False, w')
        | (Inr (sout, serr, code), w') \<Rightarrow> (detect_gpu nvidia_cli (contains_sub sout ''nvidia-container-runtime''), w')))"

text \<open>The raw text of \<open>hostRequirements.gpu\<close>.\<close>

definition gpu_requested :: "string \<Rightarrow> bool" where
  "gpu_requested raw = (let s = trim_space raw in s \<noteq> [] \<and> s \<noteq> ''null'' \<and> s \<noteq> ''false'')"

subsection \<open>Additional Features, published ports, the platform\<close>

text \<open>The additional Features that are new, in the order Go walks them: the Features with them, and their keys.\<close>

definition merge_additional_features ::
  "(string \<Rightarrow> json option) \<Rightarrow> json gomap \<Rightarrow> string \<Rightarrow> (unit, json gomap \<times> string list) res" where
  "merge_additional_features jsonc features additional =
     (if additional = [] then Inr (features, [])
      else (case Option.bind (jsonc additional) (\<lambda>v. map_dec JNull any_dec v []) of
          None \<Rightarrow> Inl ()
        | Some m \<Rightarrow>
            (let new = filter (\<lambda>(k, v). map_of features k = None) m
             in Inr (acopy features new, map fst new))))"

text \<open>\<open>int(p)\<close> of a float64: towards zero, and the machine's own answer beyond an int.\<close>

definition int_of_float :: "(rat \<Rightarrow> int) \<Rightarrow> rat \<Rightarrow> int" where
  "int_of_float beyond q =
     (let n = (if q < 0 then - \<lfloor>- q\<rfloor> else \<lfloor>q\<rfloor>) in if - (2 ^ 63) \<le> n \<and> n < 2 ^ 63 then n else beyond q)"

definition publish_args :: "(rat \<Rightarrow> int) \<Rightarrow> json \<Rightarrow> string list" where
  "publish_args beyond item =
     (case item of
        JNum q \<Rightarrow> (let p = int_text (int_of_float beyond q) in [''-p'', ''127.0.0.1:'' @ p @ '':'' @ p])
      | JStr s \<Rightarrow> if s \<noteq> [] then [''-p'', s] else []
      | _ \<Rightarrow> [])"

definition app_port_publish_args :: "(rat \<Rightarrow> int) \<Rightarrow> json option \<Rightarrow> string list" where
  "app_port_publish_args beyond raw =
     (case raw of
        None \<Rightarrow> []
      | Some (JArr vs) \<Rightarrow> concat (map (publish_args beyond) vs)
      | Some v \<Rightarrow> publish_args beyond v)"

fun find_platform_arg :: "string list \<Rightarrow> string" where
  "find_platform_arg [] = []"
| "find_platform_arg (a # as) =
     (case cut_prefix a ''--platform='' of
        Some v \<Rightarrow> v
      | None \<Rightarrow> (case as of b # bs \<Rightarrow> if a = ''--platform'' then b else find_platform_arg as | [] \<Rightarrow> []))"

subsection \<open>Mounts of the metadata\<close>

definition str_member :: "string \<Rightarrow> string \<Rightarrow> json gomap" where
  "str_member k s = (if s \<noteq> [] then [(k, JStr s)] else [])"

definition flag_member :: "string \<Rightarrow> bool option \<Rightarrow> json gomap" where
  "flag_member k b = (case b of Some v \<Rightarrow> [(k, JBool v)] | None \<Rightarrow> [])"

definition serialized_mount :: "cfg_mount \<Rightarrow> json" where
  "serialized_mount m =
     JObj (str_member ''type'' (cm_type m) @ str_member ''source'' (cm_source m) @ str_member ''target'' (cm_target m) @
       flag_member ''external'' (cm_external m) @ flag_member ''readonly'' (cm_readonly m))"

definition metadata_mount :: "mount_or_string \<Rightarrow> json list" where
  "metadata_mount m =
     (case mount_as_string m of
        Some (c # s) \<Rightarrow> [JStr (c # s)]
      | _ \<Rightarrow> (case mount_as_mount m of Some o' \<Rightarrow> [serialized_mount o'] | None \<Rightarrow> []))"

definition metadata_mounts :: "dev_container \<Rightarrow> json list" where
  "metadata_mounts cfg = concat (map metadata_mount (dc_mounts cfg))"

datatype mount_failure = NotSubstituted sub_error | NoTarget string | UnsupportedMount

text \<open>\<open>resolve\<close> of \<open>mountFromMetadata\<close>: the identity phase, with the container's id alone.\<close>

definition id_context :: "string \<Rightarrow> sub_ctx" where
  "id_context cid =
     \<lparr>host_sub = \<lparr>platform = [], local_workspace_folder = [], container_workspace_folder = [], host_env = [],
        config_file_path = []\<rparr>, id_labels = None, dev_container_id = cid, container_env = []\<rparr>"

definition resolve_id :: "(string \<Rightarrow> string) \<Rightarrow> string \<Rightarrow> string \<Rightarrow> (mount_failure, string) res" where
  "resolve_id ulow cid s =
     (case resolve_string ulow (id_context cid) PhaseIdentity s of Inl e \<Rightarrow> Inl (NotSubstituted e) | Inr r \<Rightarrow> Inr r)"

definition text_member :: "string \<Rightarrow> json gomap \<Rightarrow> string" where
  "text_member k m = (case map_of m k of Some (JStr s) \<Rightarrow> s | _ \<Rightarrow> [])"

fun mount_from_metadata :: "(string \<Rightarrow> string) \<Rightarrow> string \<Rightarrow> json \<Rightarrow> (mount_failure, mount) res" where
  "mount_from_metadata ulow cid (JStr raw) =
     bind_res (resolve_id ulow cid raw) (\<lambda>spec.
       (case parse_mount_spec spec of Inl e \<Rightarrow> Inl (NoTarget e) | Inr m \<Rightarrow> Inr m))"
| "mount_from_metadata ulow cid (JObj raw) =
     bind_res (resolve_id ulow cid (text_member ''target'' raw)) (\<lambda>target.
       if target = [] then Inl (NoTarget ''mount requires a target/destination'')
       else bind_res (resolve_id ulow cid (text_member ''source'' raw)) (\<lambda>source.
         Inr (empty_mount\<lparr>mount_type := (let t = text_member ''type'' raw in if t = [] then ''bind'' else t),
           mount_source := source, mount_target := target,
           mount_read_only := (map_of raw ''readonly'' = Some (JBool True))\<rparr>)))"
| "mount_from_metadata ulow cid v = Inl UnsupportedMount"

definition mounts_from_metadata :: "(string \<Rightarrow> string) \<Rightarrow> json list \<Rightarrow> string \<Rightarrow> (mount_failure, mount list) res" where
  "mounts_from_metadata ulow entries cid = traverse (mount_from_metadata ulow cid) entries"

subsection \<open>The container's environment\<close>

text \<open>\<open>resolveContainerVariables\<close>, of the zero platform, and the first error over several values.\<close>

definition container_context :: "string gomap \<Rightarrow> string \<Rightarrow> sub_ctx" where
  "container_context env file =
     (id_context [])\<lparr>host_sub := (host_sub (id_context []))\<lparr>config_file_path := file\<rparr>, container_env := env\<rparr>"

definition resolve_container_variables ::
  "(string \<Rightarrow> string) \<Rightarrow> string gomap \<Rightarrow> string \<Rightarrow> json \<Rightarrow> (sub_error, json) res" where
  "resolve_container_variables ulow env file v = resolve_value ulow (container_context env file) PhaseContainer v"

definition check_container_substitution ::
  "(string \<Rightarrow> string) \<Rightarrow> string gomap \<Rightarrow> string \<Rightarrow> json list \<Rightarrow> sub_error option" where
  "check_container_substitution ulow env file vs =
     (case traverse (resolve_container_variables ulow env file) vs of Inl e \<Rightarrow> Some e | Inr rs \<Rightarrow> None)"

subsection \<open>The registries of a build\<close>

definition registry_host_from_image_ref :: "string \<Rightarrow> string" where
  "registry_host_from_image_ref ref =
     (case cut_byte (CHR ''/'') (trim_space ref) of (first, rest, found) \<Rightarrow>
        if found \<and> (first = ''localhost'' \<or> CHR ''.'' \<in> set first \<or> CHR '':'' \<in> set first) then first else [])"

fun first_ref :: "string list \<Rightarrow> string" where
  "first_ref [] = []"
| "first_ref (p # ps) = (case cut_prefix p ''ref='' of Some a \<Rightarrow> a | None \<Rightarrow> first_ref ps)"

definition registry_cache_ref :: "string \<Rightarrow> string" where
  "registry_cache_ref spec0 =
     (let spec = trim_space spec0 in
      if spec = [] \<or> \<not> contains_sub spec ''='' then spec else first_ref (split_byte (CHR '','') spec))"

definition collect_build_registries :: "string \<Rightarrow> string list \<Rightarrow> string list \<Rightarrow> string \<Rightarrow> string list" where
  "collect_build_registries base tags cache_from cache_to =
     foldl (\<lambda>rs host. if host \<noteq> [] \<and> host \<notin> set rs then rs @ [host] else rs) []
       (registry_host_from_image_ref base # map registry_host_from_image_ref tags @
        map (\<lambda>c. registry_host_from_image_ref (registry_cache_ref c)) cache_from @
        [registry_host_from_image_ref (registry_cache_ref cache_to)])"

subsection \<open>Checked mounts are parsed\<close>

lemma valued_cases:
  assumes "valued key s"
  obtains v where "s = key @ v" and "v \<noteq> []"
proof
  show "s = key @ drop (length key) s"
    using assms by (simp add: valued_def has_prefix_def) (metis append_take_drop_id)
  show "drop (length key) s \<noteq> []" using assms by (simp add: valued_def)
qed

text \<open>A text in the form of the flag's documentation.\<close>

definition mount_option :: "string \<Rightarrow> string \<Rightarrow> string \<Rightarrow> string \<Rightarrow> bool" where
  "mount_option m ty src tgt \<longleftrightarrow>
     (\<exists>ext\<in>{[], '',external=true'', '',external=false''}. m = ''type='' @ ty @ '',source='' @ src @ '',target='' @ tgt @ ext) \<and>
     ty \<in> {''bind'', ''volume''} \<and> src \<noteq> [] \<and> tgt \<noteq> [] \<and> CHR '','' \<notin> set src \<and> CHR '','' \<notin> set tgt"

lemma mount_option_split:
  "mount_option m ty src tgt \<longleftrightarrow>
   (\<exists>r\<in>{[], [''external=true''], [''external=false'']}.
      split_byte CHR '','' m = (''type='' @ ty) # (''source='' @ src) # (''target='' @ tgt) # r) \<and>
   ty \<in> {''bind'', ''volume''} \<and> src \<noteq> [] \<and> tgt \<noteq> []" (is "?l = ?r")
proof
  assume ?l
  then obtain x where x: "x \<in> {[], '',external=true'', '',external=false''}"
      "m = ''type='' @ ty @ '',source='' @ src @ '',target='' @ tgt @ x"
    and o: "ty \<in> {''bind'', ''volume''}" "src \<noteq> []" "tgt \<noteq> []" "CHR '','' \<notin> set src" "CHR '','' \<notin> set tgt"
    unfolding mount_option_def by blast
  have m: "m = (''type='' @ ty) @ CHR '','' # (''source='' @ src) @ CHR '','' # (''target='' @ tgt) @ x" using x(2) by simp
  have c: "CHR '','' \<notin> set (''type='' @ ty)" "CHR '','' \<notin> set (''source='' @ src)" "CHR '','' \<notin> set (''target='' @ tgt)"
    using o by auto
  have "split_byte CHR '','' ((''target='' @ tgt) @ x) \<in>
      {[''target='' @ tgt], [''target='' @ tgt, ''external=true''], [''target='' @ tgt, ''external=false'']}"
    using x(1) split_byte_no_sep [OF c(3)] split_byte_append [OF c(3)] by auto
  then show ?r using o unfolding m split_byte_append [OF c(1)] split_byte_append [OF c(2)] by auto
next
  assume r: ?r
  then obtain r where r: "r \<in> {[], [''external=true''], [''external=false'']}"
      "split_byte CHR '','' m = (''type='' @ ty) # (''source='' @ src) # (''target='' @ tgt) # r"
    and o: "ty \<in> {''bind'', ''volume''}" "src \<noteq> []" "tgt \<noteq> []" by blast
  have "''source='' @ src \<in> set (split_byte CHR '','' m)" "''target='' @ tgt \<in> set (split_byte CHR '','' m)"
    unfolding r(2) by simp_all
  then have "CHR '','' \<notin> set src" "CHR '','' \<notin> set tgt" by (auto dest: split_byte_parts)
  moreover have "m = join '','' ((''type='' @ ty) # (''source='' @ src) # (''target='' @ tgt) # r)"
    using r(2) join_split_byte [of "CHR '',''" m] by simp
  ultimately show ?l using r(1) o unfolding mount_option_def by auto
qed

lemma mount_spec_matches_option: "mount_spec_matches m \<longleftrightarrow> (\<exists>ty src tgt. mount_option m ty src tgt)"
proof
  assume "mount_spec_matches m"
  then obtain t s d r where sp: "split_byte (CHR '','') m = t # s # d # r" and t: "t = ''type=bind'' \<or> t = ''type=volume''"
    and s: "valued ''source='' s" and d: "valued ''target='' d"
    and r: "r = [] \<or> r = [''external=true''] \<or> r = [''external=false'']"
    by (auto simp: mount_spec_matches_def split: list.splits)
  obtain src where src: "s = ''source='' @ src" "src \<noteq> []" using s by (rule valued_cases)
  obtain tgt where tgt: "d = ''target='' @ tgt" "tgt \<noteq> []" using d by (rule valued_cases)
  obtain ty where "t = ''type='' @ ty" "ty \<in> {''bind'', ''volume''}" using t by auto
  then show "\<exists>ty src tgt. mount_option m ty src tgt"
    using sp r src tgt unfolding mount_option_split by blast
next
  assume "\<exists>ty src tgt. mount_option m ty src tgt"
  then show "mount_spec_matches m"
    by (auto simp: mount_option_split mount_spec_matches_def valued_def has_prefix_def)
qed

lemma mount_option_parsed:
  assumes "mount_option m ty src tgt"
  shows "parse_mount_spec m = Inr (empty_mount\<lparr>mount_type := ty, mount_source := src, mount_target := tgt\<rparr>)"
proof -
  obtain r where r: "r \<in> {[], [''external=true''], [''external=false'']}"
      "split_byte CHR '','' m = (''type='' @ ty) # (''source='' @ src) # (''target='' @ tgt) # r"
    and o: "ty \<in> {''bind'', ''volume''}" "tgt \<noteq> []" using assms unfolding mount_option_split by blast
  have "mount_part m0 (''type='' @ ty) = m0\<lparr>mount_type := ty\<rparr>" "mount_part m0 (''source='' @ src) = m0\<lparr>mount_source := src\<rparr>"
    "mount_part m0 (''target='' @ tgt) = m0\<lparr>mount_target := tgt\<rparr>" for m0
    using cut_key [of "''type''" ty] cut_key [of "''source''" src] cut_key [of "''target''" tgt]
    by (simp_all add: mount_part_def set_mount_key_def)
  moreover have "foldl mount_part m0 r = m0" for m0
    using r(1) by (auto simp: mount_part_def cut_byte_def index_byte_def set_mount_key_def)
  ultimately show ?thesis using o by (auto simp: parse_mount_spec_def r(2))
qed

text \<open>C19. The flag check lets through exactly the \<open>--mount\<close> values written
  \<open>type=T,source=S,target=D\<close>, with or without \<open>,external=true\<close> or \<open>,external=false\<close>, where \<open>T\<close> is
  bind or volume and \<open>S\<close> and \<open>D\<close> are non-empty and without a comma; each of them is parsed as the mount of
  that very type, source and target, not read-only.\<close>

theorem validated_mount_parsed:
  "validate_mounts ms = None \<longleftrightarrow> (\<forall>m\<in>set ms. \<exists>ty src tgt. mount_option m ty src tgt \<and>
     parse_mount_spec m = Inr (empty_mount\<lparr>mount_type := ty, mount_source := src, mount_target := tgt\<rparr>))"
proof -
  have "validate_mounts ms = None \<longleftrightarrow> (\<forall>m\<in>set ms. mount_spec_matches m)"
    by (auto simp: validate_mounts_def list_ex_iff)
  then show ?thesis unfolding mount_spec_matches_option using mount_option_parsed by blast
qed

lemma validated_mount_parsed_witness:
  "parse_mount_spec ''type=bind,source=/a,target=/b,external=true'' =
     Inr (empty_mount\<lparr>mount_type := ''bind'', mount_source := ''/a'', mount_target := ''/b''\<rparr>)"
proof -
  let ?m = "''type=bind,source=/a,target=/b,external=true''"
  have "validate_mounts [?m] = None" by code_simp
  then obtain ty src tgt where m: "mount_option ?m ty src tgt"
    and p: "parse_mount_spec ?m = Inr (empty_mount\<lparr>mount_type := ty, mount_source := src, mount_target := tgt\<rparr>)"
    using validated_mount_parsed [of "[?m]"] by auto
  have "split_byte CHR '','' ?m = [''type=bind'', ''source=/a'', ''target=/b'', ''external=true'']" by code_simp
  then show ?thesis using m p unfolding mount_option_split by auto
qed

subsection \<open>Secrets\<close>

lemma secrets_mounted:
  "concat (map secret_args ss) = concat (map (\<lambda>k. [''--secret'', ''id='' @ k @ '',env='' @ k]) (build_secret_ids ss))"
  by (induction ss) (simp_all add: secret_args_def build_secret_ids_def split: option.split)

lemma secret_values_spec:
  "list_all (\<lambda>(k, v). CHR ''='' \<notin> set k) m \<Longrightarrow> secret_values (map (\<lambda>(k, x). k @ ''='' @ x) m) = map snd m"
  by (induction m) (auto simp: secret_values_def cut_key)

lemma registries_distinct:
  "distinct (collect_build_registries base tags cache_from cache_to) \<and>
   [] \<notin> set (collect_build_registries base tags cache_from cache_to)"
proof -
  let ?f = "\<lambda>rs host. if host \<noteq> [] \<and> host \<notin> set rs then rs @ [host] else rs"
  have I: "distinct (foldl ?f rs hs) \<and> [] \<notin> set (foldl ?f rs hs)" if "distinct rs \<and> [] \<notin> set rs" for rs hs :: "string list"
    using that
  proof (induction hs arbitrary: rs)
    case (Cons a hs)
    show ?case using Cons.IH [of rs] Cons.IH [of "rs @ [a]"] Cons.prems by auto
  qed simp
  show ?thesis unfolding collect_build_registries_def by (rule I) simp
qed

subsection \<open>Number flags\<close>

lemma literal_digits_decimal: "list_all is_digit s \<Longrightarrow> literal_digits 10 s = Some (map (\<lambda>c. bval c - 48) s)"
proof (induction s)
  case (Cons c s)
  have "c \<noteq> CHR ''_''" using Cons.prems by (auto simp: is_digit_def bval_def)
  moreover have "digit_of c = Some (bval c - 48)" "bval c - 48 < 10"
    using Cons.prems by (auto simp: digit_of_def is_digit_def)
  ultimately show ?case using Cons by simp
qed simp

lemma foldl_digits: "list_all is_digit s \<Longrightarrow> foldl (\<lambda>a d. a * int 10 + int d) a (map (\<lambda>c. bval c - 48) s) = foldl (\<lambda>a c. a * 10 + digit_val c) a s"
proof (induction s arbitrary: a)
  case (Cons c s)
  have "digit_val c = int (bval c - 48)" using Cons.prems by (simp add: digit_val_def is_digit_def)
  then show ?case using Cons.IH [of "a * 10 + digit_val c"] Cons.prems by simp
qed simp

lemma literal_base_decimal: "n \<noteq> 0 \<Longrightarrow> literal_base (nat_text n) = (10, nat_text n)"
proof -
  assume "n \<noteq> 0"
  then have "hd (nat_text n) \<noteq> CHR ''0''" by (rule nat_text_first)
  then show ?thesis by (cases "nat_text n") (auto simp: literal_base_def split: list.split)
qed

lemma parse_magnitude_text: "parse_magnitude (nat_text n) = (if int n < 2 ^ 64 then Some (int n) else None)"
proof (cases "n = 0")
  case True
  then show ?thesis by (simp add: parse_magnitude_def literal_base_def)
next
  case False
  have d: "list_all is_digit (nat_text n)" using nat_text_digit by (simp add: list_all_iff)
  then have "CHR ''_'' \<notin> set (nat_text n)" by (auto simp: list_all_iff is_digit_def bval_def)
  moreover have "foldl (\<lambda>a d. a * int 10 + int d) 0 (map (\<lambda>c. bval c - 48) (nat_text n)) = int n"
    unfolding foldl_digits [OF d] using base_value_nat_text [of n] by (simp add: base_value_def)
  ultimately show ?thesis using literal_base_decimal [OF False] literal_digits_decimal [OF d]
    by (simp add: parse_magnitude_def Let_def)
qed

lemma int_text_nat: "int_text (int n) = nat_text n"
  by (simp add: int_text_def nat_text_def)

text \<open>What a number flag prints it reads back, for every number of 64 bits, and it reads no other.\<close>

theorem given_int_round_trip:
  "given_set (int_text v) g =
     (if - (2 ^ 63) \<le> v \<and> v < 2 ^ 63 then Some (g\<lparr>gi_value := v, gi_given := True\<rparr>) else None)"
proof (cases "v < 0")
  case True
  have t: "int_text v = CHR ''-'' # nat_text (nat (- v))" using True by (simp add: int_text_def nat_text_def)
  have "parse_int_flag (int_text v) = (if - (2 ^ 63) \<le> v then Some v else None)"
    unfolding t using True by (simp add: parse_int_flag_def Let_def parse_magnitude_text)
  then show ?thesis using True by (simp add: given_set_def)
next
  case False
  have t: "int_text v = nat_text (nat v)" using False int_text_nat [of "nat v"] by simp
  obtain c r where c: "nat_text (nat v) = c # r" using nat_text_nonempty by (cases "nat_text (nat v)") auto
  have "is_digit c" using nat_text_digit [of c "nat v"] c by simp
  then have "c \<noteq> CHR ''-''" "c \<noteq> CHR ''+''" by (auto simp: is_digit_def bval_def)
  then have "parse_int_flag (int_text v) = (if v < 2 ^ 63 then Some v else None)"
    using False parse_magnitude_text [of "nat v"] by (simp add: t c parse_int_flag_def Let_def)
  then show ?thesis using False by (simp add: given_set_def)
qed

end
