(* ===== verification/ConfigMetadata.thy ===== *)
theory ConfigMetadata
  imports CliInputs ImageMerge
begin

text \<open>
  A configuration as metadata and as output: what goes into the \<open>devcontainer.metadata\<close> label and comes back from a
  container (\<open>internal/cli/metadata_label.go\<close>), and what \<open>read-configuration\<close> and \<open>up\<close> print of it
  (\<open>internal/cli/read_configuration.go\<close>, \<open>result_order.go\<close>). \<open>Marshal\<close> followed by \<open>Unmarshal\<close> is the object of the
  fields that \<open>omitempty\<close> writes.
\<close>

subsection \<open>Structs as objects\<close>

definition port_attrs_json :: "port_attrs \<Rightarrow> json" where
  "port_attrs_json p = JObj (concat
     [str_field ''label'' (pa_label p), str_field ''protocol'' (pa_protocol p),
      str_field ''onAutoForward'' (pa_on_auto_forward p), bool_field ''requireLocalPort'' (pa_require_local_port p),
      bool_field ''elevateIfNeeded'' (pa_elevate_if_needed p)])"

definition host_requirements_json :: "host_requirements \<Rightarrow> json" where
  "host_requirements_json h = JObj (concat
     [case hr_cpus h of None \<Rightarrow> [] | Some n \<Rightarrow> [(''cpus'', JNum (of_int n))],
      str_field ''memory'' (hr_memory h), str_field ''storage'' (hr_storage h),
      case hr_gpu h of None \<Rightarrow> [] | Some g \<Rightarrow> [(''gpu'', g)]])"

definition strings_json :: "string list \<Rightarrow> json" where
  "strings_json ss = (case ss of [s] \<Rightarrow> JStr s | _ \<Rightarrow> JArr (map JStr ss))"

definition strings_field :: "string \<Rightarrow> string list \<Rightarrow> json gomap" where
  "strings_field k ss = (if ss = [] then [] else [(k, strings_json ss)])"

definition build_json :: "build \<Rightarrow> json" where
  "build_json b = JObj (concat
     [str_field ''dockerfile'' (b_dockerfile b), str_field ''context'' (b_context b), str_field ''target'' (b_target b),
      map_field ''args'' (map (\<lambda>(k, v). (k, JStr v)) (b_args b)), strings_field ''cacheFrom'' (b_cache_from b),
      list_field ''options'' (map JStr (b_options b))])"

definition mount_json :: "mount_or_string \<Rightarrow> json" where
  "mount_json m = (case m of MString s \<Rightarrow> JStr s | MMount c \<Rightarrow> serialized_mount c | MOther v \<Rightarrow> v)"

definition opt_json :: "string \<Rightarrow> ('a \<Rightarrow> json) \<Rightarrow> 'a option \<Rightarrow> json gomap" where
  "opt_json k f x = (case x of None \<Rightarrow> [] | Some v \<Rightarrow> [(k, f v)])"

text \<open>\<open>DevContainer\<close>: the hooks have no \<open>omitempty\<close> and are null when not set.\<close>

definition config_fields :: "dev_container \<Rightarrow> json gomap" where
  "config_fields c = concat
     [str_field ''configFilePath'' (dc_config_file_path c), str_field ''name'' (dc_name c),
      list_field ''forwardPorts'' (dc_forward_ports c), opt_json ''appPort'' (\<lambda>v. v) (dc_app_port c),
      map_field ''portsAttributes'' (map (\<lambda>(k, p). (k, port_attrs_json p)) (dc_ports_attributes c)),
      opt_json ''otherPortsAttributes'' port_attrs_json (dc_other_ports_attributes c),
      list_field ''runArgs'' (map JStr (dc_run_args c)), str_field ''shutdownAction'' (dc_shutdown_action c),
      bool_field ''overrideCommand'' (dc_override_command c),
      [(''initializeCommand'', dc_initialize_command c), (''onCreateCommand'', dc_on_create_command c),
       (''updateContentCommand'', dc_update_content_command c), (''postCreateCommand'', dc_post_create_command c),
       (''postStartCommand'', dc_post_start_command c), (''postAttachCommand'', dc_post_attach_command c)],
      str_field ''waitFor'' (dc_wait_for c), str_field ''workspaceFolder'' (dc_workspace_folder c),
      str_field ''workspaceMount'' (dc_workspace_mount c), list_field ''mounts'' (map mount_json (dc_mounts c)),
      map_field ''containerEnv'' (map (\<lambda>(k, v). (k, JStr v)) (dc_container_env c)),
      str_field ''containerUser'' (dc_container_user c), bool_field ''init'' (dc_init c),
      bool_field ''privileged'' (dc_privileged c), list_field ''capAdd'' (map JStr (dc_cap_add c)),
      list_field ''securityOpt'' (map JStr (dc_security_opt c)),
      map_field ''remoteEnv'' (map (\<lambda>(k, v). (k, env_json v)) (dc_remote_env c)),
      str_field ''remoteUser'' (dc_remote_user c), bool_field ''updateRemoteUserUID'' (dc_update_remote_user_uid c),
      str_field ''userEnvProbe'' (dc_user_env_probe c), map_field ''features'' (dc_features c),
      list_field ''overrideFeatureInstallOrder'' (map JStr (dc_override_feature_install_order c)),
      opt_json ''hostRequirements'' host_requirements_json (dc_host_requirements c),
      map_field ''customizations'' (dc_customizations c), map_field ''secrets'' (dc_secrets c),
      str_field ''image'' (dc_image c), str_field ''dockerFile'' (dc_docker_file c),
      opt_json ''build'' build_json (dc_build c), str_field ''context'' (dc_context c),
      strings_field ''dockerComposeFile'' (dc_docker_compose_file c), str_field ''service'' (dc_service c),
      list_field ''runServices'' (map JStr (dc_run_services c)), any_field ''extensions'' (dc_extensions c),
      any_field ''settings'' (dc_settings c), any_field ''devPort'' (dc_dev_port c)]"

text \<open>\<open>MergedConfig\<close>: an infinite port cannot be written, and then nothing can.\<close>

definition port_json :: "port_value \<Rightarrow> json option" where
  "port_json p = (case p of Port v \<Rightarrow> Some v | PortInfinity neg \<Rightarrow> None)"

definition flag_or_null :: "bool option \<Rightarrow> json" where
  "flag_or_null b = (case b of None \<Rightarrow> JNull | Some v \<Rightarrow> JBool v)"

definition merged_fields :: "merged_config \<Rightarrow> json gomap option" where
  "merged_fields m =
     (case those (map port_json (m_forward_ports m)) of
        None \<Rightarrow> None
      | Some ports \<Rightarrow> Some (concat
          [any_field ''configFilePath'' (m_config_file_path m), str_field ''image'' (m_image m),
           str_field ''remoteUser'' (m_remote_user m), str_field ''containerUser'' (m_container_user m),
           str_field ''userEnvProbe'' (m_user_env_probe m), bool_field ''overrideCommand'' (m_override_command m),
           [(''init'', flag_or_null (m_init m)), (''privileged'', flag_or_null (m_privileged m))],
           str_field ''waitFor'' (m_wait_for m), str_field ''shutdownAction'' (m_shutdown_action m),
           any_field ''hostRequirements'' (m_host_requirements m),
           bool_field ''updateRemoteUserUID'' (m_update_remote_user_uid m),
           list_field ''capAdd'' (map JStr (m_cap_add m)), list_field ''securityOpt'' (map JStr (m_security_opt m)),
           [(''portsAttributes'', JObj (m_ports_attributes m))],
           any_field ''otherPortsAttributes'' (m_other_ports_attributes m), list_field ''forwardPorts'' ports,
           [(''containerEnv'', JObj (map (\<lambda>(k, v). (k, JStr v)) (m_container_env m))),
            (''remoteEnv'', JObj (map (\<lambda>(k, v). (k, env_json v)) (m_remote_env m)))],
           map_field ''customizations'' (map (\<lambda>(k, vs). (k, JArr vs)) (m_customizations m)),
           list_field ''mounts'' (m_mounts m), list_field ''entrypoints'' (map JStr (m_entrypoints m)),
           [(''onCreateCommands'', JArr (m_on_create_commands m)),
            (''updateContentCommands'', JArr (m_update_content_commands m)),
            (''postCreateCommands'', JArr (m_post_create_commands m)),
            (''postStartCommands'', JArr (m_post_start_commands m)),
            (''postAttachCommands'', JArr (m_post_attach_commands m))]]))"

subsection \<open>The configuration's entry\<close>

definition config_metadata_entry :: "dev_container \<Rightarrow> bool \<Rightarrow> entry" where
  "config_metadata_entry c omit_remote_env = empty_entry\<lparr>
     e_remote_user := dc_remote_user c, e_container_user := dc_container_user c,
     e_user_env_probe := dc_user_env_probe c, e_override_command := dc_override_command c,
     e_init := dc_init c, e_privileged := dc_privileged c, e_wait_for := dc_wait_for c,
     e_shutdown_action := dc_shutdown_action c, e_update_remote_user_uid := dc_update_remote_user_uid c,
     e_container_env := dc_container_env c, e_cap_add := dc_cap_add c, e_security_opt := dc_security_opt c,
     e_mounts := metadata_mounts c, e_customizations := dc_customizations c,
     e_forward_ports := dc_forward_ports c,
     e_ports_attributes := map (\<lambda>(k, p). (k, port_attrs_json p)) (dc_ports_attributes c),
     e_other_ports_attributes := (case dc_other_ports_attributes c of None \<Rightarrow> JNull | Some p \<Rightarrow> port_attrs_json p),
     e_host_requirements := (case dc_host_requirements c of None \<Rightarrow> JNull | Some h \<Rightarrow> host_requirements_json h),
     e_remote_env := (if omit_remote_env then [] else dc_remote_env c),
     e_on_create_command := dc_on_create_command c, e_update_content_command := dc_update_content_command c,
     e_post_create_command := dc_post_create_command c, e_post_start_command := dc_post_start_command c,
     e_post_attach_command := dc_post_attach_command c\<rparr>"

text \<open>How an entry is decoded.\<close>

definition entry_decoders :: "entry field list" where
  "entry_decoders =
     [fld ''id'' e_id e_id_update string_dec, fld ''init'' e_init e_init_update (ptr_dec False bool_dec),
      fld ''privileged'' e_privileged e_privileged_update (ptr_dec False bool_dec),
      fld ''capAdd'' e_cap_add e_cap_add_update (slice_dec [] string_dec),
      fld ''securityOpt'' e_security_opt e_security_opt_update (slice_dec [] string_dec),
      fld ''mounts'' e_mounts e_mounts_update (slice_dec JNull any_dec),
      fld ''containerEnv'' e_container_env e_container_env_update (map_dec [] string_dec),
      fld ''containerUser'' e_container_user e_container_user_update string_dec,
      fld ''remoteEnv'' e_remote_env e_remote_env_update (map_dec None (ptr_dec [] string_dec)),
      fld ''remoteUser'' e_remote_user e_remote_user_update string_dec,
      fld ''updateRemoteUserUID'' e_update_remote_user_uid e_update_remote_user_uid_update (ptr_dec False bool_dec),
      fld ''userEnvProbe'' e_user_env_probe e_user_env_probe_update string_dec,
      fld ''overrideCommand'' e_override_command e_override_command_update (ptr_dec False bool_dec),
      fld ''forwardPorts'' e_forward_ports e_forward_ports_update (slice_dec JNull any_dec),
      fld ''portsAttributes'' e_ports_attributes e_ports_attributes_update (map_dec JNull any_dec),
      fld ''otherPortsAttributes'' e_other_ports_attributes e_other_ports_attributes_update any_dec,
      fld ''onCreateCommand'' e_on_create_command e_on_create_command_update any_dec,
      fld ''updateContentCommand'' e_update_content_command e_update_content_command_update any_dec,
      fld ''postCreateCommand'' e_post_create_command e_post_create_command_update any_dec,
      fld ''postStartCommand'' e_post_start_command e_post_start_command_update any_dec,
      fld ''postAttachCommand'' e_post_attach_command e_post_attach_command_update any_dec,
      fld ''waitFor'' e_wait_for e_wait_for_update string_dec,
      fld ''shutdownAction'' e_shutdown_action e_shutdown_action_update string_dec,
      fld ''hostRequirements'' e_host_requirements e_host_requirements_update any_dec,
      fld ''customizations'' e_customizations e_customizations_update (map_dec JNull any_dec),
      fld ''entrypoint'' e_entrypoint e_entrypoint_update string_dec]"

text \<open>One entry, and a list of entries, whose elements are decoded afresh.\<close>

definition decode_entry :: "json \<Rightarrow> entry option" where
  "decode_entry v = object_dec entry_decoders v empty_entry"

definition decode_entries :: "json \<Rightarrow> entry list option" where
  "decode_entries v = slice_dec empty_entry (object_dec entry_decoders) v []"

definition label_config_properties :: "string list" where
  "label_config_properties =
     [''onCreateCommand'', ''updateContentCommand'', ''postCreateCommand'', ''postStartCommand'', ''postAttachCommand'',
      ''waitFor'', ''customizations'', ''mounts'', ''containerEnv'', ''containerUser'', ''init'', ''privileged'',
      ''capAdd'', ''securityOpt'', ''remoteUser'', ''userEnvProbe'', ''remoteEnv'', ''overrideCommand'',
      ''portsAttributes'', ''otherPortsAttributes'', ''forwardPorts'', ''shutdownAction'', ''updateRemoteUserUID'',
      ''hostRequirements'']"

definition config_label_entry :: "json gomap \<Rightarrow> bool \<Rightarrow> entry option" where
  "config_label_entry raw omit_remote_env =
     (let picked = concat (map (\<lambda>k. case map_of raw k of
            Some v \<Rightarrow> if \<not> omit_remote_env \<or> k \<noteq> ''remoteEnv'' then [(k, v)] else []
          | None \<Rightarrow> []) label_config_properties)
      in struct_dec entry_decoders (JObj picked) empty_entry)"

subsection \<open>The label\<close>

definition container_metadata_label :: "(rat \<Rightarrow> string) \<Rightarrow> entry list \<Rightarrow> string" where
  "container_metadata_label ft es = (let l = generate_metadata_label ft es in if l \<noteq> [] then l else ''[]'')"

definition image_label_args :: "(rat \<Rightarrow> string) \<Rightarrow> entry list \<Rightarrow> string list" where
  "image_label_args ft es =
     (let l = generate_metadata_label ft es in if l \<noteq> [] then [''devcontainer.metadata='' @ l] else [])"

definition label_entries :: "(string \<Rightarrow> json option) \<Rightarrow> string gomap \<Rightarrow> entry list \<times> bool" where
  "label_entries dec = read_metadata_from_labels (\<lambda>s. Option.bind (dec s) decode_entries) (\<lambda>s. Option.bind (dec s) decode_entry)"

text \<open>\<open>hostMetadataSubstitution\<close>: without id labels the host's variables alone. The JSON of the entries is
  substituted and decoded over them.\<close>

definition entries_json :: "entry list \<Rightarrow> json" where
  "entries_json es = JArr (map (\<lambda>e. JObj (entry_members e)) es)"

definition resolve_entries :: "(string \<Rightarrow> string) \<Rightarrow> sub_ctx \<Rightarrow> sub_phase \<Rightarrow> entry list \<Rightarrow> entry list option" where
  "resolve_entries ulow ctx phase es =
     (case resolve_value ulow ctx phase (entries_json es) of
        Inl e \<Rightarrow> None
      | Inr v \<Rightarrow> slice_dec empty_entry (object_dec entry_decoders) v es)"

definition host_metadata_substitution ::
  "(string \<Rightarrow> string) \<Rightarrow> host_ctx \<Rightarrow> string list option \<Rightarrow> entry list \<Rightarrow> entry list option" where
  "host_metadata_substitution ulow hs labels es =
     (case labels of
        None \<Rightarrow> resolve_entries ulow (sub_context hs) PhaseHost es
      | Some ls \<Rightarrow>
          (let ctx = (sub_context hs)\<lparr>dev_container_id := compute_dev_container_id (env_map ls)\<rparr>
           in Option.bind (resolve_entries ulow ctx PhaseHost es) (resolve_entries ulow ctx PhaseIdentity)))"

definition label_value :: "string gomap \<Rightarrow> string \<Rightarrow> string" where
  "label_value labels k = (case map_of labels k of Some v \<Rightarrow> v | None \<Rightarrow> [])"

definition has_every_label :: "string gomap \<Rightarrow> string list option \<Rightarrow> bool" where
  "has_every_label labels idl =
     (case idl of
        None \<Rightarrow> False
      | Some ls \<Rightarrow> list_all (\<lambda>(k, v). label_value labels k \<noteq> []) (env_map ls))"

definition updateable_entry :: "entry \<Rightarrow> entry" where
  "updateable_entry e = empty_entry\<lparr>e_remote_user := e_remote_user e, e_user_env_probe := e_user_env_probe e,
     e_remote_env := e_remote_env e\<rparr>"

definition image_metadata_from_container ::
  "(string \<Rightarrow> json option) \<Rightarrow> (entry list \<Rightarrow> entry list option) \<Rightarrow> string gomap \<Rightarrow> dev_container option \<Rightarrow>
   entry list \<Rightarrow> string list option \<Rightarrow> entry list option" where
  "image_metadata_from_container dec substitute labels cfg features idl =
     (let has_label = (label_value labels ''devcontainer.metadata'' \<noteq> []) in
      case (if has_label then substitute (fst (label_entries dec labels)) else Some []) of
        None \<Rightarrow> None
      | Some es \<Rightarrow>
          Some (case cfg of
              None \<Rightarrow> es
            | Some c \<Rightarrow>
                if has_label \<and> has_every_label labels idl
                then es @ [updateable_entry (config_metadata_entry c False)]
                else es @ features @ [config_metadata_entry c False]))"

definition or_undefined :: "string \<Rightarrow> string" where
  "or_undefined s = (if s \<noteq> [] then s else ''undefined'')"

definition container_id_labels :: "string list \<Rightarrow> string gomap \<Rightarrow> string \<Rightarrow> string \<Rightarrow> string list" where
  "container_id_labels provided labels folder config_file =
     (if provided \<noteq> [] then provided
      else (''devcontainer.local_folder='' @ or_undefined folder)
        # (if label_value labels ''devcontainer.config_file'' \<noteq> []
           then [''devcontainer.config_file='' @ or_undefined config_file] else []))"

subsection \<open>The order of a result\<close>

text \<open>\<open>orderedObject\<close>: the keys of the order that are there, each once, then the others sorted.\<close>

definition ordered_keys :: "'v gomap \<Rightarrow> string list \<Rightarrow> string list" where
  "ordered_keys fs order =
     foldl (\<lambda>ks k. if map_of fs k \<noteq> None \<and> k \<notin> set ks then ks @ [k] else ks) [] (order @ sorted_keys fs)"

definition ordered_text :: "('v \<Rightarrow> string) \<Rightarrow> 'v gomap \<Rightarrow> string list \<Rightarrow> string" where
  "ordered_text write fs order =
     [CHR 0x7B] @ join '','' (map (\<lambda>k. go_quote True k @ '':'' @ write (the (map_of fs k))) (ordered_keys fs order)) @ [CHR 0x7D]"

definition merged_configuration_keys :: "string list" where
  "merged_configuration_keys =
     [''init'', ''privileged'', ''capAdd'', ''securityOpt'', ''entrypoints'', ''mounts'', ''customizations'',
      ''onCreateCommands'', ''updateContentCommands'', ''postCreateCommands'', ''postStartCommands'',
      ''postAttachCommands'', ''waitFor'', ''remoteUser'', ''containerUser'', ''userEnvProbe'', ''remoteEnv'',
      ''containerEnv'', ''overrideCommand'', ''portsAttributes'', ''otherPortsAttributes'', ''forwardPorts'',
      ''shutdownAction'', ''updateRemoteUserUID'', ''hostRequirements'']"

definition merged_replaced_keys :: "string list" where
  "merged_replaced_keys =
     [''customizations'', ''entrypoint'', ''onCreateCommand'', ''updateContentCommand'', ''postCreateCommand'',
      ''postStartCommand'', ''postAttachCommand'', ''shutdownAction'']"

definition configuration_keys :: "load_result option \<Rightarrow> string list" where
  "configuration_keys r = (case r of None \<Rightarrow> [] | Some l \<Rightarrow> lr_key_order l) @ [''customizations'', ''configFilePath'']"

definition merged_keys :: "string list \<Rightarrow> string list" where
  "merged_keys ks = filter (\<lambda>k. k \<notin> set merged_replaced_keys) ks @ merged_configuration_keys"

subsection \<open>read-configuration\<close>

definition merged_own_keys :: "string list" where
  "merged_own_keys =
     [''customizations'', ''entrypoint'', ''onCreateCommand'', ''updateContentCommand'', ''postCreateCommand'',
      ''postStartCommand'', ''postAttachCommand'', ''shutdownAction'', ''init'', ''privileged'', ''capAdd'',
      ''securityOpt'', ''entrypoints'', ''mounts'', ''onCreateCommands'', ''updateContentCommands'',
      ''postCreateCommands'', ''postStartCommands'', ''postAttachCommands'', ''waitFor'', ''remoteUser'',
      ''containerUser'', ''userEnvProbe'', ''remoteEnv'', ''containerEnv'', ''overrideCommand'', ''portsAttributes'',
      ''otherPortsAttributes'', ''forwardPorts'', ''updateRemoteUserUID'', ''hostRequirements'']"

record read_config_opts =
  rc_workspace_folder :: string
  rc_config_path :: string
  rc_override_config :: string
  rc_container_id :: string
  rc_id_labels :: "string list"
  rc_include_features :: bool
  rc_include_merged :: bool

definition has_workspace :: "read_config_opts \<Rightarrow> bool" where
  "has_workspace r \<longleftrightarrow> rc_workspace_folder r \<noteq> [] \<or> rc_container_id r = [] \<and> rc_id_labels r = []"

definition abs_in :: "string \<Rightarrow> string \<Rightarrow> string" where
  "abs_in cwd p = (if p \<noteq> [] \<and> \<not> is_abs p then path_join [cwd, p] else p)"

definition read_configuration_paths :: "read_config_opts \<Rightarrow> string \<Rightarrow> string \<times> string \<times> string" where
  "read_configuration_paths r cwd =
     (let folder = (if has_workspace r \<and> rc_workspace_folder r = [] then cwd else rc_workspace_folder r)
      in (abs_in cwd folder, abs_in cwd (rc_config_path r), abs_in cwd (rc_override_config r)))"

definition config_file_uri :: "string \<Rightarrow> string \<Rightarrow> bool \<Rightarrow> json" where
  "config_file_uri path scheme with_fs_path =
     JObj ([(''$mid'', JNum 1), (''path'', JStr path), (''scheme'', JStr scheme)] @
       (if with_fs_path then [(''fsPath'', JStr path)] else []))"

text \<open>\<open>configurationOutput\<close>: the typed properties that are not null, the others as written, and the file's URI.\<close>

definition configuration_output :: "load_result option \<Rightarrow> read_config_opts \<Rightarrow> json gomap" where
  "configuration_output result r =
     (case result of
        None \<Rightarrow> []
      | Some l \<Rightarrow>
          (let typed = filter (\<lambda>(k, v). v \<noteq> JNull) (config_fields (lr_config l));
               untyped = filter (\<lambda>(k, v). map_of typed k = None) (lr_raw l);
               scheme = (if rc_config_path r \<noteq> [] \<or> rc_override_config r \<noteq> [] \<and> \<not> has_workspace r
                 then ''file'' else ''vscode-fileHost'')
           in aput ''configFilePath'' (config_file_uri (dc_config_file_path (lr_config l)) scheme True)
                (acopy typed untyped)))"

definition result_config_file :: "load_result option \<Rightarrow> string" where
  "result_config_file r = (case r of None \<Rightarrow> [] | Some l \<Rightarrow> dc_config_file_path (lr_config l))"

definition substitute_dev_container_id ::
  "(string \<Rightarrow> string) \<Rightarrow> container_cfg option \<Rightarrow> json gomap \<Rightarrow> string list \<Rightarrow> string \<Rightarrow> load_result option \<Rightarrow>
   (sub_error, json) res" where
  "substitute_dev_container_id ulow container cfg provided folder result =
     (case container of
        None \<Rightarrow> Inr (JObj cfg)
      | Some c \<Rightarrow>
          resolve_value ulow
            (id_context (compute_dev_container_id
              (env_map (container_id_labels provided (ct_labels c) folder (result_config_file result)))))
            PhaseIdentity (JObj cfg))"

definition substitute_container_env ::
  "(string \<Rightarrow> string) \<Rightarrow> container_cfg option \<Rightarrow> json \<Rightarrow> string \<Rightarrow> (sub_error, json) res" where
  "substitute_container_env ulow container cfg file =
     (case container of
        None \<Rightarrow> Inr cfg
      | Some c \<Rightarrow> resolve_container_variables ulow (env_map (ct_env c)) file cfg)"

definition workspace_output :: "load_result option \<Rightarrow> json gomap option" where
  "workspace_output result =
     (case result of
        None \<Rightarrow> None
      | Some l \<Rightarrow>
          (let wc = lr_workspace l in
           Some (str_field ''workspaceFolder'' (wc_folder wc) @
             (case map_of (lr_raw l) ''workspaceMount'' of
                Some v \<Rightarrow> [(''workspaceMount'', v)]
              | None \<Rightarrow> str_field ''workspaceMount'' (wc_mount wc)) @
             (case wc_additional_mounts wc of m # ms \<Rightarrow> [(''additionalMountString'', JStr m)] | [] \<Rightarrow> []))))"

definition features_wanted :: "read_config_opts \<Rightarrow> string \<Rightarrow> bool" where
  "features_wanted r cid \<longleftrightarrow> rc_include_features r \<or> rc_include_merged r \<and> cid = []"

definition needs_features_configuration :: "read_config_opts \<Rightarrow> string \<Rightarrow> load_result option \<Rightarrow> bool" where
  "needs_features_configuration r cid result \<longleftrightarrow>
     features_wanted r cid \<and> (case result of None \<Rightarrow> False | Some l \<Rightarrow> dc_features (lr_config l) \<noteq> [])"

definition read_configuration_metadata ::
  "(string \<Rightarrow> json option) \<Rightarrow> (string \<Rightarrow> string) \<Rightarrow> host_ctx \<Rightarrow> entry list \<Rightarrow> entry list \<Rightarrow> container_cfg option \<Rightarrow>
   load_result option \<Rightarrow> string list \<Rightarrow> string \<Rightarrow> entry list option" where
  "read_configuration_metadata dec ulow env_ctx base feature_entries container result provided folder =
     (let cfg = map_option lr_config result;
          hs = (case result of None \<Rightarrow> env_ctx | Some l \<Rightarrow> lr_host_sub l)
      in case container of
           None \<Rightarrow> Some (base @ (case cfg of None \<Rightarrow> [] | Some c \<Rightarrow> [config_metadata_entry c False]))
         | Some c \<Rightarrow>
             (let ls = container_id_labels provided (ct_labels c) folder (result_config_file result)
              in image_metadata_from_container dec (host_metadata_substitution ulow hs (Some ls)) (ct_labels c) cfg
                   feature_entries (Some ls)))"

text \<open>What of the configuration passes into its merge: \<open>{...config}\<close> without the properties the merge sets.\<close>

definition spread_config :: "json gomap \<Rightarrow> json gomap \<Rightarrow> json gomap" where
  "spread_config cfg merged = acopy merged (filter (\<lambda>(k, v). k \<notin> set merged_own_keys) cfg)"

text \<open>\<open>mergedConfigurationOutput\<close>: with a container the merge is written, substituted and decoded over itself.
  \<open>Inl\<close> without an error is a merge that cannot be written.\<close>

definition merged_decoders :: "merged_config field list" where
  "merged_decoders =
     [fld ''configFilePath'' m_config_file_path m_config_file_path_update any_dec,
      fld ''image'' m_image m_image_update string_dec, fld ''remoteUser'' m_remote_user m_remote_user_update string_dec,
      fld ''containerUser'' m_container_user m_container_user_update string_dec,
      fld ''userEnvProbe'' m_user_env_probe m_user_env_probe_update string_dec,
      fld ''overrideCommand'' m_override_command m_override_command_update (ptr_dec False bool_dec),
      fld ''init'' m_init m_init_update (ptr_dec False bool_dec),
      fld ''privileged'' m_privileged m_privileged_update (ptr_dec False bool_dec),
      fld ''waitFor'' m_wait_for m_wait_for_update string_dec,
      fld ''shutdownAction'' m_shutdown_action m_shutdown_action_update string_dec,
      fld ''hostRequirements'' m_host_requirements m_host_requirements_update any_dec,
      fld ''updateRemoteUserUID'' m_update_remote_user_uid m_update_remote_user_uid_update (ptr_dec False bool_dec),
      fld ''capAdd'' m_cap_add m_cap_add_update (slice_dec [] string_dec),
      fld ''securityOpt'' m_security_opt m_security_opt_update (slice_dec [] string_dec),
      fld ''portsAttributes'' m_ports_attributes m_ports_attributes_update (map_dec JNull any_dec),
      fld ''otherPortsAttributes'' m_other_ports_attributes m_other_ports_attributes_update any_dec,
      fld ''forwardPorts'' m_forward_ports m_forward_ports_update (slice_dec (Port JNull) (\<lambda>v old. Some (Port v))),
      fld ''containerEnv'' m_container_env m_container_env_update (map_dec [] string_dec),
      fld ''remoteEnv'' m_remote_env m_remote_env_update (map_dec None (ptr_dec [] string_dec)),
      fld ''customizations'' m_customizations m_customizations_update (map_dec [] (slice_dec JNull any_dec)),
      fld ''mounts'' m_mounts m_mounts_update (slice_dec JNull any_dec),
      fld ''entrypoints'' m_entrypoints m_entrypoints_update (slice_dec [] string_dec),
      fld ''onCreateCommands'' m_on_create_commands m_on_create_commands_update (slice_dec JNull any_dec),
      fld ''updateContentCommands'' m_update_content_commands m_update_content_commands_update (slice_dec JNull any_dec),
      fld ''postCreateCommands'' m_post_create_commands m_post_create_commands_update (slice_dec JNull any_dec),
      fld ''postStartCommands'' m_post_start_commands m_post_start_commands_update (slice_dec JNull any_dec),
      fld ''postAttachCommands'' m_post_attach_commands m_post_attach_commands_update (slice_dec JNull any_dec)]"

definition substituted_merge ::
  "(string \<Rightarrow> string) \<Rightarrow> container_cfg \<Rightarrow> string \<Rightarrow> merged_config \<Rightarrow> (sub_error, merged_config) res" where
  "substituted_merge ulow c file m =
     (case resolve_container_variables ulow (env_map (ct_env c)) file
         (case merged_fields m of Some fs \<Rightarrow> JObj fs | None \<Rightarrow> JNull) of
        Inl e \<Rightarrow> Inl e
      | Inr v \<Rightarrow> Inr (case struct_dec merged_decoders v m of Some m' \<Rightarrow> m' | None \<Rightarrow> m))"

definition merged_configuration_output ::
  "(rat \<Rightarrow> string) \<Rightarrow> (string \<Rightarrow> string) \<Rightarrow> entry list \<Rightarrow> container_cfg option \<Rightarrow> json gomap \<Rightarrow> string \<Rightarrow>
   (sub_error option, json gomap) res" where
  "merged_configuration_output ft ulow es container cfg file =
     (let merged = merge_configuration ft es in
      case (case container of None \<Rightarrow> Inr merged | Some c \<Rightarrow> substituted_merge ulow c file merged) of
        Inl e \<Rightarrow> Inl (Some e)
      | Inr m \<Rightarrow> (case merged_fields m of None \<Rightarrow> Inl None | Some fs \<Rightarrow> Inr (spread_config cfg fs)))"

subsection \<open>The label is read back\<close>

lemma string_elems: "elems_dec [] string_dec (map JStr xs) old = Some xs"
  by (induction xs arbitrary: old) auto

lemma any_elems: "elems_dec z any_dec vs old = Some vs"
  by (induction vs arbitrary: old) (auto simp: any_dec_def)

lemma members_read:
  assumes "\<And>x. dec (f x) zero = Some x" and "distinct (map fst (old @ m))"
  shows "members_dec zero dec (map (\<lambda>(k, x). (k, f x)) m) old = Some (old @ m)"
  using assms(2)
proof (induction m arbitrary: old)
  case (Cons p m)
  obtain k x where p: "p = (k, x)" by (cases p)
  have "k \<notin> fst ` set old" using Cons.prems p by auto
  then show ?case using Cons.IH [of "old @ [(k, x)]"] Cons.prems p assms(1) by (simp add: aput_new)
qed simp

lemma any_members_read: "distinct (map fst m) \<Longrightarrow> members_dec JNull any_dec m [] = Some m"
  using members_read [of any_dec "\<lambda>x. x" JNull "[]" m] by (simp add: any_dec_def case_prod_eta)

lemma string_members_read: "distinct (map fst m) \<Longrightarrow> members_dec [] string_dec (map (\<lambda>(k, v). (k, JStr v)) m) [] = Some m"
  using members_read [of string_dec JStr "[]" "[]" m] by simp

lemma env_members_read:
  "distinct (map fst m) \<Longrightarrow> members_dec None (ptr_dec [] string_dec) (map (\<lambda>(k, v). (k, env_json v)) m) [] = Some m"
  using members_read [of "ptr_dec [] string_dec" env_json None "[]" m] by (simp add: env_json_def split: option.split)

lemma field_members:
  "(k, v) \<in> set (str_field n s) \<longleftrightarrow> k = n \<and> v = JStr s \<and> s \<noteq> []"
  "(k, v) \<in> set (bool_field n b) \<longleftrightarrow> k = n \<and> (\<exists>x. b = Some x \<and> v = JBool x)"
  "(k, v) \<in> set (list_field n vs) \<longleftrightarrow> k = n \<and> v = JArr vs \<and> vs \<noteq> []"
  "(k, v) \<in> set (map_field n m) \<longleftrightarrow> k = n \<and> v = JObj m \<and> m \<noteq> []"
  "(k, v) \<in> set (any_field n a) \<longleftrightarrow> k = n \<and> v = a \<and> a \<noteq> JNull"
  by (auto simp: str_field_def bool_field_def list_field_def map_field_def any_field_def split: option.splits)

text \<open>The fields of one entry where the keys say so, else of the other.\<close>

definition mixed :: "string set \<Rightarrow> entry \<Rightarrow> entry \<Rightarrow> entry" where
  "mixed K e c =
     \<lparr>e_id = (if ''id'' \<in> K then e_id e else e_id c), e_init = (if ''init'' \<in> K then e_init e else e_init c),
      e_privileged = (if ''privileged'' \<in> K then e_privileged e else e_privileged c),
      e_cap_add = (if ''capAdd'' \<in> K then e_cap_add e else e_cap_add c),
      e_security_opt = (if ''securityOpt'' \<in> K then e_security_opt e else e_security_opt c),
      e_mounts = (if ''mounts'' \<in> K then e_mounts e else e_mounts c),
      e_container_env = (if ''containerEnv'' \<in> K then e_container_env e else e_container_env c),
      e_container_user = (if ''containerUser'' \<in> K then e_container_user e else e_container_user c),
      e_remote_env = (if ''remoteEnv'' \<in> K then e_remote_env e else e_remote_env c),
      e_remote_user = (if ''remoteUser'' \<in> K then e_remote_user e else e_remote_user c),
      e_update_remote_user_uid = (if ''updateRemoteUserUID'' \<in> K then e_update_remote_user_uid e else e_update_remote_user_uid c),
      e_user_env_probe = (if ''userEnvProbe'' \<in> K then e_user_env_probe e else e_user_env_probe c),
      e_override_command = (if ''overrideCommand'' \<in> K then e_override_command e else e_override_command c),
      e_forward_ports = (if ''forwardPorts'' \<in> K then e_forward_ports e else e_forward_ports c),
      e_ports_attributes = (if ''portsAttributes'' \<in> K then e_ports_attributes e else e_ports_attributes c),
      e_other_ports_attributes = (if ''otherPortsAttributes'' \<in> K then e_other_ports_attributes e else e_other_ports_attributes c),
      e_on_create_command = (if ''onCreateCommand'' \<in> K then e_on_create_command e else e_on_create_command c),
      e_update_content_command = (if ''updateContentCommand'' \<in> K then e_update_content_command e else e_update_content_command c),
      e_post_create_command = (if ''postCreateCommand'' \<in> K then e_post_create_command e else e_post_create_command c),
      e_post_start_command = (if ''postStartCommand'' \<in> K then e_post_start_command e else e_post_start_command c),
      e_post_attach_command = (if ''postAttachCommand'' \<in> K then e_post_attach_command e else e_post_attach_command c),
      e_wait_for = (if ''waitFor'' \<in> K then e_wait_for e else e_wait_for c),
      e_shutdown_action = (if ''shutdownAction'' \<in> K then e_shutdown_action e else e_shutdown_action c),
      e_host_requirements = (if ''hostRequirements'' \<in> K then e_host_requirements e else e_host_requirements c),
      e_customizations = (if ''customizations'' \<in> K then e_customizations e else e_customizations c),
      e_entrypoint = (if ''entrypoint'' \<in> K then e_entrypoint e else e_entrypoint c)\<rparr>"

definition entry_maps_wf :: "entry \<Rightarrow> bool" where
  "entry_maps_wf e \<longleftrightarrow> distinct (map fst (e_container_env e)) \<and> distinct (map fst (e_remote_env e)) \<and>
     distinct (map fst (e_ports_attributes e)) \<and> distinct (map fst (e_customizations e))"

lemma decoder_of_key: "map_of entry_decoders k = Some d \<Longrightarrow> field_of entry_decoders k = Some d"
  by (simp add: field_of_def)

lemma member_read:
  assumes "(k, v) \<in> set (entry_fields e)" and "k \<notin> K" and "entry_maps_wf e"
  shows "\<exists>d. field_of entry_decoders k = Some d \<and> d v (mixed K e empty_entry) = Some (mixed (insert k K) e empty_entry)"
  using assms unfolding entry_fields_def concat.simps set_append Un_iff field_members list.set empty_iff entry_maps_wf_def
  apply (elim disjE conjE exE)
  apply (simp_all add: field_of_def entry_decoders_def fld_def mixed_def empty_entry_def any_dec_def)
  apply (simp_all add: string_elems any_elems any_members_read string_members_read env_members_read)
  done

lemma members_all_read:
  assumes "entry_maps_wf e"
  shows "set ms \<subseteq> set (entry_fields e) \<Longrightarrow> distinct (map fst ms) \<Longrightarrow> K \<inter> fst ` set ms = {} \<Longrightarrow>
    fields_dec entry_decoders ms (mixed K e empty_entry) = Some (mixed (fst ` set ms \<union> K) e empty_entry)"
proof (induction ms arbitrary: K)
  case (Cons p ms)
  obtain k v where p: "p = (k, v)" by (cases p)
  obtain d where "field_of entry_decoders k = Some d" "d v (mixed K e empty_entry) = Some (mixed (insert k K) e empty_entry)"
    using member_read [of k v e K] Cons.prems assms p by auto
  moreover have "fields_dec entry_decoders ms (mixed (insert k K) e empty_entry) =
      Some (mixed (fst ` set ms \<union> insert k K) e empty_entry)"
    using Cons.prems p by (intro Cons.IH) auto
  ultimately show ?case by (simp add: p)
qed simp

lemma in_optional: "x \<in> set (if b then [] else [k]) \<longleftrightarrow> \<not> b \<and> x = k"
  by simp

lemma unwritten_empty: "mixed (fst ` set (entry_fields e)) e empty_entry = e"
  unfolding set_map [symmetric] entry_fields_def map_concat
  unfolding list.map field_keys mixed_def
  unfolding concat.simps set_append Un_iff in_optional
  by (rule entry.equality) (simp_all add: empty_entry_def)

lemma mixed_none: "mixed {} e c = c"
  by (simp add: mixed_def)

lemma entry_members_read:
  assumes "entry_maps_wf e"
  shows "decode_entry (JObj (entry_members e)) = Some e"
proof -
  have m: "mset (entry_members e) = mset (entry_fields e)"
    unfolding entry_members_def using write_fields_mset distinct_entry_fields entry_fields_ordered by blast
  then have "set (entry_members e) = set (entry_fields e)" by (rule mset_eq_setD)
  moreover have "mset (map fst (entry_members e)) = mset (map fst (entry_fields e))" using m by simp
  then have "distinct (map fst (entry_members e))"
    using distinct_entry_fields [of e] mset_eq_imp_distinct_iff by blast
  ultimately show ?thesis
    using members_all_read [OF assms, of "entry_members e" "{}"] unwritten_empty [of e]
    by (simp add: decode_entry_def mixed_none)
qed

lemma entries_read:
  "list_all entry_maps_wf es \<Longrightarrow> decode_entries (JArr (map (\<lambda>e. JObj (entry_members e)) es)) = Some es"
proof -
  assume wf: "list_all entry_maps_wf es"
  have "elems_dec empty_entry (object_dec entry_decoders) (map (\<lambda>e. JObj (entry_members e)) es) [] = Some es"
    using wf
  proof (induction es)
    case (Cons e es)
    then show ?case using entry_members_read [of e] by (simp add: decode_entry_def)
  qed simp
  then show ?thesis by (simp add: decode_entries_def)
qed

lemma label_read_back:
  assumes "list_all entry_maps_wf es" and "non_empty_entries ft es \<noteq> []"
    and "dec (generate_metadata_label ft es) = Some (entries_json (non_empty_entries ft es))"
    and "map_of labels ''devcontainer.metadata'' = Some (container_metadata_label ft es)"
  shows "label_entries dec labels = (non_empty_entries ft es, False)"
proof -
  have "list_all entry_maps_wf (non_empty_entries ft es)"
    using assms(1) by (simp add: non_empty_entries_def list_all_iff)
  then have "decode_entries (entries_json (non_empty_entries ft es)) = Some (non_empty_entries ft es)"
    unfolding entries_json_def by (rule entries_read)
  moreover have "generate_metadata_label ft es \<noteq> []" using assms(2) by (simp add: generate_metadata_label_def Let_def)
  ultimately show ?thesis
    using assms(3,4) by (simp add: label_entries_def read_metadata_from_labels_def container_metadata_label_def Let_def)
qed


definition remote_user_entry :: entry where
  "remote_user_entry = empty_entry\<lparr>e_remote_user := ''node'', e_container_env := [(''A'', ''1'')]\<rparr>"


subsection \<open>The order of a result\<close>

lemma ordered_fold:
  "\<exists>A. foldl (\<lambda>ks k. if P k \<and> k \<notin> set ks then ks @ [k] else ks) acc xs = acc @ A \<and> subseq A xs \<and> distinct A \<and>
     set A = {x \<in> set xs. P x} - set acc"
proof (induction xs arbitrary: acc)
  case (Cons x xs)
  show ?case
  proof (cases "P x \<and> x \<notin> set acc")
    case True
    obtain A where A: "foldl (\<lambda>ks k. if P k \<and> k \<notin> set ks then ks @ [k] else ks) (acc @ [x]) xs = (acc @ [x]) @ A"
      "subseq A xs" "distinct A" "set A = {y \<in> set xs. P y} - set (acc @ [x])"
      using Cons.IH [of "acc @ [x]"] by blast
    then show ?thesis using True by (intro exI [of _ "x # A"]) auto
  next
    case False
    obtain A where A: "foldl (\<lambda>ks k. if P k \<and> k \<notin> set ks then ks @ [k] else ks) acc xs = acc @ A"
      "subseq A xs" "distinct A" "set A = {y \<in> set xs. P y} - set acc"
      using Cons.IH [of acc] by blast
    then show ?thesis using False by (intro exI [of _ A]) auto
  qed
qed simp

text \<open>An ordered object has every key of its fields once: first the ones the order names, in that order, then the
  others, sorted.\<close>

theorem ordered_object_keys:
  "\<exists>A B. ordered_keys fs order = A @ B \<and> distinct (A @ B) \<and> set (A @ B) = fst ` set fs \<and>
     subseq A order \<and> set A = set order \<inter> fst ` set fs \<and> sorted B"
proof -
  have P: "map_of fs k \<noteq> None \<longleftrightarrow> k \<in> fst ` set fs" for k by (simp add: map_of_eq_None_iff)
  let ?f = "\<lambda>ks k. if map_of fs k \<noteq> None \<and> k \<notin> set ks then ks @ [k] else ks"
  obtain A where A: "foldl ?f [] order = A" "subseq A order" "distinct A" "set A = {x \<in> set order. map_of fs x \<noteq> None}"
    using ordered_fold [of "\<lambda>k. map_of fs k \<noteq> None" "[]" order] by auto
  obtain B where B: "foldl ?f A (sorted_keys fs) = A @ B" "subseq B (sorted_keys fs)" "distinct B"
    "set B = {x \<in> set (sorted_keys fs). map_of fs x \<noteq> None} - set A"
    using ordered_fold [of "\<lambda>k. map_of fs k \<noteq> None" A "sorted_keys fs"] by blast
  obtain N where "B = nths (sorted_keys fs) N" using B(2) by (auto simp: subseq_conv_nths)
  then have "sorted B" using sorted_sorted_keys [of fs] by (simp add: sorted_nths)
  moreover have "ordered_keys fs order = A @ B" using A(1) B(1) by (simp add: ordered_keys_def)
  moreover have "set A = set order \<inter> fst ` set fs" using A(4) P by auto
  moreover have "set (A @ B) = fst ` set fs" using A(4) B(4) P by auto
  moreover have "distinct (A @ B)" using A(3) B(3,4) by auto
  ultimately show ?thesis using A(2) by blast
qed

lemma map_of_spread_config:
  assumes "distinct (map fst cfg)"
  shows "map_of (spread_config cfg m) k =
    (if k \<notin> set merged_own_keys \<and> map_of cfg k \<noteq> None then map_of cfg k else map_of m k)"
proof -
  have "map_of (filter (\<lambda>(k, v). k \<notin> set merged_own_keys) cfg) k = (if k \<in> set merged_own_keys then None else map_of cfg k)"
    using assms by (induction cfg) auto
  moreover have "distinct (map fst (filter (\<lambda>(k, v). k \<notin> set merged_own_keys) cfg))"
    using assms by (rule distinct_map_filter)
  ultimately show ?thesis unfolding spread_config_def by (simp add: map_of_acopy map_add_def split: option.split)
qed

end
