(* ===== verification/CommandErrors.thy ===== *)
theory CommandErrors
  imports Json
begin

text \<open>
  The errors of the commands (\<open>internal/errors/errors.go\<close>) and the way a command reports one
  (\<open>commandErrorOutput\<close>, \<open>writeErrorResult\<close> and \<open>writeValidationError\<close> of \<open>internal/cli/build.go\<close>).
\<close>

subsection \<open>Errors of a command\<close>

record container_error =
  ce_description :: string
  ce_original :: "string option"
  ce_container_id :: string
  ce_feature_id :: string
  ce_did_stop :: "bool option"
  ce_learn_more :: string

datatype command_error = ContainerErr container_error | PlainErr string

definition container_error_of :: "string \<Rightarrow> container_error" where
  "container_error_of d = \<lparr>ce_description = d, ce_original = None, ce_container_id = [], ce_feature_id = [],
     ce_did_stop = None, ce_learn_more = []\<rparr>"

definition container_error_text :: "container_error \<Rightarrow> string" where
  "container_error_text e =
     (if ce_container_id e \<noteq> [] then ce_description e @ '' (container: '' @ ce_container_id e @ '')'' else ce_description e)"

record error_output =
  eo_outcome :: string
  eo_message :: string
  eo_description :: string
  eo_container_id :: string
  eo_feature_id :: string
  eo_did_stop :: "bool option"
  eo_learn_more :: string

definition to_error_output :: "command_error \<Rightarrow> error_output" where
  "to_error_output e =
     (case e of
        PlainErr m \<Rightarrow> \<lparr>eo_outcome = ''error'', eo_message = m, eo_description = m, eo_container_id = [],
          eo_feature_id = [], eo_did_stop = None, eo_learn_more = []\<rparr>
      | ContainerErr c \<Rightarrow> \<lparr>eo_outcome = ''error'',
          eo_message = (case ce_original c of Some m \<Rightarrow> m | None \<Rightarrow> ce_description c),
          eo_description = ce_description c, eo_container_id = ce_container_id c, eo_feature_id = ce_feature_id c,
          eo_did_stop = ce_did_stop c, eo_learn_more = ce_learn_more c\<rparr>)"

subsection \<open>What a command prints of an error\<close>

text \<open>An error as \<open>errors.As\<close> takes it apart: a \<open>ContainerError\<close> or the reference's own message in its chain, else its
  text.\<close>

datatype command_failure = FailContainer container_error | FailReference string | FailText string

definition command_error_output :: "command_failure \<Rightarrow> string \<Rightarrow> error_output" where
  "command_error_output f description =
     (case f of
        FailContainer c \<Rightarrow> to_error_output (ContainerErr c)
      | FailReference m \<Rightarrow> (to_error_output (PlainErr m))\<lparr>eo_description := description @ ''.''\<rparr>
      | FailText t \<Rightarrow> to_error_output (ContainerErr (container_error_of (description @ '': '' @ t))))"

text \<open>What a command ends with: a message on stderr and nothing printed, an error object, a result, or a crash.\<close>

datatype command_result = Refused string | Failed error_output | Done "json gomap" | Crashed

definition failed_with :: "string \<Rightarrow> command_result" where
  "failed_with t = Failed (to_error_output (PlainErr t))"

end
