(* ===== verification/UpContainer.thy ===== *)
theory UpContainer
  imports ConfigMetadata CommandErrors
begin

text \<open>
  \<open>up\<close> for an image or a Dockerfile (\<open>internal/cli/up.go\<close>, and \<open>updateRemoteUserUID\<close> of \<open>compose_up.go\<close>): the
  flags and paths, the users, the mounts, and the container that is created and started. The daemon and the docker
  program act on one world; log lines are left out. \<open>quote\<close> is \<open>%q\<close>.
\<close>

subsection \<open>Flags and paths\<close>

record up_opts =
  uo_workspace_folder :: string
  uo_config_path :: string
  uo_override_config :: string
  uo_id_labels :: "string list"
  uo_remote_envs :: "string list"
  uo_mounts :: "string list"
  uo_log_level :: string
  uo_log_format :: string
  uo_buildkit :: string
  uo_consistency :: string
  uo_gpu :: string
  uo_env_probe :: string
  uo_uid_default :: string
  uo_columns :: given_int
  uo_rows :: given_int
  uo_no_lockfile :: bool
  uo_frozen_lockfile :: bool
  uo_experimental_frozen :: bool
  uo_experimental_lockfile :: bool
  uo_omit_remote_env :: bool
  uo_platform :: string
  uo_cache_image :: string

definition up_enums :: "up_opts \<Rightarrow> enum_flag list" where
  "up_enums o' = map (\<lambda>(f, v, cs). \<lparr>ef_flag = f, ef_value = v, ef_choices = cs\<rparr>)
     [(''log-level'', uo_log_level o', [''info'', ''debug'', ''trace'']),
      (''log-format'', uo_log_format o', [''text'', ''json'']),
      (''buildkit'', uo_buildkit o', [''auto'', ''never'']),
      (''workspace-mount-consistency'', uo_consistency o', [''consistent'', ''cached'', ''delegated'']),
      (''gpu-availability'', uo_gpu o', [''all'', ''detect'', ''none'']),
      (''default-user-env-probe'', uo_env_probe o', [''none'', ''loginShell'', ''interactiveShell'', ''loginInteractiveShell'']),
      (''update-remote-user-uid-default'', uo_uid_default o', [''on'', ''off'', ''never''])]"

fun first_error :: "string option list \<Rightarrow> string option" where
  "first_error [] = None"
| "first_error (Some e # es) = Some e"
| "first_error (None # es) = first_error es"

definition validate_up_opts :: "(string \<Rightarrow> string) \<Rightarrow> up_opts \<Rightarrow> string option" where
  "validate_up_opts quote o' = first_error
     [validate_id_labels (uo_id_labels o'), validate_remote_envs (uo_remote_envs o'), validate_mounts (uo_mounts o'),
      validate_enums quote (up_enums o'), validate_terminal_implications (uo_columns o') (uo_rows o')]"

definition lockfile_flags_error :: "up_opts \<Rightarrow> string option" where
  "lockfile_flags_error o' =
     (if \<not> uo_no_lockfile o' then None
      else if uo_frozen_lockfile o' then Some ''--no-lockfile and --frozen-lockfile are mutually exclusive.''
      else if uo_experimental_frozen o' then Some ''--no-lockfile and --experimental-frozen-lockfile are mutually exclusive.''
      else if uo_experimental_lockfile o' then Some ''--no-lockfile and --experimental-lockfile are mutually exclusive.''
      else None)"

definition resolve_up_paths :: "string \<Rightarrow> up_opts \<Rightarrow> string \<times> string \<times> string" where
  "resolve_up_paths cwd o' =
     (let folder = (if uo_workspace_folder o' = [] \<and> uo_id_labels o' = [] \<and> uo_override_config o' = []
            then cwd else uo_workspace_folder o');
          abs = (\<lambda>p. if p \<noteq> [] then pfs_resolve cwd p else [])
      in (abs folder, abs (uo_config_path o'), abs (uo_override_config o')))"

definition up_has_nothing_to_read :: "string \<times> string \<times> string \<Rightarrow> bool" where
  "up_has_nothing_to_read p \<longleftrightarrow> p = ([], [], [])"

definition up_id_labels :: "up_opts \<Rightarrow> string \<Rightarrow> string \<Rightarrow> string list" where
  "up_id_labels o' folder config_file =
     (if uo_id_labels o' \<noteq> [] then uo_id_labels o'
      else (''devcontainer.local_folder='' @ folder)
        # (if config_file \<noteq> [] then [''devcontainer.config_file='' @ config_file] else []))"

definition up_config_file_from_argument :: "up_opts \<Rightarrow> bool" where
  "up_config_file_from_argument o' \<longleftrightarrow>
     uo_config_path o' \<noteq> [] \<or> uo_workspace_folder o' = [] \<and> uo_override_config o' \<noteq> []"

definition up_config_file_fs_path_read :: "up_opts \<Rightarrow> bool \<Rightarrow> bool" where
  "up_config_file_fs_path_read o' lockfile_read \<longleftrightarrow>
     up_config_file_from_argument o' \<and> (uo_config_path o' = [] \<or> uo_override_config o' = []) \<or>
     uo_id_labels o' = [] \<or> lockfile_read"

subsection \<open>Users\<close>

definition first_nonempty :: "string \<Rightarrow> string \<Rightarrow> string" where
  "first_nonempty a b = (if a \<noteq> [] then a else b)"

definition metadata_user :: "(rat \<Rightarrow> string) \<Rightarrow> (string \<Rightarrow> json option) \<Rightarrow> string gomap \<Rightarrow> string" where
  "metadata_user ft dec labels = m_remote_user (merge_configuration ft (fst (label_entries dec labels)))"

definition image_labels :: "'w engine_api \<Rightarrow> string \<Rightarrow> 'w \<Rightarrow> string gomap \<times> 'w" where
  "image_labels api ref w =
     (if ref = [] then ([], w)
      else (case inspect_image api ref w of
          (r, w') \<Rightarrow> (case inspected_labels r of Some l \<Rightarrow> l | None \<Rightarrow> [], w')))"

definition up_remote_user ::
  "(rat \<Rightarrow> string) \<Rightarrow> (string \<Rightarrow> json option) \<Rightarrow> 'w engine_api \<Rightarrow> string \<Rightarrow> container_info \<Rightarrow> 'w \<Rightarrow> string \<times> 'w" where
  "up_remote_user ft dec api cfg_user ctr w =
     (let (labels, user) = (case ci_config ctr of Some c \<Rightarrow> (ct_labels c, ct_user c) | None \<Rightarrow> ([], []));
          from_labels = metadata_user ft dec labels
      in if cfg_user \<noteq> [] then (cfg_user, w)
         else if from_labels \<noteq> [] then (from_labels, w)
         else (case image_labels api (ci_image ctr) w of
             (l, w') \<Rightarrow>
               (let from_image = metadata_user ft dec l
                in (if from_image \<noteq> [] then from_image else first_nonempty user ''root'', w'))))"

definition container_run_user :: "string \<Rightarrow> image_info option \<Rightarrow> string" where
  "container_run_user user img =
     first_nonempty user (case img of Some i \<Rightarrow> (case ii_config i of Some c \<Rightarrow> ic_user c | None \<Rightarrow> []) | None \<Rightarrow> [])"

text \<open>\<open>findUserArg\<close>, from the end: the arguments before, last first, and the one behind.\<close>

fun user_arg_from :: "string list \<Rightarrow> string option \<Rightarrow> string" where
  "user_arg_from [] behind = []"
| "user_arg_from (a # as) behind =
     (case (a = ''-u'' \<or> a = ''--user'', behind) of
        (True, Some v) \<Rightarrow> v
      | _ \<Rightarrow>
          (case cut_prefix a ''-u='' of
             Some v \<Rightarrow> v
           | None \<Rightarrow> (case cut_prefix a ''--user='' of Some v \<Rightarrow> v | None \<Rightarrow> user_arg_from as (Some a))))"

definition find_user_arg :: "string list \<Rightarrow> string" where
  "find_user_arg args = user_arg_from (rev args) None"

subsection \<open>Mounts\<close>

definition up_workspace_mounts :: "(string \<Rightarrow> string) \<Rightarrow> workspace_config \<Rightarrow> string \<Rightarrow> string \<Rightarrow> (string, mount list) res" where
  "up_workspace_mounts quote wc folder consistency =
     (let spec = wc_mount wc;
          own = (if \<not> wc_no_mount wc \<and> (spec \<noteq> [] \<or> folder \<noteq> [])
            then (if spec = []
              then Inr [empty_mount\<lparr>mount_type := ''bind'', mount_source := folder, mount_target := wc_folder wc\<rparr>]
              else (case parse_mount_spec spec of
                  Inl e \<Rightarrow> Inl (''invalid workspaceMount '' @ quote spec @ '': '' @ e)
                | Inr m \<Rightarrow> Inr [m]))
            else Inr []);
          extra = (\<lambda>s. case parse_mount_spec s of
              Inl e \<Rightarrow> Inl (''invalid additional mount '' @ quote s @ '': '' @ e) | Inr m \<Rightarrow> Inr m)
      in bind_res own (\<lambda>ms. bind_res (traverse extra (wc_additional_mounts wc)) (\<lambda>es.
           Inr (map (\<lambda>m. if consistency \<noteq> [] then m\<lparr>mount_consistency := consistency\<rparr> else m) (ms @ es)))))"

definition parse_flag_mounts :: "(string \<Rightarrow> string) \<Rightarrow> string list \<Rightarrow> (string, mount list) res" where
  "parse_flag_mounts quote specs =
     traverse (\<lambda>m. case parse_mount_spec m of Inl e \<Rightarrow> Inl (''invalid --mount '' @ quote m @ '': '' @ e) | Inr r \<Rightarrow> Inr r) specs"

subsection \<open>The remote user's ids\<close>

record 'w up_env =
  ue_api :: "'w engine_api"
  ue_run :: "'w runner"
  ue_client :: docker_client
  ue_ft :: "rat \<Rightarrow> string"
  ue_ulow :: "string \<Rightarrow> string"
  ue_quote :: "string \<Rightarrow> string"
  ue_dec :: "string \<Rightarrow> json option"
  ue_beyond :: "rat \<Rightarrow> int"
  ue_nvidia :: "bool option"
  ue_linux :: bool
  ue_uid :: int
  ue_gid :: int
  ue_persisted :: string
  ue_mkdir_all :: "string \<Rightarrow> 'w \<Rightarrow> string option \<times> 'w"
  ue_mkdir_temp :: "'w \<Rightarrow> (string, string) res \<times> 'w"
  ue_write_file :: "string \<Rightarrow> 'w \<Rightarrow> string option \<times> 'w"
  ue_remove_all :: "string \<Rightarrow> 'w \<Rightarrow> 'w"
  ue_substitute :: "entry list \<Rightarrow> entry list option"
  ue_config_label :: entry
  ue_opts :: up_opts

definition uid_update_enabled :: "'w up_env \<Rightarrow> merged_config \<Rightarrow> bool" where
  "uid_update_enabled u m \<longleftrightarrow>
     uo_uid_default (ue_opts u) \<noteq> ''never'' \<and> ue_linux u \<and>
     (case m_update_remote_user_uid m of Some b \<Rightarrow> b | None \<Rightarrow> uo_uid_default (ue_opts u) = ''on'')"

definition uid_image_user :: "image_info \<Rightarrow> string" where
  "uid_image_user i = (case ii_config i of Some c \<Rightarrow> first_nonempty (ic_user c) ''root'' | None \<Rightarrow> ''root'')"

definition uid_remote_user :: "merged_config \<Rightarrow> string \<Rightarrow> image_info \<Rightarrow> string" where
  "uid_remote_user m svc_user i = first_nonempty (m_remote_user m) (first_nonempty svc_user (uid_image_user i))"

definition numeric_user :: "string \<Rightarrow> bool" where
  "numeric_user s \<longleftrightarrow> s \<noteq> [] \<and> list_all is_digit s"

definition fixed_image_name :: "(string \<Rightarrow> string) \<Rightarrow> string \<Rightarrow> string \<Rightarrow> string" where
  "fixed_image_name ulow folder img =
     (let f = folder_image_name ulow folder in (if has_prefix img f then img else f) @ ''-uid'')"

definition update_remote_user_uid ::
  "'w up_env \<Rightarrow> merged_config \<Rightarrow> string \<Rightarrow> ('w \<Rightarrow> (string, image_info) res \<times> 'w) \<Rightarrow> string \<Rightarrow> string \<Rightarrow> 'w \<Rightarrow>
   (string, string) res \<times> 'w" where
  "update_remote_user_uid u merged img details svc_user folder w =
     (if \<not> uid_update_enabled u merged then (Inr img, w)
      else (case details w of
          (Inl e, w1) \<Rightarrow> (Inl e, w1)
        | (Inr i, w1) \<Rightarrow>
            (let remote = uid_remote_user merged svc_user i in
             if remote = ''root'' \<or> numeric_user remote then (Inr img, w1)
             else (let empty = path_join [ue_persisted u, ''empty-folder''] in
               case ue_mkdir_all u empty w1 of
                 (Some e, w2) \<Rightarrow> (Inl (''create empty context folder: '' @ e), w2)
               | (None, w2) \<Rightarrow>
                   (case build_uid_image (ue_mkdir_temp u) (ue_write_file u) (ue_remove_all u) (ue_run u) (ue_client u)
                      \<lparr>uu_base_image = img, uu_fixed_image = fixed_image_name (ue_ulow u) folder img,
                       uu_remote_user = remote, uu_image_user = uid_image_user i,
                       uu_platform = join ''/'' (filter (\<lambda>p. p \<noteq> []) [ii_os i, ii_arch i, ii_variant i]),
                       uu_uid = ue_uid u, uu_gid = ue_gid u, uu_context_dir = empty\<rparr> w2 of
                      (Some e, w3) \<Rightarrow> (Inl e, w3)
                    | (None, w3) \<Rightarrow> (Inr (fixed_image_name (ue_ulow u) folder img), w3))))))"

definition single_container_remote_user_uid ::
  "'w up_env \<Rightarrow> string \<Rightarrow> dev_container \<Rightarrow> string \<Rightarrow> 'w \<Rightarrow> (string, string) res \<times> 'w" where
  "single_container_remote_user_uid u img cfg folder w =
     (case inspect_image (ue_api u) img w of
        (r, w1) \<Rightarrow>
          (let es = (case inspected_labels r of Some l \<Rightarrow> fst (label_entries (ue_dec u) l) | None \<Rightarrow> []);
               merged = merge_configuration (ue_ft u) (es @ [config_metadata_entry cfg (uo_omit_remote_env (ue_opts u))])
           in update_remote_user_uid u merged img (inspect_image (ue_api u) img)
                (first_nonempty (find_user_arg (dc_run_args cfg)) (m_container_user merged)) folder w1))"

subsection \<open>Creating the container\<close>

datatype up_error =
    UpText string
  | UpReference string
  | UpContainerError container_error
  | UpSubstitution
  | UpMount mount_failure
  | UpPanic
  | UpWrapped string up_error

text \<open>The innermost error, and the text. \<open>tx\<close> says what a failed substitution or mount is.\<close>

fun error_cause :: "up_error \<Rightarrow> up_error" where
  "error_cause (UpWrapped p e) = error_cause e"
| "error_cause e = e"

fun error_text :: "(up_error \<Rightarrow> command_failure) \<Rightarrow> up_error \<Rightarrow> string" where
  "error_text tx (UpWrapped p e) = p @ error_text tx e"
| "error_text tx (UpText s) = s"
| "error_text tx (UpReference s) = s"
| "error_text tx (UpContainerError c) = container_error_text c"
| "error_text tx e = (case tx e of FailText t \<Rightarrow> t | FailReference t \<Rightarrow> t | FailContainer c \<Rightarrow> container_error_text c)"

definition failure_of :: "(up_error \<Rightarrow> command_failure) \<Rightarrow> up_error \<Rightarrow> command_failure" where
  "failure_of tx e =
     (case error_cause e of
        UpReference m \<Rightarrow> FailReference m
      | UpContainerError c \<Rightarrow> FailContainer c
      | UpText t \<Rightarrow> FailText (error_text tx e)
      | c \<Rightarrow> (case tx c of FailText t \<Rightarrow> FailText (error_text tx e) | f \<Rightarrow> f))"

definition up_text :: "(string, 'a) res \<Rightarrow> (up_error, 'a) res" where
  "up_text r = (case r of Inl e \<Rightarrow> Inl (UpText e) | Inr x \<Rightarrow> Inr x)"

definition gpu_run_args :: "'w up_env \<Rightarrow> dev_container \<Rightarrow> 'w \<Rightarrow> string list \<times> 'w" where
  "gpu_run_args u cfg w =
     (case dc_host_requirements cfg of
        Some h \<Rightarrow>
          (if gpu_requested (case hr_gpu h of Some g \<Rightarrow> go_marshal True (ue_ft u) g | None \<Rightarrow> [])
           then (case check_gpu_availability (ue_nvidia u) (ue_run u) (ue_client u) (uo_gpu (ue_opts u)) w of
               (True, w') \<Rightarrow> ([''--gpus'', ''all''] @ dc_run_args cfg, w')
             | (False, w') \<Rightarrow> (dc_run_args cfg, w'))
           else (dc_run_args cfg, w))
      | None \<Rightarrow> (dc_run_args cfg, w))"

definition container_mounts ::
  "'w up_env \<Rightarrow> merged_config \<Rightarrow> workspace_config \<Rightarrow> string \<Rightarrow> string list \<Rightarrow> (up_error, mount list) res" where
  "container_mounts u merged wc folder idl =
     bind_res (up_text (up_workspace_mounts (ue_quote u) wc folder (uo_consistency (ue_opts u)))) (\<lambda>ws.
     bind_res (case mounts_from_metadata (ue_ulow u) (m_mounts merged) (compute_dev_container_id (env_map idl)) of
         Inl e \<Rightarrow> Inl (UpMount e) | Inr ms \<Rightarrow> Inr ms) (\<lambda>ms.
     bind_res (up_text (parse_flag_mounts (ue_quote u) (uo_mounts (ue_opts u)))) (\<lambda>fs. Inr (ws @ ms @ fs))))"

definition container_cmd :: "merged_config \<Rightarrow> image_info option \<Rightarrow> string list" where
  "container_cmd merged img =
     [''-c'', build_entrypoint_script (m_entrypoints merged), ''-''] @
     (case (m_override_command merged, img) of
        (Some False, Some i) \<Rightarrow> (case ii_config i of Some c \<Rightarrow> ic_entrypoint c @ ic_cmd c | None \<Rightarrow> [])
      | _ \<Rightarrow> [])"

text \<open>What the image says of itself, and the metadata the container is made from: \<open>config_in_image\<close> tells that the
  label records the configuration's entry.\<close>

definition image_entries :: "'w up_env \<Rightarrow> image_info option \<Rightarrow> entry list" where
  "image_entries u img =
     (case img of
        Some i \<Rightarrow> (case ii_config i of Some c \<Rightarrow> fst (label_entries (ue_dec u) (ic_labels c)) | None \<Rightarrow> [])
      | None \<Rightarrow> [])"

definition create_labels :: "'w up_env \<Rightarrow> image_info option \<Rightarrow> string list \<Rightarrow> bool \<Rightarrow> string list" where
  "create_labels u img idl config_in_image =
     idl @ (if config_in_image then []
       else [''devcontainer.metadata='' @ container_metadata_label (ue_ft u) (image_entries u img @ [ue_config_label u])])"

definition container_metadata :: "'w up_env \<Rightarrow> dev_container \<Rightarrow> image_info option \<Rightarrow> bool \<Rightarrow> entry list option" where
  "container_metadata u cfg img config_in_image =
     (case ue_substitute u (image_entries u img) of
        None \<Rightarrow> None
      | Some es \<Rightarrow> Some (if config_in_image then es
          else es @ [config_metadata_entry cfg (uo_omit_remote_env (ue_opts u))]))"

definition container_spec ::
  "'w up_env \<Rightarrow> string \<Rightarrow> image_info option \<Rightarrow> string list \<Rightarrow> merged_config \<Rightarrow> mount list \<Rightarrow> string list \<Rightarrow> create_spec" where
  "container_spec u name img labels merged mounts run_args =
     \<lparr>cs_image = name, cs_labels = labels,
      cs_env = map (\<lambda>(k, v). k @ ''='' @ v) (m_container_env merged), cs_mounts = mounts,
      cs_user = container_run_user (m_container_user merged) img, cs_entrypoint = [''/bin/sh''],
      cs_cmd = container_cmd merged img, cs_cap_add = m_cap_add merged, cs_security_opt = m_security_opt merged,
      cs_privileged = (m_privileged merged = Some True), cs_init = m_init merged, cs_run_args = run_args\<rparr>"

definition start_created :: "'w up_env \<Rightarrow> string list \<Rightarrow> 'w \<Rightarrow> (up_error, string) res \<times> 'w" where
  "start_created u args w =
     (case docker_run (ue_run u) (ue_client u) args w of
        (Inl e, w1) \<Rightarrow> (Inl (UpText (''docker create: '' @ e)), w1)
      | (Inr r, w1) \<Rightarrow>
          (case exit_failure ''docker create'' r of
             Some e \<Rightarrow> (Inl (UpText e), w1)
           | None \<Rightarrow>
               (let cid = trim_space (fst r) in
                case start_container (ue_api u) cid w1 of
                  (Some e, w2) \<Rightarrow> (Inl (UpText (''start container: '' @ e)), w2)
                | (None, w2) \<Rightarrow> (if length cid < 12 then Inl UpPanic else Inr cid, w2))))"

definition run_container ::
  "'w up_env \<Rightarrow> string \<Rightarrow> dev_container \<Rightarrow> workspace_config \<Rightarrow> string \<Rightarrow> string list \<Rightarrow> bool \<Rightarrow> 'w \<Rightarrow>
   (up_error, string) res \<times> 'w" where
  "run_container u name cfg wc folder idl config_in_image w =
     (case inspect_image (ue_api u) name w of
        (r, w1) \<Rightarrow>
          (let img = (case r of Inr i \<Rightarrow> Some i | Inl e \<Rightarrow> None) in
           case container_metadata u cfg img config_in_image of
             None \<Rightarrow> (Inl UpSubstitution, w1)
           | Some es \<Rightarrow>
               (let merged = merge_configuration (ue_ft u) es in
                case container_mounts u merged wc folder idl of
                  Inl e \<Rightarrow> (Inl e, w1)
                | Inr mounts \<Rightarrow>
                    (case gpu_run_args u cfg w1 of
                       (args, w2) \<Rightarrow>
                         start_created u
                           (create_container_args
                             (container_spec u name img (create_labels u img idl config_in_image) merged mounts
                               (args @ app_port_publish_args (ue_beyond u) (dc_app_port cfg)))) w2))))"

subsection \<open>The ways to a container\<close>

definition pull_when_missing :: "'w up_env \<Rightarrow> string \<Rightarrow> string \<Rightarrow> string \<Rightarrow> 'w \<Rightarrow> string option \<times> 'w" where
  "pull_when_missing u what ref plat w =
     (case inspect_image (ue_api u) ref w of
        (Inr i, w1) \<Rightarrow> (None, w1)
      | (Inl e, w1) \<Rightarrow>
          (case pull_image_platform (ue_api u) ref plat w1 of
             (Some e', w2) \<Rightarrow> (Some (what @ ue_quote u ref @ '': '' @ e'), w2)
           | (None, w2) \<Rightarrow> (None, w2)))"

definition target_platform :: "'w up_env \<Rightarrow> dev_container \<Rightarrow> string" where
  "target_platform u cfg = first_nonempty (uo_platform (ue_opts u)) (find_platform_arg (dc_run_args cfg))"

text \<open>The step all ways end with: the remote user's ids, then the container.\<close>

definition finish_container ::
  "'w up_env \<Rightarrow> string \<Rightarrow> dev_container \<Rightarrow> workspace_config \<Rightarrow> string \<Rightarrow> string list \<Rightarrow> ('w \<Rightarrow> string \<Rightarrow> bool \<times> 'w) \<Rightarrow> 'w \<Rightarrow>
   (up_error, string) res \<times> 'w" where
  "finish_container u img cfg wc folder idl in_image w =
     (case single_container_remote_user_uid u img cfg folder w of
        (Inl e, w1) \<Rightarrow> (Inl (UpText e), w1)
      | (Inr name, w1) \<Rightarrow> (case in_image w1 name of (b, w2) \<Rightarrow> run_container u name cfg wc folder idl b w2))"

text \<open>\<open>install\<close> is \<open>extendImageWithFeatures\<close>: the names of the image with the Features.\<close>

definition from_image ::
  "('w up_env \<Rightarrow> string \<Rightarrow> dev_container \<Rightarrow> string \<Rightarrow> 'w \<Rightarrow> (up_error, string list) res \<times> 'w) \<Rightarrow> 'w up_env \<Rightarrow>
   dev_container \<Rightarrow> workspace_config \<Rightarrow> string \<Rightarrow> string list \<Rightarrow> 'w \<Rightarrow> (up_error, string) res \<times> 'w" where
  "from_image install u cfg wc folder idl w =
     (if dc_image cfg = [] then (Inl (UpText ''no image specified in devcontainer.json''), w)
      else (case pull_when_missing u ''pull image '' (dc_image cfg) (target_platform u cfg) w of
          (Some e, w1) \<Rightarrow> (Inl (UpText e), w1)
        | (None, w1) \<Rightarrow>
            (case (if dc_features cfg = [] then (Inr [], w1)
                else install u (dc_image cfg) cfg (target_platform u cfg) w1) of
               (Inl e, w2) \<Rightarrow> (Inl (UpWrapped ''install features: '' e), w2)
             | (Inr names, w2) \<Rightarrow>
                 finish_container u (case names of n # ns \<Rightarrow> n | [] \<Rightarrow> dc_image cfg) cfg wc folder idl
                   (\<lambda>w name. (dc_features cfg \<noteq> [], w)) w2)))"

definition from_cache_image ::
  "'w up_env \<Rightarrow> dev_container \<Rightarrow> workspace_config \<Rightarrow> string \<Rightarrow> string list \<Rightarrow> 'w \<Rightarrow> (up_error, string) res \<times> 'w" where
  "from_cache_image u cfg wc folder idl w =
     (let img = uo_cache_image (ue_opts u) in
      case pull_when_missing u ''pull cache image '' img [] w of
        (Some e, w1) \<Rightarrow> (Inl (UpText e), w1)
      | (None, w1) \<Rightarrow>
          finish_container u img cfg wc folder idl
            (\<lambda>w name. case image_labels (ue_api u) name w of
               (l, w') \<Rightarrow> (map_of l ''devcontainer.metadata'' \<noteq> None, w')) w1)"

subsection \<open>What a later command reads of the container\<close>

lemma env_map_snoc: "CHR ''='' \<notin> set k \<Longrightarrow> env_map (es @ [k @ CHR ''='' # v]) = aput k v (env_map es)"
  by (simp add: env_map_def cut_key)

lemma distinct_env_map: "distinct (map fst (env_map es))"
proof (induction es rule: rev_induct)
  case (snoc e es)
  obtain k v f where "cut_byte (CHR ''='') e = (k, v, f)" by (rule prod_cases3)
  then show ?case using snoc by (simp add: env_map_def del: distinct_map)
qed (simp add: env_map_def)

lemma assigned_value:
  assumes "assignment l" and "\<not> has_suffix l ''=''"
  obtains k v where "l = k @ CHR ''='' # v" and "CHR ''='' \<notin> set k" and "v \<noteq> []"
proof -
  obtain k v f where c: "cut_byte (CHR ''='') l = (k, v, f)" by (rule prod_cases3)
  show thesis
  proof (cases f)
    case True
    then have l: "l = k @ CHR ''='' # v" "CHR ''='' \<notin> set k" using c cut_byte_found [of "CHR ''=''" l k v] by auto
    have "v \<noteq> []" using assms(2) l(1) by (auto simp: has_suffix_iff)
    then show thesis using l that by blast
  next
    case False
    then have "CHR ''='' \<notin> set l" using c cut_byte_missing [of "CHR ''=''" l k v] by auto
    then show thesis using assms(1) by (auto simp: assignment_def contains_sub_iff)
  qed
qed

lemma env_map_values:
  "validate_id_labels es = None \<Longrightarrow> map_of (env_map es) k = Some v \<Longrightarrow> v \<noteq> []"
proof (induction es rule: rev_induct)
  case (snoc e es)
  have e: "assignment e" "\<not> has_suffix e ''=''" and es: "validate_id_labels es = None"
    using snoc.prems(1) by (auto simp: validate_id_labels_def split: if_splits)
  obtain k' v' where "e = k' @ CHR ''='' # v'" "CHR ''='' \<notin> set k'" "v' \<noteq> []"
    using assigned_value [OF e] by blast
  then show ?case using snoc.IH [OF es] snoc.prems(2) by (auto simp: env_map_snoc split: if_splits)
qed (simp add: env_map_def)

lemma created_labels:
  assumes "validate_id_labels idl = None" and "container_metadata_label ft es \<noteq> []"
  defines "labels \<equiv> env_map (idl @ [''devcontainer.metadata='' @ container_metadata_label ft es])"
  shows "map_of labels ''devcontainer.metadata'' = Some (container_metadata_label ft es)"
    and "has_every_label labels (Some idl)"
proof -
  have l: "labels = aput ''devcontainer.metadata'' (container_metadata_label ft es) (env_map idl)"
    using env_map_snoc [of "''devcontainer.metadata''"] by (simp add: labels_def)
  then show "map_of labels ''devcontainer.metadata'' = Some (container_metadata_label ft es)" by simp
  have "label_value labels k \<noteq> []" if "(k, v) \<in> set (env_map idl)" for k v
    using env_map_values [OF assms(1), of k v] that assms(2) distinct_env_map [of idl]
    by (simp add: l label_value_def map_of_is_SomeI)
  then show "has_every_label labels (Some idl)"
    by (auto simp: has_every_label_def list_all_iff)
qed



end
