(* ===== verification/FeatureInstall.thy ===== *)
theory FeatureInstall
  imports UpContainer Extend FeatureSource FeatureGraph OciRef Lockfile
begin

text \<open>
  Fetching Features and installing them into an image (\<open>internal/cli/feature_install.go\<close>). What the registries, the
  servers of direct tarballs and the local folders hold is a snapshot (\<open>feature_origin\<close>), and so is what extracting an
  archive leaves of the Feature's metadata file; theory Archive has the extraction. The files written for a build and
  the docker program act on one world. Log lines are left out.
\<close>

subsection \<open>Direct tarballs\<close>

definition is_github_tarball_uri :: "string \<Rightarrow> bool" where
  "is_github_tarball_uri u \<longleftrightarrow> has_prefix u ''https://github.com'' \<or> has_prefix u ''https://api.github.com''"

definition feature_request_headers :: "string \<Rightarrow> string gomap \<Rightarrow> string gomap" where
  "feature_request_headers u env =
     (let token = (case map_of env ''GITHUB_TOKEN'' of Some t \<Rightarrow> t | None \<Rightarrow> []) in
      (''User-Agent'', ''devcontainer'')
      # (if is_github_tarball_uri u \<and> token \<noteq> [] then [(''Authorization'', ''Bearer '' @ token)] else []))"

definition max_feature_tarball_bytes :: nat where
  "max_feature_tarball_bytes = 512 * 2 ^ 20"

definition read_capped :: "nat \<Rightarrow> (string, string) res \<Rightarrow> (string, string) res" where
  "read_capped cap body =
     (case body of
        Inl e \<Rightarrow> Inl e
      | Inr data \<Rightarrow>
          (if length (take (cap + 1) data) > cap
           then Inl (''larger than the '' @ nat_text (cap div 2 ^ 20) @ '' MiB a Feature tarball may be'') else Inr data))"

text \<open>\<open>get\<close> answers the status and the body, each with its error; the digest is of the bytes.\<close>

definition download_feature_tarball ::
  "(string \<Rightarrow> string gomap \<Rightarrow> (string, nat \<times> (string, string) res) res) \<Rightarrow> (string \<Rightarrow> string) \<Rightarrow> string \<Rightarrow> string gomap \<Rightarrow>
   (string, string \<times> string) res" where
  "download_feature_tarball get sha u env =
     (case get u (feature_request_headers u env) of
        Inl e \<Rightarrow> Inl e
      | Inr (status, body) \<Rightarrow>
          (if status < 200 \<or> 299 < status then Inl (''download '' @ u @ '': HTTP '' @ nat_text status)
           else (case read_capped max_feature_tarball_bytes body of
               Inl e \<Rightarrow> Inl (''download '' @ u @ '': '' @ e)
             | Inr data \<Rightarrow> Inr (data, ''sha256:'' @ sha data))))"

definition locked_integrity :: "lockfile option \<Rightarrow> string \<Rightarrow> string" where
  "locked_integrity lock i =
     (case lock of None \<Rightarrow> [] | Some m \<Rightarrow> (case map_of m i of Some l \<Rightarrow> le_integrity l | None \<Rightarrow> []))"

definition verify_tarball_digest :: "lockfile option \<Rightarrow> string \<Rightarrow> string \<Rightarrow> string option" where
  "verify_tarball_digest lock u computed =
     (if locked_integrity lock u \<noteq> [] \<and> locked_integrity lock u \<noteq> computed
      then Some (''Digest did not match for '' @ u @ ''.'') else None)"

subsection \<open>Names\<close>

text \<open>\<open>[:@][^/]*$\<close>, from the left.\<close>

fun id_without_version :: "string \<Rightarrow> string" where
  "id_without_version [] = []"
| "id_without_version (c # s) =
     (if (c = CHR '':'' \<or> c = CHR ''@'') \<and> CHR ''/'' \<notin> set s then [] else c # id_without_version s)"

text \<open>\<open>devcontainer-feature-(.*)\.tgz\<close>: from the first prefix that has a \<open>.tgz\<close> behind it on its line, to the last
  one there. The path is \<open>url.Parse\<close>'s.\<close>

fun until_last_tgz :: "string \<Rightarrow> string option" where
  "until_last_tgz [] = None"
| "until_last_tgz (c # s) =
     (case (if c = CHR 0x0A then None else until_last_tgz s) of
        Some r \<Rightarrow> Some (c # r)
      | None \<Rightarrow> (if has_prefix (c # s) ''.tgz'' then Some [] else None))"

fun tarball_name_match :: "string \<Rightarrow> string option" where
  "tarball_name_match [] = None"
| "tarball_name_match (c # s) =
     (case cut_prefix (c # s) ''devcontainer-feature-'' of
        Some r \<Rightarrow> (case until_last_tgz r of Some m \<Rightarrow> Some m | None \<Rightarrow> tarball_name_match s)
      | None \<Rightarrow> tarball_name_match s)"

definition tarball_feature_id :: "(string \<Rightarrow> string option) \<Rightarrow> string \<Rightarrow> string" where
  "tarball_feature_id url_path u =
     (let name = path_base (case url_path u of Some p \<Rightarrow> p | None \<Rightarrow> u)
      in case tarball_name_match name of Some m \<Rightarrow> m | None \<Rightarrow> name)"

subsection \<open>Options\<close>

definition extract_user_options :: "json \<Rightarrow> json gomap" where
  "extract_user_options v = (case v of JObj m \<Rightarrow> m | _ \<Rightarrow> [])"

definition add_feature_option :: "json \<Rightarrow> string \<Rightarrow> json" where
  "add_feature_option v k = JObj (aput k (JBool True) (case v of JObj m \<Rightarrow> m | _ \<Rightarrow> []))"

subsection \<open>One Feature\<close>

record manifest_layer =
  ly_digest :: string

record oci_manifest_info =
  om_layers :: "manifest_layer list"
  om_digest :: string
  om_annotations :: "string gomap"
  om_json :: "json option"

text \<open>What the sources hold. A staged folder is known by its metadata file or the error of reading it; a failed unpacking
  gives the error's text. \<open>fo_json\<close> and \<open>fo_jsonc\<close> are what decoding leaves, its error dropped. \<open>fo_quote\<close> is \<open>%q\<close>.\<close>

record feature_origin =
  fo_cwd :: "string option"
  fo_is_dir :: "string \<Rightarrow> bool"
  fo_copy :: "string \<Rightarrow> (string, (string, string) res) res"
  fo_get :: "string \<Rightarrow> string gomap \<Rightarrow> (string, nat \<times> (string, string) res) res"
  fo_sha :: "string \<Rightarrow> string"
  fo_url_path :: "string \<Rightarrow> string option"
  fo_unpack :: "string \<Rightarrow> string \<Rightarrow> (string, string option) res"
  fo_manifest :: "oci_ref \<Rightarrow> oci_manifest_info option"
  fo_blob :: "oci_ref \<Rightarrow> string \<Rightarrow> (string, string) res"
  fo_parse :: "string \<Rightarrow> (string, feature) res"
  fo_json :: "string \<Rightarrow> feature"
  fo_jsonc :: "string \<Rightarrow> feature"
  fo_annotation :: "string \<Rightarrow> feature option"
  fo_env :: "string gomap"
  fo_ulow :: "string \<Rightarrow> string"
  fo_quote :: "string \<Rightarrow> string"
  fo_ref_error :: "ref_error \<Rightarrow> string"
  fo_local_error :: "local_error \<Rightarrow> string"

record local_roots =
  lo_config_dir :: string
  lo_workspace_root :: string

definition feature_from_metadata :: "feature \<Rightarrow> string \<Rightarrow> json \<Rightarrow> feature" where
  "feature_from_metadata m i v = m\<lparr>feat_id := i, feat_value := v, user_options := extract_user_options v,
     feat_included := True, consecutive_id := []\<rparr>"

definition not_processed :: "string \<Rightarrow> string \<Rightarrow> string" where
  "not_processed i why = ''ERR: Feature '' @ sq @ i @ sq @ '' could not be processed.  '' @ why"

definition named_after :: "string \<Rightarrow> feature \<Rightarrow> feature" where
  "named_after i f = (if feat_name f = [] then f\<lparr>feat_name := i\<rparr> else f)"

definition single_set :: "source_info \<Rightarrow> feature \<Rightarrow> string \<Rightarrow> feature_set" where
  "single_set src f dg =
     \<lparr>source_info = Some src, set_features = [f], internal_version = ''2'', computed_digest = dg\<rparr>"

definition process_local ::
  "feature_origin \<Rightarrow> local_roots \<Rightarrow> string \<Rightarrow> json \<Rightarrow> (string, feature_set option) res" where
  "process_local fo roots i v =
     (case local_feature_path (fo_cwd fo) i (lo_config_dir roots) (lo_workspace_root roots) of
        Inl e \<Rightarrow> (case local_error_text e of Some t \<Rightarrow> Inr None | None \<Rightarrow> Inl (fo_local_error fo e))
      | Inr p \<Rightarrow>
          (if \<not> fo_is_dir fo p
           then Inl (not_processed i (''Local Feature path '' @ sq @ p @ sq @ '' not found.''))
           else (case fo_copy fo p of
               Inl e \<Rightarrow> Inl (''copy local feature '' @ fo_quote fo i @ '': '' @ e)
             | Inr (Inl e) \<Rightarrow> Inl (''read local feature '' @ fo_quote fo i @ '' metadata: '' @ e)
             | Inr (Inr content) \<Rightarrow>
                 (case fo_parse fo content of
                    Inl e \<Rightarrow> Inl (''parse local feature '' @ fo_quote fo i @ '' metadata: '' @ e)
                  | Inr m \<Rightarrow>
                      Inr (Some (single_set (Local \<lparr>local_path = i, resolved_path = p, local_user_id = i\<rparr>)
                        (named_after i (feature_from_metadata m (if feat_id m \<noteq> [] then feat_id m else path_base i) v)) []))))))"

definition process_tarball ::
  "feature_origin \<Rightarrow> lockfile option \<Rightarrow> string \<Rightarrow> json \<Rightarrow> (string, feature_set option) res" where
  "process_tarball fo lock i v =
     (case download_feature_tarball (fo_get fo) (fo_sha fo) i (fo_env fo) of
        Inl e \<Rightarrow> Inl (not_processed i e)
      | Inr (data, dg) \<Rightarrow>
          (case verify_tarball_digest lock i dg of
             Some e \<Rightarrow> Inl e
           | None \<Rightarrow>
               (case fo_unpack fo i data of
                  Inl e \<Rightarrow> Inl e
                | Inr file \<Rightarrow>
                    (let m = (case file of Some t \<Rightarrow> fo_json fo t | None \<Rightarrow> blank_feature []);
                         i' = (if feat_id m \<noteq> [] then feat_id m else tarball_feature_id (fo_url_path fo) i)
                     in Inr (Some (single_set (Tarball \<lparr>tarball_uri = i, tarball_user_id = i\<rparr>)
                          (named_after i (feature_from_metadata m i' v)) dg))))))"

text \<open>An OCI Feature: the layer's metadata, without the hooks, then what the annotation has instead.\<close>

definition pinned_ref :: "feature_origin \<Rightarrow> lockfile option \<Rightarrow> string \<Rightarrow> oci_ref \<Rightarrow> oci_ref" where
  "pinned_ref fo lock i r =
     (if locked_integrity lock i = [] then r
      else (case parse_ref (fo_ulow fo) (resource r @ ''@'' @ locked_integrity lock i) of Inr p \<Rightarrow> p | Inl e \<Rightarrow> r))"

definition layer_feature :: "feature \<Rightarrow> oci_ref \<Rightarrow> json \<Rightarrow> feature" where
  "layer_feature m r v =
     (feature_from_metadata m (if feat_id m \<noteq> [] then feat_id m else oid r) v)
       \<lparr>feat_version := (if feat_version m \<noteq> [] then feat_version m else tag r),
        feat_on_create := JNull, feat_update_content := JNull, feat_post_create := JNull, feat_post_start := JNull,
        feat_post_attach := JNull\<rparr>"

definition annotated_feature :: "feature \<Rightarrow> feature \<Rightarrow> oci_ref \<Rightarrow> feature" where
  "annotated_feature a f r =
     f\<lparr>legacy_ids := legacy_ids a, depends_on := depends_on a, depends_on_order := depends_on_order a,
       installs_after := installs_after a, feat_options := feat_options a, feat_init := feat_init a,
       feat_privileged := feat_privileged a, feat_cap_add := feat_cap_add a, feat_security_opt := feat_security_opt a,
       feat_entrypoint := feat_entrypoint a, feat_mounts := feat_mounts a, feat_customizations := feat_customizations a,
       feat_id := (if feat_id a \<noteq> [] then feat_id a else oid r)\<rparr>"

definition oci_feature_source :: "string \<Rightarrow> oci_ref \<Rightarrow> oci_ref \<Rightarrow> oci_manifest_info \<Rightarrow> oci_source" where
  "oci_feature_source i user r m =
     \<lparr>oci_manifest = om_json m, manifest_digest = om_digest m,
      oci_feature_ref = Some \<lparr>ref_scheme = scheme user, ref_id = oid user, ref_owner = owner user,
        ref_namespace = namespace user, ref_registry = registry user, ref_resource = resource user,
        ref_path = oci_ref.ref_path user, ref_version = version user, ref_tag = tag user, ref_digest = digest user\<rparr>,
      oci_user_id = i, oci_user_id_without_version = id_without_version i, oci_registry = registry r,
      oci_namespace = namespace r, oci_id = oid r, oci_resource = resource r, oci_tag = tag r\<rparr>"

definition process_oci ::
  "feature_origin \<Rightarrow> bool \<Rightarrow> lockfile option \<Rightarrow> string \<Rightarrow> json \<Rightarrow> (string, feature_set option) res" where
  "process_oci fo skip_mapping lock i v =
     (case parse_ref (fo_ulow fo) (fst (resolve_id i skip_mapping)) of
        Inl e \<Rightarrow> Inl (not_processed i (fo_ref_error fo e))
      | Inr user \<Rightarrow>
          (let r = pinned_ref fo lock i user in
           case fo_manifest fo r of
             None \<Rightarrow> Inl (not_processed i (''You may not have permission to access this Feature, or may not be logged in.  ''
               @ ''If the issue persists, report this to the Feature author.''))
           | Some m \<Rightarrow>
               (case om_layers m of
                  [] \<Rightarrow> Inl (not_processed i ''The Feature manifest has no layers.'')
                | l # ls \<Rightarrow>
                    (case fo_blob fo r (ly_digest l) of
                       Inl e \<Rightarrow> Inl (''fetch feature '' @ fo_quote fo i @ '' blob: '' @ e)
                     | Inr data \<Rightarrow>
                         (case fo_unpack fo i data of
                            Inl e \<Rightarrow> Inl e
                          | Inr file \<Rightarrow>
                              (let f = layer_feature (case file of Some t \<Rightarrow> fo_jsonc fo t | None \<Rightarrow> blank_feature []) r v;
                                   f' = (case Option.bind (map_of (om_annotations m) ''dev.containers.metadata'')
                                           (fo_annotation fo) of
                                       Some a \<Rightarrow> annotated_feature a f r | None \<Rightarrow> f)
                               in Inr (Some (single_set (OCI (oci_feature_source i user r m)) f' (om_digest m)))))))))"

definition legacy_feature_text :: "string \<Rightarrow> string" where
  "legacy_feature_text i =
     ''Legacy feature '' @ sq @ i @ sq @ '' not supported. Please check https://containers.dev/features for replacements.''
     @ line_feed @ ''If you were hoping to use local Features, remember to prepend your Feature name with '' @ dq @ ''./'' @ dq
     @ ''. Please check https://containers.dev/implementors/features-distribution/#addendum-locally-referenced for more information.''"

text \<open>\<open>processInstallFeature\<close>: a legacy Feature that became an option of another is that one with the option.\<close>

definition legacy_target :: "feature_origin \<Rightarrow> string \<Rightarrow> json \<Rightarrow> (string, string \<times> json) res" where
  "legacy_target fo i v =
     (let name = fst (shorthand_parts i) in
      if \<not> is_known_legacy_feature name then Inl (legacy_feature_text i)
      else (case map_of deprecated_into_options name of
          Some (target, opt) \<Rightarrow> Inr (''ghcr.io/devcontainers/features/'' @ target @ '':1'', add_feature_option v opt)
        | None \<Rightarrow> Inr (i, v)))"

definition process_install_feature ::
  "feature_origin \<Rightarrow> local_roots \<Rightarrow> bool \<Rightarrow> lockfile option \<Rightarrow> process_feature" where
  "process_install_feature fo roots skip_mapping lock node =
     (let i0 = user_feature_id node; v0 = node_options node in
      bind_res (if classify_id i0 = SourceLegacyShorthand then legacy_target fo i0 v0 else Inr (i0, v0)) (\<lambda>(i, v).
        case classify_id i of
          SourceLocalPath \<Rightarrow> process_local fo roots i v
        | SourceDirectTarball \<Rightarrow> process_tarball fo lock i v
        | _ \<Rightarrow> process_oci fo skip_mapping lock i v))"

subsection \<open>Fetching, in install order\<close>

definition user_feature_order :: "json gomap \<Rightarrow> user_feature list" where
  "user_feature_order fs =
     map (\<lambda>k. \<lparr>user_feature_ref = k, user_feature_options = the (map_of fs k)\<rparr>) (sorted_keys fs)"

text \<open>\<open>None\<close> is the loop's: the builder that never returns. \<open>Some (Inr None)\<close> is no Feature at all.\<close>

definition fetch_feature_sets ::
  "process_feature \<Rightarrow> (order_error \<Rightarrow> string) \<Rightarrow> json gomap \<Rightarrow> string list \<Rightarrow> (string, feature_set list option) res option" where
  "fetch_feature_sets pf order_text fs override =
     (if fs = [] then Some (Inr None)
      else (case build_dependency_graph pf (user_feature_order fs) override of
          None \<Rightarrow> None
        | Some (Inl e) \<Rightarrow> Some (Inl (graph_error_message e))
        | Some (Inr (h, nodes)) \<Rightarrow>
            (if nodes = [] then Some (Inr None)
             else (case compute_installation_order h nodes of
                 None \<Rightarrow> None
               | Some (Inl e) \<Rightarrow> Some (Inl (''compute Feature install order: '' @ order_text e))
               | Some (Inr sets) \<Rightarrow> Some (Inr (Some sets))))))"

subsection \<open>The folders of the Features\<close>

definition consecutive_name :: "feature \<Rightarrow> nat \<Rightarrow> string" where
  "consecutive_name f i = feat_id f @ CHR ''_'' # nat_text i"

text \<open>A Feature that was staged, with its folder; the others stay as they are.\<close>

definition realigned :: "(feature_set \<Rightarrow> string) \<Rightarrow> nat \<Rightarrow> feature_set \<Rightarrow> feature_set" where
  "realigned cache i s =
     (case set_features s of
        [] \<Rightarrow> s
      | f # fs \<Rightarrow> (if cache s = [] then s else s\<lparr>set_features := f\<lparr>consecutive_id := consecutive_name f i\<rparr> # fs\<rparr>))"

definition realign_sets :: "(feature_set \<Rightarrow> string) \<Rightarrow> feature_set list \<Rightarrow> feature_set list" where
  "realign_sets cache sets = map (\<lambda>(i, s). realigned cache i s) (enumerate 0 sets)"

definition realign_move :: "(feature_set \<Rightarrow> string) \<Rightarrow> string \<Rightarrow> nat \<Rightarrow> feature_set \<Rightarrow> (string \<times> string \<times> string) list" where
  "realign_move cache dst i s =
     (case set_features s of
        [] \<Rightarrow> []
      | f # fs \<Rightarrow>
          (let n = consecutive_name f i; d = path_join [dst, n]
           in if cache s = [] \<or> cache s = d then [] else [(n, cache s, d)]))"

definition realign_moves :: "(feature_set \<Rightarrow> string) \<Rightarrow> string \<Rightarrow> feature_set list \<Rightarrow> (string \<times> string \<times> string) list" where
  "realign_moves cache dst sets = concat (map (\<lambda>(i, s). realign_move cache dst i s) (enumerate 0 sets))"

record 'w folder_ops =
  op_remove :: "string \<Rightarrow> 'w \<Rightarrow> 'w"
  op_rename :: "string \<Rightarrow> string \<Rightarrow> 'w \<Rightarrow> string option \<times> 'w"
  op_copy :: "string \<Rightarrow> string \<Rightarrow> 'w \<Rightarrow> string option \<times> 'w"
  op_stages :: "string \<Rightarrow> 'w \<Rightarrow> string list"

fun move_folders :: "'w folder_ops \<Rightarrow> (string \<times> string \<times> string) list \<Rightarrow> 'w \<Rightarrow> string option \<times> 'w" where
  "move_folders ops [] w = (None, w)"
| "move_folders ops ((n, src, d) # ms) w =
     (case op_rename ops src d (op_remove ops d w) of
        (None, w1) \<Rightarrow> move_folders ops ms w1
      | (Some e, w1) \<Rightarrow>
          (case op_copy ops src d w1 of
             (Some e', w2) \<Rightarrow> (Some (''stage feature '' @ n @ '': '' @ e'), w2)
           | (None, w2) \<Rightarrow> move_folders ops ms (op_remove ops src w2)))"

definition realign_feature_dirs ::
  "'w folder_ops \<Rightarrow> (feature_set \<Rightarrow> string) \<Rightarrow> string \<Rightarrow> feature_set list \<Rightarrow> 'w \<Rightarrow> string option \<times> 'w" where
  "realign_feature_dirs ops cache dst sets w =
     (case move_folders ops (realign_moves cache dst sets) w of
        (Some e, w1) \<Rightarrow> (Some e, w1)
      | (None, w1) \<Rightarrow>
          (None, foldl (\<lambda>w n. if has_prefix n ''.stage-'' then op_remove ops (path_join [dst, n]) w else w) w1 (op_stages ops dst w1)))"

subsection \<open>Metadata and users\<close>

definition feature_metadata_entry :: "feature_set \<Rightarrow> bool \<Rightarrow> entry" where
  "feature_metadata_entry s skip_customizations =
     (let f = hd (set_features s);
          i = (case source_info s of Some src \<Rightarrow> first_nonempty (source_user_id src) (feat_id f) | None \<Rightarrow> feat_id f)
      in empty_entry\<lparr>e_id := i, e_init := feat_init f, e_privileged := feat_privileged f, e_cap_add := feat_cap_add f,
           e_security_opt := feat_security_opt f, e_mounts := feat_mounts f, e_entrypoint := feat_entrypoint f,
           e_customizations := (if skip_customizations then [] else feat_customizations f),
           e_on_create_command := feat_on_create f, e_update_content_command := feat_update_content f,
           e_post_create_command := feat_post_create f, e_post_start_command := feat_post_start f,
           e_post_attach_command := feat_post_attach f\<rparr>)"

definition users_step :: "string \<times> string \<Rightarrow> entry \<Rightarrow> string \<times> string" where
  "users_step u e =
     ((if fst u = [] \<and> e_container_user e \<noteq> [] then e_container_user e else fst u),
      (if snd u = [] \<and> e_remote_user e \<noteq> [] then e_remote_user e else snd u))"

definition find_container_users :: "entry list \<Rightarrow> string \<Rightarrow> string \<Rightarrow> string \<times> string" where
  "find_container_users es service_user image_user =
     (let (cu, ru) = foldl users_step ([], []) (rev es);
          cu' = (if cu = [] then first_nonempty service_user image_user else cu)
      in (cu', if ru = [] then cu' else ru))"

text \<open>\<open>substituteFeatureHostVars\<close>: the environment variable by variable, the mounts as one value.\<close>

definition substitute_feature ::
  "(string \<Rightarrow> string) \<Rightarrow> (sub_error \<Rightarrow> string) \<Rightarrow> host_ctx \<Rightarrow> feature \<Rightarrow> (string, feature) res" where
  "substitute_feature ulow tx hs f =
     (let resolve = resolve_value ulow (sub_context hs) PhaseHost in
      bind_res (traverse (\<lambda>(k, v). case resolve (JStr v) of
            Inl e \<Rightarrow> Inl (''resolve Feature '' @ feat_id f @ '' containerEnv '' @ k @ '': '' @ tx e)
          | Inr (JStr r) \<Rightarrow> Inr (k, r)
          | Inr x \<Rightarrow> Inr (k, v)) (feat_container_env f)) (\<lambda>env.
        if feat_mounts f = [] then Inr (f\<lparr>feat_container_env := env\<rparr>)
        else (case resolve (JArr (feat_mounts f)) of
            Inl e \<Rightarrow> Inl (''resolve Feature '' @ feat_id f @ '' mounts: '' @ tx e)
          | Inr (JArr ms) \<Rightarrow> Inr (f\<lparr>feat_container_env := env, feat_mounts := ms\<rparr>)
          | Inr x \<Rightarrow> Inr (f\<lparr>feat_container_env := env\<rparr>))))"

definition substitute_feature_host_vars ::
  "(string \<Rightarrow> string) \<Rightarrow> (sub_error \<Rightarrow> string) \<Rightarrow> host_ctx \<Rightarrow> feature_set list \<Rightarrow> (string, feature_set list) res" where
  "substitute_feature_host_vars ulow tx hs sets =
     traverse (\<lambda>s. bind_res (traverse (substitute_feature ulow tx hs) (set_features s))
       (\<lambda>fs. Inr (s\<lparr>set_features := fs\<rparr>))) sets"

subsection \<open>Building the image\<close>

text \<open>The files and programs of a build. \<open>bh_lock\<close> is the lockfile as it is read, \<open>bh_lock_error\<close> and \<open>bh_lock_torn\<close> a
  write that fails; \<open>bh_auth\<close> bridges the credentials of registries and answers the environment. \<open>bh_full\<close> is a
  Feature with the folder it is staged in.\<close>

record 'w build_host =
  bh_write :: "string \<Rightarrow> string \<Rightarrow> 'w \<Rightarrow> string option \<times> 'w"
  bh_read :: "string \<Rightarrow> 'w \<Rightarrow> (string, string) res"
  bh_standardize :: "string \<Rightarrow> (string, string) res"
  bh_file_info :: "string \<Rightarrow> raw_file_info option"
  bh_info_error :: "string \<Rightarrow> string"
  bh_full :: "feature \<Rightarrow> full_feature"
  bh_lock_env :: lock_env
  bh_lock :: "'w \<Rightarrow> (fs_error, string) res"
  bh_lock_error :: "'w \<Rightarrow> string option"
  bh_lock_torn :: "'w \<Rightarrow> (fs_error, string) res"
  bh_put_lock :: "(fs_error, string) res \<Rightarrow> 'w \<Rightarrow> 'w"
  bh_lock_text :: "lock_failure \<Rightarrow> up_error"
  bh_server_version :: "'w \<Rightarrow> (string, string) res \<times> 'w"
  bh_auth :: "string list \<Rightarrow> 'w \<Rightarrow> string list \<times> 'w"
  bh_auth_done :: "'w \<Rightarrow> 'w"
  bh_fixed :: "rat \<Rightarrow> string"
  bh_sub_text :: "sub_error \<Rightarrow> string"
  bh_order_text :: "order_error \<Rightarrow> string"

definition stage_feature :: "'w build_host \<Rightarrow> source_info option \<Rightarrow> feature \<Rightarrow> 'w \<Rightarrow> string option \<times> 'w" where
  "stage_feature bh src f w =
     (let ff = bh_full bh f; dir = cache_path ff in
      if dir = [] then (None, w)
      else (case bh_read bh (path_join [dir, ''devcontainer-feature.json'']) w of
          Inl e \<Rightarrow> (Some (''read Feature '' @ feat_id f @ '' metadata: '' @ e), w)
        | Inr data \<Rightarrow>
            (case bh_standardize bh data of
               Inl e \<Rightarrow> (Some (''parse Feature '' @ feat_id f @ '' metadata: '' @ e), w)
             | Inr std \<Rightarrow>
                 (case parse_feature_file_info (bh_file_info bh) std of
                    None \<Rightarrow> (Some (''parse Feature '' @ feat_id f @ '' metadata: '' @ bh_info_error bh std), w)
                  | Some info \<Rightarrow>
                      (let vars = feature_env_variables (bh_fixed bh) f info in
                       case bh_write bh (path_join [dir, feature_env_file]) (join line_feed vars) w of
                         (Some e, w1) \<Rightarrow> (Some (''write Feature '' @ feat_id f @ '' env: '' @ e), w1)
                       | (None, w1) \<Rightarrow>
                           (case bh_write bh (path_join [dir, install_wrapper_file])
                               (feature_install_wrapper_script ff src info vars) w1 of
                              (Some e, w2) \<Rightarrow> (Some (''write Feature '' @ feat_id f @ '' install wrapper: '' @ e), w2)
                            | (None, w2) \<Rightarrow> (None, w2)))))))"

fun run_steps :: "('w \<Rightarrow> string option \<times> 'w) list \<Rightarrow> 'w \<Rightarrow> string option \<times> 'w" where
  "run_steps [] w = (None, w)"
| "run_steps (f # fs) w = (case f w of (Some e, w') \<Rightarrow> (Some e, w') | (None, w') \<Rightarrow> run_steps fs w')"

definition stage_feature_build_files ::
  "'w build_host \<Rightarrow> string \<Rightarrow> feature_set list \<Rightarrow> string \<Rightarrow> string \<Rightarrow> 'w \<Rightarrow> string option \<times> 'w" where
  "stage_feature_build_files bh dst sets container_user remote_user w =
     (case bh_write bh (path_join [dst, builtin_env_file]) (features_builtin_env_content container_user remote_user) w of
        (Some e, w1) \<Rightarrow> (Some (''write Features builtin env: '' @ e), w1)
      | (None, w1) \<Rightarrow>
          run_steps (concat (map (\<lambda>s. map (stage_feature bh (source_info s)) (set_features s)) sets)) w1)"

definition plain_build :: "string \<Rightarrow> string \<Rightarrow> string list \<Rightarrow> build_options" where
  "plain_build file folder tags =
     \<lparr>bo_dockerfile = file, bo_context_path = folder, bo_tags = tags, bo_target = [], bo_build_args = [],
      bo_cache_from = [], bo_labels = [], bo_no_cache = False, bo_extra_args = [], bo_env = [], bo_secrets = [],
      bo_use_buildx = False, bo_platform = [], bo_push = False, bo_output = [], bo_cache_to = []\<rparr>"

definition content_dockerfile :: string where
  "content_dockerfile = line_feed @ CHR 0x09 # ''FROM scratch'' @ line_feed @ CHR 0x09 # ''COPY . /tmp/build-features/''
     @ line_feed @ [CHR 0x09]"

definition build_feature_content_image ::
  "'w build_host \<Rightarrow> 'w runner \<Rightarrow> docker_client \<Rightarrow> string \<Rightarrow> 'w \<Rightarrow> string option \<times> 'w" where
  "build_feature_content_image bh run c folder w =
     (let file = path_join [folder, ''Dockerfile.buildContent''] in
      case bh_write bh file content_dockerfile w of
        (Some e, w1) \<Rightarrow> (Some (''write feature content Dockerfile: '' @ e), w1)
      | (None, w1) \<Rightarrow>
          (case client_build run c (plain_build file folder [feature_content_image]) w1 of
             (Inl e, w2) \<Rightarrow> (Some (''build feature content image: '' @ e), w2)
           | (Inr r, w2) \<Rightarrow> (exit_failure ''build feature content image'' r, w2)))"

text \<open>\<open>Atoi\<close> of a number that is not negative; a text that is none, or a negative number, is below 23 as 0 is.\<close>

definition major_number :: "string \<Rightarrow> nat" where
  "major_number s =
     (let d = (if has_prefix s ''+'' then drop 1 s else s)
      in if d \<noteq> [] \<and> list_all is_digit d then digits_value d else 0)"

definition engine_at_least_23 :: "'w build_host \<Rightarrow> 'w \<Rightarrow> bool \<times> 'w" where
  "engine_at_least_23 bh w =
     (case bh_server_version bh w of
        (Inl e, w') \<Rightarrow> (False, w')
      | (Inr v, w') \<Rightarrow> (23 \<le> major_number (fst (cut_byte (CHR ''.'') v)), w'))"

subsection \<open>Extending an image\<close>

record feature_build_options =
  fb_no_cache :: bool
  fb_host_sub :: "host_ctx option"
  fb_cache_from :: "string list"
  fb_cache_to :: string
  fb_labels :: "string list"
  fb_platform :: string
  fb_push :: bool
  fb_output :: string
  fb_secrets :: "string list"
  fb_container_env :: "string gomap"
  fb_skip_customizations :: bool
  fb_additional_metadata :: "entry list"
  fb_label_metadata :: "entry list"
  fb_frozen :: bool
  fb_no_lockfile :: bool
  fb_config_path :: string
  fb_exclude_ids :: "string list"
  fb_override_order :: "string list"

text \<open>\<open>fetch\<close> is \<open>fetchFeatureSetsWithOrder\<close> with the lockfile that was read: the Features in install order, staged
  in their folders, and the folder of them all; \<open>Inr None\<close> is no Feature.\<close>

type_synonym 'w feature_fetch = "lockfile option \<Rightarrow> 'w \<Rightarrow> (up_error, (feature_set list \<times> string) option) res \<times> 'w"

definition read_build_lockfile :: "'w build_host \<Rightarrow> feature_build_options \<Rightarrow> 'w \<Rightarrow> (up_error, lockfile option) res" where
  "read_build_lockfile bh o' w =
     (if fb_config_path o' \<noteq> [] \<and> \<not> fb_no_lockfile o'
      then (case read_lockfile (bh_lock_env bh) (bh_lock bh w) of Inl e \<Rightarrow> Inl (bh_lock_text bh e) | Inr (l, b) \<Rightarrow> Inr l)
      else Inr None)"

definition write_build_lockfile ::
  "'w build_host \<Rightarrow> feature_build_options \<Rightarrow> feature_set list \<Rightarrow> 'w \<Rightarrow> up_error option \<times> 'w" where
  "write_build_lockfile bh o' sets w =
     (if \<not> fb_no_lockfile o' \<and> fb_config_path o' \<noteq> []
      then (case write_lockfile (bh_lock_env bh) (generate_lockfile sets (fb_exclude_ids o')) (fb_frozen o') (bh_lock bh w)
               (bh_lock_error bh w) (bh_lock_torn bh w) of
          (None, file) \<Rightarrow> (None, bh_put_lock bh file w)
        | (Some e, file) \<Rightarrow> (Some (UpWrapped ''lockfile: '' (bh_lock_text bh e)), bh_put_lock bh file w))
      else (None, w))"

definition builder_args :: "'w runner \<Rightarrow> docker_client \<Rightarrow> 'w \<Rightarrow> (up_error, string list) res \<times> 'w" where
  "builder_args run c w =
     (case detect_active_builder run c w of
        (b, w1) \<Rightarrow>
          (if builder_info.bi_driver b = ''docker-container'' \<or> builder_info.bi_driver b = ''remote''
           then (case find_docker_driver_builder run c w1 of
               (Inl u, w2) \<Rightarrow> (Inl UpPanic, w2)
             | (Inr n, w2) \<Rightarrow> (Inr (if n \<noteq> [] then [''--builder'', n] else []), w2))
           else (Inr [], w1)))"

text \<open>What the build is given: the layers of the Features over the base image, with the users the metadata names.\<close>

definition features_build_params ::
  "feature_build_options \<Rightarrow> bool \<Rightarrow> string \<Rightarrow> feature_set list \<Rightarrow> image_info option \<Rightarrow> entry list \<Rightarrow> bool \<Rightarrow> build_params" where
  "features_build_params o' use_buildx base sets img base_entries modern =
     (let own = base_entries @ map (\<lambda>s. feature_metadata_entry s (fb_skip_customizations o')) sets;
          image_user = (case img of Some i \<Rightarrow> uid_image_user i | None \<Rightarrow> ''root'');
          (cu, ru) = find_container_users (own @ fb_additional_metadata o') [] image_user
      in \<lparr>bp_base_name = base, bp_feature_sets = sets, bp_metadata = own @ fb_label_metadata o', bp_container_user = cu,
          bp_remote_user = ru, bp_image_user = image_user, bp_use_contexts = use_buildx,
          bp_syntax = (if use_buildx \<and> \<not> modern then ''docker/dockerfile:1.4'' else []),
          bp_config_env = fb_container_env o', bp_secret_ids = (if use_buildx then build_secret_ids (fb_secrets o') else [])\<rparr>)"

definition extended_tags :: "string \<Rightarrow> string list \<Rightarrow> string list" where
  "extended_tags base names =
     (case names of [] \<Rightarrow> [base @ ''-features''] | [n] \<Rightarrow> [n] | n # ns \<Rightarrow> n # ns)"

definition feature_build ::
  "feature_build_options \<Rightarrow> bool \<Rightarrow> build_info \<Rightarrow> string \<Rightarrow> string \<Rightarrow> string list \<Rightarrow> string list \<Rightarrow> string list \<Rightarrow> build_options" where
  "feature_build o' use_buildx info file folder tags builder env =
     \<lparr>bo_dockerfile = file, bo_context_path = folder, bo_tags = tags, bo_target = bi_override_target info,
      bo_build_args = bi_build_args info, bo_cache_from = fb_cache_from o', bo_labels = fb_labels o',
      bo_no_cache = fb_no_cache o',
      bo_extra_args = concat (map (\<lambda>(k, p). [''--build-context'', k @ ''='' @ (if p = ''.'' then folder else p)]) (bi_contexts info))
        @ builder,
      bo_env = env, bo_secrets = fb_secrets o', bo_use_buildx = use_buildx, bo_platform = fb_platform o',
      bo_push = fb_push o', bo_output = fb_output o', bo_cache_to = fb_cache_to o'\<rparr>"

definition build_extended_image ::
  "'w build_host \<Rightarrow> 'w up_env \<Rightarrow> feature_build_options \<Rightarrow> bool \<Rightarrow> build_params \<Rightarrow> string \<Rightarrow> string list \<Rightarrow> 'w \<Rightarrow>
   (up_error, string list) res \<times> 'w" where
  "build_extended_image bh u o' use_buildx p folder names w =
     (let info = generate_features_build_options (ue_ft u) p;
          file = path_join [folder, ''Dockerfile.extended''];
          tags = extended_tags (bp_base_name p) names
      in case bh_write bh file (bi_prefix info @ bi_content info) w of
           (Some e, w1) \<Rightarrow> (Inl (UpText (''write extended Dockerfile: '' @ e)), w1)
         | (None, w1) \<Rightarrow>
             (case (if use_buildx then builder_args (ue_run u) (ue_client u) w1 else (Inr [], w1)) of
                (Inl e, w2) \<Rightarrow> (Inl e, w2)
              | (Inr builder, w2) \<Rightarrow>
                  (case bh_auth bh (collect_build_registries [] tags (fb_cache_from o') (fb_cache_to o')) w2 of
                     (env, w3) \<Rightarrow>
                       (case client_build (ue_run u) (ue_client u) (feature_build o' use_buildx info file folder tags builder env) w3 of
                          (Inl e, w4) \<Rightarrow> (Inl (UpText (''build extended image: '' @ e)), bh_auth_done bh w4)
                        | (Inr r, w4) \<Rightarrow>
                            ((case exit_failure ''feature build'' r of
                                Some e \<Rightarrow> Inl (UpText (''Command failed: feature build (exit '' @ int_text (snd (snd r)) @ ''): '' @ fst (snd r)))
                              | None \<Rightarrow> Inr tags), bh_auth_done bh w4)))))"

definition extend_image_with_features ::
  "'w build_host \<Rightarrow> 'w up_env \<Rightarrow> 'w feature_fetch \<Rightarrow> string \<Rightarrow> bool \<Rightarrow> string list \<Rightarrow> feature_build_options \<Rightarrow> 'w \<Rightarrow>
   (up_error, string list) res \<times> 'w" where
  "extend_image_with_features bh u fetch base use_buildx names o' w =
     (case read_build_lockfile bh o' w of
        Inl e \<Rightarrow> (Inl e, w)
      | Inr lock \<Rightarrow>
          (case fetch lock w of
             (Inl e, w1) \<Rightarrow> (Inl e, w1)
           | (Inr None, w1) \<Rightarrow> (Inr names, w1)
           | (Inr (Some (sets0, folder)), w1) \<Rightarrow>
               (case (case fb_host_sub o' of None \<Rightarrow> Inr sets0
                      | Some hs \<Rightarrow> substitute_feature_host_vars (ue_ulow u) (bh_sub_text bh) hs sets0) of
                  Inl e \<Rightarrow> (Inl (UpText e), w1)
                | Inr sets \<Rightarrow>
                    (case write_build_lockfile bh o' sets w1 of
                       (Some e, w2) \<Rightarrow> (Inl e, w2)
                     | (None, w2) \<Rightarrow>
                         (case inspect_image (ue_api u) base w2 of
                            (r, w3) \<Rightarrow>
                              (let img = (case r of Inr i \<Rightarrow> Some i | Inl e \<Rightarrow> None);
                                   p0 = features_build_params o' use_buildx base sets img (image_entries u img) True
                               in case stage_feature_build_files bh folder sets (bp_container_user p0) (bp_remote_user p0) w3 of
                                    (Some e, w4) \<Rightarrow> (Inl (UpText e), w4)
                                  | (None, w4) \<Rightarrow>
                                      (case (if use_buildx then engine_at_least_23 bh w4 else (True, w4)) of
                                         (modern, w5) \<Rightarrow>
                                           (case (if use_buildx then (None, w5)
                                                else build_feature_content_image bh (ue_run u) (ue_client u) folder w5) of
                                              (Some e, w6) \<Rightarrow> (Inl (UpText e), w6)
                                            | (None, w6) \<Rightarrow>
                                                build_extended_image bh u o' use_buildx
                                                  (features_build_params o' use_buildx base sets img (image_entries u img) modern)
                                                  folder names w6))))))))"

subsection \<open>Folders, users and digests\<close>

lemma append_mark_eq:
  "c \<notin> set s \<Longrightarrow> c \<notin> set t \<Longrightarrow> a @ c # s = b @ c # t \<longleftrightarrow> a = b \<and> s = t"
  by (auto simp: append_eq_append_conv2 append_eq_Cons_conv Cons_eq_append_conv)

lemma nat_text_no_mark: "CHR ''_'' \<notin> set (nat_text n)"
proof
  assume "CHR ''_'' \<in> set (nat_text n)"
  then have "is_digit (CHR ''_'')" using nat_text_digit by blast
  then show False by (simp add: is_digit_def bval_def)
qed

lemma consecutive_name_eq:
  "consecutive_name f i = consecutive_name g j \<longleftrightarrow> feat_id f = feat_id g \<and> i = j"
  unfolding consecutive_name_def
  by (simp add: append_mark_eq nat_text_no_mark)

lemma realign_move_name:
  "realign_move cache dst i s = [] \<or> (\<exists>f p. realign_move cache dst i s = [(consecutive_name f i, p)])"
  by (auto simp: realign_move_def Let_def split: list.split)

text \<open>The moves from the k-th Feature on carry their place in the install order.\<close>

lemma realign_moves_from:
  "n \<in> fst ` set (concat (map (\<lambda>(i, s). realign_move cache dst i s) (enumerate k sets))) \<Longrightarrow>
    \<exists>f i. k \<le> i \<and> n = consecutive_name f i"
proof (induction sets arbitrary: k)
  case (Cons s sets)
  show ?case
  proof (cases "n \<in> fst ` set (realign_move cache dst k s)")
    case True
    then have "\<exists>f. n = consecutive_name f k" using realign_move_name [of cache dst k s] by auto
    then show ?thesis by blast
  next
    case False
    then have "n \<in> fst ` set (concat (map (\<lambda>(i, s). realign_move cache dst i s) (enumerate (Suc k) sets)))"
      using Cons.prems by (auto simp: image_Un)
    then obtain f i where "Suc k \<le> i" "n = consecutive_name f i" using Cons.IH by blast
    then have "k \<le> i \<and> n = consecutive_name f i" by simp
    then show ?thesis by blast
  qed
qed simp

lemma realign_moves_distinct:
  "distinct (map fst (concat (map (\<lambda>(i, s). realign_move cache dst i s) (enumerate k sets))))"
proof (induction sets arbitrary: k)
  case (Cons s sets)
  have "consecutive_name f k \<notin> fst ` set (concat (map (\<lambda>(i, s). realign_move cache dst i s) (enumerate (Suc k) sets)))" for f
    using realign_moves_from [of _ cache dst "Suc k" sets] consecutive_name_eq [of f k] by (metis Suc_n_not_le_n)
  moreover have "enumerate k (s # sets) = (k, s) # enumerate (Suc k) sets" by simp
  moreover have "realign_move cache dst k s = [] \<or> (\<exists>f p. realign_move cache dst k s = [(consecutive_name f k, p)])"
    by (rule realign_move_name)
  ultimately show ?case using Cons.IH [of "Suc k"] by (elim disjE exE) (simp_all del: enumerate_simps set_concat)
qed simp

text \<open>No two Features of an install order are moved to one name, whatever their ids are: no Feature's content is
  staged over another's.\<close>

theorem feature_folders_distinct:
  "distinct (map fst (realign_moves cache dst sets))"
  unfolding realign_moves_def by (rule realign_moves_distinct)

lemma users_foldl:
  "foldl users_step u es =
    ((if fst u = [] then last_set (\<lambda>s. s \<noteq> []) [] (map e_container_user (rev es)) else fst u),
     (if snd u = [] then last_set (\<lambda>s. s \<noteq> []) [] (map e_remote_user (rev es)) else snd u))"
proof (induction es arbitrary: u)
  case (Cons e es)
  have "foldl users_step u (e # es) = foldl users_step (users_step u e) es" by simp
  then show ?case by (simp add: Cons.IH) (simp add: users_step_def)
qed (simp add: prod_eq_iff)

text \<open>C10. The users an image is built for are the users of its metadata once merged: what is installed for them at the
  build is what the container runs as.\<close>

theorem build_users_merged:
  "find_container_users es service_user image_user =
    (let m = merge_configuration ft es; cu = first_nonempty (m_container_user m) (first_nonempty service_user image_user)
     in (cu, first_nonempty (m_remote_user m) cu))"
  using merge_scalars_last [of ft es]
  by (simp add: find_container_users_def users_foldl first_nonempty_def Let_def)



text \<open>The token goes with every URI that begins with the text, whatever host that text is a part of.\<close>

lemma github_token_sent:
  "t \<noteq> [] \<Longrightarrow> map_of (feature_request_headers (''https://github.com'' @ rest) [(''GITHUB_TOKEN'', t)]) ''Authorization'' =
    Some (''Bearer '' @ t)"
  by (simp add: feature_request_headers_def is_github_tarball_uri_def has_prefix_append)

end
