(* ===== verification/UpSetup.thy ===== *)
theory UpSetup
  imports UpContainer Probe
begin

text \<open>
  What \<open>up\<close> does around the container: \<open>initializeCommand\<close> on the host (\<open>internal/lifecycle/initialize.go\<close>), the
  dotfiles (\<open>dotfiles.go\<close>), the markers of the hooks that ran, and the hooks of a new container
  (\<open>internal/cli/up.go\<close>). Running a program on the host is a parameter; the commands of an object run each as one step, in a scheduler's order.
\<close>

subsection \<open>initializeCommand\<close>

datatype init_error = InitSubstitution sub_error | InitExit string | InitNamed string init_error | InitPanic

text \<open>A program on the host: its arguments and its folder; \<open>None\<close> is exit code 0.\<close>

type_synonym 'w host_run = "string list \<Rightarrow> string \<Rightarrow> 'w \<Rightarrow> string option \<times> 'w"

definition run_host_exec :: "'w host_run \<Rightarrow> string list \<Rightarrow> string \<Rightarrow> 'w \<Rightarrow> init_error option \<times> 'w" where
  "run_host_exec run args dir w =
     (if args = [] then (Some InitPanic, w)
      else (case run args dir w of (Some e, w') \<Rightarrow> (Some (InitExit e), w') | (None, w') \<Rightarrow> (None, w')))"

definition resolve_host :: "(string \<Rightarrow> string) \<Rightarrow> host_ctx \<Rightarrow> string \<Rightarrow> (init_error, string) res" where
  "resolve_host ulow hs s =
     (case resolve_value ulow (sub_context hs) PhaseHost (JStr s) of
        Inl e \<Rightarrow> Inl (InitSubstitution e)
      | Inr (JStr r) \<Rightarrow> Inr r
      | Inr v \<Rightarrow> Inl (InitExit ''host substitution returned no string''))"

definition init_step ::
  "(string \<Rightarrow> string) \<Rightarrow> 'w host_run \<Rightarrow> host_ctx \<Rightarrow> json gomap \<Rightarrow> init_error gomap \<times> 'w \<Rightarrow> string \<Rightarrow> init_error gomap \<times> 'w" where
  "init_step ulow run hs m acc name =
     (case (acc, map_of m name) of
        ((errs, w), Some (JStr s)) \<Rightarrow>
          (case resolve_host ulow hs s of
             Inl e \<Rightarrow> (aput name (InitNamed name e) errs, w)
           | Inr r \<Rightarrow>
               (case run_host_exec run [''/bin/sh'', ''-c'', r] (local_workspace_folder hs) w of
                  (Some e, w') \<Rightarrow> (aput name (InitNamed name e) errs, w')
                | (None, w') \<Rightarrow> (errs, w')))
      | _ \<Rightarrow> acc)"

fun run_initialize_command ::
  "(string \<Rightarrow> string) \<Rightarrow> (string list \<Rightarrow> string list) \<Rightarrow> 'w host_run \<Rightarrow> json \<Rightarrow> host_ctx \<Rightarrow> 'w \<Rightarrow> init_error option \<times> 'w" where
  "run_initialize_command ulow sched run (JStr s) hs w =
     (case resolve_host ulow hs s of
        Inl e \<Rightarrow> (Some e, w)
      | Inr r \<Rightarrow> run_host_exec run [''/bin/sh'', ''-c'', r] (local_workspace_folder hs) w)"
| "run_initialize_command ulow sched run (JArr vs) hs w =
     (case command_strings (JArr vs) of
        None \<Rightarrow> (None, w)
      | Some args \<Rightarrow>
          (case traverse (resolve_host ulow hs) args of
             Inl e \<Rightarrow> (Some e, w)
           | Inr rs \<Rightarrow> run_host_exec run rs (local_workspace_folder hs) w))"
| "run_initialize_command ulow sched run (JObj m) hs w =
     (case foldl (init_step ulow run hs m) ([], w) (sched (sorted_keys m)) of
        (errs, w') \<Rightarrow> (case find (\<lambda>n. map_of errs n \<noteq> None) (sorted_keys m) of
            None \<Rightarrow> None | Some n \<Rightarrow> map_of errs n, w'))"
| "run_initialize_command ulow sched run v hs w = (None, w)"

subsection \<open>Dotfiles\<close>

record dotfiles_config =
  df_repository :: string
  df_install_command :: string
  df_target_path :: string

definition local_repository :: "string \<Rightarrow> bool" where
  "local_repository s \<longleftrightarrow> has_prefix s ''/'' \<or> has_prefix s ''./'' \<or> has_prefix s ''../''"

definition dotfiles_repo :: "string \<Rightarrow> string" where
  "dotfiles_repo r =
     (if \<not> contains_sub r '':'' \<and> \<not> local_repository r then ''https://github.com/'' @ r @ ''.git'' else r)"

definition lines_text :: "string list \<Rightarrow> string" where
  "lines_text ls = join [CHR 0x0A] ls"

definition quoted :: "string \<Rightarrow> string" where
  "quoted s = dq @ s @ dq"

definition dotfiles_marker :: string where
  "dotfiles_marker = lines_text
     [''MARKER='' @ quoted ''$HOME/.devcontainer/.dotfilesMarker'',
      ''if [ -e '' @ quoted ''$MARKER'' @ '' ]; then echo '' @ quoted ''dotfiles already installed'' @ ''; exit 0; fi'',
      ''mkdir -p '' @ quoted (''$(dirname '' @ quoted ''$MARKER'' @ '')'') @ '' && : > '' @ quoted ''$MARKER'',
      []]"

definition dotfiles_clone :: "string \<Rightarrow> string \<Rightarrow> string list" where
  "dotfiles_clone repo target =
     [''command -v git >/dev/null 2>&1 || exit 1'',
      ''[ -e '' @ target @ '' ] || git clone --depth 1 '' @ repo @ '' '' @ target @ '' || exit $?'',
      ''cd '' @ target]"

definition dotfiles_with_command :: "string \<Rightarrow> string list" where
  "dotfiles_with_command c =
     (let here = quoted (''./'' @ c); there = quoted c in
      [''if [ -f '' @ here @ '' ]; then'',
       ''  [ -x '' @ here @ '' ] || chmod +x '' @ here,
       ''  '' @ here,
       ''elif [ -f '' @ there @ '' ]; then'',
       ''  [ -x '' @ there @ '' ] || chmod +x '' @ there,
       ''  '' @ there,
       ''else'',
       ''  echo '' @ quoted (''Could not locate '' @ sq @ c @ sq),
       ''  exit 126'',
       ''fi''])"

definition dotfiles_search :: "string \<Rightarrow> string list" where
  "dotfiles_search target =
     [''for f in install.sh install bootstrap.sh bootstrap script/bootstrap setup.sh setup script/setup; do'',
      ''  if [ -e '' @ quoted ''$f'' @ '' ]; then'',
      ''    installCommand=$f'',
      ''    break'',
      ''  fi'',
      ''done'',
      ''if [ -z '' @ quoted ''$installCommand'' @ '' ]; then'',
      ''  dotfiles=$(ls -d '' @ target @ ''/.* 2>/dev/null | grep -v -E '' @ sq @ ''/('' @ [CHR 0x5C] @ ''.|''
        @ [CHR 0x5C] @ ''.'' @ [CHR 0x5C] @ ''.|'' @ [CHR 0x5C] @ ''.git)$'' @ sq @ '')'',
      ''  if [ ! -z '' @ quoted ''$dotfiles'' @ '' ]; then'',
      ''    ln -sf $dotfiles ~ 2>/dev/null'',
      ''  fi'',
      ''else'',
      ''  [ -x '' @ quoted ''$installCommand'' @ '' ] || chmod +x '' @ quoted ''$installCommand'',
      ''  ./'' @ quoted ''$installCommand'',
      ''fi'']"

definition dotfiles_script :: "dotfiles_config \<Rightarrow> string" where
  "dotfiles_script c =
     (let repo = dotfiles_repo (df_repository c);
          target = (if df_target_path c = [] then ''~/dotfiles'' else df_target_path c);
          cmd = df_install_command c;
          home_cmd = (if has_prefix cmd ''~/'' then ''$HOME/'' @ drop 2 cmd else cmd)
      in dotfiles_marker @ lines_text
           (dotfiles_clone repo target @ (if cmd \<noteq> [] then dotfiles_with_command home_cmd else dotfiles_search target)))"

definition install_dotfiles :: "'w executor \<Rightarrow> dotfiles_config \<Rightarrow> 'w hook_state \<Rightarrow> exec_error option \<times> 'w hook_state" where
  "install_dotfiles ex c st =
     (if df_repository c = [] then (None, st)
      else (case ex (dotfiles_script c) (log_progress ''Installing Dotfiles'' ''running'' st) of
          (Some e, st') \<Rightarrow> (Some e, log_progress ''Installing Dotfiles'' ''failed'' st')
        | (None, st') \<Rightarrow> (None, log_progress ''Installing Dotfiles'' ''succeeded'' st')))"

definition dotfiles_after_post_create :: "'w executor \<Rightarrow> dotfiles_config \<Rightarrow> 'w hook_state \<Rightarrow> 'w hook_state" where
  "dotfiles_after_post_create ex c st =
     (case install_dotfiles ex c st of
        (Some e, st') \<Rightarrow> log_write ''warning'' (''Dotfiles installation failed: '' @ exec_error_text e) st'
      | (None, st') \<Rightarrow> st')"

subsection \<open>The markers of the hooks\<close>

definition container_user_data_folder :: "'w shell_exec \<Rightarrow> 'w \<Rightarrow> string \<times> 'w" where
  "container_user_data_folder sx w =
     (case sx (''printf %s '' @ quoted ''$HOME'') w of
        (Inl e, w') \<Rightarrow> ([], w')
      | (Inr (home, code), w') \<Rightarrow>
          (if code \<noteq> 0 \<or> trim_space home = [] then [] else trim_space home @ ''/.devcontainer'', w'))"

definition marker_path :: "string \<Rightarrow> string \<Rightarrow> string" where
  "marker_path folder hook = folder @ ''/.'' @ hook @ ''Marker''"

definition marker_quote :: "string \<Rightarrow> string" where
  "marker_quote s = sq @ replace_all s sq double_quoted_quote @ sq"

definition marker_command :: "string \<Rightarrow> string \<Rightarrow> string \<Rightarrow> string" where
  "marker_command folder hook content =
     (let m = marker_quote (marker_path folder hook) in
      ''mkdir -p '' @ marker_quote folder @ '' && CONTENT='' @ quoted (''$(cat '' @ m @ '' 2>/dev/null || echo ENOENT)'')
        @ '' && [ '' @ quoted (''$'' @ [CHR 0x7B] @ ''CONTENT:-'' @ content @ [CHR 0x7D]) @ '' != '' @ marker_quote content
        @ '' ] && printf '' @ sq @ ''%s'' @ [CHR 0x5C] @ ''n'' @ sq @ '' '' @ marker_quote content @ '' > '' @ m)"

definition marker_should_run :: "'w shell_exec \<Rightarrow> string \<Rightarrow> string \<Rightarrow> string \<Rightarrow> 'w \<Rightarrow> bool \<times> 'w" where
  "marker_should_run sx folder hook content w =
     (if content = [] then (True, w)
      else (case sx (marker_command folder hook content) w of
          (Inl e, w') \<Rightarrow> (False, w')
        | (Inr (r, code), w') \<Rightarrow> (code = 0, w')))"

definition started_at :: "container_info \<Rightarrow> string" where
  "started_at c = (case ci_state c of Some s \<Rightarrow> st_started_at s | None \<Rightarrow> [])"

definition drop_ran_hooks ::
  "(string \<Rightarrow> string \<Rightarrow> 'w \<Rightarrow> bool \<times> 'w) \<Rightarrow> merged_config \<Rightarrow> container_info \<Rightarrow> bool \<Rightarrow> 'w \<Rightarrow> merged_config \<times> 'w" where
  "drop_ran_hooks should_run m c rebuild w =
     (case should_run ''onCreateCommand'' (ci_created c) w of (b1, w1) \<Rightarrow>
      (case should_run ''updateContentCommand'' (ci_created c) w1 of (b2, w2) \<Rightarrow>
       (case should_run ''postCreateCommand'' (ci_created c) w2 of (b3, w3) \<Rightarrow>
        (case should_run ''postStartCommand'' (started_at c) w3 of (b4, w4) \<Rightarrow>
           (m\<lparr>m_on_create_commands := (if b1 then m_on_create_commands m else []),
              m_update_content_commands := (if b2 \<or> rebuild then m_update_content_commands m else []),
              m_post_create_commands := (if b3 then m_post_create_commands m else []),
              m_post_start_commands := (if b4 then m_post_start_commands m else [])\<rparr>, w4)))))"

definition apply_lifecycle_markers ::
  "'w shell_exec \<Rightarrow> merged_config \<Rightarrow> container_info \<Rightarrow> bool \<Rightarrow> 'w \<Rightarrow> merged_config \<times> 'w" where
  "apply_lifecycle_markers sx m c rebuild w =
     (case container_user_data_folder sx w of (folder, w') \<Rightarrow>
        (if folder = [] then (m, w') else drop_ran_hooks (marker_should_run sx folder) m c rebuild w'))"

subsection \<open>Once per container, once per start\<close>

text \<open>What the shell of the container does with these commands: it has a home folder, and a marker is written when its
  file is missing or has another content. \<open>files\<close> are the lines of the files in the container.\<close>

definition timestamp :: "string \<Rightarrow> bool" where
  "timestamp s \<longleftrightarrow> s \<noteq> [] \<and> list_all (\<lambda>c. is_digit c \<or> c \<in> set ''TZ:.+-'') s"

definition marked_hooks :: "string list" where
  "marked_hooks = [''onCreateCommand'', ''updateContentCommand'', ''postCreateCommand'', ''postStartCommand'']"

definition marker_shell :: "'w shell_exec \<Rightarrow> string \<Rightarrow> string list \<Rightarrow> ('w \<Rightarrow> string \<Rightarrow> string option) \<Rightarrow> bool" where
  "marker_shell sx home stamps files \<longleftrightarrow>
     (\<forall>w. sx (''printf %s '' @ quoted ''$HOME'') w = (Inr (home, 0), w)) \<and> list_all timestamp stamps \<and>
     (\<forall>hook \<in> set marked_hooks. \<forall>content \<in> set stamps. \<forall>w.
       (let path = marker_path (trim_space home @ ''/.devcontainer'') hook;
            (r, w') = sx (marker_command (trim_space home @ ''/.devcontainer'') hook content) w
        in (if files w path \<in> {Some [], Some content}
            then r = Inr ([], 1) \<and> files w' = files w
            else r = Inr ([], 0) \<and> files w' = (files w)(path \<mapsto> content))))"

lemma marker_path_eq [simp]: "marker_path folder h = marker_path folder h' \<longleftrightarrow> h = h'"
  by (simp add: marker_path_def)

lemma marker_step:
  assumes "marker_shell sx home stamps files" and "hook \<in> set marked_hooks" and "content \<in> set stamps"
  shows "\<exists>w'. marker_should_run sx (trim_space home @ ''/.devcontainer'') hook content w =
      (files w (marker_path (trim_space home @ ''/.devcontainer'') hook) \<notin> {Some [], Some content}, w') \<and>
    files w' = (if files w (marker_path (trim_space home @ ''/.devcontainer'') hook) \<in> {Some [], Some content} then files w
      else (files w)(marker_path (trim_space home @ ''/.devcontainer'') hook \<mapsto> content))"
proof -
  have c: "content \<noteq> []" using assms(1,3) by (auto simp: marker_shell_def timestamp_def list_all_iff)
  obtain r w1 where r: "sx (marker_command (trim_space home @ ''/.devcontainer'') hook content) w = (r, w1)" by fastforce
  have "let path = marker_path (trim_space home @ ''/.devcontainer'') hook;
            (r, w') = sx (marker_command (trim_space home @ ''/.devcontainer'') hook content) w
        in (if files w path \<in> {Some [], Some content}
            then r = Inr ([], 1) \<and> files w' = files w
            else r = Inr ([], 0) \<and> files w' = (files w)(path \<mapsto> content))"
    using conjunct2 [OF conjunct2 [OF assms(1) [unfolded marker_shell_def]], rule_format, OF assms(2,3)] .
  then show ?thesis unfolding Let_def r using c by (simp add: marker_should_run_def r split: if_splits)
qed

lemma markers_apply:
  assumes "marker_shell sx home stamps files" and "trim_space home \<noteq> []"
    and "ci_created c \<in> set stamps" and "started_at c \<in> set stamps"
  defines "p \<equiv> marker_path (trim_space home @ ''/.devcontainer'')"
  shows "\<exists>w'. apply_lifecycle_markers sx m c rebuild w =
      (m\<lparr>m_on_create_commands :=
           (if files w (p ''onCreateCommand'') \<in> {Some [], Some (ci_created c)} then [] else m_on_create_commands m),
         m_update_content_commands :=
           (if files w (p ''updateContentCommand'') \<in> {Some [], Some (ci_created c)} \<and> \<not> rebuild then []
            else m_update_content_commands m),
         m_post_create_commands :=
           (if files w (p ''postCreateCommand'') \<in> {Some [], Some (ci_created c)} then [] else m_post_create_commands m),
         m_post_start_commands :=
           (if files w (p ''postStartCommand'') \<in> {Some [], Some (started_at c)} then [] else m_post_start_commands m)\<rparr>, w') \<and>
    (\<forall>h content. (h, content) \<in> {(''onCreateCommand'', ci_created c), (''updateContentCommand'', ci_created c),
        (''postCreateCommand'', ci_created c), (''postStartCommand'', started_at c)} \<longrightarrow>
      files w' (p h) = (if files w (p h) = Some [] then Some [] else Some content))"
proof -
  let ?f = "trim_space home @ ''/.devcontainer''"
  have home: "container_user_data_folder sx w = (?f, w)"
    using assms(1,2) by (simp add: container_user_data_folder_def marker_shell_def)
  note step = marker_step [OF assms(1)] and hooks = marked_hooks_def
  obtain w1 where 1: "marker_should_run sx ?f ''onCreateCommand'' (ci_created c) w =
      (files w (p ''onCreateCommand'') \<notin> {Some [], Some (ci_created c)}, w1)"
    "files w1 = (if files w (p ''onCreateCommand'') \<in> {Some [], Some (ci_created c)} then files w
       else (files w)(p ''onCreateCommand'' \<mapsto> ci_created c))"
    using step [of "''onCreateCommand''", OF _ assms(3)] unfolding p_def hooks by auto
  obtain w2 where 2: "marker_should_run sx ?f ''updateContentCommand'' (ci_created c) w1 =
      (files w1 (p ''updateContentCommand'') \<notin> {Some [], Some (ci_created c)}, w2)"
    "files w2 = (if files w1 (p ''updateContentCommand'') \<in> {Some [], Some (ci_created c)} then files w1
       else (files w1)(p ''updateContentCommand'' \<mapsto> ci_created c))"
    using step [of "''updateContentCommand''", OF _ assms(3)] unfolding p_def hooks by auto
  obtain w3 where 3: "marker_should_run sx ?f ''postCreateCommand'' (ci_created c) w2 =
      (files w2 (p ''postCreateCommand'') \<notin> {Some [], Some (ci_created c)}, w3)"
    "files w3 = (if files w2 (p ''postCreateCommand'') \<in> {Some [], Some (ci_created c)} then files w2
       else (files w2)(p ''postCreateCommand'' \<mapsto> ci_created c))"
    using step [of "''postCreateCommand''", OF _ assms(3)] unfolding p_def hooks by auto
  obtain w4 where 4: "marker_should_run sx ?f ''postStartCommand'' (started_at c) w3 =
      (files w3 (p ''postStartCommand'') \<notin> {Some [], Some (started_at c)}, w4)"
    "files w4 = (if files w3 (p ''postStartCommand'') \<in> {Some [], Some (started_at c)} then files w3
       else (files w3)(p ''postStartCommand'' \<mapsto> started_at c))"
    using step [of "''postStartCommand''", OF _ assms(4)] unfolding p_def hooks by auto
  have p: "p h = p h' \<longleftrightarrow> h = h'" for h h' by (simp add: p_def)
  have same: "files w1 (p ''updateContentCommand'') = files w (p ''updateContentCommand'')"
    "files w2 (p ''postCreateCommand'') = files w (p ''postCreateCommand'')"
    "files w3 (p ''postStartCommand'') = files w (p ''postStartCommand'')"
    using 1(2) 2(2) 3(2) by (simp_all add: p)
  show ?thesis
  proof (intro exI [of _ w4] conjI)
    show "\<forall>h content. (h, content) \<in> {(''onCreateCommand'', ci_created c), (''updateContentCommand'', ci_created c),
        (''postCreateCommand'', ci_created c), (''postStartCommand'', started_at c)} \<longrightarrow>
      files w4 (p h) = (if files w (p h) = Some [] then Some [] else Some content)"
      using 1(2) 2(2) 3(2) 4(2) same by (auto simp: p)
  qed (simp add: apply_lifecycle_markers_def home drop_ran_hooks_def 1(1) 2(1) 3(1) 4(1) same)
qed


definition sample_markers :: "(string \<times> string \<times> string) list" where
  "sample_markers = concat (map (\<lambda>h. map (\<lambda>t. (marker_command ''/r/.devcontainer'' h t, marker_path ''/r/.devcontainer'' h, t))
     [''1'', ''2'']) marked_hooks)"

definition sample_shell :: "string gomap shell_exec" where
  "sample_shell cmd w =
     (case map_of sample_markers cmd of
        None \<Rightarrow> (Inr (''/r'', 0), w)
      | Some (path, t) \<Rightarrow>
          (if map_of w path \<in> {Some [], Some t} then (Inr ([], 1), w) else (Inr ([], 0), aput path t w)))"

lemma sample_marker_shell: "marker_shell sample_shell ''/r'' [''1'', ''1'', ''2''] map_of"
proof -
  have "distinct (map fst sample_markers)" by code_simp
  then have m: "map_of sample_markers (marker_command ''/r/.devcontainer'' h t) = Some (marker_path ''/r/.devcontainer'' h, t)"
    if "h \<in> set marked_hooks" "t \<in> set [''1'', ''1'', ''2'']" for h t
    using that by (intro map_of_is_SomeI) (auto simp: sample_markers_def)
  have "map_of sample_markers (''printf %s '' @ quoted ''$HOME'') = None" by code_simp
  moreover have "trim_space ''/r'' = ''/r''" "list_all timestamp [''1'', ''1'', ''2'']" by code_simp+
  ultimately show ?thesis using m
    by (auto simp: marker_shell_def sample_shell_def Let_def fun_eq_iff)
qed

definition sample_container :: "string \<Rightarrow> container_info" where
  "sample_container t = \<lparr>ci_id = ''c'', ci_config = None, ci_state = Some \<lparr>st_running = True, st_started_at = t\<rparr>,
     ci_created = ''1'', ci_image = []\<rparr>"


end
