(* ===== verification/UpCommand.thy ===== *)
theory UpCommand
  imports UpSetup Advisory
begin

text \<open>
  The whole of \<open>up\<close> (\<open>runUp\<close> of \<open>internal/cli/up.go\<close>): finding the container by its labels
  (\<open>container_lookup.go\<close>), the disallowed Features (\<open>disallowed.go\<close>), the way to a container, the hooks, and the
  result. The control manifest, the parser of a file's member names and the ways by a Dockerfile and by Compose are
  parameters; log lines outside the hooks are left out.
\<close>

subsection \<open>Finding the container\<close>

definition list_error_text :: "string list \<Rightarrow> string" where
  "list_error_text labels = ''Command failed: docker ps -q -a'' @ concat (map (\<lambda>l. '' --filter label='' @ l) labels)"

definition first_listed :: "'w engine_api \<Rightarrow> string list \<Rightarrow> 'w \<Rightarrow> (string, string) res \<times> 'w" where
  "first_listed api labels w =
     (case list_containers api True labels w of
        (Inl e, w') \<Rightarrow> (Inl (list_error_text labels), w')
      | (Inr ids, w') \<Rightarrow> (Inr (case ids of c # cs \<Rightarrow> c | [] \<Rightarrow> []), w'))"

definition resolve_container_id ::
  "string \<Rightarrow> 'w engine_api \<Rightarrow> string \<Rightarrow> string \<Rightarrow> string list \<Rightarrow> 'w \<Rightarrow> (string, string) res \<times> 'w" where
  "resolve_container_id cwd api folder config_file labels w =
     (let local_label = ''devcontainer.local_folder='' @ pfs_resolve cwd folder in
      if labels \<noteq> [] then first_listed api labels w
      else if folder = [] then (Inr [], w)
      else if config_file \<noteq> [] then
        (case list_containers api True [local_label, ''devcontainer.config_file='' @ config_file] w of
           (Inl e, w') \<Rightarrow> (Inl (list_error_text [local_label, ''devcontainer.config_file='' @ config_file]), w')
         | (Inr (c # cs), w') \<Rightarrow> (Inr c, w')
         | (Inr [], w') \<Rightarrow> first_listed api [local_label] w')
      else first_listed api [local_label] w)"

subsection \<open>Disallowed Features\<close>

definition add_features :: "json gomap \<Rightarrow> string list \<Rightarrow> string list \<Rightarrow> string list" where
  "add_features fs ids names =
     foldl (\<lambda>is i. if map_of fs i \<noteq> None \<and> i \<notin> set is then is @ [i] else is) ids names"

text \<open>\<open>names\<close> are the member names of an object in a document, as it lists them.\<close>

definition feature_ids_in_order ::
  "(string \<Rightarrow> string \<Rightarrow> string list) \<Rightarrow> (string \<Rightarrow> string option) \<Rightarrow> json gomap \<Rightarrow> string \<Rightarrow> string \<Rightarrow> string list" where
  "feature_ids_in_order names read fs config_file additional =
     (let own = (case read config_file of Some t \<Rightarrow> names t ''features'' | None \<Rightarrow> []);
          extra = (if additional \<noteq> []
            then names (CHR 0x7B # dq @ ''features'' @ dq @ '':'' @ additional @ [CHR 0x7D]) ''features'' else [])
      in add_features fs (add_features fs (add_features fs [] own) extra) (sorted_keys fs))"

definition stop_running_container :: "'w engine_api \<Rightarrow> string list \<Rightarrow> 'w \<Rightarrow> bool \<times> 'w" where
  "stop_running_container api labels w =
     (case list_containers api True labels w of
        (Inl e, w1) \<Rightarrow> (False, w1)
      | (Inr [], w1) \<Rightarrow> (False, w1)
      | (Inr (c # cs), w1) \<Rightarrow>
          (case inspect_container api c w1 of
             (Inl e, w2) \<Rightarrow> (False, w2)
           | (Inr i, w2) \<Rightarrow>
               (case ci_state i of
                  None \<Rightarrow> (False, w2)
                | Some s \<Rightarrow>
                    (if \<not> st_running s then (False, w2)
                     else (case stop_container_now api c w2 of (e, w3) \<Rightarrow> (e = None, w3))))))"

definition disallowed_description :: "string \<Rightarrow> bool \<Rightarrow> string \<Rightarrow> string" where
  "disallowed_description i stopped url =
     ''Cannot use the '' @ sq @ i @ sq @ '' Feature since it was reported to be problematic. Please remove this Feature ''
     @ ''from your configuration and rebuild any dev container using it before continuing.''
     @ (if stopped then '' The existing dev container was stopped.'' else [])
     @ (if url \<noteq> [] then '' See '' @ url @ '' to learn more.'' else [])"

definition enforce_disallowed_features ::
  "('w \<Rightarrow> control_manifest option \<times> 'w) \<Rightarrow> json gomap \<Rightarrow> string list \<Rightarrow> ('w \<Rightarrow> bool \<times> 'w) option \<Rightarrow> 'w \<Rightarrow>
   container_error option \<times> 'w" where
  "enforce_disallowed_features manifest fs ids stop w =
     (if fs = [] then (None, w)
      else (case manifest w of
          (None, w1) \<Rightarrow> (None, w1)
        | (Some m, w1) \<Rightarrow>
            (case ensure_no_disallowed_features m ids of
               Inr u \<Rightarrow> (None, w1)
             | Inl (DisallowedFeatureError i url) \<Rightarrow>
                 (case (case stop of None \<Rightarrow> (False, w1) | Some f \<Rightarrow> f w1) of
                    (stopped, w2) \<Rightarrow>
                      (Some ((container_error_of (disallowed_description i stopped url))
                         \<lparr>ce_feature_id := i, ce_did_stop := Some stopped, ce_learn_more := url\<rparr>), w2)))))"

subsection \<open>The metadata and the environment of the hooks\<close>

definition metadata_of_container :: "'w up_env \<Rightarrow> string list \<Rightarrow> container_info \<Rightarrow> dev_container \<Rightarrow> entry list option" where
  "metadata_of_container u idl c cfg =
     image_metadata_from_container (ue_dec u) (ue_substitute u)
       (case ci_config c of Some k \<Rightarrow> ct_labels k | None \<Rightarrow> []) (Some cfg) [] (Some idl)"

definition secrets_remote_env :: "(string \<Rightarrow> json option) \<Rightarrow> (string \<Rightarrow> string option) \<Rightarrow> string \<Rightarrow> string list" where
  "secrets_remote_env dec read path =
     (if path = [] then [] else (case read_secrets_file dec (read path) of Some es \<Rightarrow> es | None \<Rightarrow> []))"

definition hook_remote_env :: "string gomap \<Rightarrow> string list \<Rightarrow> string option gomap \<Rightarrow> string list" where
  "hook_remote_env probed extra remote =
     map (\<lambda>(k, v). k @ ''='' @ v) probed @ extra
     @ concat (map (\<lambda>(k, v). case v of Some x \<Rightarrow> [k @ ''='' @ x] | None \<Rightarrow> []) remote)"

text \<open>The last assignment of a variable counts.\<close>

definition hook_container_error :: "hook_error \<Rightarrow> string \<Rightarrow> container_error" where
  "hook_container_error e cid =
     (container_error_of (he_description e))\<lparr>ce_original := Some (exec_error_text (he_err e)), ce_container_id := cid\<rparr>"

definition setup_failed :: string where
  "setup_failed = ''An error occurred setting up the container.''"

subsection \<open>The hooks of a new container\<close>

text \<open>The rest of the flags, and what the command uses of its surroundings: \<open>uh_install\<close> installs the Features of an
  image, \<open>uh_dockerfile\<close> and \<open>uh_compose\<close> are the ways by a Dockerfile and by Compose, which gives the project's name
  too; theory ImageBuild has the first two. \<open>uh_tx\<close> says what a failed substitution or mount is.\<close>

record up_flags =
  uf_additional_features :: string
  uf_secrets_file :: string
  uf_session_folder :: string
  uf_dotfiles :: dotfiles_config
  uf_git_root :: bool
  uf_worktree_common_dir :: bool
  uf_remove_existing :: bool
  uf_expect_existing :: bool
  uf_skip_post_create :: bool
  uf_skip_non_blocking :: bool
  uf_skip_post_attach :: bool
  uf_rebuild :: bool
  uf_include_config :: bool
  uf_include_merged :: bool

record 'w up_host =
  uh_env :: "'w up_env"
  uh_flags :: up_flags
  uh_cwd :: string
  uh_host :: host
  uh_parse :: "string \<Rightarrow> (string, json) res"
  uh_jsonc :: "string \<Rightarrow> json option"
  uh_names :: "string \<Rightarrow> string list"
  uh_member_names :: "string \<Rightarrow> string \<Rightarrow> string list"
  uh_read :: "string \<Rightarrow> string option"
  uh_manifest :: "'w \<Rightarrow> control_manifest option \<times> 'w"
  uh_host_run :: "'w host_run"
  uh_sched :: "string list \<Rightarrow> string list"
  uh_fv :: "rat \<Rightarrow> string"
  uh_load_text :: "load_error \<Rightarrow> string"
  uh_sub_text :: "sub_error option \<Rightarrow> string"
  uh_tx :: "up_error \<Rightarrow> command_failure"
  uh_label_text :: string
  uh_additional_text :: string
  uh_oci_auth :: json
  uh_install :: "bool \<Rightarrow> 'w up_env \<Rightarrow> string \<Rightarrow> dev_container \<Rightarrow> string \<Rightarrow> 'w \<Rightarrow> (up_error, string list) res \<times> 'w"
  uh_dockerfile :: "'w up_env \<Rightarrow> dev_container \<Rightarrow> workspace_config \<Rightarrow> string \<Rightarrow> string list \<Rightarrow> bool \<Rightarrow> 'w \<Rightarrow>
    (up_error, string) res \<times> 'w"
  uh_compose :: "'w up_env \<Rightarrow> dev_container \<Rightarrow> workspace_config \<Rightarrow> string \<Rightarrow> string list \<Rightarrow> bool \<Rightarrow> 'w \<Rightarrow>
    (up_error, string \<times> string) res \<times> 'w"

definition sub_failure :: "(sub_error option \<Rightarrow> string) \<Rightarrow> sub_error option \<Rightarrow> string \<Rightarrow> container_error" where
  "sub_failure tx e cid =
     (case e of
        Some (ContainerError d) \<Rightarrow> (container_error_of d)\<lparr>ce_container_id := cid\<rparr>
      | _ \<Rightarrow> (container_error_of setup_failed)\<lparr>ce_original := Some (tx e), ce_container_id := cid\<rparr>)"

definition lifecycle_options :: "up_flags \<Rightarrow> 'w executor \<Rightarrow> 'w run_options" where
  "lifecycle_options f ex =
     \<lparr>skip_post_create = False, skip_non_blocking = uf_skip_non_blocking f, skip_post_attach = uf_skip_post_attach f,
      prebuild = uf_rebuild f, wait_for = [], after_post_create = Some (dotfiles_after_post_create ex (uf_dotfiles f))\<rparr>"

definition run_lifecycle_for_up ::
  "'w up_host \<Rightarrow> 'w up_env \<Rightarrow> string list \<Rightarrow> string \<Rightarrow> dev_container \<Rightarrow> string \<Rightarrow> string \<Rightarrow> 'w hook_state \<Rightarrow>
   container_error option \<times> 'w hook_state" where
  "run_lifecycle_for_up h u idl cid cfg work_dir user st =
     (let f = uh_flags h; cex = exec_in_container (ue_api u) in
      case probed_remote_env (ue_dec u) (ue_quote u) cex cid user
          (first_nonempty (dc_user_env_probe cfg) (uo_env_probe (ue_opts u))) (uf_session_folder f) st of
        (probed, st1) \<Rightarrow>
          (let env = hook_remote_env probed
                 (secrets_remote_env (ue_dec u) (uh_read h) (uf_secrets_file f) @ uo_remote_envs (ue_opts u))
                 (dc_remote_env cfg);
               server = \<lparr>ss_container = cid, ss_user = user, ss_env = env\<rparr>;
               ex = shell_executor_exec cex server work_dir
           in case inspect_container (ue_api u) cid (world st1) of
                (r, w2) \<Rightarrow>
                  (let c = (case r of Inr i \<Rightarrow> i
                         | Inl e \<Rightarrow> \<lparr>ci_id = [], ci_config = None, ci_state = None, ci_created = [], ci_image = []\<rparr>)
                   in case metadata_of_container u idl c cfg of
                        None \<Rightarrow> (Some (sub_failure (uh_sub_text h) None cid), st1\<lparr>world := w2\<rparr>)
                      | Some es \<Rightarrow>
                          (case apply_lifecycle_markers (server_exec cex server) (merge_configuration (ue_ft u) es) c
                              (uf_rebuild f) w2 of
                             (merged, w3) \<Rightarrow>
                               (case run_hooks (uh_fv h) (uh_sched h) ex merged (lifecycle_options f ex) (st1\<lparr>world := w3\<rparr>) of
                                  (Some e, st4) \<Rightarrow> (Some (hook_container_error e cid), st4)
                                | (None, st4) \<Rightarrow> (None, st4))))))"

subsection \<open>The configuration in the result\<close>

definition add_up_configuration ::
  "'w up_host \<Rightarrow> 'w up_env \<Rightarrow> string list \<Rightarrow> bool \<Rightarrow> dev_container \<Rightarrow> container_info \<Rightarrow> json gomap \<Rightarrow>
   (string, json gomap) res" where
  "add_up_configuration h u idl fs_path cfg c result =
     (let env = (case ci_config c of Some k \<Rightarrow> env_map (ct_env k) | None \<Rightarrow> []);
          resolve = resolve_container_variables (ue_ulow u) env (dc_config_file_path cfg);
          scheme = (if up_config_file_from_argument (ue_opts u) then ''file'' else ''vscode-fileHost'');
          with_config = (if \<not> uf_include_config (uh_flags h) then Inr ([], result)
            else (case resolve (JObj (config_fields cfg)) of
                Inl e \<Rightarrow> Inl (''resolve configuration container variables: '' @ uh_sub_text h (Some e))
              | Inr v \<Rightarrow>
                  (let m = filter (\<lambda>(k, v). v \<noteq> JNull) (case v of JObj m \<Rightarrow> m | _ \<Rightarrow> []);
                       uri = (case map_of m ''configFilePath'' of
                           Some (JStr p) \<Rightarrow> (if p \<noteq> [] then Some (config_file_uri p scheme fs_path) else None)
                         | _ \<Rightarrow> None);
                       m1 = (case uri of Some x \<Rightarrow> aput ''configFilePath'' x m | None \<Rightarrow> adel ''configFilePath'' m);
                       m2 = adel ''extensions'' (adel ''settings'' (adel ''devPort'' m1))
                   in Inr (m2, aput ''configuration'' (JObj m2) result))))
      in bind_res with_config (\<lambda>(cfg_result, result1).
           if \<not> uf_include_merged (uh_flags h) then Inr result1
           else (case metadata_of_container u idl c cfg of
               None \<Rightarrow> Inl (uh_sub_text h None)
             | Some es \<Rightarrow>
                 (let merged = (merge_configuration (ue_ft u) es)\<lparr>m_image := dc_image cfg\<rparr> in
                  case resolve (case merged_fields merged of Some fs \<Rightarrow> JObj fs | None \<Rightarrow> JNull) of
                    Inl e \<Rightarrow> Inl (''resolve merged container variables: '' @ uh_sub_text h (Some e))
                  | Inr (JObj m) \<Rightarrow> Inr (aput ''mergedConfiguration'' (JObj (spread_config cfg_result m)) result1)
                  | Inr v \<Rightarrow> Inr (aput ''mergedConfiguration'' v result1)))))"

subsection \<open>Substituting into a struct\<close>

definition workspace_fields :: "workspace_config field list" where
  "workspace_fields = [fld ''workspaceFolder'' wc_folder wc_folder_update string_dec,
     fld ''workspaceMount'' wc_mount wc_mount_update string_dec]"

definition workspace_json :: "workspace_config \<Rightarrow> json" where
  "workspace_json wc = JObj ((''workspaceFolder'', JStr (wc_folder wc)) # str_field ''workspaceMount'' (wc_mount wc))"

definition resolve_into ::
  "(string \<Rightarrow> string) \<Rightarrow> sub_ctx \<Rightarrow> ('c \<Rightarrow> json) \<Rightarrow> 'c field list \<Rightarrow> sub_phase \<Rightarrow> 'c \<Rightarrow> (sub_error option, 'c) res" where
  "resolve_into ulow ctx enc fs phase c =
     (case resolve_value ulow ctx phase (enc c) of
        Inl e \<Rightarrow> Inl (Some e)
      | Inr v \<Rightarrow> (case struct_dec fs v c of None \<Rightarrow> Inl None | Some c' \<Rightarrow> Inr c'))"

definition before_container_into ::
  "(string \<Rightarrow> string) \<Rightarrow> sub_ctx \<Rightarrow> ('c \<Rightarrow> json) \<Rightarrow> 'c field list \<Rightarrow> 'c \<Rightarrow> (sub_error option, 'c) res" where
  "before_container_into ulow ctx enc fs c =
     bind_res (resolve_into ulow ctx enc fs PhaseHost c) (resolve_into ulow ctx enc fs PhaseIdentity)"

subsection \<open>The command\<close>

text \<open>What the command has after its configuration is read: the environment with the substitution and the label's entry,
  the labels, the configuration and the workspace with the variables in, and what was loaded.\<close>

record 'w prepared_up =
  pu_env :: "'w up_env"
  pu_labels :: "string list"
  pu_config :: dev_container
  pu_workspace :: workspace_config
  pu_loaded :: load_result
  pu_folder :: string

definition prepare_up :: "'w up_host \<Rightarrow> string \<times> string \<times> string \<Rightarrow> (string, 'w prepared_up) res" where
  "prepare_up h paths =
     (let u = uh_env h; ulow = ue_ulow u; (folder, config_path, override_path) = paths in
      case load_config ulow (uh_parse h) (uh_names h) (uh_host h) folder config_path override_path
          \<lparr>mo_git_root = uf_git_root (uh_flags h), mo_worktree_common_dir = uf_worktree_common_dir (uh_flags h)\<rparr> of
        Inl e \<Rightarrow> Inl (uh_load_text h e)
      | Inr l \<Rightarrow>
          (let labels = up_id_labels (ue_opts u) folder (dc_config_file_path (lr_config l));
               ctx = (sub_context (lr_host_sub l))\<lparr>dev_container_id := compute_dev_container_id (env_map labels)\<rparr>
           in case merge_additional_features (uh_jsonc h) (dc_features (lr_config l)) (uf_additional_features (uh_flags h)) of
                Inl e \<Rightarrow> Inl (uh_additional_text h)
              | Inr (features, excluded) \<Rightarrow>
                  (case before_container_into ulow ctx (\<lambda>c. JObj (config_fields c)) dev_container_fields
                      ((lr_config l)\<lparr>dc_features := features\<rparr>) of
                     Inl e \<Rightarrow> Inl (''apply pre-container substitutions: '' @ uh_sub_text h e)
                   | Inr cfg \<Rightarrow>
                       (case before_container_into ulow ctx workspace_json workspace_fields (lr_workspace l) of
                          Inl e \<Rightarrow> Inl (''apply workspace pre-container substitutions: '' @ uh_sub_text h e)
                        | Inr wc \<Rightarrow>
                            (case config_label_entry (lr_raw_config l) (uo_omit_remote_env (ue_opts u)) of
                               None \<Rightarrow> Inl (uh_label_text h)
                             | Some label_entry \<Rightarrow>
                                 Inr \<lparr>pu_env = u\<lparr>ue_substitute := host_metadata_substitution ulow (lr_host_sub l) (Some labels),
                                        ue_config_label := label_entry\<rparr>,
                                      pu_labels = labels, pu_config = cfg, pu_workspace = wc, pu_loaded = l,
                                      pu_folder = folder\<rparr>)))))"

text \<open>The container found by its labels, the old one removed when that is asked for.\<close>

definition existing_containers :: "'w up_host \<Rightarrow> 'w prepared_up \<Rightarrow> 'w \<Rightarrow> string list \<times> 'w" where
  "existing_containers h p w =
     (let u = pu_env p in
      case list_containers (ue_api u) True (pu_labels p) w of
        (Inl e, w1) \<Rightarrow> ([], w1)
      | (Inr [], w1) \<Rightarrow> ([], w1)
      | (Inr (c # cs), w1) \<Rightarrow>
          (if uf_remove_existing (uh_flags h)
           then ([], snd (remove_container (ue_ulow u) (ue_api u) c w1)) else (c # cs, w1)))"

definition use_existing :: "'w up_env \<Rightarrow> string \<Rightarrow> 'w \<Rightarrow> (command_result, string \<times> string) res \<times> 'w" where
  "use_existing u c w =
     (case inspect_container (ue_api u) c w of
        (r, w1) \<Rightarrow>
          (if (case r of Inr i \<Rightarrow> (case ci_state i of Some s \<Rightarrow> \<not> st_running s | None \<Rightarrow> False) | Inl e \<Rightarrow> False)
           then (case start_container (ue_api u) c w1 of
               (Some e, w2) \<Rightarrow> (Inl (failed_with (''Failed to start container: '' @ e)), w2)
             | (None, w2) \<Rightarrow> (Inr (c, []), w2))
           else (Inr (c, []), w1)))"

definition created :: "'w up_host \<Rightarrow> (up_error, string \<times> string) res \<times> 'w \<Rightarrow> (command_result, string \<times> string) res \<times> 'w" where
  "created h r =
     (case r of
        (Inr c, w) \<Rightarrow> (Inr c, w)
      | (Inl e, w) \<Rightarrow>
          (Inl (if error_cause e = UpPanic then Crashed
             else Failed (command_error_output (failure_of (uh_tx h) e) ''An error occurred setting up the container'')), w))"

definition no_project :: "(up_error, string) res \<times> 'w \<Rightarrow> (up_error, string \<times> string) res \<times> 'w" where
  "no_project r = (case r of (Inr c, w) \<Rightarrow> (Inr (c, []), w) | (Inl e, w) \<Rightarrow> (Inl e, w))"

text \<open>The way to the container: the existing one, or a new one from the cached image, a Dockerfile, Compose or an image.\<close>

definition obtain_container ::
  "'w up_host \<Rightarrow> 'w prepared_up \<Rightarrow> string list \<Rightarrow> 'w \<Rightarrow> (command_result, string \<times> string) res \<times> 'w" where
  "obtain_container h p existing w =
     (let u = pu_env p; cfg = pu_config p; opts = ue_opts u; compose = is_compose_config cfg;
          wc = pu_workspace p; folder = pu_folder p; labels = pu_labels p
      in case (if uo_buildkit opts = ''never'' then (None, w) else detect_build_kit (ue_run u) (ue_client u) w) of
           (kit, w1) \<Rightarrow>
             (if existing \<noteq> [] \<and> \<not> compose then use_existing u (hd existing) w1
              else if existing = [] \<and> uf_expect_existing (uh_flags h) \<and> \<not> compose
              then (Inl (Failed (to_error_output (ContainerErr (container_error_of ''The expected container does not exist.'')))), w1)
              else if uo_cache_image opts \<noteq> [] then
                (if compose then (Inl (Refused ''--cache-image is not supported with a Docker Compose configuration.''), w1)
                 else created h (no_project (from_cache_image u cfg wc folder labels w1)))
              else if is_dockerfile_config cfg
              then created h (no_project (uh_dockerfile h u cfg wc folder labels (kit \<noteq> None) w1))
              else if compose then created h (uh_compose h u cfg wc folder labels (kit \<noteq> None) w1)
              else created h (no_project (from_image (uh_install h (kit \<noteq> None)) u cfg wc folder labels w1))))"

text \<open>What remains once there is a container: the substitution's check, the hooks, and the result.\<close>

definition container_check :: "'w up_host \<Rightarrow> 'w prepared_up \<Rightarrow> container_info \<Rightarrow> (sub_error option, unit) res" where
  "container_check h p c =
     (let u = pu_env p; cfg = pu_config p in
      case metadata_of_container u (pu_labels p) c cfg of
        None \<Rightarrow> Inl None
      | Some es \<Rightarrow>
          (case check_container_substitution (ue_ulow u) (case ci_config c of Some k \<Rightarrow> env_map (ct_env k) | None \<Rightarrow> [])
              (dc_config_file_path cfg)
              [JObj (lr_raw (pu_loaded p)),
               case merged_fields (merge_configuration (ue_ft u) es) of Some fs \<Rightarrow> JObj fs | None \<Rightarrow> JNull] of
             Some e \<Rightarrow> Inl (Some e)
           | None \<Rightarrow> Inr ()))"

definition up_result :: "'w up_host \<Rightarrow> string \<Rightarrow> string \<Rightarrow> string \<Rightarrow> string \<Rightarrow> json gomap" where
  "up_result h cid user folder project =
     [(''outcome'', JStr ''success''), (''containerId'', JStr cid), (''remoteUser'', JStr user),
      (''ociAuthDiagnostics'', uh_oci_auth h)]
     @ str_field ''remoteWorkspaceFolder'' folder @ str_field ''composeProjectName'' project"

definition set_up_container :: "'w up_host \<Rightarrow> 'w prepared_up \<Rightarrow> string \<Rightarrow> string \<Rightarrow> bool \<Rightarrow> 'w hook_state \<Rightarrow>
    command_result \<times> 'w hook_state" where
  "set_up_container h p cid project lockfile_read st =
     (let u = pu_env p; cfg = pu_config p; folder = wc_folder (pu_workspace p) in
      case inspect_container (ue_api u) cid (world st) of
        (Inl e, w1) \<Rightarrow> (failed_with (''Failed to inspect container: '' @ e), st\<lparr>world := w1\<rparr>)
      | (Inr c, w1) \<Rightarrow>
          (case up_remote_user (ue_ft u) (ue_dec u) (ue_api u) (dc_remote_user cfg) c w1 of
             (user, w2) \<Rightarrow>
               (case container_check h p c of
                  Inl e \<Rightarrow> (Failed (to_error_output (ContainerErr (sub_failure (uh_sub_text h) e cid))), st\<lparr>world := w2\<rparr>)
                | Inr _ \<Rightarrow>
                    (case (if uf_skip_post_create (uh_flags h) then (None, st\<lparr>world := w2\<rparr>)
                         else run_lifecycle_for_up h u (pu_labels p) cid cfg folder user (st\<lparr>world := w2\<rparr>)) of
                       (Some e, st3) \<Rightarrow> (Failed (to_error_output (ContainerErr e)), st3)
                     | (None, st3) \<Rightarrow>
                         (case add_up_configuration h u (pu_labels p)
                             (up_config_file_fs_path_read (ue_opts u) lockfile_read) cfg c (up_result h cid user folder project) of
                            Inl e \<Rightarrow> (failed_with e, st3)
                          | Inr r \<Rightarrow> (Done r, st3))))))"

text \<open>\<open>lockfile_read\<close> tells whether the way to the container processed Features with the lockfile on.\<close>

definition run_up :: "'w up_host \<Rightarrow> ('w prepared_up \<Rightarrow> string list \<Rightarrow> bool) \<Rightarrow> 'w hook_state \<Rightarrow> command_result \<times> 'w hook_state" where
  "run_up h lockfile_read st =
     (let u = uh_env h; opts = ue_opts u; paths = resolve_up_paths (uh_cwd h) opts in
      case first_error [validate_up_opts (ue_quote u) opts, lockfile_flags_error opts] of
        Some e \<Rightarrow> (Refused e, st)
      | None \<Rightarrow>
          (if up_has_nothing_to_read paths then (failed_with ''No dev container config and no workspace found.'', st)
           else (case prepare_up h paths of
               Inl e \<Rightarrow> (failed_with e, st)
             | Inr p \<Rightarrow>
                 (let cfg = pu_config p in
                  case existing_containers h p (world st) of (existing, w1) \<Rightarrow>
                  (case enforce_disallowed_features (uh_manifest h) (dc_features cfg)
                       (feature_ids_in_order (uh_member_names h) (uh_read h) (dc_features cfg) (dc_config_file_path cfg)
                          (uf_additional_features (uh_flags h)))
                       (Some (stop_running_container (ue_api u) (pu_labels p))) w1 of
                     (Some e, w2) \<Rightarrow> (Failed (to_error_output (ContainerErr e)), st\<lparr>world := w2\<rparr>)
                   | (None, w2) \<Rightarrow>
                       (case run_initialize_command (ue_ulow u) (uh_sched h) (uh_host_run h) (dc_initialize_command cfg)
                            (lr_host_sub (pu_loaded p)) w2 of
                          (Some InitPanic, w3) \<Rightarrow> (Crashed, st\<lparr>world := w3\<rparr>)
                        | (Some e, w3) \<Rightarrow>
                            (Failed (to_error_output (ContainerErr
                               (container_error_of ''The initializeCommand in the devcontainer.json failed.''))), st\<lparr>world := w3\<rparr>)
                        | (None, w3) \<Rightarrow>
                            (case obtain_container h p existing w3 of
                               (Inl r, w4) \<Rightarrow> (r, st\<lparr>world := w4\<rparr>)
                             | (Inr (cid, project), w4) \<Rightarrow>
                                 set_up_container h p cid project (lockfile_read p existing) (st\<lparr>world := w4\<rparr>))))))))"

subsection \<open>Order and precedence\<close>

lemma add_features_fold:
  "\<exists>A. add_features fs ids names = ids @ A \<and> subseq A names \<and> distinct A \<and>
     set A = {x \<in> set names. map_of fs x \<noteq> None} - set ids"
  using ordered_fold [of "\<lambda>k. map_of fs k \<noteq> None" ids names] by (simp add: add_features_def)

text \<open>The Features are checked each once: the ones of the file in its order, the additional ones in theirs, then any
  other.\<close>

theorem feature_ids_order:
  "\<exists>A B C. feature_ids_in_order names read fs file additional = A @ B @ C \<and> distinct (A @ B @ C) \<and>
     set (A @ B @ C) = fst ` set fs \<and> sorted C \<and>
     subseq A (case read file of Some t \<Rightarrow> names t ''features'' | None \<Rightarrow> []) \<and>
     set A = set (case read file of Some t \<Rightarrow> names t ''features'' | None \<Rightarrow> []) \<inter> fst ` set fs"
proof -
  let ?own = "case read file of Some t \<Rightarrow> names t ''features'' | None \<Rightarrow> []"
  let ?extra = "if additional \<noteq> [] then names (CHR 0x7B # dq @ ''features'' @ dq @ '':'' @ additional @ [CHR 0x7D]) ''features'' else []"
  have P: "map_of fs k \<noteq> None \<longleftrightarrow> k \<in> fst ` set fs" for k by (simp add: map_of_eq_None_iff)
  obtain A where A: "add_features fs [] ?own = A" "subseq A ?own" "distinct A" "set A = {x \<in> set ?own. map_of fs x \<noteq> None}"
    using add_features_fold [of fs "[]" ?own] by auto
  obtain B where B: "add_features fs A ?extra = A @ B" "distinct B" "set B = {x \<in> set ?extra. map_of fs x \<noteq> None} - set A"
    using add_features_fold [of fs A ?extra] by blast
  obtain C where C: "add_features fs (A @ B) (sorted_keys fs) = (A @ B) @ C" "subseq C (sorted_keys fs)" "distinct C"
    "set C = {x \<in> set (sorted_keys fs). map_of fs x \<noteq> None} - set (A @ B)"
    using add_features_fold [of fs "A @ B" "sorted_keys fs"] by blast
  obtain N where "C = nths (sorted_keys fs) N" using C(2) by (auto simp: subseq_conv_nths)
  then have "sorted C" using sorted_sorted_keys [of fs] by (simp add: sorted_nths)
  moreover have "feature_ids_in_order names read fs file additional = A @ B @ C"
    using A(1) B(1) C(1) unfolding feature_ids_in_order_def Let_def by simp
  moreover have "set A = set ?own \<inter> fst ` set fs" using A(4) P by auto
  moreover have "set (A @ B @ C) = fst ` set fs" using A(4) B(3) C(4) P by auto
  moreover have "distinct (A @ B @ C)" using A(3) B(2,3) C(3,4) by auto
  ultimately show ?thesis using A(2) by blast
qed

lemma env_map_append: "env_map (xs @ ys) = foldl (\<lambda>m e. case cut_byte (CHR ''='') e of (k, v, found) \<Rightarrow>
    if found then aput k v m else m) (env_map xs) ys"
  by (simp add: env_map_def)

lemma map_of_env_append: "map_of (env_map (xs @ ys)) = map_of (env_map xs) ++ map_of (env_map ys)"
proof (induction ys rule: rev_induct)
  case (snoc y ys)
  obtain k v f where "cut_byte (CHR ''='') y = (k, v, f)" by (rule prod_cases3)
  then show ?case using snoc by (auto simp: env_map_append fun_eq_iff map_add_def)
qed (simp add: env_map_def)

lemma env_map_assignments:
  "list_all (\<lambda>(k, v). CHR ''='' \<notin> set k) m \<Longrightarrow> distinct (map fst m) \<Longrightarrow>
    map_of (env_map (map (\<lambda>(k, v). k @ ''='' @ v) m)) = map_of m"
proof (induction m rule: rev_induct)
  case (snoc p m)
  obtain k v where p: "p = (k, v)" by (cases p)
  then have "map_of (env_map [k @ ''='' @ v]) = [k \<mapsto> v]" using snoc.prems(1) by (simp add: env_map_def cut_key)
  moreover have "map_of (m @ [(k, v)]) = (map_of m)(k \<mapsto> v)"
    using snoc.prems(2) p map_add_comm [of "[k \<mapsto> v]" "map_of m"] by (simp add: dom_map_of_conv_image_fst)
  ultimately show ?case using snoc p by (simp add: map_of_env_append)
qed (simp add: env_map_def)

text \<open>C30. A hook sees a variable as the configuration's remoteEnv sets it, else as a secret or --remote-env does, else as
  the probe found it. A remoteEnv of null sets nothing.\<close>

theorem hook_env_precedence:
  assumes "list_all (\<lambda>(k, v). CHR ''='' \<notin> set k) probed" and "distinct (map fst probed)"
    and "list_all (\<lambda>(k, v). CHR ''='' \<notin> set k) remote" and "distinct (map fst remote)"
  shows "map_of (env_map (hook_remote_env probed extra remote)) k =
    (case map_of remote k of
       Some (Some v) \<Rightarrow> Some v
     | _ \<Rightarrow> (case map_of (env_map extra) k of Some v \<Rightarrow> Some v | None \<Rightarrow> map_of probed k))"
proof -
  let ?set = "concat (map (\<lambda>(k, v). case v of Some x \<Rightarrow> [(k, x)] | None \<Rightarrow> []) remote)"
  have c: "concat (map (\<lambda>(k, v). case v of Some x \<Rightarrow> [k @ ''='' @ x] | None \<Rightarrow> []) remote) =
      map (\<lambda>(k, v). k @ ''='' @ v) ?set"
    by (simp add: map_concat comp_def, intro arg_cong [where f = concat] map_cong) (auto split: option.splits)
  have "list_all (\<lambda>(k, v). CHR ''='' \<notin> set k) ?set" using assms(3) by (auto simp: list_all_iff split: option.splits)
  moreover have "map fst ?set = map fst (filter (\<lambda>p. snd p \<noteq> None) remote)"
    by (induction remote) (auto split: option.splits)
  then have "distinct (map fst ?set)" using assms(4) by (simp add: distinct_map_filter)
  moreover have "map_of ?set k = (case map_of remote k of Some (Some v) \<Rightarrow> Some v | _ \<Rightarrow> None)"
    using assms(4)
  proof (induction remote)
    case (Cons p ps)
    obtain k' v where p: "p = (k', v)" by (cases p)
    have n: "map_of (concat (map (\<lambda>(k, v). case v of Some x \<Rightarrow> [(k, x)] | None \<Rightarrow> []) ps)) k' = None"
      using Cons.prems p by (force simp: map_of_eq_None_iff split: option.splits)
    have m: "map_of ps k' = None" using Cons.prems p by (simp add: map_of_eq_None_iff)
    show ?case using Cons.IH Cons.prems n m p by (cases v; cases "k = k'") simp_all
  qed simp
  ultimately have s: "map_of (env_map (map (\<lambda>(k, v). k @ ''='' @ v) ?set)) k =
      (case map_of remote k of Some (Some v) \<Rightarrow> Some v | _ \<Rightarrow> None)"
    using env_map_assignments [of ?set] by simp
  have p: "map_of (env_map (map (\<lambda>(k, v). k @ ''='' @ v) probed)) = map_of probed"
    by (rule env_map_assignments [OF assms(1,2)])
  show ?thesis
    unfolding hook_remote_env_def c map_of_env_append map_add_def s p by (simp split: option.splits)
qed

lemma hook_env_precedence_witness:
  "map_of (env_map (hook_remote_env [(''A'', ''1''), (''B'', ''1'')] [''B=2''] [(''A'', Some ''3''), (''B'', None)])) ''B'' =
    Some ''2''"
proof -
  have "map_of (env_map [''B=2'']) ''B'' = Some ''2''" by code_simp
  then show ?thesis
    using hook_env_precedence [of "[(''A'', ''1''), (''B'', ''1'')]" "[(''A'', Some ''3''), (''B'', None)]" "[''B=2'']" "''B''"]
    by simp
qed

end
