(* ===== verification/StageName.thy ===== *)
theory StageName
  imports GoStrings Prelude
begin

text \<open>
  \<open>EnsureFinalStageName\<close> (\<open>internal/docker/dockerfile.go\<close>): the name of a Dockerfile's last stage, which a build of
  Features extends, and the Dockerfile with a name when it has none. The two regular expressions are written out on the
  bytes: a space is one of the UTF-8 sequences of JavaScript's class. Lines end at a newline, and \<open>^\<close> is after one; the
  space a match takes from the lines before it holds no \<open>FROM\<close> and is left out. BuildKit's reading of the file is a
  parameter.
\<close>

subsection \<open>Space and words\<close>

definition js_spaces :: "string list" where
  "js_spaces =
     [[CHR 0x09], [CHR 0x0A], [CHR 0x0B], [CHR 0x0C], [CHR 0x0D], '' '', [CHR 0xC2, CHR 0xA0], [CHR 0xE1, CHR 0x9A, CHR 0x80],
      [CHR 0xE2, CHR 0x80, CHR 0x80], [CHR 0xE2, CHR 0x80, CHR 0x81], [CHR 0xE2, CHR 0x80, CHR 0x82],
      [CHR 0xE2, CHR 0x80, CHR 0x83], [CHR 0xE2, CHR 0x80, CHR 0x84], [CHR 0xE2, CHR 0x80, CHR 0x85],
      [CHR 0xE2, CHR 0x80, CHR 0x86], [CHR 0xE2, CHR 0x80, CHR 0x87], [CHR 0xE2, CHR 0x80, CHR 0x88],
      [CHR 0xE2, CHR 0x80, CHR 0x89], [CHR 0xE2, CHR 0x80, CHR 0x8A], [CHR 0xE2, CHR 0x80, CHR 0xA8],
      [CHR 0xE2, CHR 0x80, CHR 0xA9], [CHR 0xE2, CHR 0x80, CHR 0xAF], [CHR 0xE2, CHR 0x81, CHR 0x9F],
      [CHR 0xE3, CHR 0x80, CHR 0x80], [CHR 0xEF, CHR 0xBB, CHR 0xBF]]"

definition space_len :: "string \<Rightarrow> nat" where
  "space_len s = (case find (has_prefix s) js_spaces of Some q \<Rightarrow> length q | None \<Rightarrow> 0)"

lemma space_len_bound: "space_len s \<le> length s"
  by (auto simp: space_len_def has_prefix_iff find_Some_iff split: option.split)

function spaces :: "string \<Rightarrow> string \<times> string" where
  "spaces s =
     (if space_len s = 0 then ([], s)
      else (case spaces (drop (space_len s) s) of (a, b) \<Rightarrow> (take (space_len s) s @ a, b)))"
  by pat_completeness auto
termination
proof (relation "measure length")
  show "(drop (space_len s) s, s) \<in> measure length" if "space_len s \<noteq> 0" for s
    using that space_len_bound [of s] by simp
qed simp

declare spaces.simps [simp del]

fun word :: "string \<Rightarrow> string \<times> string" where
  "word [] = ([], [])"
| "word (c # s) = (if space_len (c # s) > 0 then ([], c # s) else (case word s of (a, b) \<Rightarrow> (c # a, b)))"

definition folded :: "string \<Rightarrow> string \<Rightarrow> bool" where
  "folded s p \<longleftrightarrow> map lower_char (take (length p) s) = p"

subsection \<open>FROM lines\<close>

definition ends_line :: "string \<Rightarrow> bool" where
  "ends_line s \<longleftrightarrow> has_prefix s [CHR 0x0D] \<or> has_prefix s [CHR 0xE2, CHR 0x80, CHR 0xA8] \<or> has_prefix s [CHR 0xE2, CHR 0x80, CHR 0xA9]"

fun until_end :: "string \<Rightarrow> string \<times> string" where
  "until_end [] = ([], [])"
| "until_end (c # s) = (if ends_line (c # s) then ([], c # s) else (case until_end s of (a, b) \<Rightarrow> (c # a, b)))"

definition starts_from :: "string \<Rightarrow> bool" where
  "starts_from s = folded (snd (spaces s)) ''from''"

text \<open>The part of a line that \<open>findFromLines\<close> matches, and what follows it.\<close>

definition from_text :: "string \<Rightarrow> string \<times> string" where
  "from_text s = (case spaces s of (sp, r) \<Rightarrow> (case until_end r of (a, b) \<Rightarrow> (sp @ a, b)))"

fun last_from :: "string list \<Rightarrow> (string list \<times> string \<times> string list) option" where
  "last_from [] = None"
| "last_from (l # ls) =
     (case last_from ls of
        Some (p, x, q) \<Rightarrow> Some (l # p, x, q)
      | None \<Rightarrow> if starts_from l then Some ([], l, ls) else None)"

text \<open>\<open>AS\<close>, in any case; the long s folds to an s.\<close>

definition as_len :: "string \<Rightarrow> nat" where
  "as_len s = (if folded s ''as'' then 2 else if folded s (''a'' @ [CHR 0xC5, CHR 0xBF]) then 3 else 0)"

definition stage_label_of :: "string \<Rightarrow> string option" where
  "stage_label_of s =
     (case spaces s of (sp, r) \<Rightarrow>
        (if sp = [] \<or> as_len r = 0 then None
         else (case spaces (drop (as_len r) r) of (sp', r') \<Rightarrow>
           (if sp' = [] \<or> fst (word r') = [] then None else Some (fst (word r'))))))"

text \<open>What stands before the image: a platform, when an image follows it.\<close>

definition platform_part :: "string \<Rightarrow> string \<times> string" where
  "platform_part r =
     (if folded r ''--platform='' then
        (case word (drop 11 r) of (w, r1) \<Rightarrow>
          (case spaces r1 of (sp, r2) \<Rightarrow>
            (if w \<noteq> [] \<and> sp \<noteq> [] \<and> fst (word r2) \<noteq> [] then (take 11 r @ w @ sp, r2) else ([], r))))
      else ([], r))"

text \<open>\<open>fromLineLabel\<close>: what comes before the image, the image, the label and what comes after the image. A \<open>FROM\<close> with
  space behind it decides: when no image follows, only space is left.\<close>

fun from_line_match :: "string \<Rightarrow> (string \<times> string \<times> string option \<times> string) option" where
  "from_line_match [] = None"
| "from_line_match (c # s) =
     (if folded (c # s) ''from'' \<and> fst (spaces (drop 3 s)) \<noteq> [] then
        (case spaces (drop 3 s) of (sp, r) \<Rightarrow>
          (case platform_part r of (p, r1) \<Rightarrow>
            (case word r1 of (img, a) \<Rightarrow>
              (if img = [] then None else Some (take 4 (c # s) @ sp @ p, img, stage_label_of a, a)))))
      else (case from_line_match s of None \<Rightarrow> None | Some (b, x) \<Rightarrow> Some (c # b, x)))"

definition continued :: "string \<Rightarrow> bool" where
  "continued l \<longleftrightarrow> has_suffix (trim_right l ('' '' @ [CHR 0x09])) [CHR 0x5C]"

text \<open>\<open>built_name\<close> is the name BuildKit reads for the last stage. The result is the stage's name and the Dockerfile that
  was written for it, empty when none was.\<close>

definition ensure_final_stage_name :: "(string \<Rightarrow> string) \<Rightarrow> string \<Rightarrow> string \<Rightarrow> (string, string \<times> string) res" where
  "ensure_final_stage_name built_name content d =
     (case last_from (split_byte (CHR 0x0A) content) of
        None \<Rightarrow> Inl ''Error parsing Dockerfile: Dockerfile contains no FROM instructions''
      | Some (p, x, q) \<Rightarrow>
          (case from_text x of (l, rest) \<Rightarrow>
            (if continued l \<and> built_name content \<noteq> [] then Inr (built_name content, [])
             else (case from_line_match l of
                 None \<Rightarrow> Inl ''Error parsing Dockerfile: failed to parse final FROM line''
               | Some (b, img, Some n, a) \<Rightarrow> Inr (n, [])
               | Some (b, img, None, a) \<Rightarrow>
                   Inr (d, join [CHR 0x0A] (p @ (b @ img @ '' AS '' @ d @ a @ rest) # q))))))"

text \<open>The name that is added, and the image of the last FROM line.\<close>

definition auto_stage :: string where
  "auto_stage = ''dev_container_auto_added_stage_label''"

definition final_image :: "string \<Rightarrow> string option" where
  "final_image content =
     Option.bind (last_from (split_byte (CHR 0x0A) content)) (\<lambda>(p, x, q).
       map_option (\<lambda>(b, img, n, a). img) (from_line_match (fst (from_text x))))"

subsection \<open>Text put behind a word\<close>

lemma js_space_shape: "q \<in> set js_spaces \<Longrightarrow> q \<noteq> [] \<and> length q \<le> 3 \<and> (q = '' '' \<or> CHR '' '' \<notin> set q)"
  by (auto simp: js_spaces_def)

lemma find_SomeD: "find P xs = Some x \<Longrightarrow> x \<in> set xs \<and> P x"
  by (induction xs) (auto split: if_splits)

lemma space_len_pos: "0 < space_len s \<longleftrightarrow> (\<exists>q. find (has_prefix s) js_spaces = Some q)"
proof (cases "find (has_prefix s) js_spaces")
  case (Some q)
  then have "q \<noteq> []" using find_SomeD js_space_shape by fast
  then show ?thesis using Some by (simp add: space_len_def)
qed (simp add: space_len_def)

lemma space_len_0: "space_len s = 0 \<longleftrightarrow> (\<forall>q \<in> set js_spaces. \<not> has_prefix s q)"
proof -
  have "space_len s = 0 \<longleftrightarrow> find (has_prefix s) js_spaces = None"
    using space_len_pos [of s] by (cases "find (has_prefix s) js_spaces") auto
  then show ?thesis unfolding find_None_iff by blast
qed

lemma token_in: "0 < space_len s \<Longrightarrow> take (space_len s) s \<in> set js_spaces"
  unfolding space_len_pos using find_SomeD [of "has_prefix s" js_spaces] by (auto simp: space_len_def has_prefix_def)

lemma space_len_take: "take 3 s = take 3 t \<Longrightarrow> space_len s = space_len t"
proof -
  assume e: "take 3 s = take 3 t"
  have "has_prefix s q = has_prefix t q" if "q \<in> set js_spaces" for q
  proof -
    have "take (length q) s = take (length q) (take 3 s)" "take (length q) t = take (length q) (take 3 t)"
      using js_space_shape [OF that] by (auto simp: min_def)
    then show ?thesis by (simp add: has_prefix_def e)
  qed
  then have "find (has_prefix s) js_spaces = find (has_prefix t) js_spaces" by (intro find_cong) auto
  then show ?thesis by (simp add: space_len_def)
qed

lemma space_len_blank [simp]: "space_len (CHR '' '' # s) = 1"
  by (simp add: space_len_def js_spaces_def has_prefix_def)

lemma js_space_found: "q \<in> set js_spaces \<Longrightarrow> find (\<lambda>p. take (length p) (q @ t) = p) js_spaces = Some q"
  unfolding js_spaces_def by (simp only: list.set insert_iff empty_iff) (elim disjE, simp_all)

lemma space_len_token: "0 < space_len s \<Longrightarrow> space_len (take (space_len s) s @ t) = space_len s"
proof -
  assume p: "0 < space_len s"
  have "find (has_prefix (take (space_len s) s @ t)) js_spaces = Some (take (space_len s) s)"
    using js_space_found [OF token_in [OF p], of t] by (simp add: has_prefix_def [abs_def])
  then have "space_len (take (space_len s) s @ t) = length (take (space_len s) s)" by (simp only: space_len_def option.case)
  then show ?thesis using space_len_bound [of s] by simp
qed

lemma space_len_behind:
  assumes "x \<noteq> []" and "space_len (x @ a) = 0"
  shows "space_len (x @ CHR '' '' # t) = 0"
  unfolding space_len_0
proof
  fix q assume q: "q \<in> set js_spaces"
  show "\<not> has_prefix (x @ CHR '' '' # t) q"
  proof (cases "length q \<le> length x")
    case True
    then show ?thesis using assms(2) q by (auto simp: space_len_0 has_prefix_def)
  next
    case False
    then obtain k where k: "length q - length x = Suc k" by (cases "length q - length x") auto
    have "CHR '' '' \<notin> set q" using False assms(1) js_space_shape [OF q] by (cases x) auto
    moreover have "CHR '' '' \<in> set (take (length q) (x @ CHR '' '' # t))" by (simp add: k)
    ultimately show ?thesis unfolding has_prefix_def by metis
  qed
qed

lemma word_split: "word s = (a, b) \<Longrightarrow> s = a @ b \<and> (b = [] \<or> 0 < space_len b)"
  by (induction s arbitrary: a) (auto split: if_splits prod.splits)

lemma word_behind: "word (x @ a) = (x, a) \<Longrightarrow> word (x @ CHR '' '' # t) = (x, CHR '' '' # t)"
proof (induction x)
  case (Cons c x)
  then have "space_len (c # x @ a) = 0" "word (x @ a) = (x, a)" by (auto split: if_splits prod.splits)
  then show ?case using Cons.IH space_len_behind [of "c # x" a t] by simp
qed simp

lemma word_keep:
  "word (x @ b) = (x, b) \<Longrightarrow> take 2 b = take 2 b' \<Longrightarrow> 0 < space_len b' \<Longrightarrow> word (x @ b') = (x, b')"
proof (induction x)
  case Nil
  then show ?case by (cases b') auto
next
  case (Cons c x)
  then have z: "space_len (c # x @ b) = 0" "word (x @ b) = (x, b)" by (auto split: if_splits prod.splits)
  have "take k b = take k b'" if "k \<le> 2" for k
    using arg_cong [OF Cons.prems(2), of "take k"] that by (simp add: min_def)
  then have "take 3 (c # x @ b) = take 3 (c # x @ b')" by (simp add: numeral_3_eq_3 numeral_2_eq_2)
  then have "space_len (c # x @ b') = 0" using z(1) space_len_take by metis
  then show ?case using Cons.IH [OF z(2) Cons.prems(2,3)] by simp
qed

lemma spaces_none: "space_len s = 0 \<Longrightarrow> spaces s = ([], s)"
  by (subst spaces.simps) simp

lemma spaces_some: "0 < space_len s \<Longrightarrow> spaces (drop (space_len s) s) = (a, b) \<Longrightarrow> spaces s = (take (space_len s) s @ a, b)"
  by (subst spaces.simps) simp

lemma spaces_cases:
  assumes "spaces s = (a, b)"
  obtains "space_len s = 0" "a = []" "b = s"
  | t a' r where "0 < space_len s" "s = t @ r" "a = t @ a'" "length t = space_len s" "spaces r = (a', b)" "t \<in> set js_spaces"
proof (cases "space_len s = 0")
  case True
  then show thesis using that(1) assms spaces_none by simp
next
  case False
  obtain a' b' where s: "spaces (drop (space_len s) s) = (a', b')" by (rule prod.exhaust)
  then have "a = take (space_len s) s @ a'" "b' = b" using assms spaces_some [of s] False by auto
  then show thesis using that(2) [of "take (space_len s) s" "drop (space_len s) s" a'] False s space_len_bound [of s] token_in [of s]
    by simp
qed

lemma spaces_split: "spaces s = (a, b) \<Longrightarrow> s = a @ b \<and> space_len b = 0 \<and> set a \<subseteq> \<Union> (set ` set js_spaces)"
proof (induction "length s" arbitrary: s a rule: less_induct)
  case less
  from less.prems show ?case
  proof (cases rule: spaces_cases)
    case (2 t a' r)
    moreover from this have "length r < length s" by simp
    ultimately show ?thesis using less.hyps [of r a'] by auto
  qed auto
qed

lemma spaces_keep:
  "spaces (a @ b) = (a, b) \<Longrightarrow> space_len b' = 0 \<Longrightarrow> spaces (a @ b') = (a, b')"
proof (induction "length a" arbitrary: a rule: less_induct)
  case less
  from less.prems(1) show ?case
  proof (cases rule: spaces_cases)
    case 1
    then show ?thesis using less.prems spaces_none by simp
  next
    case (2 t a' r)
    then have "r = a' @ b" using spaces_split by blast
    then have h: "spaces (a' @ b') = (a', b')" using less.hyps [of a'] 2 less.prems by simp
    have "take (space_len (a @ b)) (a @ b) = t" using 2 by (metis append_eq_conv_conj)
    then have "space_len (t @ a' @ b') = length t" using space_len_token [of "a @ b" "a' @ b'"] 2 by simp
    then show ?thesis using spaces_some [of "t @ a' @ b'" a' b'] h 2 by simp
  qed
qed

subsection \<open>Text put into a FROM line\<close>

lemma folded_take: "length p \<le> length s \<Longrightarrow> folded (s @ t) p = folded s p"
  by (simp add: folded_def)

lemma folded_long: "folded s p \<Longrightarrow> length p \<le> length s"
  unfolding folded_def by (metis length_map length_take min.cobounded2 min.commute nat_le_linear)

lemma folded_blank: "\<not> folded s p \<Longrightarrow> CHR '' '' \<notin> set p \<Longrightarrow> \<not> folded (s @ CHR '' '' # t) p"
proof
  assume n: "\<not> folded s p" and p: "CHR '' '' \<notin> set p" and f: "folded (s @ CHR '' '' # t) p"
  then have "length s < length p" using folded_take not_le by blast
  then obtain k where k: "length p - length s = Suc k" by (cases "length p - length s") auto
  have "lower_char (CHR '' '') \<in> set (map lower_char (take (length p) (s @ CHR '' '' # t)))" by (simp add: k)
  moreover have "lower_char (CHR '' '') = CHR '' ''" by (simp add: lower_char_def is_upper_def bval_def)
  ultimately show False using f p unfolding folded_def by metis
qed

lemma platform_part_split: "platform_part r = (p, r1) \<Longrightarrow> r = p @ r1"
  unfolding platform_part_def
  by (auto split: if_splits prod.splits dest!: word_split spaces_split) (metis append_take_drop_id)+

lemma platform_part_behind:
  assumes "platform_part r = (p, r1)" "word r1 = (img, a)" "img \<noteq> []" "\<not> folded img ''--platform=''"
  shows "platform_part (p @ img @ CHR '' '' # t) = (p, img @ CHR '' '' # t)"
proof (cases "p = []")
  case True
  have "\<not> folded (img @ CHR '' '' # t) ''--platform=''" using folded_blank [OF assms(4)] by simp
  then show ?thesis using True by (simp add: platform_part_def)
next
  case False
  then obtain w r0 sp where f: "folded r ''--platform=''" and w: "word (drop 11 r) = (w, r0)" "w \<noteq> []"
    and sp: "spaces r0 = (sp, r1)" "sp \<noteq> []" and p: "p = take 11 r @ w @ sp"
    using assms(1) by (auto simp: platform_part_def split: if_splits prod.splits)
  have r: "drop 11 r = w @ sp @ img @ a" "r0 = sp @ img @ a" "r1 = img @ a" "space_len (img @ a) = 0"
    using word_split [OF w(1)] spaces_split [OF sp(1)] word_split [OF assms(2)] by auto
  have l: "length (take 11 r) = 11" using folded_long [OF f] by simp
  have s': "spaces (sp @ img @ CHR '' '' # t) = (sp, img @ CHR '' '' # t)"
    using spaces_keep [of sp "img @ a"] sp(1) r space_len_behind [OF assms(3)] by simp
  then have "0 < space_len (sp @ img @ CHR '' '' # t)" using sp(2) spaces_none [of "sp @ img @ CHR '' '' # t"] by fastforce
  moreover have "take 2 (sp @ img @ a) = take 2 (sp @ img @ CHR '' '' # t)"
    using sp(2) assms(3) by (cases sp; cases img; simp add: numeral_2_eq_2 take_Cons' split: if_splits)
  ultimately have w': "word (w @ sp @ img @ CHR '' '' # t) = (w, sp @ img @ CHR '' '' # t)"
    using word_keep [of w "sp @ img @ a"] w(1) r by simp
  have i': "word (img @ CHR '' '' # t) = (img, CHR '' '' # t)" using word_behind assms(2) r by simp
  have "folded (take 11 r @ w @ sp @ img @ CHR '' '' # t) ''--platform=''"
    using f l folded_take [of "''--platform=''" "take 11 r"] folded_take [of "''--platform=''" "take 11 r" "drop 11 r"] by simp
  then show ?thesis
    using w' s' i' w(2) sp(2) assms(3) l by (simp add: platform_part_def p)
qed

text \<open>A match found in a line stays the match when text is put behind its image.\<close>

lemma from_line_match_shape:
  "from_line_match l = Some (b, img, n, a) \<Longrightarrow> l = b @ img @ a \<and> img \<noteq> [] \<and> 5 \<le> length b \<and> n = stage_label_of a"
proof (induction l arbitrary: b)
  case (Cons c s)
  show ?case
  proof (cases "folded (c # s) ''from'' \<and> fst (spaces (drop 3 s)) \<noteq> []")
    case True
    obtain sp r where sp: "spaces (drop 3 s) = (sp, r)" by (rule prod.exhaust)
    obtain p r1 where p: "platform_part r = (p, r1)" by (rule prod.exhaust)
    obtain i a' where w: "word r1 = (i, a')" by (rule prod.exhaust)
    have eq: "b = take 4 (c # s) @ sp @ p" "img = i" "a = a'" "n = stage_label_of a'" "i \<noteq> []"
      using Cons.prems True sp p w by (auto split: if_splits)
    have "drop 3 s = sp @ p @ img @ a"
      using spaces_split [OF sp] platform_part_split [OF p] word_split [OF w] eq by simp
    then have "c # s = b @ img @ a" using eq by simp (metis append_take_drop_id)
    moreover have "length (take 4 (c # s)) = 4" using True folded_long [of "c # s" "''from''"] by simp
    moreover have "1 \<le> length sp" using True sp by (cases sp) auto
    ultimately show ?thesis using eq by simp
  next
    case False
    then show ?thesis using Cons by (auto split: option.splits)
  qed
qed simp

lemma from_line_match_space: "from_line_match l = Some (b, img, n, a) \<Longrightarrow> a = [] \<or> 0 < space_len a"
proof (induction l arbitrary: b)
  case (Cons c s)
  then show ?case by (auto split: if_splits option.splits prod.splits dest: word_split)
qed simp

lemma from_line_match_here:
  assumes "folded (c # u @ s) ''from''" "length u = 3" "spaces s = (sp, r)" "sp \<noteq> []" "platform_part r = (p, r1)"
    "word r1 = (img, a)" "img \<noteq> []"
  shows "from_line_match (c # u @ s) = Some ((c # u) @ sp @ p, img, stage_label_of a, a)"
proof -
  have "drop 3 (u @ s) = s" "take 4 (c # u @ s) = c # u" using assms(2) by simp_all
  then show ?thesis using assms by (simp only: from_line_match.simps fst_conv prod.case if_True if_False simp_thms append_assoc)
qed

lemma from_line_match_behind:
  assumes "\<not> folded img ''--platform=''"
  shows "from_line_match l = Some (b, img, n, a) \<Longrightarrow>
    from_line_match (b @ img @ CHR '' '' # t) = Some (b, img, stage_label_of (CHR '' '' # t), CHR '' '' # t)"
proof (induction l arbitrary: b)
  case (Cons c s)
  note shape = from_line_match_shape [OF Cons.prems]
  show ?case
  proof (cases "folded (c # s) ''from'' \<and> fst (spaces (drop 3 s)) \<noteq> []")
    case True
    obtain sp r where sp: "spaces (drop 3 s) = (sp, r)" by (rule prod.exhaust)
    obtain p r1 where p: "platform_part r = (p, r1)" by (rule prod.exhaust)
    have eq: "b = take 4 (c # s) @ sp @ p" and w: "word r1 = (img, a)"
      using Cons.prems True sp p by (auto split: if_splits prod.splits)
    have r: "r = (p @ img) @ a" "space_len r = 0"
      using spaces_split [OF sp] platform_part_split [OF p] word_split [OF w] by auto
    have d: "drop 3 s = sp @ r" using spaces_split [OF sp] by simp
    obtain u where u: "take 4 (c # s) = c # u" "length u = 3"
      using True folded_long [of "c # s" "''from''"] by simp
    have f: "folded (c # u @ v) ''from''" for v
      using True folded_take [of "''from''" "c # u" v] folded_take [of "''from''" "c # u" "drop 4 (c # s)"] u
        append_take_drop_id [of 4 "c # s"] by simp
    have "space_len ((p @ img) @ CHR '' '' # t) = 0"
      using space_len_behind [of "p @ img" a t] r shape by simp
    then have "spaces (sp @ p @ img @ CHR '' '' # t) = (sp, p @ img @ CHR '' '' # t)"
      using spaces_keep [of sp r] sp d by simp
    moreover have "platform_part (p @ img @ CHR '' '' # t) = (p, img @ CHR '' '' # t)"
      using platform_part_behind [OF p w] shape assms by simp
    moreover have "word (img @ CHR '' '' # t) = (img, CHR '' '' # t)" using w word_split [OF w] word_behind by simp
    ultimately have "from_line_match (c # u @ sp @ p @ img @ CHR '' '' # t) =
        Some ((c # u) @ sp @ p, img, stage_label_of (CHR '' '' # t), CHR '' '' # t)"
      using from_line_match_here [OF f u(2)] True sp shape by (metis fst_conv)
    then show ?thesis unfolding eq u(1) by simp
  next
    case False
    then obtain b' where b': "b = c # b'" and m: "from_line_match s = Some (b', img, n, a)"
      using Cons.prems by (auto split: option.splits)
    note s = from_line_match_shape [OF m]
    have "\<not> (folded (c # b' @ img @ CHR '' '' # t) ''from'' \<and> fst (spaces (drop 3 (b' @ img @ CHR '' '' # t))) \<noteq> [])"
    proof (cases "folded (c # s) ''from''")
      case True
      obtain sp r where sp: "spaces ((drop 3 b' @ img) @ a) = (sp, r)" by (rule prod.exhaust)
      then have "sp = []" using False s True by auto
      then have "space_len ((drop 3 b' @ img) @ a) = 0" using spaces_split [OF sp] by simp
      then have "space_len ((drop 3 b' @ img) @ CHR '' '' # t) = 0" using space_len_behind [of "drop 3 b' @ img"] s by blast
      then show ?thesis using s spaces_none by simp
    next
      case no: False
      have "folded ((c # b') @ v) ''from'' = folded (c # b') ''from''" for v
        by (rule folded_take) (use s in simp)
      from this [of "img @ a"] this [of "img @ CHR '' '' # t"] show ?thesis using no s by simp
    qed
    then show ?thesis unfolding b' append_Cons from_line_match.simps by (simp only: if_False Cons.IH [OF m]) simp
  qed
qed simp

lemma from_line_match_skip:
  "(\<And>c. c \<in> set sp \<Longrightarrow> lower_char c \<noteq> CHR ''f'') \<Longrightarrow>
    from_line_match (sp @ z) = map_option (\<lambda>(b, x). (sp @ b, x)) (from_line_match z)"
proof (induction sp)
  case (Cons c sp)
  then have "\<not> folded (c # sp @ z) ''from''" by (simp add: folded_def)
  then show ?case using Cons by (cases "from_line_match z") auto
qed (cases "from_line_match z"; auto)

lemma spaces_no_from: "spaces s = (sp, r) \<Longrightarrow> c \<in> set sp \<Longrightarrow> lower_char c \<noteq> CHR ''f''"
proof -
  assume "spaces s = (sp, r)" "c \<in> set sp"
  then have "c \<in> \<Union> (set ` set js_spaces)" using spaces_split by blast
  then show "lower_char c \<noteq> CHR ''f''" by (auto simp: js_spaces_def lower_char_def is_upper_def bval_def)
qed

lemma until_end_insert:
  assumes "until_end (y @ z @ w) = (y @ z, w)" and "CHR 0x0D \<notin> set v" "CHR 0xE2 \<notin> set v"
  shows "until_end (y @ CHR '' '' # v @ z @ w) = (y @ CHR '' '' # v @ z, w)"
  using assms(1)
proof (induction y)
  case Nil
  have "until_end (v @ z @ w) = (v @ z, w)"
    using assms(2,3) Nil by (induction v) (auto simp: ends_line_def has_prefix_def)
  then show ?case by (simp add: ends_line_def has_prefix_def)
next
  case (Cons c y)
  then have c: "\<not> ends_line (c # y @ z @ w)" "until_end (y @ z @ w) = (y @ z, w)" by (auto split: if_splits prod.splits)
  then have "\<not> ends_line (c # y @ CHR '' '' # v @ z @ w)"
    by (cases y; cases "tl y") (auto simp: ends_line_def has_prefix_def numeral_3_eq_3 numeral_2_eq_2)
  then show ?case using Cons.IH c by simp
qed

lemma until_end_split: "until_end s = (a, b) \<Longrightarrow> s = a @ b"
  by (induction s arbitrary: a) (auto split: if_splits prod.splits)

lemma last_from_split: "last_from ls = Some (p, x, q) \<Longrightarrow> ls = p @ x # q \<and> starts_from x"
  by (induction ls arbitrary: p) (auto split: option.splits if_splits)

lemma last_from_replace: "last_from ls = Some (p, x, q) \<Longrightarrow> starts_from y \<Longrightarrow> last_from (p @ y # q) = Some (p, y, q)"
  by (induction ls arbitrary: p) (auto split: option.splits if_splits)

lemma auto_stage_space: "space_len (auto_stage @ t) = 0"
  by (simp add: auto_stage_def space_len_0 js_spaces_def has_prefix_def)

lemma auto_stage_word: "a = [] \<or> 0 < space_len a \<Longrightarrow> word (auto_stage @ a) = (auto_stage, a)"
proof -
  assume a: "a = [] \<or> 0 < space_len a"
  have "space_len (c # t) = 0" if "c \<in> set auto_stage" for c t
    using that by (auto simp: auto_stage_def space_len_0 js_spaces_def has_prefix_def)
  then have "word (s @ a) = (s, a)" if "set s \<subseteq> set auto_stage" for s
    using that a by (induction s) (cases a; auto)+
  then show ?thesis by blast
qed

lemma auto_stage_label:
  assumes "a = [] \<or> 0 < space_len a"
  shows "stage_label_of ('' AS '' @ auto_stage @ a) = Some auto_stage"
proof -
  have "spaces (''AS '' @ auto_stage @ a) = ([], ''AS '' @ auto_stage @ a)"
    by (rule spaces_none) (simp add: space_len_0 js_spaces_def has_prefix_def)
  then have "spaces ('' AS '' @ auto_stage @ a) = ('' '', ''AS '' @ auto_stage @ a)"
    using spaces_some [of "'' AS '' @ auto_stage @ a"] by simp
  moreover have "spaces ('' '' @ auto_stage @ a) = ('' '', auto_stage @ a)"
    using spaces_some [of "'' '' @ auto_stage @ a"] spaces_none [OF auto_stage_space [of a]] by simp
  moreover have "as_len (''AS '' @ auto_stage @ a) = 2"
    unfolding as_len_def folded_def by (simp, code_simp)
  ultimately show ?thesis using auto_stage_word [OF assms]
    by (simp add: stage_label_of_def) (simp add: auto_stage_def)
qed

text \<open>The line with the name in it: it is a FROM line still, with the same end, and the name is its label.\<close>

lemma named_line:
  assumes x: "starts_from x" "from_text x = (l, rest)" and m: "from_line_match l = Some (b, img, None, a)"
    and img: "\<not> folded img ''--platform=''"
  defines "v \<equiv> '' AS '' @ auto_stage"
  shows "starts_from (b @ img @ v @ a @ rest) \<and> from_text (b @ img @ v @ a @ rest) = (b @ img @ v @ a, rest) \<and>
    from_line_match (b @ img @ v @ a) = Some (b, img, Some auto_stage, v @ a)"
proof -
  obtain sp r where sp: "spaces x = (sp, r)" by (rule prod.exhaust)
  obtain a0 where a0: "until_end r = (a0, rest)" "l = sp @ a0"
    using x(2) sp by (auto simp: from_text_def split: prod.splits)
  have "map_option (\<lambda>(b, x). (sp @ b, x)) (from_line_match a0) = Some (b, img, None, a)"
    using m a0 from_line_match_skip [of sp a0] spaces_no_from [OF sp] by simp
  then obtain b2 where b2: "from_line_match a0 = Some (b2, img, None, a)" "b = sp @ b2" by auto
  note shape = from_line_match_shape [OF b2(1)]
  have r: "r = (b2 @ img) @ a @ rest" using until_end_split [OF a0(1)] shape by simp
  obtain t where t: "v = CHR '' '' # t" "t = ''AS '' @ auto_stage" by (simp add: v_def)
  have "space_len ((b2 @ img) @ v @ a @ rest) = 0"
    using space_len_behind [of "b2 @ img" "a @ rest"] spaces_split [OF sp] shape r t by simp
  then have s': "spaces (sp @ (b2 @ img) @ v @ a @ rest) = (sp, (b2 @ img) @ v @ a @ rest)"
    using spaces_keep [of sp r] sp spaces_split [OF sp] by simp
  have "folded (b2 @ w) ''from'' = folded b2 ''from''" for w by (rule folded_take) (use shape in simp)
  then have f': "folded (b2 @ img @ v @ a @ rest) ''from''" using x(1) sp r by (simp add: starts_from_def)
  have "CHR 0x0D \<notin> set t" "CHR 0xE2 \<notin> set t" by (simp_all add: t auto_stage_def)
  then have u': "until_end ((b2 @ img) @ v @ a @ rest) = ((b2 @ img) @ v @ a, rest)"
    using until_end_insert [of "b2 @ img" a rest t] a0(1) r t(1) shape by simp
  have "a = [] \<or> 0 < space_len a"
    using from_line_match_space [OF m] .
  then have n: "stage_label_of (v @ a) = Some auto_stage" using auto_stage_label [of a] by (simp add: v_def)
  have "from_line_match (b @ img @ v @ a) = Some (b, img, Some auto_stage, v @ a)"
    using from_line_match_behind [OF img m, of "t @ a"] n t(1) by simp
  moreover have "starts_from (b @ img @ v @ a @ rest)" using s' f' b2(2) by (simp add: starts_from_def)
  moreover have "from_text (b @ img @ v @ a @ rest) = (b @ img @ v @ a, rest)" using s' u' b2(2) by (simp add: from_text_def)
  ultimately show ?thesis by blast
qed

text \<open>C17. A Dockerfile without a name for its last stage is written with one that a second reading finds: the name added is
  the last stage's, and nothing is added again. \<open>built_name\<close> may read it too; the last FROM line has an image.\<close>

theorem added_stage_name_found:
  assumes "ensure_final_stage_name built_name content auto_stage = Inr (n, written)" "written \<noteq> []"
    and "final_image content = Some img" "\<not> folded img ''--platform=''"
    and "built_name written \<in> {[], auto_stage}"
  shows "ensure_final_stage_name built_name written auto_stage = Inr (auto_stage, [])"
proof -
  obtain p x q where l: "last_from (split_byte (CHR 0x0A) content) = Some (p, x, q)"
    using assms(1) by (auto simp: ensure_final_stage_name_def split: option.splits)
  obtain t rest where t: "from_text x = (t, rest)" by (rule prod.exhaust)
  obtain b a where m: "from_line_match t = Some (b, img, None, a)"
    and w: "written = join [CHR 0x0A] (p @ (b @ img @ '' AS '' @ auto_stage @ a @ rest) # q)"
    using assms(1,2,3) l t
    by (auto simp: ensure_final_stage_name_def final_image_def split: option.splits if_splits prod.splits)
  note named = named_line [OF conjunct2 [OF last_from_split [OF l]] t m assms(4)]
  let ?y = "b @ img @ '' AS '' @ auto_stage @ a @ rest"
  have "x = b @ img @ a @ rest"
    using t from_line_match_shape [OF m] by (auto simp: from_text_def split: prod.splits dest!: until_end_split spaces_split)
  moreover have nl: "CHR 0x0A \<notin> set y" if "y \<in> set (p @ x # q)" for y
    using that split_byte_parts [of y "CHR 0x0A" content] last_from_split [OF l] by simp
  moreover have "CHR 0x0A \<notin> set ('' AS '' @ auto_stage)" by (simp add: auto_stage_def)
  ultimately have "CHR 0x0A \<notin> set ?y" using nl [of x] by (simp del: set_append add: set_append)
  then have "\<forall>y \<in> set (p @ ?y # q). CHR 0x0A \<notin> set y" using nl by auto
  then have "split_byte (CHR 0x0A) written = p @ ?y # q" unfolding w by (intro split_byte_join) auto
  moreover have "last_from (p @ ?y # q) = Some (p, ?y, q)" using last_from_replace [OF l] named by simp
  ultimately show ?thesis using named assms(5) by (auto simp: ensure_final_stage_name_def)
qed

lemma added_stage_name_found_witness:
  "let content = ''FROM a'' @ [CHR 0x0A] @ ''RUN b''; written = ''FROM a AS '' @ auto_stage @ [CHR 0x0A] @ ''RUN b''
   in ensure_final_stage_name (\<lambda>s. []) content auto_stage = Inr (auto_stage, written) \<and>
     ensure_final_stage_name (\<lambda>s. []) written auto_stage = Inr (auto_stage, [])"
proof -
  let ?c = "''FROM a'' @ [CHR 0x0A] @ ''RUN b''" and ?w = "''FROM a AS '' @ auto_stage @ [CHR 0x0A] @ ''RUN b''"
  have c: "ensure_final_stage_name (\<lambda>s. []) ?c auto_stage = Inr (auto_stage, ?w)" by code_simp
  have i: "final_image ?c = Some ''a''" by code_simp
  have "\<not> folded ''a'' ''--platform=''" by code_simp
  then show ?thesis using added_stage_name_found [OF c _ i] c by simp
qed

end
