(* ===== verification/ImageBuild.thy ===== *)
theory ImageBuild
  imports FeatureInstall UpCommand Dockerfile StageName
begin

text \<open>
  The builds of images: what \<open>internal/cli/build.go\<close> makes of a Dockerfile or of an image, and the way of \<open>up\<close> by a
  Dockerfile (\<open>fromDockerfile\<close> of \<open>up.go\<close>), with the platform arguments of \<open>image_build_info.go\<close>. The build of a Compose
  project is a parameter, and so are BuildKit's parser and the fetching of the Features of a configuration, which theory
  FeatureInstall has. The environment of \<open>up\<close> serves the build too; of its flags a build reads none. Log lines, and the
  error of opening the engine's client, are left out.
\<close>

subsection \<open>Platforms\<close>

definition join_platform :: "platform_spec \<Rightarrow> string" where
  "join_platform p = join ''/'' (filter (\<lambda>s. s \<noteq> []) [pf_os p, pf_arch p, pf_variant p])"

definition global_buildx_platform_args :: "platform_spec \<Rightarrow> platform_spec \<Rightarrow> string gomap" where
  "global_buildx_platform_args b t =
     [(''BUILDPLATFORM'', join_platform b), (''BUILDOS'', pf_os b), (''BUILDARCH'', pf_arch b), (''BUILDVARIANT'', pf_variant b),
      (''TARGETPLATFORM'', join_platform t), (''TARGETOS'', pf_os t), (''TARGETARCH'', pf_arch t),
      (''TARGETVARIANT'', pf_variant t)]"

text \<open>\<open>buildxPlatformArgs\<close>; the host's platform has no variant.\<close>

definition buildx_platform_args :: "platform_spec \<Rightarrow> string \<Rightarrow> string gomap" where
  "buildx_platform_args host plat =
     global_buildx_platform_args host (if plat \<noteq> [] then parse_platform plat else host)"

subsection \<open>The Dockerfile of a configuration\<close>

definition config_relative_path :: "dev_container \<Rightarrow> string \<Rightarrow> string" where
  "config_relative_path cfg p =
     (if is_abs p then path_clean p else path_join [path_dir (dc_config_file_path cfg), p])"

definition dockerfile_config_path :: "dev_container \<Rightarrow> string" where
  "dockerfile_config_path cfg = config_relative_path cfg (config_dockerfile cfg)"

definition docker_context_path :: "dev_container \<Rightarrow> string" where
  "docker_context_path cfg =
     (if build_context cfg \<noteq> [] then config_relative_path cfg (build_context cfg)
      else path_dir (dockerfile_config_path cfg))"

definition config_build_target :: "dev_container \<Rightarrow> string" where
  "config_build_target cfg = (case dc_build cfg of Some b \<Rightarrow> b_target b | None \<Rightarrow> [])"

definition build_args_from_config :: "dev_container \<Rightarrow> string gomap" where
  "build_args_from_config cfg = (case dc_build cfg of Some b \<Rightarrow> b_args b | None \<Rightarrow> [])"

definition build_options_from_config :: "dev_container \<Rightarrow> string list" where
  "build_options_from_config cfg = (case dc_build cfg of Some b \<Rightarrow> b_options b | None \<Rightarrow> [])"

definition cache_from_for_dockerfile_build :: "string list \<Rightarrow> dev_container \<Rightarrow> string list" where
  "cache_from_for_dockerfile_build flag cfg =
     flag @ (case dc_build cfg of Some b \<Rightarrow> b_cache_from b | None \<Rightarrow> [])"

text \<open>What a build uses of its surroundings besides \<open>build_host\<close>: BuildKit's parser, the removal of a file and of a
  folder, a temporary folder, and the secrets of a file.\<close>

type_synonym parsed_dockerfile = "(string option \<times> (bk_stage list \<times> (string \<times> string option) list list) option) option"

record 'w image_host =
  ih_host :: "'w build_host"
  ih_parse :: "string \<Rightarrow> parsed_dockerfile"
  ih_remove :: "string \<Rightarrow> 'w \<Rightarrow> 'w"
  ih_remove_all :: "string \<Rightarrow> 'w \<Rightarrow> 'w"
  ih_temp_dir :: "'w \<Rightarrow> (string, string) res \<times> 'w"
  ih_platform :: platform_spec
  ih_read_secrets :: "string \<Rightarrow> (string, string list) res"

definition final_stage_name :: "('w, 'z) image_host_scheme \<Rightarrow> string \<Rightarrow> string" where
  "final_stage_name ih content =
     (case ih_parse ih content of
        Some (syntax, Some (stages, meta)) \<Rightarrow> (if stages = [] then [] else bk_name (last stages))
      | _ \<Rightarrow> [])"

text \<open>The label group of \<open>fromLineLabel\<close> on a stage's source.\<close>

definition source_label :: "string \<Rightarrow> string option" where
  "source_label s = map_option (\<lambda>(b, img, n, a). case n of Some l \<Rightarrow> l | None \<Rightarrow> []) (from_line_match s)"

record dockerfile_prep =
  dp_path :: string
  dp_stage_name :: string
  dp_parsed :: dockerfile
  dp_temporary :: bool

definition copy_dockerignore :: "'w build_host \<Rightarrow> string \<Rightarrow> string \<Rightarrow> 'w \<Rightarrow> 'w" where
  "copy_dockerignore bh orig new w =
     (case bh_read bh (orig @ ''.dockerignore'') w of
        Inl e \<Rightarrow> w
      | Inr data \<Rightarrow> snd (bh_write bh (new @ ''.dockerignore'') data w))"

definition prepare_dockerfile_build ::
  "'w image_host \<Rightarrow> dev_container \<Rightarrow> 'w \<Rightarrow> (string, dockerfile_prep) res \<times> 'w" where
  "prepare_dockerfile_build ih cfg w =
     (if config_dockerfile cfg = [] then (Inl ''no Dockerfile specified'', w)
      else (let path = dockerfile_config_path cfg in
        case bh_read (ih_host ih) path w of
          Inl e \<Rightarrow> (Inl (''read Dockerfile: '' @ e), w)
        | Inr content \<Rightarrow>
            (let df = extract_dockerfile source_label (ih_parse ih content) in
             if config_build_target cfg \<noteq> []
             then (Inr \<lparr>dp_path = path, dp_stage_name = config_build_target cfg, dp_parsed = df, dp_temporary = False\<rparr>, w)
             else (case ensure_final_stage_name (final_stage_name ih) content auto_stage of
                 Inl e \<Rightarrow> (Inl e, w)
               | Inr (n, modified) \<Rightarrow>
                   (if modified = []
                    then (Inr \<lparr>dp_path = path, dp_stage_name = n, dp_parsed = df, dp_temporary = False\<rparr>, w)
                    else (let tmp = path @ ''.devcontainer.build'' in
                      case bh_write (ih_host ih) tmp modified w of
                        (Some e, w1) \<Rightarrow> (Inl (''write build dockerfile: '' @ e), w1)
                      | (None, w1) \<Rightarrow>
                          (Inr \<lparr>dp_path = tmp, dp_stage_name = n, dp_parsed = df, dp_temporary = True\<rparr>,
                           copy_dockerignore (ih_host ih) path tmp w1)))))))"

definition cleanup_prep :: "'w image_host \<Rightarrow> dockerfile_prep \<Rightarrow> 'w \<Rightarrow> 'w" where
  "cleanup_prep ih p w =
     (if dp_temporary p then ih_remove ih (dp_path p @ ''.dockerignore'') (ih_remove ih (dp_path p) w) else w)"

text \<open>The base image: \<open>image_fuel\<close> is enough for every Dockerfile (theory Dockerfile).\<close>

definition dockerfile_base_image :: "'w image_host \<Rightarrow> dev_container \<Rightarrow> string \<Rightarrow> dockerfile \<Rightarrow> string" where
  "dockerfile_base_image ih cfg plat df =
     (let r = new_resolver df (build_args_from_config cfg) (buildx_platform_args (ih_platform ih) plat)
      in case find_base_image r (image_fuel r) (config_build_target cfg) of Some img \<Rightarrow> img | None \<Rightarrow> [])"

definition dockerfile_image_metadata :: "dev_container \<Rightarrow> entry list \<Rightarrow> entry list \<Rightarrow> entry \<Rightarrow> entry list" where
  "dockerfile_image_metadata cfg base stage config_label =
     base @ stage @ (if dc_features cfg = [] then [config_label] else [])"

definition docker_build_failed :: "cmd_output \<Rightarrow> string option" where
  "docker_build_failed r =
     (case r of (sout, serr, code) \<Rightarrow>
        if code \<noteq> 0 then Some (''Command failed: docker build (exit '' @ int_text code @ ''): '' @ serr) else None)"

text \<open>The metadata a Dockerfile build finds, on its base image and in its stage.\<close>

definition found_metadata :: "'w up_env \<Rightarrow> string \<Rightarrow> dockerfile_prep \<Rightarrow> 'w \<Rightarrow> (entry list \<times> entry list) \<times> 'w" where
  "found_metadata u base p w =
     (let entries = (\<lambda>l. fst (label_entries (ue_dec u) (case l of Some m \<Rightarrow> m | None \<Rightarrow> []))) in
      case image_labels_ensuring_present (ue_api u) base w of
        (l, w1) \<Rightarrow> ((entries l, entries (stage_labels (dp_parsed p) (dp_stage_name p))), w1))"

subsection \<open>The way of up by a Dockerfile\<close>

text \<open>The flags of \<open>up\<close> for its builds; the secrets are those of the file. \<open>fetch\<close> gets the configuration.\<close>

record up_build_flags =
  ub_cache_from :: "string list"
  ub_cache_to :: string
  ub_no_cache :: bool
  ub_secrets :: "string list"
  ub_exclude_ids :: "string list"

definition up_feature_build_options ::
  "'w up_env \<Rightarrow> up_build_flags \<Rightarrow> host_ctx \<Rightarrow> dev_container \<Rightarrow> string \<Rightarrow> feature_build_options" where
  "up_feature_build_options u fl hs cfg plat =
     \<lparr>fb_no_cache = False, fb_host_sub = Some hs, fb_cache_from = [], fb_cache_to = [], fb_labels = [], fb_platform = plat,
      fb_push = False, fb_output = [], fb_secrets = ub_secrets fl, fb_container_env = dc_container_env cfg,
      fb_skip_customizations = False, fb_additional_metadata = [config_metadata_entry cfg False],
      fb_label_metadata = [ue_config_label u],
      fb_frozen = uo_experimental_frozen (ue_opts u) \<or> uo_frozen_lockfile (ue_opts u),
      fb_no_lockfile = uo_no_lockfile (ue_opts u), fb_config_path = dc_config_file_path cfg,
      fb_exclude_ids = ub_exclude_ids fl, fb_override_order = dc_override_feature_install_order cfg\<rparr>"

definition up_install ::
  "'w image_host \<Rightarrow> (dev_container \<Rightarrow> 'w feature_fetch) \<Rightarrow> up_build_flags \<Rightarrow> host_ctx \<Rightarrow> bool \<Rightarrow> 'w up_env \<Rightarrow> string \<Rightarrow>
   dev_container \<Rightarrow> string \<Rightarrow> 'w \<Rightarrow> (up_error, string list) res \<times> 'w" where
  "up_install ih fetch fl hs use_buildx u base cfg plat w =
     extend_image_with_features (ih_host ih) u (fetch cfg) base use_buildx []
       (up_feature_build_options u fl hs cfg plat) w"

definition up_dockerfile_build ::
  "'w up_env \<Rightarrow> up_build_flags \<Rightarrow> dev_container \<Rightarrow> bool \<Rightarrow> dockerfile_prep \<Rightarrow> string \<Rightarrow> entry list \<Rightarrow> string list \<Rightarrow> build_options" where
  "up_dockerfile_build u fl cfg use_buildx p name metadata env =
     (plain_build (dp_path p) (docker_context_path cfg) [name])
       \<lparr>bo_target := dp_stage_name p, bo_build_args := build_args_from_config cfg,
        bo_extra_args := build_options_from_config cfg,
        bo_cache_from := cache_from_for_dockerfile_build (ub_cache_from fl) cfg,
        bo_labels := image_label_args (ue_ft u) metadata, bo_no_cache := ub_no_cache fl, bo_use_buildx := use_buildx,
        bo_cache_to := ub_cache_to fl, bo_env := env\<rparr>"

text \<open>The build of the prepared Dockerfile, the Features on top of it, and the container.\<close>

definition from_prepared ::
  "'w image_host \<Rightarrow> (dev_container \<Rightarrow> 'w feature_fetch) \<Rightarrow> up_build_flags \<Rightarrow> host_ctx \<Rightarrow> dockerfile_prep \<Rightarrow> 'w up_env \<Rightarrow>
   dev_container \<Rightarrow> workspace_config \<Rightarrow> string \<Rightarrow> string list \<Rightarrow> bool \<Rightarrow> 'w \<Rightarrow> (up_error, string) res \<times> 'w" where
  "from_prepared ih fetch fl hs p u cfg wc folder idl use_buildx w =
     (let name = folder_image_name (ue_ulow u) folder;
          base = dockerfile_base_image ih cfg (uo_platform (ue_opts u)) (dp_parsed p);
          done = bh_auth_done (ih_host ih)
      in case found_metadata u base p w of
           ((base_md, stage_md), w1) \<Rightarrow>
             (case bh_auth (ih_host ih) (collect_build_registries base [name]
                 (cache_from_for_dockerfile_build (ub_cache_from fl) cfg) (ub_cache_to fl)) w1 of
                (env, w2) \<Rightarrow>
                  (case client_build (ue_run u) (ue_client u) (up_dockerfile_build u fl cfg use_buildx p name
                      (dockerfile_image_metadata cfg base_md stage_md (ue_config_label u)) env) w2 of
                     (Inl e, w3) \<Rightarrow> (Inl (UpText e), done w3)
                   | (Inr r, w3) \<Rightarrow>
                       (case docker_build_failed r of
                          Some e \<Rightarrow> (Inl (UpText e), done w3)
                        | None \<Rightarrow>
                            (case (if dc_features cfg = [] then (Inr [], w3)
                                 else up_install ih fetch fl hs use_buildx u name cfg [] w3) of
                               (Inl e, w4) \<Rightarrow> (Inl (UpWrapped ''install features: '' e), done w4)
                             | (Inr names, w4) \<Rightarrow>
                                 (case finish_container u (case names of n # ns \<Rightarrow> n | [] \<Rightarrow> name) cfg wc folder idl
                                     (\<lambda>w n. (True, w)) w4 of
                                    (r', w5) \<Rightarrow> (r', done w5)))))))"

definition from_dockerfile ::
  "'w image_host \<Rightarrow> (dev_container \<Rightarrow> 'w feature_fetch) \<Rightarrow> up_build_flags \<Rightarrow> host_ctx \<Rightarrow> 'w up_env \<Rightarrow> dev_container \<Rightarrow>
   workspace_config \<Rightarrow> string \<Rightarrow> string list \<Rightarrow> bool \<Rightarrow> 'w \<Rightarrow> (up_error, string) res \<times> 'w" where
  "from_dockerfile ih fetch fl hs u cfg wc folder idl use_buildx w =
     (case prepare_dockerfile_build ih cfg w of
        (Inl e, w1) \<Rightarrow> (Inl (UpText e), w1)
      | (Inr p, w1) \<Rightarrow>
          (case from_prepared ih fetch fl hs p u cfg wc folder idl use_buildx w1 of
             (r, w2) \<Rightarrow> (r, cleanup_prep ih p w2)))"

text \<open>The command with these ways.\<close>

definition up_with_builds ::
  "'w image_host \<Rightarrow> (dev_container \<Rightarrow> 'w feature_fetch) \<Rightarrow> up_build_flags \<Rightarrow> host_ctx \<Rightarrow> 'w up_host \<Rightarrow> 'w up_host" where
  "up_with_builds ih fetch fl hs h =
     h\<lparr>uh_install := up_install ih fetch fl hs, uh_dockerfile := from_dockerfile ih fetch fl hs\<rparr>"

subsection \<open>What build makes\<close>

record build_cmd_opts =
  bc_workspace_folder :: string
  bc_config_path :: string
  bc_log_level :: string
  bc_log_format :: string
  bc_no_cache :: bool
  bc_image_names :: "string list"
  bc_cache_from :: "string list"
  bc_cache_to :: string
  bc_buildkit :: string
  bc_platform :: string
  bc_push :: bool
  bc_labels :: "string list"
  bc_output :: string
  bc_additional_features :: string
  bc_skip_customizations :: bool
  bc_experimental_lockfile :: bool
  bc_experimental_frozen :: bool
  bc_no_lockfile :: bool
  bc_frozen_lockfile :: bool
  bc_secrets_file :: string
  bc_exclude_ids :: "string list"

definition build_flag_conflict :: "build_cmd_opts \<Rightarrow> bool \<Rightarrow> bool \<Rightarrow> string" where
  "build_flag_conflict bc use_buildx compose =
     (if (bc_platform bc \<noteq> [] \<or> bc_push bc) \<and> \<not> use_buildx then ''--platform or --push require BuildKit enabled.''
      else if bc_output bc \<noteq> [] \<and> bc_push bc then ''--push true cannot be used with --output.''
      else if \<not> compose then []
      else if bc_platform bc \<noteq> [] \<or> bc_push bc then ''--platform or --push not supported.''
      else if bc_output bc \<noteq> [] then ''--output not supported.''
      else if bc_cache_to bc \<noteq> [] then ''--cache-to not supported.''
      else [])"

definition image_names_or :: "string list \<Rightarrow> string \<Rightarrow> string list" where
  "image_names_or names fallback = (if names = [] then [fallback] else names)"

definition dockerfile_base_export :: "build_cmd_opts \<Rightarrow> dev_container \<Rightarrow> string \<times> bool" where
  "dockerfile_base_export bc cfg = (if dc_features cfg \<noteq> [] then ([], False) else (bc_output bc, bc_push bc))"

definition buildx_secrets :: "string list \<Rightarrow> bool \<Rightarrow> string list" where
  "buildx_secrets secrets use_buildx = (if use_buildx then secrets else [])"

text \<open>\<open>checkLegacyFeatures\<close>: the first Feature refused, in the order Go walks them.\<close>

definition legacy_name :: "string \<Rightarrow> string" where
  "legacy_name i = (case last_index_byte (CHR '':'') i of Some n \<Rightarrow> take n i | None \<Rightarrow> i)"

definition check_legacy_features :: "json gomap \<Rightarrow> container_error option" where
  "check_legacy_features fs =
     map_option (\<lambda>i. container_error_of (legacy_feature_text i))
       (find (\<lambda>i. classify_id i = SourceLegacyShorthand \<and> \<not> is_known_legacy_feature (legacy_name i)) (map fst fs))"

datatype image_build = ImageAsIs | ImageWithFeatures | ImageExported | ImageRelabeled

definition image_build_for :: "dev_container \<Rightarrow> build_cmd_opts \<Rightarrow> image_build" where
  "image_build_for cfg bc =
     (if dc_features cfg \<noteq> [] then ImageWithFeatures
      else if bc_platform bc \<noteq> [] \<or> bc_push bc \<or> bc_output bc \<noteq> [] then ImageExported
      else if bc_image_names bc \<noteq> [] then ImageRelabeled
      else ImageAsIs)"

text \<open>\<open>featureBuildOptions\<close> of the build; the flag for the frozen lockfile is the folded one.\<close>

definition cmd_feature_build_options ::
  "'w image_host \<Rightarrow> 'w up_env \<Rightarrow> build_cmd_opts \<Rightarrow> host_ctx \<Rightarrow> dev_container \<Rightarrow> feature_build_options" where
  "cmd_feature_build_options ih u bc hs cfg =
     \<lparr>fb_no_cache = bc_no_cache bc, fb_host_sub = Some hs, fb_cache_from = bc_cache_from bc, fb_cache_to = bc_cache_to bc,
      fb_labels = bc_labels bc, fb_platform = bc_platform bc, fb_push = bc_push bc, fb_output = bc_output bc,
      fb_secrets = (if bc_secrets_file bc = [] then []
        else (case ih_read_secrets ih (bc_secrets_file bc) of Inr s \<Rightarrow> s | Inl e \<Rightarrow> [])),
      fb_container_env = dc_container_env cfg, fb_skip_customizations = bc_skip_customizations bc,
      fb_additional_metadata = [config_metadata_entry cfg False], fb_label_metadata = [ue_config_label u],
      fb_frozen = bc_experimental_frozen bc, fb_no_lockfile = bc_no_lockfile bc,
      fb_config_path = dc_config_file_path cfg, fb_exclude_ids = bc_exclude_ids bc,
      fb_override_order = dc_override_feature_install_order cfg\<rparr>"

definition cmd_dockerfile_build ::
  "build_cmd_opts \<Rightarrow> dev_container \<Rightarrow> bool \<Rightarrow> dockerfile_prep \<Rightarrow> string list \<Rightarrow> string list \<Rightarrow> string list \<Rightarrow> string list \<Rightarrow>
   build_options" where
  "cmd_dockerfile_build bc cfg use_buildx p names label_args env secrets =
     (plain_build (dp_path p) (docker_context_path cfg) names)
       \<lparr>bo_target := dp_stage_name p, bo_build_args := build_args_from_config cfg,
        bo_cache_from := cache_from_for_dockerfile_build (bc_cache_from bc) cfg, bo_labels := bc_labels bc @ label_args,
        bo_no_cache := bc_no_cache bc, bo_extra_args := build_options_from_config cfg, bo_use_buildx := use_buildx,
        bo_platform := bc_platform bc, bo_push := snd (dockerfile_base_export bc cfg),
        bo_output := fst (dockerfile_base_export bc cfg), bo_cache_to := bc_cache_to bc, bo_env := env,
        bo_secrets := secrets\<rparr>"

definition cmd_build_secrets :: "'w image_host \<Rightarrow> build_cmd_opts \<Rightarrow> bool \<Rightarrow> (string, string list) res" where
  "cmd_build_secrets ih bc use_buildx =
     (if bc_secrets_file bc = [] then Inr []
      else (case ih_read_secrets ih (bc_secrets_file bc) of
          Inl e \<Rightarrow> Inl (''read secrets file: '' @ e)
        | Inr s \<Rightarrow> Inr (buildx_secrets s use_buildx)))"

text \<open>\<open>folder\<close> is the workspace folder, resolved.\<close>

definition build_prepared ::
  "'w image_host \<Rightarrow> (dev_container \<Rightarrow> 'w feature_fetch) \<Rightarrow> 'w up_env \<Rightarrow> build_cmd_opts \<Rightarrow> dockerfile_prep \<Rightarrow> dev_container \<Rightarrow>
   host_ctx \<Rightarrow> string \<Rightarrow> bool \<Rightarrow> 'w \<Rightarrow> (up_error, string list) res \<times> 'w" where
  "build_prepared ih fetch u bc p cfg hs folder use_buildx w =
     (let base = dockerfile_base_image ih cfg (bc_platform bc) (dp_parsed p);
          names = image_names_or (bc_image_names bc) (folder_image_name (ue_ulow u) folder);
          done = bh_auth_done (ih_host ih)
      in case found_metadata u base p w of
           ((base_md, stage_md), w1) \<Rightarrow>
             (let label_args = image_label_args (ue_ft u) (dockerfile_image_metadata cfg base_md stage_md (ue_config_label u)) in
              case bh_auth (ih_host ih) (collect_build_registries base names
                  (cache_from_for_dockerfile_build (bc_cache_from bc) cfg) (bc_cache_to bc)) w1 of
                (env, w2) \<Rightarrow>
                  (case cmd_build_secrets ih bc use_buildx of
                     Inl e \<Rightarrow> (Inl (UpText e), done w2)
                   | Inr secrets \<Rightarrow>
                       (case client_build (ue_run u) (ue_client u)
                           (cmd_dockerfile_build bc cfg use_buildx p names label_args env secrets) w2 of
                          (Inl e, w3) \<Rightarrow> (Inl (UpText e), done w3)
                        | (Inr r, w3) \<Rightarrow>
                            (case docker_build_failed r of
                               Some e \<Rightarrow> (Inl (UpText e), done w3)
                             | None \<Rightarrow>
                                 (case (if dc_features cfg = [] then (Inr names, w3)
                                      else extend_image_with_features (ih_host ih) u (fetch cfg) (hd names) use_buildx names
                                        (cmd_feature_build_options ih u bc hs cfg) w3) of
                                    (r', w4) \<Rightarrow> (r', done w4)))))))"

definition build_dockerfile ::
  "'w image_host \<Rightarrow> (dev_container \<Rightarrow> 'w feature_fetch) \<Rightarrow> 'w up_env \<Rightarrow> build_cmd_opts \<Rightarrow> dev_container \<Rightarrow> host_ctx \<Rightarrow>
   string \<Rightarrow> bool \<Rightarrow> 'w \<Rightarrow> (up_error, string list) res \<times> 'w" where
  "build_dockerfile ih fetch u bc cfg hs folder use_buildx w =
     (case prepare_dockerfile_build ih cfg w of
        (Inl e, w1) \<Rightarrow> (Inl (UpText e), w1)
      | (Inr p, w1) \<Rightarrow>
          (case build_prepared ih fetch u bc p cfg hs folder use_buildx w1 of (r, w2) \<Rightarrow> (r, cleanup_prep ih p w2)))"

subsection \<open>The image of an image configuration\<close>

text \<open>The image, pulled when it is not there.\<close>

definition present_image :: "'w up_env \<Rightarrow> string \<Rightarrow> 'w \<Rightarrow> (string, image_info) res \<times> 'w" where
  "present_image u ref w =
     (case inspect_image (ue_api u) ref w of
        (Inr i, w1) \<Rightarrow> (Inr i, w1)
      | (Inl e, w1) \<Rightarrow>
          (case pull_image (ue_api u) ref w1 of
             (Some e', w2) \<Rightarrow> (Inl (''image '' @ ue_quote u ref @ '' not found locally and pull failed: '' @ e'), w2)
           | (None, w2) \<Rightarrow>
               (case inspect_image (ue_api u) ref w2 of
                  (Inl e', w3) \<Rightarrow> (Inl (''inspect image '' @ ue_quote u ref @ '': '' @ e'), w3)
                | (Inr i, w3) \<Rightarrow> (Inr i, w3))))"

text \<open>A build of \<open>FROM\<close> the image alone, in a folder of its own that goes with it.\<close>

definition with_from_file ::
  "'w image_host \<Rightarrow> string \<Rightarrow> (string \<Rightarrow> string \<Rightarrow> 'w \<Rightarrow> (up_error, 'a) res \<times> 'w) \<Rightarrow> 'w \<Rightarrow> (up_error, 'a) res \<times> 'w" where
  "with_from_file ih ref f w =
     (case ih_temp_dir ih w of
        (Inl e, w1) \<Rightarrow> (Inl (UpText (''create temp dir: '' @ e)), w1)
      | (Inr dir, w1) \<Rightarrow>
          (let file = path_join [dir, ''Dockerfile''] in
           case bh_write (ih_host ih) file (''FROM '' @ ref @ line_feed) w1 of
             (Some e, w2) \<Rightarrow> (Inl (UpText (''write temp Dockerfile: '' @ e)), ih_remove_all ih dir w2)
           | (None, w2) \<Rightarrow> (case f file dir w2 of (r, w3) \<Rightarrow> (r, ih_remove_all ih dir w3))))"

definition export_image ::
  "'w image_host \<Rightarrow> 'w up_env \<Rightarrow> build_cmd_opts \<Rightarrow> bool \<Rightarrow> string list \<Rightarrow> string list \<Rightarrow> string \<Rightarrow> string \<Rightarrow> 'w \<Rightarrow>
   (up_error, string list) res \<times> 'w" where
  "export_image ih u bc use_buildx names label_args file dir w =
     (case bh_auth (ih_host ih) (collect_build_registries [] names (bc_cache_from bc) (bc_cache_to bc)) w of
        (env, w1) \<Rightarrow>
          (case client_build (ue_run u) (ue_client u)
              ((plain_build file dir names)
                 \<lparr>bo_labels := bc_labels bc @ label_args, bo_use_buildx := use_buildx, bo_platform := bc_platform bc,
                  bo_push := bc_push bc, bo_output := bc_output bc, bo_cache_from := bc_cache_from bc,
                  bo_cache_to := bc_cache_to bc, bo_env := env\<rparr>) w1 of
             (Inl e, w2) \<Rightarrow> (Inl (UpText (''build image: '' @ e)), bh_auth_done (ih_host ih) w2)
           | (Inr r, w2) \<Rightarrow>
               ((case docker_build_failed r of Some e \<Rightarrow> Inl (UpText e) | None \<Rightarrow> Inr names), bh_auth_done (ih_host ih) w2)))"

fun tag_all :: "'w up_env \<Rightarrow> string \<Rightarrow> string list \<Rightarrow> 'w \<Rightarrow> string option \<times> 'w" where
  "tag_all u ref [] w = (None, w)"
| "tag_all u ref (n # ns) w =
     (case client_tag (ue_run u) (ue_client u) ref n w of
        (Some e, w1) \<Rightarrow> (Some (''build and tag image '' @ ue_quote u n @ '': '' @ e), w1)
      | (None, w1) \<Rightarrow> tag_all u ref ns w1)"

text \<open>When the build that adds the label ends with a failure, the image is given the names as it is.\<close>

definition relabel_image ::
  "'w up_env \<Rightarrow> build_cmd_opts \<Rightarrow> string \<Rightarrow> bool \<Rightarrow> string list \<Rightarrow> string list \<Rightarrow> string \<Rightarrow> string \<Rightarrow> 'w \<Rightarrow>
   (up_error, string list) res \<times> 'w" where
  "relabel_image u bc ref use_buildx names label_args file dir w =
     (case client_build (ue_run u) (ue_client u)
         ((plain_build file dir names)\<lparr>bo_labels := bc_labels bc @ label_args, bo_use_buildx := use_buildx\<rparr>) w of
        (Inl e, w1) \<Rightarrow> (Inl (UpText (''build image: '' @ e)), w1)
      | (Inr (sout, serr, code), w1) \<Rightarrow>
          (if code = 0 then (Inr names, w1)
           else (case tag_all u ref (bc_image_names bc) w1 of
               (Some e, w2) \<Rightarrow> (Inl (UpText e), w2)
             | (None, w2) \<Rightarrow> (Inr names, w2))))"

definition build_image ::
  "'w image_host \<Rightarrow> (dev_container \<Rightarrow> 'w feature_fetch) \<Rightarrow> 'w up_env \<Rightarrow> build_cmd_opts \<Rightarrow> dev_container \<Rightarrow> host_ctx \<Rightarrow>
   string \<Rightarrow> bool \<Rightarrow> 'w \<Rightarrow> (up_error, string list) res \<times> 'w" where
  "build_image ih fetch u bc cfg hs folder use_buildx w =
     (if dc_image cfg = [] then (Inl (UpText ''no image specified in devcontainer.json''), w)
      else (case check_legacy_features (dc_features cfg) of
          Some e \<Rightarrow> (Inl (UpContainerError e), w)
        | None \<Rightarrow>
            (let folder_image = folder_image_name (ue_ulow u) folder;
                 names = image_names_or (bc_image_names bc) folder_image;
                 feature_names = image_names_or (bc_image_names bc) (folder_image @ ''-features'')
             in case present_image u (dc_image cfg) w of
                  (Inl e, w1) \<Rightarrow> (Inl (UpText e), w1)
                | (Inr i, w1) \<Rightarrow>
                    (let label_args = image_label_args (ue_ft u) (image_entries u (Some i) @ [ue_config_label u]) in
                     case image_build_for cfg bc of
                       ImageWithFeatures \<Rightarrow>
                         extend_image_with_features (ih_host ih) u (fetch cfg) (dc_image cfg) use_buildx feature_names
                           (cmd_feature_build_options ih u bc hs cfg) w1
                     | ImageExported \<Rightarrow>
                         with_from_file ih (dc_image cfg) (export_image ih u bc use_buildx feature_names label_args) w1
                     | ImageRelabeled \<Rightarrow>
                         with_from_file ih (dc_image cfg) (relabel_image u bc (dc_image cfg) use_buildx names label_args) w1
                     | ImageAsIs \<Rightarrow> (Inr names, w1)))))"

subsection \<open>The command\<close>

definition build_lockfile_error :: "build_cmd_opts \<Rightarrow> string option" where
  "build_lockfile_error bc =
     (if \<not> bc_no_lockfile bc then None
      else if bc_frozen_lockfile bc then Some ''--no-lockfile and --frozen-lockfile are mutually exclusive.''
      else if bc_experimental_frozen bc then Some ''--no-lockfile and --experimental-frozen-lockfile are mutually exclusive.''
      else if bc_experimental_lockfile bc then Some ''--no-lockfile and --experimental-lockfile are mutually exclusive.''
      else None)"

definition build_enums :: "build_cmd_opts \<Rightarrow> enum_flag list" where
  "build_enums bc = map (\<lambda>(f, v, cs). \<lparr>ef_flag = f, ef_value = v, ef_choices = cs\<rparr>)
     [(''log-level'', bc_log_level bc, [''info'', ''debug'', ''trace'']),
      (''log-format'', bc_log_format bc, [''text'', ''json'']),
      (''buildkit'', bc_buildkit bc, [''auto'', ''never''])]"

definition fold_frozen_lockfile :: "build_cmd_opts \<Rightarrow> build_cmd_opts" where
  "fold_frozen_lockfile bc = bc\<lparr>bc_experimental_frozen := bc_experimental_frozen bc \<or> bc_frozen_lockfile bc\<rparr>"

text \<open>\<open>built[0]\<close> of no image is a panic.\<close>

definition build_result_image_name :: "bool \<Rightarrow> string list \<Rightarrow> string list \<Rightarrow> json option" where
  "build_result_image_name compose names built =
     (if compose \<and> names = [] then (case built of b # bs \<Rightarrow> Some (JStr b) | [] \<Rightarrow> None) else Some (strings_json built))"

definition resolve_path :: "string \<Rightarrow> string \<Rightarrow> string" where
  "resolve_path cwd p = (if is_abs p then p else path_join [cwd, p])"

text \<open>The configuration that is built: loaded, with the additional Features, its entry of the label in the environment.\<close>

definition load_for_build ::
  "'w up_host \<Rightarrow> build_cmd_opts \<Rightarrow> string \<Rightarrow> (string, load_result \<times> dev_container \<times> build_cmd_opts) res" where
  "load_for_build h bc folder =
     (case load_dev_container_config (ue_ulow (uh_env h)) (uh_parse h) (uh_names h) (uh_host h) folder
         (if bc_config_path bc = [] then [] else resolve_path (uh_cwd h) (bc_config_path bc)) [] of
        Inl e \<Rightarrow> Inl (uh_load_text h e)
      | Inr l \<Rightarrow>
          (case merge_additional_features (uh_jsonc h) (dc_features (lr_config l)) (bc_additional_features bc) of
             Inl e \<Rightarrow> Inl (uh_additional_text h)
           | Inr (features, excluded) \<Rightarrow>
               Inr (l, (lr_config l)\<lparr>dc_features := features\<rparr>, bc\<lparr>bc_exclude_ids := excluded\<rparr>)))"

definition build_result :: "'w up_host \<Rightarrow> build_cmd_opts \<Rightarrow> bool \<Rightarrow> (up_error, string list) res \<Rightarrow> command_result" where
  "build_result h bc compose r =
     (case r of
        Inl e \<Rightarrow>
          (if error_cause e = UpPanic then Crashed
           else Failed (command_error_output (failure_of (uh_tx h) e) ''An error occurred building the container''))
      | Inr names \<Rightarrow>
          (case build_result_image_name compose (bc_image_names bc) names of
             None \<Rightarrow> Crashed
           | Some n \<Rightarrow> Done [(''outcome'', JStr ''success''), (''imageName'', n), (''ociAuthDiagnostics'', uh_oci_auth h)]))"

text \<open>What is built of the loaded configuration.\<close>

definition build_loaded ::
  "'w up_host \<Rightarrow> 'w image_host \<Rightarrow> (dev_container \<Rightarrow> 'w feature_fetch) \<Rightarrow>
   ('w up_env \<Rightarrow> build_cmd_opts \<Rightarrow> dev_container \<Rightarrow> load_result \<Rightarrow> bool \<Rightarrow> 'w \<Rightarrow> (up_error, string list) res \<times> 'w) \<Rightarrow>
   build_cmd_opts \<Rightarrow> string \<Rightarrow> load_result \<Rightarrow> dev_container \<Rightarrow> 'w \<Rightarrow> command_result \<times> 'w" where
  "build_loaded h ih fetch by_compose bc folder l cfg w =
     (let compose = is_compose_config cfg in
      case config_label_entry (lr_raw_config l) False of
        None \<Rightarrow> (failed_with (uh_label_text h), w)
      | Some label_entry \<Rightarrow>
          (let u = (uh_env h)\<lparr>ue_config_label := label_entry\<rparr> in
           case (if bc_buildkit bc = ''never'' then (None, w) else detect_build_kit (ue_run u) (ue_client u) w) of
             (kit, w1) \<Rightarrow>
               (let use_buildx = (kit \<noteq> None); conflict = build_flag_conflict bc use_buildx compose in
                if conflict \<noteq> [] then (failed_with conflict, w1)
                else (case (if is_dockerfile_config cfg
                         then build_dockerfile ih fetch u bc cfg (lr_host_sub l) folder use_buildx w1
                       else if compose then by_compose u bc cfg l use_buildx w1
                       else build_image ih fetch u bc cfg (lr_host_sub l) folder use_buildx w1) of
                    (r, w2) \<Rightarrow> (build_result h bc compose r, w2)))))"

definition run_build ::
  "'w up_host \<Rightarrow> 'w image_host \<Rightarrow> (dev_container \<Rightarrow> 'w feature_fetch) \<Rightarrow>
   ('w up_env \<Rightarrow> build_cmd_opts \<Rightarrow> dev_container \<Rightarrow> load_result \<Rightarrow> bool \<Rightarrow> 'w \<Rightarrow> (up_error, string list) res \<times> 'w) \<Rightarrow>
   build_cmd_opts \<Rightarrow> 'w \<Rightarrow> command_result \<times> 'w" where
  "run_build h ih fetch by_compose bc0 w =
     (case first_error [validate_enums (ue_quote (uh_env h)) (build_enums bc0), build_lockfile_error bc0] of
        Some e \<Rightarrow> (Refused e, w)
      | None \<Rightarrow>
          (let bc1 = fold_frozen_lockfile bc0;
               folder = resolve_path (uh_cwd h) (first_nonempty (bc_workspace_folder bc1) (uh_cwd h))
           in case load_for_build h bc1 folder of
                Inl e \<Rightarrow> (failed_with e, w)
              | Inr (l, cfg, bc) \<Rightarrow>
                  (case enforce_disallowed_features (uh_manifest h) (dc_features cfg)
                      (feature_ids_in_order (uh_member_names h) (uh_read h) (dc_features cfg) (dc_config_file_path cfg)
                         (bc_additional_features bc)) None w of
                     (Some e, w1) \<Rightarrow>
                       (Failed \<lparr>eo_outcome = ''error'', eo_message = container_error_text e, eo_description = ce_description e,
                          eo_container_id = [], eo_feature_id = [], eo_did_stop = None, eo_learn_more = []\<rparr>, w1)
                   | (None, w1) \<Rightarrow> build_loaded h ih fetch by_compose bc folder l cfg w1)))"

subsection \<open>Labels and names\<close>

text \<open>However the image of a Dockerfile is built, its label tells of the base image, the Dockerfile's own label, the
  Features, and then of the configuration, once: the first build leaves that entry to the Features' build, which is given
  the entries the first one wrote.\<close>

lemma dockerfile_label_complete:
  "(let first = dockerfile_image_metadata cfg base stage (ue_config_label u) in
     if dc_features cfg = [] then first
     else bp_metadata (features_build_params (up_feature_build_options u fl hs cfg plat) bx name sets img first modern)) =
   base @ stage @ (if dc_features cfg = [] then [] else map (\<lambda>s. feature_metadata_entry s False) sets) @ [ue_config_label u]"
  by (auto simp: dockerfile_image_metadata_def features_build_params_def up_feature_build_options_def Let_def
      split: prod.split)

text \<open>An image configuration without Features, names or an export is not built, and nothing is given the name reported.\<close>

lemma plain_image_not_tagged:
  assumes "dc_image cfg \<noteq> []" "dc_features cfg = []" "image_build_for cfg bc = ImageAsIs"
    "present_image u (dc_image cfg) w = (Inr i, w1)"
  shows "build_image ih fetch u bc cfg hs folder bx w = (Inr [folder_image_name (ue_ulow u) folder], w1)"
  using assms
  by (simp add: build_image_def check_legacy_features_def image_names_or_def image_build_for_def Let_def split: if_splits)

end
